(* ===== verification/Prelude.thy ===== *)
theory Prelude
  imports Main "HOL-Library.AList" "HOL-Library.Sublist" "HOL-Library.Multiset"
begin

text \<open>
  Shared vocabulary of the development: the exceptions the Python code raises, the
  exception-and-state composition every service operation is written in, row tables
  (a SQL table is the list of its rows in insertion order), and the evolution locale:
  what a whole operation preserves when each of its steps does.
\<close>

named_theorems evo \<open>introduction rules that walk through an operation step by step\<close>
named_theorems comp \<open>unfolding rules of the computation combinators\<close>
named_theorems frame \<open>fields an operation leaves alone\<close>

section \<open>Exceptions and computations\<close>

text \<open>
  One constructor per exception class the modelled code raises or lets through.
  \<open>ConnectorError\<close> carries the class name (AuthError, PermanentProviderError, ...)
  and the message; \<open>HTTPException\<close> the status and the detail.
\<close>

datatype exn =
    ValueError string
  | ConnectorError string string
  | RuntimeError string
  | IntegrityError string
  | KeyError string
  | NoResultFound
  | MultipleResultsFound
  | InvalidApiKey string
  | HTTPException nat string
  | ProviderException string
  | StopIteration
  | IndexError string

text \<open>
  A service operation reads and commits the database, and may raise; what it committed
  before raising stays committed.
\<close>

type_synonym ('w, 'a) op = "'w \<Rightarrow> (exn + 'a) \<times> 'w"

definition ret :: "'a \<Rightarrow> ('w, 'a) op" where
  "ret x w = (Inr x, w)"

definition raise :: "exn \<Rightarrow> ('w, 'a) op" where
  "raise e w = (Inl e, w)"

definition bindM :: "('w, 'a) op \<Rightarrow> ('a \<Rightarrow> ('w, 'b) op) \<Rightarrow> ('w, 'b) op" where
  "bindM m f w = (case m w of (Inl e, w') \<Rightarrow> (Inl e, w') | (Inr x, w') \<Rightarrow> f x w')"

definition gets :: "('w \<Rightarrow> 'a) \<Rightarrow> ('w, 'a) op" where
  "gets f w = (Inr (f w), w)"

definition modify :: "('w \<Rightarrow> 'w) \<Rightarrow> ('w, unit) op" where
  "modify f w = (Inr (), f w)"

definition lift :: "exn + 'a \<Rightarrow> ('w, 'a) op" where
  "lift r w = (r, w)"

definition catch :: "('w, 'a) op \<Rightarrow> (exn \<Rightarrow> ('w, 'a) op) \<Rightarrow> ('w, 'a) op" where
  "catch m h w = (case m w of (Inl e, w') \<Rightarrow> h e w' | (Inr x, w') \<Rightarrow> (Inr x, w'))"

primrec foreach :: "'a list \<Rightarrow> ('a \<Rightarrow> ('w, unit) op) \<Rightarrow> ('w, unit) op" where
  "foreach [] f = ret ()"
| "foreach (x # xs) f = bindM (f x) (\<lambda>_. foreach xs f)"

lemmas [comp] = ret_def raise_def bindM_def gets_def modify_def lift_def catch_def

lemma bindM_ret [simp]: "bindM (ret x) f = f x"
  by (simp add: comp fun_eq_iff)

lemma bindM_raise [simp]: "bindM (raise e) f = raise e"
  by (simp add: comp fun_eq_iff)

lemma bindM_gets [simp]: "bindM (gets g) f w = f (g w) w"
  by (simp add: comp)

lemma bindM_modify [simp]: "bindM (modify g) f w = f () (g w)"
  by (simp add: comp)

lemma bindM_lift [simp]: "bindM (lift (Inr x)) f = f x" "bindM (lift (Inl e)) f = raise e"
  by (simp_all add: comp fun_eq_iff)

lemma bindM_assoc: "bindM (bindM m f) g = bindM m (\<lambda>x. bindM (f x) g)"
  by (auto simp: comp fun_eq_iff split: prod.splits sum.splits)

lemma bindM_Inr: "m w = (Inr x, w') \<Longrightarrow> bindM m f w = f x w'"
  by (simp add: bindM_def)

lemma bindM_Inl: "m w = (Inl e, w') \<Longrightarrow> bindM m f w = (Inl e, w')"
  by (simp add: bindM_def)

lemma bindM_eq_Inr_iff:
  "bindM m f w = (Inr y, w'') \<longleftrightarrow> (\<exists>x w'. m w = (Inr x, w') \<and> f x w' = (Inr y, w''))"
  by (auto simp: bindM_def split: prod.splits sum.splits)

lemma catch_eq_Inr_iff:
  "catch m h w = (Inr y, v) \<longleftrightarrow> m w = (Inr y, v) \<or> (\<exists>e w'. m w = (Inl e, w') \<and> h e w' = (Inr y, v))"
  by (auto simp: catch_def split: prod.splits sum.splits)

text \<open>The result and the final state of a computation.\<close>

abbreviation result :: "('w, 'a) op \<Rightarrow> 'w \<Rightarrow> exn + 'a" where
  "result m w \<equiv> fst (m w)"

abbreviation after :: "('w, 'a) op \<Rightarrow> 'w \<Rightarrow> 'w" where
  "after m w \<equiv> snd (m w)"

section \<open>Evolution of the state under an operation\<close>

text \<open>
  \<open>evolves R m\<close>: whatever the operation answers, raising included, the state it leaves is
  related by \<open>R\<close> to the state it found.
\<close>

definition evolves :: "('w \<Rightarrow> 'w \<Rightarrow> bool) \<Rightarrow> ('w, 'a) op \<Rightarrow> bool" where
  "evolves R m \<longleftrightarrow> (\<forall>w. R w (snd (m w)))"

lemma evolvesI: "(\<And>w. R w (snd (m w))) \<Longrightarrow> evolves R m"
  by (simp add: evolves_def)

lemma evolvesD: "evolves R m \<Longrightarrow> R w (snd (m w))"
  by (simp add: evolves_def)

lemma evolves_mono: "evolves R m \<Longrightarrow> (\<And>a b. R a b \<Longrightarrow> S a b) \<Longrightarrow> evolves S m"
  by (simp add: evolves_def)

locale evolution =
  fixes R :: "'w \<Rightarrow> 'w \<Rightarrow> bool"
  assumes evo_refl: "R w w"
    and evo_trans: "R a b \<Longrightarrow> R b c \<Longrightarrow> R a c"
begin

lemma evo_ret: "evolves R (ret x)"
  by (simp add: evolves_def comp evo_refl)

lemma evo_raise: "evolves R (raise e)"
  by (simp add: evolves_def comp evo_refl)

lemma evo_gets: "evolves R (gets f)"
  by (simp add: evolves_def comp evo_refl)

lemma evo_lift: "evolves R (lift r)"
  by (simp add: evolves_def comp evo_refl)

lemma evo_modify: "(\<And>w. R w (f w)) \<Longrightarrow> evolves R (modify f)"
  by (simp add: evolves_def comp)

lemma evo_bind:
  assumes "evolves R m" and "\<And>x. evolves R (f x)"
  shows "evolves R (bindM m f)"
proof (rule evolvesI)
  fix w
  have m: "R w (snd (m w))" using assms(1) by (rule evolvesD)
  show "R w (snd (bindM m f w))"
  proof (cases "fst (m w)")
    case (Inl e)
    then show ?thesis using m by (cases "m w") (simp add: bindM_def)
  next
    case (Inr x)
    then have "bindM m f w = f x (snd (m w))"
      by (cases "m w") (simp add: bindM_def)
    then show ?thesis using evo_trans [OF m] assms(2) by (simp add: evolves_def)
  qed
qed

lemma evo_catch:
  assumes "evolves R m" and "\<And>e. evolves R (h e)"
  shows "evolves R (catch m h)"
proof (rule evolvesI)
  fix w
  have m: "R w (snd (m w))" using assms(1) by (rule evolvesD)
  show "R w (snd (catch m h w))"
  proof (cases "fst (m w)")
    case (Inl e)
    then have "catch m h w = h e (snd (m w))"
      by (cases "m w") (simp add: catch_def)
    then show ?thesis using evo_trans [OF m] assms(2) by (simp add: evolves_def)
  next
    case (Inr x)
    then show ?thesis using m by (cases "m w") (simp add: catch_def)
  qed
qed

lemma evo_foreach: "(\<And>x. evolves R (f x)) \<Longrightarrow> evolves R (foreach xs f)"
  by (induction xs) (auto intro: evo_bind evo_ret)

end

text \<open>Case distinctions inside an operation, for any relation.\<close>

lemma evolves_if [evo]: "(b \<Longrightarrow> evolves R m) \<Longrightarrow> (\<not> b \<Longrightarrow> evolves R n) \<Longrightarrow> evolves R (if b then m else n)"
  by simp

lemma evolves_option [evo]:
  "(x = None \<Longrightarrow> evolves R m) \<Longrightarrow> (\<And>y. x = Some y \<Longrightarrow> evolves R (f y)) \<Longrightarrow>
   evolves R (case x of None \<Rightarrow> m | Some y \<Rightarrow> f y)"
  by (cases x) auto

lemma evolves_list [evo]:
  "(xs = [] \<Longrightarrow> evolves R m) \<Longrightarrow> (\<And>y ys. xs = y # ys \<Longrightarrow> evolves R (f y ys)) \<Longrightarrow>
   evolves R (case xs of [] \<Rightarrow> m | y # ys \<Rightarrow> f y ys)"
  by (cases xs) auto

lemma evolves_let [evo]: "(\<And>y. y = x \<Longrightarrow> evolves R (f y)) \<Longrightarrow> evolves R (let y = x in f y)"
  by (simp add: Let_def)

lemma evolves_prod [evo]:
  "(\<And>a b. x = (a, b) \<Longrightarrow> evolves R (f a b)) \<Longrightarrow> evolves R (case x of (a, b) \<Rightarrow> f a b)"
  by (cases x) auto

lemma evolves_exn [evo]:
  assumes "\<And>m. e = ValueError m \<Longrightarrow> evolves R (f1 m)"
    and "\<And>c m. e = ConnectorError c m \<Longrightarrow> evolves R (f2 c m)"
    and "\<And>m. e = RuntimeError m \<Longrightarrow> evolves R (f3 m)"
    and "\<And>m. e = IntegrityError m \<Longrightarrow> evolves R (f4 m)"
    and "\<And>m. e = KeyError m \<Longrightarrow> evolves R (f5 m)"
    and "e = NoResultFound \<Longrightarrow> evolves R f6"
    and "e = MultipleResultsFound \<Longrightarrow> evolves R f7"
    and "\<And>m. e = InvalidApiKey m \<Longrightarrow> evolves R (f8 m)"
    and "\<And>n m. e = HTTPException n m \<Longrightarrow> evolves R (f9 n m)"
    and "\<And>m. e = ProviderException m \<Longrightarrow> evolves R (f10 m)"
    and "e = StopIteration \<Longrightarrow> evolves R f11"
    and "\<And>m. e = IndexError m \<Longrightarrow> evolves R (f12 m)"
  shows "evolves R (case e of ValueError m \<Rightarrow> f1 m | ConnectorError c m \<Rightarrow> f2 c m
     | RuntimeError m \<Rightarrow> f3 m | IntegrityError m \<Rightarrow> f4 m | KeyError m \<Rightarrow> f5 m
     | NoResultFound \<Rightarrow> f6 | MultipleResultsFound \<Rightarrow> f7 | InvalidApiKey m \<Rightarrow> f8 m
     | HTTPException n m \<Rightarrow> f9 n m | ProviderException m \<Rightarrow> f10 m
     | StopIteration \<Rightarrow> f11 | IndexError m \<Rightarrow> f12 m)"
  using assms by (cases e) auto

section \<open>Row tables\<close>

text \<open>
  \<open>tget\<close> is a primary-key lookup, \<open>tput\<close> the UPDATE that a commit issues for a changed
  row, and appending a row is the INSERT.
\<close>

definition tget :: "('r \<Rightarrow> string) \<Rightarrow> string \<Rightarrow> 'r list \<Rightarrow> 'r option" where
  "tget key k rs = List.find (\<lambda>r. key r = k) rs"

definition tput :: "('r \<Rightarrow> string) \<Rightarrow> 'r \<Rightarrow> 'r list \<Rightarrow> 'r list" where
  "tput key r rs = map (\<lambda>r'. if key r' = key r then r else r') rs"

text \<open>
  \<open>tupd\<close> is the UPDATE of the columns an ORM object had changed: the loaded object is one with
  the row of its key, so only the changed columns are written.
\<close>

definition tupd :: "('r \<Rightarrow> string) \<Rightarrow> string \<Rightarrow> ('r \<Rightarrow> 'r) \<Rightarrow> 'r list \<Rightarrow> 'r list" where
  "tupd key k f rs = map (\<lambda>r. if key r = k then f r else r) rs"

text \<open>A SQLAlchemy \<open>scalar_one_or_none()\<close>: None, the one row, or MultipleResultsFound.\<close>

definition scalar_one_or_none :: "'r list \<Rightarrow> exn + 'r option" where
  "scalar_one_or_none rs =
     (case rs of [] \<Rightarrow> Inr None | [r] \<Rightarrow> Inr (Some r) | _ \<Rightarrow> Inl MultipleResultsFound)"

text \<open>A SQLAlchemy \<open>scalars().first()\<close> or \<open>limit(1)\<close>.\<close>

definition first_row :: "'r list \<Rightarrow> 'r option" where
  "first_row rs = (case rs of [] \<Rightarrow> None | r # _ \<Rightarrow> Some r)"

text \<open>The tenant check every scoped read makes on the row it fetched.\<close>

definition scoped_row :: "('r \<Rightarrow> string option) \<Rightarrow> string option \<Rightarrow> 'r option \<Rightarrow> 'r option" where
  "scoped_row tenant_of t row =
     (case row of None \<Rightarrow> None
      | Some r \<Rightarrow> if t \<noteq> None \<and> tenant_of r \<noteq> t then None else Some r)"

text \<open>The tenant filter every scoped query adds when a tenant is given.\<close>

definition in_tenant :: "('r \<Rightarrow> string option) \<Rightarrow> string option \<Rightarrow> 'r \<Rightarrow> bool" where
  "in_tenant tenant_of t r \<longleftrightarrow> t = None \<or> tenant_of r = t"

lemma tget_Nil [simp]: "tget key k [] = None"
  by (simp add: tget_def)

lemma tget_Cons [simp]: "tget key k (r # rs) = (if key r = k then Some r else tget key k rs)"
  by (simp add: tget_def)

lemma tget_append: "tget key k (rs @ ss) = (case tget key k rs of None \<Rightarrow> tget key k ss | Some r \<Rightarrow> Some r)"
  by (induction rs) auto

lemma tget_key: "tget key k rs = Some r \<Longrightarrow> key r = k"
  by (induction rs) (auto split: if_splits)

lemma tget_in: "tget key k rs = Some r \<Longrightarrow> r \<in> set rs"
  by (induction rs) (auto split: if_splits)

lemma tget_None_iff: "tget key k rs = None \<longleftrightarrow> k \<notin> key ` set rs"
  by (induction rs) auto

lemma tget_Some_iff: "distinct (map key rs) \<Longrightarrow> tget key k rs = Some r \<longleftrightarrow> r \<in> set rs \<and> key r = k"
  by (induction rs) (auto simp: rev_image_eqI)

lemma tput_Nil [simp]: "tput key r [] = []"
  by (simp add: tput_def)

lemma map_key_tput [simp]: "map key (tput key r rs) = map key rs"
  by (induction rs) (auto simp: tput_def)

lemma length_tput [simp]: "length (tput key r rs) = length rs"
  by (simp add: tput_def)

lemma keys_tput [simp]: "key ` set (tput key r rs) = key ` set rs"
  by (metis map_key_tput set_map)

lemma set_tput: "set (tput key r rs) = {r'. r' \<in> set rs \<and> key r' \<noteq> key r} \<union> (if key r \<in> key ` set rs then {r} else {})"
  by (auto simp: tput_def image_iff split: if_splits)

lemma tget_tput: "tget key k (tput key r rs) =
   (if k = key r \<and> tget key k rs \<noteq> None then Some r else tget key k rs)"
  by (induction rs) (auto simp: tput_def)

lemma tget_tput_other [simp]: "k \<noteq> key r \<Longrightarrow> tget key k (tput key r rs) = tget key k rs"
  by (simp add: tget_tput)

lemma tupd_Nil [simp]: "tupd key k f [] = []"
  by (simp add: tupd_def)

lemma tupd_Cons [simp]: "tupd key k f (r # rs) = (if key r = k then f r else r) # tupd key k f rs"
  by (simp add: tupd_def)

lemma tupd_append [simp]: "tupd key k f (rs @ ss) = tupd key k f rs @ tupd key k f ss"
  by (simp add: tupd_def)

lemma length_tupd [simp]: "length (tupd key k f rs) = length rs"
  by (simp add: tupd_def)

lemma map_tupd_same:
  assumes "\<And>r. key r = k \<Longrightarrow> g (f r) = g r"
  shows "map g (tupd key k f rs) = map g rs"
  using assms by (induction rs) auto

lemma tupd_absent: "tget key k rs = None \<Longrightarrow> tupd key k f rs = rs"
  by (induction rs) (auto split: if_splits)

lemma tget_tupd:
  assumes "\<And>r. key (f r) = key r"
  shows "tget key k' (tupd key k f rs) = (if k' = k then map_option f (tget key k' rs) else tget key k' rs)"
  by (induction rs) (auto simp: assms)

lemma set_tupd: "set (tupd key k f rs) = (\<lambda>r. if key r = k then f r else r) ` set rs"
  by (auto simp: tupd_def)

lemma filter_tupd: "(\<And>r. P (f r) = P r) \<Longrightarrow> filter P (tupd key k f rs) = tupd key k f (filter P rs)"
  by (induction rs) auto

lemma tupd_other: "(\<And>r. r \<in> set rs \<Longrightarrow> key r \<noteq> k) \<Longrightarrow> tupd key k f rs = rs"
  by (induction rs) auto

lemma in_tupdE:
  assumes "r' \<in> set (tupd key k f rs)"
  obtains "r' \<in> set rs" "key r' \<noteq> k" | r where "r \<in> set rs" "key r = k" "r' = f r"
  using assms by (auto simp: set_tupd split: if_splits)

lemma map_filter_simps [simp]:
  "List.map_filter f [] = []"
  "List.map_filter f (x # xs) = (case f x of None \<Rightarrow> List.map_filter f xs | Some y \<Rightarrow> y # List.map_filter f xs)"
  by (simp_all add: List.map_filter_def split: option.split)

lemma map_filter_append [simp]: "List.map_filter f (xs @ ys) = List.map_filter f xs @ List.map_filter f ys"
  by (simp add: List.map_filter_def)

lemma in_map_filter: "y \<in> set (List.map_filter f xs) \<longleftrightarrow> (\<exists>x \<in> set xs. f x = Some y)"
  by (induction xs) (auto split: option.split)

lemma map_filter_tupd:
  "(\<And>r. g (f r) = g r) \<Longrightarrow> List.map_filter g (tupd key k f rs) = List.map_filter g rs"
  by (induction rs) (auto split: option.split)

lemma distinct_key_unique:
  "distinct (map key rs) \<Longrightarrow> r \<in> set rs \<Longrightarrow> r' \<in> set rs \<Longrightarrow> key r = key r' \<Longrightarrow> r = r'"
  by (auto simp: distinct_map inj_on_def)

lemma tput_eq_tupd:
  assumes "distinct (map key rs)" and "tget key k rs = Some r" and "key (f r) = k"
  shows "tput key (f r) rs = tupd key k f rs"
proof -
  have "r' = r" if "r' \<in> set rs" "key r' = k" for r'
    using assms(1) that tget_in [OF assms(2)] tget_key [OF assms(2)] by (auto simp: distinct_map inj_on_def)
  then show ?thesis using assms(3) by (auto simp: tput_def tupd_def)
qed

lemma filter_tput_other:
  "\<not> P r \<Longrightarrow> (\<And>r'. r' \<in> set rs \<Longrightarrow> key r' = key r \<Longrightarrow> \<not> P r') \<Longrightarrow> filter P (tput key r rs) = filter P rs"
  by (induction rs) (auto simp: tput_def)

lemma tput_id: "distinct (map key rs) \<Longrightarrow> r \<in> set rs \<Longrightarrow> tput key r rs = rs"
  by (auto simp: tput_def distinct_map inj_on_def intro!: map_idI)

lemma map_tput_same:
  assumes "\<And>r'. r' \<in> set rs \<Longrightarrow> key r' = key r \<Longrightarrow> f r' = f r"
  shows "map f (tput key r rs) = map f rs"
  using assms by (induction rs) (auto simp: tput_def)

lemma tput_split:
  assumes "distinct (map key rs)" and "tget key k rs = Some r"
  obtains xs ys where "rs = xs @ r # ys"
    and "\<And>r'. key r' = k \<Longrightarrow> tput key r' rs = xs @ r' # ys"
proof -
  from assms(2) have r: "r \<in> set rs" "key r = k" by (auto dest: tget_in tget_key)
  then obtain xs ys where rs: "rs = xs @ r # ys" by (meson split_list)
  have "tput key r' rs = xs @ r' # ys" if "key r' = k" for r'
  proof -
    have "map (\<lambda>x. if key x = k then r' else x) xs = xs" "map (\<lambda>x. if key x = k then r' else x) ys = ys"
      using assms(1) r(2) unfolding rs by (auto intro!: map_idI) (metis imageI)+
    then show ?thesis using that r(2) by (simp add: tput_def rs)
  qed
  then show thesis using that rs by blast
qed

lemma first_row_simps [simp]: "first_row [] = None" "first_row (r # rs) = Some r"
  by (simp_all add: first_row_def)

lemma first_row_in: "first_row rs = Some r \<Longrightarrow> r \<in> set rs"
  by (cases rs) (auto simp: first_row_def)

lemma first_row_None [simp]: "first_row rs = None \<longleftrightarrow> rs = []"
  by (cases rs) (auto simp: first_row_def)

lemma scoped_row_SomeD:
  "scoped_row f t x = Some r \<Longrightarrow> x = Some r \<and> (t = None \<or> f r = t)"
  by (auto simp: scoped_row_def split: option.splits if_splits)

lemma scoped_row_None_tenant [simp]: "scoped_row f None x = x"
  by (cases x) (auto simp: scoped_row_def)

lemma scoped_row_None_row [simp]: "scoped_row f t None = None"
  by (simp add: scoped_row_def)

text \<open>\<open>ORDER BY key\<close> is the stable sort of the scan order; \<open>ORDER BY key DESC\<close> its descending twin.\<close>

definition order_desc :: "('r \<Rightarrow> 'k::linorder) \<Rightarrow> 'r list \<Rightarrow> 'r list" where
  "order_desc key rs = rev (sort_key key (rev rs))"

lemma sort_key_eq_Nil [simp]: "sort_key key rs = [] \<longleftrightarrow> rs = []"
  by (simp flip: length_0_conv)

lemma set_order_desc [simp]: "set (order_desc key rs) = set rs"
  by (simp add: order_desc_def)

lemma length_order_desc [simp]: "length (order_desc key rs) = length rs"
  by (simp add: order_desc_def)

lemma mset_order_desc [simp]: "mset (order_desc key rs) = mset rs"
  by (simp add: order_desc_def)

lemma sorted_order_desc: "sorted_wrt (\<ge>) (map key (order_desc key rs))"
  by (simp add: order_desc_def rev_map [symmetric] sorted_wrt_rev)

lemma order_desc_increasing:
  assumes "sorted_wrt (<) (map key rs)"
  shows "order_desc key rs = rev rs"
proof -
  have "sorted (map key rs)" "distinct (map key rs)"
    using assms by (auto simp: strict_sorted_iff)
  then have "sort_key key (rev rs) = rs"
    by (intro sort_key_inj_key_eq) (simp_all add: distinct_map)
  then show ?thesis by (simp add: order_desc_def)
qed

end
