(* ===== verification/PyText.thy ===== *)
theory PyText
  imports Prelude "HOL-Library.Char_ord" "HOL-Library.List_Lexorder" "HOL-Library.Code_Target_Numeral"
begin

text \<open>
  The part of Python's \<open>str\<close> the program uses. A character is a code point below 256
  (Latin-1); \<open>lower\<close> and \<open>strip\<close> follow Python's tables on that range. \<open>in\<close>, \<open>startswith\<close>,
  \<open>endswith\<close>, \<open>split\<close>-free formatting of integers, and the JSON escapes of \<open>json.dumps\<close>
  with \<open>ensure_ascii\<close>.
\<close>

definition ord :: "char \<Rightarrow> nat" where
  "ord c = of_char c"

definition chr :: "nat \<Rightarrow> char" where
  "chr n = char_of n"

lemma chr_ord [simp]: "chr (ord c) = c"
  by (simp add: chr_def ord_def)

lemma ord_chr [simp]: "n < 256 \<Longrightarrow> ord (chr n) = n"
  by (simp add: chr_def ord_def)

lemma ord_less [simp]: "ord c < 256"
  using of_char_mod_256 [of c, where ?'a = nat] by (metis mod_less_divisor ord_def zero_less_numeral)

lemma ord_inject [simp]: "ord c = ord d \<longleftrightarrow> c = d"
  by (metis chr_ord)

definition lower_char :: "char \<Rightarrow> char" where
  "lower_char c =
     (let n = ord c in
      if (65 \<le> n \<and> n \<le> 90) \<or> (192 \<le> n \<and> n \<le> 222 \<and> n \<noteq> 215) then chr (n + 32) else c)"

definition lower :: "string \<Rightarrow> string" where
  "lower s = map lower_char s"

definition is_space :: "char \<Rightarrow> bool" where
  "is_space c =
     (let n = ord c in (9 \<le> n \<and> n \<le> 13) \<or> (28 \<le> n \<and> n \<le> 32) \<or> n = 133 \<or> n = 160)"

definition strip :: "string \<Rightarrow> string" where
  "strip s = rev (dropWhile is_space (rev (dropWhile is_space s)))"

text \<open>\<open>m in s\<close>, and \<open>any(m in s for m in ms)\<close>.\<close>

fun py_in :: "string \<Rightarrow> string \<Rightarrow> bool" where
  "py_in m [] = (m = [])"
| "py_in m (c # s) = (prefix m (c # s) \<or> py_in m s)"

definition any_in :: "string list \<Rightarrow> string \<Rightarrow> bool" where
  "any_in ms s = list_ex (\<lambda>m. py_in m s) ms"

definition startswith :: "string \<Rightarrow> string \<Rightarrow> bool" where
  "startswith s p = prefix p s"

definition endswith :: "string \<Rightarrow> string \<Rightarrow> bool" where
  "endswith s p = suffix p s"

text \<open>\<open>sep.join(parts)\<close>.\<close>

fun join :: "string \<Rightarrow> string list \<Rightarrow> string" where
  "join sep [] = []"
| "join sep [p] = p"
| "join sep (p # q # ps) = p @ sep @ join sep (q # ps)"

text \<open>\<open>str(n)\<close> for integers.\<close>

definition digit :: "nat \<Rightarrow> char" where
  "digit n = chr (48 + n)"

fun str_nat :: "nat \<Rightarrow> string" where
  "str_nat n = (if n < 10 then [digit n] else str_nat (n div 10) @ [digit (n mod 10)])"

declare str_nat.simps [simp del]

definition str_int :: "int \<Rightarrow> string" where
  "str_int i = (if i < 0 then CHR ''-'' # str_nat (nat (- i)) else str_nat (nat i))"

lemma lower_append [simp]: "lower (s @ t) = lower s @ lower t"
  by (simp add: lower_def)

lemma length_lower [simp]: "length (lower s) = length s"
  by (simp add: lower_def)

lemma ord_lower_char: "ord (lower_char c) =
   (if (65 \<le> ord c \<and> ord c \<le> 90) \<or> (192 \<le> ord c \<and> ord c \<le> 222 \<and> ord c \<noteq> 215) then ord c + 32 else ord c)"
proof (cases "(65 \<le> ord c \<and> ord c \<le> 90) \<or> (192 \<le> ord c \<and> ord c \<le> 222 \<and> ord c \<noteq> 215)")
  case True
  then have "ord c + 32 < 256" by auto
  with True show ?thesis by (simp add: lower_char_def Let_def)
next
  case False
  then have "lower_char c = c" by (simp only: lower_char_def Let_def if_False)
  with False show ?thesis by presburger
qed

lemma lower_idem [simp]: "lower (lower s) = lower s"
proof -
  have "lower_char (lower_char c) = lower_char c" for c
    by (rule iffD1 [OF ord_inject]) (auto simp: ord_lower_char)
  then show ?thesis by (simp add: lower_def)
qed

lemma py_in_iff: "py_in m s \<longleftrightarrow> (\<exists>a b. s = a @ m @ b)"
proof (induction s)
  case Nil
  then show ?case by simp
next
  case (Cons c s)
  have "(\<exists>a b. c # s = a @ m @ b) \<longleftrightarrow> prefix m (c # s) \<or> (\<exists>a b. s = a @ m @ b)"
    by (auto simp: prefix_def) (metis append_eq_Cons_conv append_self_conv2 append_Cons)+
  with Cons show ?case by simp
qed

lemma py_in_sublist: "py_in m s \<longleftrightarrow> sublist m s"
  by (auto simp: py_in_iff sublist_def)

lemma py_in_append1: "py_in m s \<Longrightarrow> py_in m (s @ t)"
  unfolding py_in_iff by (metis append.assoc)

lemma py_in_append2: "py_in m t \<Longrightarrow> py_in m (s @ t)"
  unfolding py_in_iff by (metis append.assoc)

lemma py_in_trans: "py_in a b \<Longrightarrow> py_in b c \<Longrightarrow> py_in a c"
  unfolding py_in_sublist by (rule sublist_order.order_trans)

lemma any_in_iff: "any_in ms s \<longleftrightarrow> (\<exists>m \<in> set ms. py_in m s)"
  by (simp add: any_in_def list_ex_iff)

lemma strip_subset: "set (strip s) \<subseteq> set s"
  unfolding strip_def by (metis set_dropWhileD set_rev subsetI)

lemma dropWhile_fixed: "(xs \<noteq> [] \<Longrightarrow> \<not> P (hd xs)) \<Longrightarrow> dropWhile P xs = xs"
  by (cases xs) auto

lemma strip_idem [simp]: "strip (strip s) = strip s"
proof -
  let ?u = "dropWhile is_space s"
  let ?t = "rev (dropWhile is_space (rev ?u))"
  have "suffix (dropWhile is_space (rev ?u)) (rev ?u)" by (rule suffix_dropWhile)
  then have "prefix ?t ?u" by (simp add: suffix_to_prefix)
  then have "hd ?t = hd ?u" if "?t \<noteq> []" using that by (metis prefix_def hd_append2)
  moreover have "\<not> is_space (hd ?u)" if "?u \<noteq> []" using that by (rule hd_dropWhile)
  ultimately have "dropWhile is_space ?t = ?t"
    using \<open>prefix ?t ?u\<close> by (intro dropWhile_fixed) (metis prefix_Nil)
  then have "strip (strip s) = rev (dropWhile is_space (rev ?t))"
    by (simp add: strip_def)
  then show ?thesis by (simp add: strip_def dropWhile_idem)
qed

end
