(* ===== verification/Json.thy ===== *)
theory Json
  imports PyText "HOL-Library.Option_ord"
begin

text \<open>
  The JSON values the services put into the database and into hashes, the dictionary
  operations they use on them, and \<open>json.dumps\<close>. A payload column holds the text that
  \<open>json.dumps\<close> made of a dictionary and is only ever read back with \<open>json.loads\<close>; the
  model stores the dictionary itself. Where the text matters (it is hashed or exported),
  \<open>dumps\<close> computes it. The program puts no floating-point number into JSON.
\<close>

datatype json =
    JNull
  | JBool bool
  | JInt int
  | JStr string
  | JArr "json list"
  | JObj "(string \<times> json) list"

type_synonym dict = "(string \<times> json) list"

text \<open>\<open>d.get(k)\<close>, \<open>k in d\<close>, \<open>d[k] = v\<close>, \<open>d.update(e)\<close>: an update keeps the position of a key.\<close>

definition dget :: "dict \<Rightarrow> string \<Rightarrow> json" where
  "dget d k = (case map_of d k of None \<Rightarrow> JNull | Some v \<Rightarrow> v)"

definition dhas :: "dict \<Rightarrow> string \<Rightarrow> bool" where
  "dhas d k = (map_of d k \<noteq> None)"

definition dset :: "string \<Rightarrow> json \<Rightarrow> dict \<Rightarrow> dict" where
  "dset k v d = AList.update k v d"

definition dupdate :: "dict \<Rightarrow> dict \<Rightarrow> dict" where
  "dupdate d e = fold (\<lambda>(k, v) d. dset k v d) e d"

text \<open>Python truth of a value (\<open>if data.get(...)\<close>).\<close>

fun truthy :: "json \<Rightarrow> bool" where
  "truthy JNull = False"
| "truthy (JBool b) = b"
| "truthy (JInt i) = (i \<noteq> 0)"
| "truthy (JStr s) = (s \<noteq> [])"
| "truthy (JArr xs) = (xs \<noteq> [])"
| "truthy (JObj kvs) = (kvs \<noteq> [])"

definition jopt :: "string option \<Rightarrow> json" where
  "jopt x = (case x of None \<Rightarrow> JNull | Some s \<Rightarrow> JStr s)"

definition jstrs :: "string list \<Rightarrow> json" where
  "jstrs xs = JArr (map JStr xs)"

text \<open>A JSON string read where the code expects one (\<open>None\<close> and other values give None).\<close>

fun jstr :: "json \<Rightarrow> string option" where
  "jstr (JStr s) = Some s"
| "jstr _ = None"

lemma dget_Nil [simp]: "dget [] k = JNull"
  by (simp add: dget_def)

lemma dget_Cons [simp]: "dget ((k', v) # d) k = (if k' = k then v else dget d k)"
  by (simp add: dget_def)

lemma dget_dset: "dget (dset k v d) k' = (if k' = k then v else dget d k')"
  by (simp add: dget_def dset_def update_conv)

lemma dget_dset_same [simp]: "dget (dset k v d) k = v"
  by (simp add: dget_dset)

lemma dget_dset_other [simp]: "k' \<noteq> k \<Longrightarrow> dget (dset k v d) k' = dget d k'"
  by (simp add: dget_dset)

lemma dupdate_Nil [simp]: "dupdate d [] = d"
  by (simp add: dupdate_def)

lemma dupdate_Cons [simp]: "dupdate d ((k, v) # e) = dupdate (dset k v d) e"
  by (simp add: dupdate_def)

lemma dget_dupdate_notin: "k \<notin> fst ` set e \<Longrightarrow> dget (dupdate d e) k = dget d k"
  by (induction e arbitrary: d) (auto simp: dget_dset)

section \<open>\<open>json.dumps\<close>\<close>

definition hexdigit :: "nat \<Rightarrow> char" where
  "hexdigit n = (if n < 10 then chr (48 + n) else chr (87 + n))"

definition esc_char :: "char \<Rightarrow> string" where
  "esc_char c =
     (let n = ord c in
      if n = 34 then [chr 92, chr 34]
      else if n = 92 then [chr 92, chr 92]
      else if n = 10 then [chr 92, CHR ''n'']
      else if n = 13 then [chr 92, CHR ''r'']
      else if n = 9 then [chr 92, CHR ''t'']
      else if n = 12 then [chr 92, CHR ''f'']
      else if n = 8 then [chr 92, CHR ''b'']
      else if 32 \<le> n \<and> n \<le> 126 then [c]
      else [chr 92, CHR ''u'', CHR ''0'', CHR ''0'', hexdigit (n div 16), hexdigit (n mod 16)])"

definition quote :: "string \<Rightarrow> string" where
  "quote s = chr 34 # concat (map esc_char s) @ [chr 34]"

text \<open>
  \<open>dumps sorted_keys item_sep key_sep\<close>: the separators are \<open>(', ', ': ')\<close> by default and
  \<open>(',', ':')\<close> in the compact form.
\<close>

primrec dumps_with :: "bool \<Rightarrow> string \<Rightarrow> string \<Rightarrow> json \<Rightarrow> string" where
  "dumps_with srt isep ksep JNull = ''null''"
| "dumps_with srt isep ksep (JBool b) = (if b then ''true'' else ''false'')"
| "dumps_with srt isep ksep (JInt i) = str_int i"
| "dumps_with srt isep ksep (JStr s) = quote s"
| "dumps_with srt isep ksep (JArr xs) =
     ''['' @ join isep (map (dumps_with srt isep ksep) xs) @ '']''"
| "dumps_with srt isep ksep (JObj kvs) =
     (let es = map (map_prod id (dumps_with srt isep ksep)) kvs;
          es' = (if srt then sort_key fst es else es)
      in ''{'' @ join isep (map (\<lambda>(k, t). quote k @ ksep @ t) es') @ ''}'')"

text \<open>\<open>json.dumps(v, sort_keys=True)\<close> and \<open>json.dumps(v, sort_keys=True, separators=(",", ":"))\<close>.\<close>

definition dumps_sorted :: "json \<Rightarrow> string" where
  "dumps_sorted v = dumps_with True '', '' '': '' v"

definition dumps_compact :: "json \<Rightarrow> string" where
  "dumps_compact v = dumps_with True '','' '':'' v"

section \<open>What an encoded value determines\<close>

text \<open>
  The encoder is read back far enough to know that equal texts come from equal values:
  a quoted string by scanning to its closing quote, an integer by its digits.
\<close>

definition unhex :: "char \<Rightarrow> nat" where
  "unhex c = (if ord c < 58 then ord c - 48 else ord c - 87)"

fun unescape :: "string \<Rightarrow> (string \<times> string) option" where
  "unescape [] = None"
| "unescape (c # s) =
     (if ord c = 34 then Some ([], s)
      else if ord c = 92 then
        (case s of
           e # s' \<Rightarrow>
             (if e = CHR ''u'' then
                (case s' of
                   z0 # z1 # h # l # s'' \<Rightarrow>
                     map_option (map_prod ((#) (chr (16 * unhex h + unhex l))) id) (unescape s'')
                 | _ \<Rightarrow> None)
              else map_option (map_prod ((#) (chr (if e = CHR ''n'' then 10
                     else if e = CHR ''r'' then 13 else if e = CHR ''t'' then 9
                     else if e = CHR ''f'' then 12 else if e = CHR ''b'' then 8 else ord e))) id)
                   (unescape s'))
         | [] \<Rightarrow> None)
      else map_option (map_prod ((#) c) id) (unescape s))"

lemma unhex_hexdigit [simp]: "n < 16 \<Longrightarrow> unhex (hexdigit n) = n"
  by (auto simp: unhex_def hexdigit_def)

lemma unescape_esc_char:
  "unescape (esc_char c @ t) = map_option (map_prod ((#) c) id) (unescape t)"
proof -
  have [simp]: "ord CHR ''u'' = 117" "ord CHR ''n'' = 110" "ord CHR ''r'' = 114" "ord CHR ''t'' = 116"
    "ord CHR ''f'' = 102" "ord CHR ''b'' = 98" by (simp_all add: ord_def)
  have neq: "chr 34 \<noteq> CHR ''u''" "chr 34 \<noteq> CHR ''n''" "chr 34 \<noteq> CHR ''r''" "chr 34 \<noteq> CHR ''t''"
    "chr 34 \<noteq> CHR ''f''" "chr 34 \<noteq> CHR ''b''" "chr 92 \<noteq> CHR ''u''" "chr 92 \<noteq> CHR ''n''" "chr 92 \<noteq> CHR ''r''"
    "chr 92 \<noteq> CHR ''t''" "chr 92 \<noteq> CHR ''f''" "chr 92 \<noteq> CHR ''b''"
    unfolding ord_inject [symmetric] by simp_all
  have "ord c < 256" by simp
  then have hex: "ord c div 16 < 16" "ord c mod 16 < 16" by (simp_all add: less_mult_imp_div_less)
  have chr_eq: "chr n = c" if "ord c = n" for n using that by auto
  show ?thesis
    by (auto simp: esc_char_def Let_def hex neq chr_eq)
qed

lemma unescape_quote: "unescape (concat (map esc_char s) @ chr 34 # t) = Some (s, t)"
  by (induction s) (auto simp: unescape_esc_char)

lemma quote_append_inject:
  assumes "quote s @ t = quote s' @ t'"
  shows "s = s' \<and> t = t'"
proof -
  from assms have "concat (map esc_char s) @ chr 34 # t = concat (map esc_char s') @ chr 34 # t'"
    by (simp add: quote_def)
  then have "Some (s, t) = Some (s', t')" by (metis unescape_quote)
  then show ?thesis by simp
qed

lemma quote_inject [simp]: "quote s = quote s' \<longleftrightarrow> s = s'"
  using quote_append_inject [of s "[]" s' "[]"] by auto

text \<open>Decimal text: only digits and a sign, and distinct for distinct numbers.\<close>

definition digits_value :: "string \<Rightarrow> nat" where
  "digits_value s = foldl (\<lambda>v c. 10 * v + (ord c - 48)) 0 s"

lemma digits_value_snoc [simp]: "digits_value (s @ [c]) = 10 * digits_value s + (ord c - 48)"
  by (simp add: digits_value_def)

lemma ord_digit [simp]: "n < 10 \<Longrightarrow> ord (digit n) = 48 + n"
  by (simp add: digit_def)

lemma digits_value_str_nat: "digits_value (str_nat n) = n"
proof (induction n rule: str_nat.induct)
  case (1 n)
  show ?case
  proof (cases "n < 10")
    case True
    then show ?thesis by (subst str_nat.simps) (simp add: digits_value_def)
  next
    case False
    with 1 have "digits_value (str_nat (n div 10)) = n div 10" by simp
    with False show ?thesis by (subst str_nat.simps) (simp)
  qed
qed

lemma str_nat_inject [simp]: "str_nat m = str_nat n \<longleftrightarrow> m = n"
  by (metis digits_value_str_nat)

lemma str_nat_digits: "c \<in> set (str_nat n) \<Longrightarrow> 48 \<le> ord c \<and> ord c \<le> 57"
proof (induction n arbitrary: c rule: str_nat.induct)
  case (1 n)
  show ?case
  proof (cases "n < 10")
    case True
    then show ?thesis using "1.prems" by (subst (asm) str_nat.simps) auto
  next
    case False
    then have "c \<in> set (str_nat (n div 10)) \<or> c = digit (n mod 10)"
      using "1.prems" by (subst (asm) str_nat.simps) auto
    then show ?thesis using "1.IH" [OF False] by auto
  qed
qed

lemma str_nat_nonempty [simp]: "str_nat n \<noteq> []"
  by (subst str_nat.simps) simp

definition int_char :: "char \<Rightarrow> bool" where
  "int_char c \<longleftrightarrow> ord c = 45 \<or> (48 \<le> ord c \<and> ord c \<le> 57)"

lemma str_int_chars: "c \<in> set (str_int i) \<Longrightarrow> int_char c"
  by (auto simp: str_int_def int_char_def ord_def dest: str_nat_digits [unfolded ord_def] split: if_splits)

lemma str_int_nonempty [simp]: "str_int i \<noteq> []"
  by (simp add: str_int_def)

lemma str_int_inject [simp]: "str_int i = str_int j \<longleftrightarrow> i = j"
proof
  assume eq: "str_int i = str_int j"
  have minus: "CHR ''-'' # s \<noteq> str_nat n" for s n
  proof
    assume "CHR ''-'' # s = str_nat n"
    then have "CHR ''-'' \<in> set (str_nat n)" by (metis list.set_intros(1))
    then show False using str_nat_digits by (fastforce simp: ord_def)
  qed
  show "i = j"
  proof (cases "i < 0"; cases "j < 0")
    assume "i < 0" "j < 0"
    with eq have "nat (- i) = nat (- j)" by (simp add: str_int_def)
    with \<open>i < 0\<close> \<open>j < 0\<close> show ?thesis by simp
  next
    assume "i < 0" "\<not> j < 0"
    with eq minus show ?thesis by (simp add: str_int_def)
  next
    assume "\<not> i < 0" "j < 0"
    with eq minus [THEN not_sym] show ?thesis by (simp add: str_int_def)
  next
    assume "\<not> i < 0" "\<not> j < 0"
    with eq show ?thesis by (simp add: str_int_def)
  qed
qed simp

text \<open>A scalar followed by a separator determines the scalar and what follows.\<close>

definition scalar :: "json \<Rightarrow> bool" where
  "scalar v \<longleftrightarrow> (case v of JNull \<Rightarrow> True | JInt _ \<Rightarrow> True | JStr _ \<Rightarrow> True | _ \<Rightarrow> False)"

lemma takeWhile_int:
  assumes "\<not> int_char c"
  shows "takeWhile int_char (str_int i @ c # t) = str_int i"
  using assms str_int_chars by (simp add: takeWhile_append)

lemma scalar_cases:
  assumes "scalar v"
  obtains "v = JNull" | i where "v = JInt i" | s where "v = JStr s"
  using assms by (cases v) (auto simp: scalar_def)

definition lead :: "string \<Rightarrow> nat" where
  "lead s = (if int_char (hd s) then 0 else ord (hd s))"

lemma lead_text:
  "lead (''null'' @ t) = 110" "lead (str_int i @ t) = 0" "lead (quote s @ t) = 34"
proof -
  show "lead (''null'' @ t) = 110" by (simp add: lead_def int_char_def ord_def)
  have "int_char (hd (str_int i))" by (rule str_int_chars [of _ i]) simp
  then show "lead (str_int i @ t) = 0" by (simp add: lead_def)
  show "lead (quote s @ t) = 34" by (simp add: lead_def quote_def int_char_def)
qed

lemma scalar_append_inject:
  assumes "scalar v" and "scalar v'" and c: "\<not> int_char c"
    and eq: "dumps_with srt isep ksep v @ c # t = dumps_with srt isep ksep v' @ c # t'"
  shows "v = v' \<and> t = t'"
proof -
  have l: "lead (dumps_with srt isep ksep v @ c # t) = lead (dumps_with srt isep ksep v' @ c # t')"
    using eq by simp
  from assms(1) show ?thesis
  proof (cases rule: scalar_cases)
    case 1
    with assms(2) l eq show ?thesis by (cases rule: scalar_cases) (auto simp: lead_text [simplified] lead_text)
  next
    case (2 a)
    from assms(2) show ?thesis
    proof (cases rule: scalar_cases)
      case (2 b)
      then have e: "str_int a @ c # t = str_int b @ c # t'" using eq \<open>v = JInt a\<close> by simp
      then have "str_int a = str_int b" using takeWhile_int [OF c] by metis
      then show ?thesis using e 2 \<open>v = JInt a\<close> by simp
    qed (use l \<open>v = JInt a\<close> in \<open>auto simp: lead_text [simplified] lead_text\<close>)
  next
    case (3 a)
    from assms(2) show ?thesis
    proof (cases rule: scalar_cases)
      case (3 b)
      then show ?thesis using eq \<open>v = JStr a\<close> quote_append_inject [of a "c # t" b "c # t'"] by simp
    qed (use l \<open>v = JStr a\<close> in \<open>auto simp: lead_text [simplified] lead_text\<close>)
  qed
qed

text \<open>
  Objects with the same keys and scalar values: equal texts come from equal objects. This is
  what makes the text of a canonical payload commit to its fields.
\<close>

definition member_text :: "string \<times> json \<Rightarrow> string" where
  "member_text kv = quote (fst kv) @ '':'' @ dumps_compact (snd kv)"

lemma member_append_inject:
  assumes "fst kv = fst kv'" "scalar (snd kv)" "scalar (snd kv')" "\<not> int_char c" "\<not> int_char c'"
    and "member_text kv @ c # t = member_text kv' @ c' # t'" and "c = c'"
  shows "kv = kv' \<and> t = t'"
proof -
  have "dumps_with True '','' '':'' (snd kv) @ c # t = dumps_with True '','' '':'' (snd kv') @ c # t'"
    using assms by (simp add: member_text_def dumps_compact_def)
  then have "snd kv = snd kv' \<and> t = t'"
    using assms by (intro scalar_append_inject)
  then show ?thesis using assms(1) by (simp add: prod_eq_iff)
qed

lemma members_inject:
  assumes "map fst kvs = map fst kvs'"
    and "list_all (scalar \<circ> snd) kvs" and "list_all (scalar \<circ> snd) kvs'"
    and "join '','' (map member_text kvs) @ ''}'' = join '','' (map member_text kvs') @ ''}''"
  shows "kvs = kvs'"
proof -
  have seps: "\<not> int_char CHR '',''" "\<not> int_char CHR ''}''" by (simp_all add: int_char_def ord_def)
  have "length kvs = length kvs'" using assms(1) by (metis length_map)
  then show ?thesis using assms
  proof (induction kvs kvs' rule: list_induct2)
    case Nil
    then show ?case by simp
  next
    case (Cons kv kvs kv' kvs')
    show ?case
    proof (cases kvs)
      case Nil
      then show ?thesis using Cons.prems Cons.hyps seps member_append_inject [of kv kv' "CHR ''}''" "CHR ''}''" "[]" "[]"]
        by simp
    next
      case (Cons m ms)
      then obtain m' ms' where kvs': "kvs' = m' # ms'" using Cons.hyps by (cases kvs') auto
      have "kv = kv' \<and> join '','' (map member_text kvs) @ ''}'' = join '','' (map member_text kvs') @ ''}''"
        using Cons.prems seps unfolding Cons kvs'
        by (intro member_append_inject [of kv kv' "CHR '',''" "CHR '',''"]) auto
      then show ?thesis using Cons.IH Cons.prems by simp
    qed
  qed
qed

lemma map_insort_key: "map f (insort_key f x xs) = insort (f x) (map f xs)"
  by (induction xs) auto

lemma map_sort_key: "map f (sort_key f xs) = sort (map f xs)"
  by (induction xs) (simp_all add: map_insort_key)

lemma insort_key_map_prod:
  "insort_key fst (map_prod id f kv) (map (map_prod id f) l) = map (map_prod id f) (insort_key fst kv l)"
  by (induction l) auto

lemma sort_key_map_prod:
  "sort_key fst (map (map_prod id f) kvs) = map (map_prod id f) (sort_key fst kvs)"
  by (induction kvs) (simp_all add: insort_key_map_prod insort_key_map_prod [unfolded id_def])

lemma map_of_rebuild: "distinct (map fst kvs) \<Longrightarrow> map (\<lambda>k. (k, the (map_of kvs k))) (map fst kvs) = kvs"
  by (auto intro!: map_idI)

lemma dumps_compact_obj:
  "dumps_compact (JObj kvs) = ''{'' @ join '','' (map member_text (sort_key fst kvs)) @ ''}''"
proof -
  have "(\<lambda>(k, t). quote k @ '':'' @ t) \<circ> map_prod id (dumps_with True '','' '':'') = member_text"
    by (auto simp: fun_eq_iff member_text_def dumps_compact_def)
  then show ?thesis by (simp add: dumps_compact_def sort_key_map_prod)
qed

lemma dumps_compact_inject:
  assumes keys: "map fst kvs = map fst kvs'" and "distinct (map fst kvs)"
    and sc: "list_all (scalar \<circ> snd) kvs" "list_all (scalar \<circ> snd) kvs'"
    and eq: "dumps_compact (JObj kvs) = dumps_compact (JObj kvs')"
  shows "kvs = kvs'"
proof -
  have "sort_key fst kvs = sort_key fst kvs'"
  proof (rule members_inject)
    show "map fst (sort_key fst kvs) = map fst (sort_key fst kvs')" by (simp add: map_sort_key keys)
  qed (use sc eq in \<open>auto simp: dumps_compact_obj list_all_iff\<close>)
  then have "set kvs = set kvs'" by (metis set_sort)
  then have "map_of kvs = map_of kvs'"
    using assms(2) keys by (metis map_of_inject_set)
  then show ?thesis
    using map_of_rebuild [of kvs] map_of_rebuild [of kvs'] assms(2) keys by simp
qed

end
