(* ===== verification/Model.thy ===== *)
theory Model
  imports Json
begin

text \<open>
  The system of record (db/models.py): one record type per ORM class, the world that holds
  every table, the process configuration (app/config.py) and the parameters that stand for
  code outside the repository. Identifiers are the strings \<open>_new_id()\<close> draws; timestamps
  are microseconds since 1970-01-01 UTC, which is what every \<open>datetime\<close> the program makes
  denotes (\<open>datetime.now(timezone.utc)\<close>; a naive value read back from SQLite is taken as UTC).
  Optional columns are options. A JSON text column is the value that was dumped into it,
  except \<open>audit_events.metadata_json\<close>, whose text is hashed, and the Markdown export of a packet.
\<close>

type_synonym time = int

datatype job_status = JobPending | JobRunning | JobSucceeded | JobFailed | JobCancelled

fun job_status_value :: "job_status \<Rightarrow> string" where
  "job_status_value JobPending = ''pending''"
| "job_status_value JobRunning = ''running''"
| "job_status_value JobSucceeded = ''succeeded''"
| "job_status_value JobFailed = ''failed''"
| "job_status_value JobCancelled = ''cancelled''"

datatype approval_status = ApprovalPending | ApprovalApproved | ApprovalRejected

fun approval_status_value :: "approval_status \<Rightarrow> string" where
  "approval_status_value ApprovalPending = ''pending''"
| "approval_status_value ApprovalApproved = ''approved''"
| "approval_status_value ApprovalRejected = ''rejected''"

record tenant =
  tenant_pk :: string
  tenant_name :: string
  tenant_created_at :: time

record user =
  user_pk :: string
  user_tenant :: "string option"
  user_email :: string
  user_display_name :: "string option"
  user_is_active :: bool
  user_created_at :: time

record role =
  role_pk :: string
  role_tenant :: "string option"
  role_name :: string
  role_description :: "string option"
  role_is_system :: bool
  role_created_at :: time

record permission =
  perm_pk :: string
  perm_name :: string
  perm_description :: "string option"
  perm_created_at :: time

record user_role =
  ur_pk :: string
  ur_tenant :: "string option"
  ur_user :: string
  ur_role :: string
  ur_created_at :: time

record role_permission =
  rp_pk :: string
  rp_role :: string
  rp_permission :: string
  rp_created_at :: time

record api_key =
  key_pk :: string
  key_tenant :: "string option"
  key_user :: "string option"
  key_name :: string
  key_hash :: string
  key_is_active :: bool
  key_created_at :: time
  key_last_used_at :: "time option"

record policy =
  policy_pk :: string
  policy_tenant :: "string option"
  policy_name :: string
  policy_version :: string
  policy_rules :: "dict option"
  policy_is_active :: bool
  policy_status :: string
  policy_effective_from :: "time option"
  policy_effective_to :: "time option"
  policy_created_by :: "string option"
  policy_approved_by :: "string option"
  policy_change_reason :: "string option"
  policy_created_at :: time

record job =
  job_pk :: string
  job_tenant :: "string option"
  job_type :: string
  job_status :: job_status
  job_idempotency_key :: "string option"
  job_payload :: "dict option"
  job_attempts :: int
  job_last_error :: "string option"
  job_run_after :: "time option"
  job_created_at :: time
  job_updated_at :: time

record approval =
  appr_pk :: string
  appr_tenant :: "string option"
  appr_kind :: string
  appr_status :: approval_status
  appr_payload :: "dict option"
  appr_decided_at :: "time option"
  appr_created_at :: time

record audit_event =
  ae_pk :: string
  ae_action :: string
  ae_resource_type :: string
  ae_resource_id :: string
  ae_tenant :: "string option"
  ae_actor :: "string option"
  ae_actor_user_id :: "string option"
  ae_actor_type :: "string option"
  ae_action_type :: "string option"
  ae_policy_version :: "string option"
  ae_decision :: "string option"
  ae_reason :: "string option"
  ae_metadata :: "string option"
  ae_seq :: "int option"
  ae_previous_hash :: "string option"
  ae_event_hash :: "string option"
  ae_created_at :: "time option"

record email_thread =
  thread_pk :: string
  thread_tenant :: "string option"
  thread_external_id :: string
  thread_snippet :: "string option"
  thread_intent :: "string option"
  thread_source_job :: "string option"
  thread_extra :: "dict option"
  thread_updated_at :: time

record delivery =
  dlv_pk :: string
  dlv_tenant :: "string option"
  dlv_thread :: string
  dlv_draft :: "string option"
  dlv_message :: "string option"
  dlv_approval :: "string option"
  dlv_source_job :: "string option"
  dlv_execution_job :: "string option"
  dlv_status :: string
  dlv_last_error :: "string option"
  dlv_updated_at :: time

record regulation =
  reg_pk :: string
  reg_name :: string
  reg_jurisdiction :: "string option"
  reg_description :: "string option"
  reg_created_at :: time

record framework =
  fw_pk :: string
  fw_name :: string
  fw_version :: string
  fw_description :: "string option"
  fw_created_at :: time

record control =
  ctl_pk :: string
  ctl_framework :: string
  ctl_code :: string
  ctl_title :: string
  ctl_description :: "string option"
  ctl_created_at :: time

record requirement =
  req_pk :: string
  req_control :: string
  req_text :: string
  req_evidence_type :: "string option"
  req_created_at :: time

record control_pack =
  pack_pk :: string
  pack_tenant :: "string option"
  pack_industry :: string
  pack_name :: string
  pack_description :: "string option"
  pack_control_ids :: "string list option"
  pack_created_at :: time

record ai_system =
  ais_pk :: string
  ais_tenant :: "string option"
  ais_name :: string
  ais_description :: "string option"
  ais_owner :: "string option"
  ais_created_at :: time

record data_source =
  ds_pk :: string
  ds_tenant :: "string option"
  ds_name :: string
  ds_source_type :: string
  ds_metadata :: "dict option"
  ds_created_at :: time

record workflow =
  wf_pk :: string
  wf_tenant :: "string option"
  wf_ai_system :: "string option"
  wf_name :: string
  wf_description :: "string option"
  wf_created_at :: time

record governed_action =
  ga_pk :: string
  ga_tenant :: "string option"
  ga_workflow :: "string option"
  ga_source_job :: "string option"
  ga_approval :: "string option"
  ga_execution_job :: "string option"
  ga_action_type :: string
  ga_policy_version :: "string option"
  ga_policy_version_id :: "string option"
  ga_policy_decision :: "string option"
  ga_status :: string
  ga_metadata :: "dict option"
  ga_created_at :: time
  ga_updated_at :: time

record risk_assessment =
  ra_pk :: string
  ra_tenant :: "string option"
  ra_ai_system :: "string option"
  ra_workflow :: "string option"
  ra_risk_level :: string
  ra_summary :: "string option"
  ra_metadata :: "dict option"
  ra_created_at :: time

record action_control =
  ac_pk :: string
  ac_tenant :: "string option"
  ac_action :: string
  ac_control :: string
  ac_regulation :: "string option"
  ac_rationale :: "string option"
  ac_created_at :: time

record artifact =
  art_pk :: string
  art_tenant :: "string option"
  art_action :: "string option"
  art_type :: string
  art_uri :: "string option"
  art_metadata :: "dict option"
  art_created_at :: time

record packet_row =
  pkt_pk :: string
  pkt_tenant :: "string option"
  pkt_scope_type :: string
  pkt_scope_id :: "string option"
  pkt_start_at :: "time option"
  pkt_end_at :: "time option"
  pkt_summary :: "dict option"
  pkt_json_export :: "dict option"
  pkt_markdown_export :: "string option"
  pkt_created_by :: "string option"
  pkt_hash :: "string option"
  pkt_version :: "int option"
  pkt_retention_status :: string
  pkt_signature :: "string option"
  pkt_signature_algorithm :: "string option"
  pkt_signed_at :: "time option"
  pkt_expires_at :: "time option"
  pkt_revoked_at :: "time option"
  pkt_revocation_reason :: "string option"
  pkt_created_at :: time

record override =
  ov_pk :: string
  ov_tenant :: "string option"
  ov_action :: string
  ov_by :: "string option"
  ov_reason :: string
  ov_authority_basis :: string
  ov_accepted_risk :: "string option"
  ov_compensating_control :: string
  ov_expiration :: "time option"
  ov_status :: string
  ov_created_at :: time

record trust_score =
  ts_pk :: string
  ts_tenant :: "string option"
  ts_scope_type :: string
  ts_scope_id :: string
  ts_score :: int
  ts_band :: string
  ts_breakdown :: "json option"
  ts_version :: int
  ts_created_at :: time

record verification =
  ver_pk :: string
  ver_tenant :: "string option"
  ver_subject_type :: string
  ver_subject_id :: string
  ver_status :: string
  ver_packet :: "string option"
  ver_trust_score_id :: "string option"
  ver_trust_score :: "int option"
  ver_min_score :: int
  ver_requested_by :: "string option"
  ver_reviewed_by :: "string option"
  ver_decided_by :: "string option"
  ver_review_notes :: "string option"
  ver_decision_reason :: "string option"
  ver_reviewed_at :: "time option"
  ver_decided_at :: "time option"
  ver_created_at :: time

text \<open>
  The world: every table, the clock, how many identifiers \<open>uuid4\<close> has given out, how many
  Gmail API calls were made, and the log of the drafts the connector sent with the message id
  it returned (what the outside world saw; no code reads it).
\<close>

record world =
  clock :: time
  uuids :: nat
  api_calls :: nat
  sent_log :: "(string \<times> string) list"
  tenants :: "tenant list"
  users :: "user list"
  roles :: "role list"
  permissions :: "permission list"
  user_roles :: "user_role list"
  role_permissions :: "role_permission list"
  api_keys :: "api_key list"
  policies :: "policy list"
  jobs :: "job list"
  approvals :: "approval list"
  audit_events :: "audit_event list"
  email_threads :: "email_thread list"
  deliveries :: "delivery list"
  regulations :: "regulation list"
  frameworks :: "framework list"
  controls :: "control list"
  requirements :: "requirement list"
  control_packs :: "control_pack list"
  ai_systems :: "ai_system list"
  data_sources :: "data_source list"
  workflows :: "workflow list"
  governed_actions :: "governed_action list"
  risk_assessments :: "risk_assessment list"
  action_controls :: "action_control list"
  artifacts :: "artifact list"
  packets :: "packet_row list"
  overrides :: "override list"
  trust_scores :: "trust_score list"
  verifications :: "verification list"

type_synonym 'a svc = "(world, 'a) op"

text \<open>An empty database.\<close>

definition empty_world :: world where
  "empty_world = \<lparr>clock = 0, uuids = 0, api_calls = 0, sent_log = [],
     tenants = [], users = [], roles = [], permissions = [], user_roles = [], role_permissions = [],
     api_keys = [], policies = [], jobs = [], approvals = [], audit_events = [], email_threads = [],
     deliveries = [], regulations = [], frameworks = [], controls = [], requirements = [],
     control_packs = [], ai_systems = [], data_sources = [], workflows = [], governed_actions = [],
     risk_assessments = [], action_controls = [], artifacts = [], packets = [], overrides = [],
     trust_scores = [], verifications = []\<rparr>"

section \<open>Configuration and outside code\<close>

datatype gmail_mode = Stub | Live
datatype app_env = Demo | Staging | Production

fun app_env_value :: "app_env \<Rightarrow> string" where
  "app_env_value Demo = ''demo''"
| "app_env_value Staging = ''staging''"
| "app_env_value Production = ''production''"

record settings =
  gmail_mode :: gmail_mode
  gmail_credentials_path :: "string option"
  operator_api_key :: "string option"
  require_rbac_for_operator :: bool
  app_env :: app_env
  evidence_signing_key :: "string option"
  evidence_packet_ttl_days :: int

text \<open>What the code reads of google.oauth2's \<open>Credentials\<close>, and the access token itself.\<close>

record oauth_credentials =
  oauth_expired :: bool
  oauth_refresh_token :: "string option"
  oauth_token :: string

text \<open>
  Parameters: \<open>sha256\<close> is the hexadecimal SHA-256 digest of a text; \<open>ed_public\<close>, \<open>ed_sign\<close> and
  \<open>ed_verify\<close> are the Ed25519 functions of the cryptography package (key seed, message and signature
  as text). Of the host: \<open>is_file\<close> says which path names a file, \<open>home_dir\<close> gives the home directory
  for \<open>~\<close> and \<open>~name\<close>, and \<open>import_error\<close> is the text of the ImportError when the optional Google
  packages are missing. Of the Google packages: \<open>token_file\<close> is \<open>from_authorized_user_file\<close> (path and
  scopes), \<open>token_refresh\<close> and \<open>gmail_build\<close> the refresh and the construction of the client, and
  \<open>gmail_get\<close>, \<open>gmail_create\<close>, \<open>gmail_send\<close> its three calls: the thread resource, the id of the draft
  and the id of the message, if the answer has one. What goes over the network may answer differently
  each time (the number of the call is an argument) and may raise.
\<close>

record env =
  config :: settings
  sha256 :: "string \<Rightarrow> string"
  ed_public :: "string \<Rightarrow> string"
  ed_sign :: "string \<Rightarrow> string \<Rightarrow> string"
  ed_verify :: "string \<Rightarrow> string \<Rightarrow> string \<Rightarrow> bool"
  is_file :: "string \<Rightarrow> bool"
  home_dir :: "string \<Rightarrow> string option"
  import_error :: "string option"
  token_file :: "string \<Rightarrow> string list \<Rightarrow> exn + oauth_credentials"
  token_refresh :: "nat \<Rightarrow> oauth_credentials \<Rightarrow> exn + oauth_credentials"
  gmail_build :: "oauth_credentials \<Rightarrow> exn + unit"
  gmail_get :: "nat \<Rightarrow> string \<Rightarrow> exn + dict"
  gmail_create :: "nat \<Rightarrow> string option \<Rightarrow> string \<Rightarrow> string \<Rightarrow> string option \<Rightarrow> exn + string option"
  gmail_send :: "nat \<Rightarrow> string \<Rightarrow> exn + string option"

section \<open>Identifiers, inserts and updates\<close>

text \<open>
  \<open>uuid4\<close> gives an identifier it never gave before; the model numbers the draws.
\<close>

definition uuid :: "nat \<Rightarrow> string" where
  "uuid n = ''uuid-'' @ str_nat n"

lemma uuid_inject [simp]: "uuid m = uuid n \<longleftrightarrow> m = n"
  by (simp add: uuid_def)

lemma uuid_nonempty [simp]: "uuid n \<noteq> []"
  by (simp add: uuid_def)

definition new_id :: "string svc" where
  "new_id w = (Inr (uuid (uuids w)), w\<lparr>uuids := Suc (uuids w)\<rparr>)"

text \<open>SQL equality for UNIQUE constraints: NULL is distinct from every value.\<close>

definition sql_eq :: "'a option \<Rightarrow> 'a option \<Rightarrow> bool" where
  "sql_eq a b \<longleftrightarrow> a \<noteq> None \<and> a = b"

text \<open>
  \<open>session.add(row); session.commit()\<close> of a new row: the row is appended, unless a UNIQUE
  constraint (\<open>clash\<close>) rejects it; and of a loaded row that was changed: an UPDATE by its key.
\<close>

definition insert_row :: "(('r list \<Rightarrow> 'r list) \<Rightarrow> world \<Rightarrow> world) \<Rightarrow> 'r \<Rightarrow> unit svc" where
  "insert_row upd r = modify (upd (\<lambda>rs. rs @ [r]))"

definition insert_unique ::
  "(world \<Rightarrow> 'r list) \<Rightarrow> (('r list \<Rightarrow> 'r list) \<Rightarrow> world \<Rightarrow> world) \<Rightarrow> ('r \<Rightarrow> 'r \<Rightarrow> bool) \<Rightarrow> string \<Rightarrow> 'r \<Rightarrow> unit svc" where
  "insert_unique rows upd clash name r w =
     (if list_ex (\<lambda>r'. clash r' r) (rows w) then (Inl (IntegrityError name), w)
      else (Inr (), upd (\<lambda>rs. rs @ [r]) w))"

definition save_row :: "(('r list \<Rightarrow> 'r list) \<Rightarrow> world \<Rightarrow> world) \<Rightarrow> ('r \<Rightarrow> string) \<Rightarrow> 'r \<Rightarrow> unit svc" where
  "save_row upd key r = modify (upd (tput key r))"

definition update_row ::
  "(('r list \<Rightarrow> 'r list) \<Rightarrow> world \<Rightarrow> world) \<Rightarrow> ('r \<Rightarrow> string) \<Rightarrow> string \<Rightarrow> ('r \<Rightarrow> 'r) \<Rightarrow> unit svc" where
  "update_row upd key k f = modify (upd (tupd key k f))"

text \<open>
  A column with \<open>onupdate=func.now()\<close>: the flush of a loaded row writes an UPDATE, and stamps the
  column, only when an attribute has a net change.
\<close>

definition touched :: "('r \<Rightarrow> 'r) \<Rightarrow> ('r \<Rightarrow> 'r) \<Rightarrow> 'r \<Rightarrow> 'r" where
  "touched stamp f r = (if f r = r then r else stamp (f r))"

text \<open>Reads of one row: \<open>session.get(Class, id)\<close>.\<close>

definition get_row :: "(world \<Rightarrow> 'r list) \<Rightarrow> ('r \<Rightarrow> string) \<Rightarrow> string \<Rightarrow> world \<Rightarrow> 'r option" where
  "get_row rows key k w = tget key k (rows w)"

lemmas row_ops = insert_row_def insert_unique_def save_row_def update_row_def get_row_def new_id_def

text \<open>Every key of the table was drawn from \<open>uuid4\<close>, once.\<close>

definition drawn :: "(world \<Rightarrow> 'r list) \<Rightarrow> ('r \<Rightarrow> string) \<Rightarrow> world \<Rightarrow> bool" where
  "drawn rows key w \<longleftrightarrow> distinct (map key (rows w)) \<and> key ` set (rows w) \<subseteq> uuid ` {..<uuids w}"

section \<open>Table interface\<close>

text \<open>
  What every service relies on when it reads and writes one table of the world: a lookup
  after an insert or a save, and that keys stay distinct when the inserted key is new.
\<close>

locale world_table =
  fixes rows :: "world \<Rightarrow> 'r list"
    and upd :: "('r list \<Rightarrow> 'r list) \<Rightarrow> world \<Rightarrow> world"
    and key :: "'r \<Rightarrow> string"
  assumes rows_upd: "rows (upd f w) = f (rows w)"
    and rows_uuids: "rows (uuids_update g w) = rows w"
    and uuids_upd: "uuids (upd f w) = uuids w"
begin

lemma insert_lookup:
  "get_row rows key k (snd (insert_row upd r w)) =
     (case get_row rows key k w of None \<Rightarrow> if k = key r then Some r else None | Some r' \<Rightarrow> Some r')"
  by (simp add: row_ops comp rows_upd tget_append split: option.split)

lemma save_lookup:
  "get_row rows key k (snd (save_row upd key r w)) =
     (if k = key r \<and> get_row rows key k w \<noteq> None then Some r else get_row rows key k w)"
  by (auto simp: row_ops comp rows_upd tget_tput)

lemma save_lookup_same:
  "get_row rows key k w = Some r0 \<Longrightarrow> key r = k \<Longrightarrow>
   get_row rows key k (snd (save_row upd key r w)) = Some r"
  by (simp add: save_lookup)

lemma update_lookup:
  assumes "\<And>r. key (f r) = key r"
  shows "get_row rows key k' (snd (update_row upd key k f w)) =
     (if k' = k then map_option f (get_row rows key k' w) else get_row rows key k' w)"
  by (simp add: row_ops comp rows_upd tget_tupd assms)

lemma drawn_update:
  assumes "drawn rows key w" and "\<And>r. key (f r) = key r"
  shows "drawn rows key (snd (update_row upd key k f w))"
proof -
  have keys: "map key (tupd key k f rs) = map key rs" for rs
    by (rule map_tupd_same) (simp add: assms(2))
  then have "key ` set (tupd key k f rs) = key ` set rs" for rs by (metis set_map)
  then show ?thesis using assms(1) keys by (simp add: drawn_def row_ops comp rows_upd uuids_upd)
qed

lemma save_keys: "map key (rows (snd (save_row upd key r w))) = map key (rows w)"
  by (simp add: row_ops comp rows_upd)

lemma get_row_key: "get_row rows key k w = Some r \<Longrightarrow> key r = k \<and> r \<in> set (rows w)"
  by (auto simp: get_row_def dest: tget_key tget_in)

lemma drawn_fresh: "drawn rows key w \<Longrightarrow> get_row rows key (uuid (uuids w)) w = None"
  by (auto simp: drawn_def get_row_def tget_None_iff)

lemma drawn_insert:
  assumes "drawn rows key w" and "key r = uuid (uuids w)"
  shows "drawn rows key (snd (insert_row upd r (w\<lparr>uuids := Suc (uuids w)\<rparr>)))"
proof -
  have "uuid (uuids w) \<notin> key ` set (rows w)"
    using assms(1) by (auto simp: drawn_def)
  moreover have "uuid ` {..<uuids w} \<subseteq> uuid ` {..<Suc (uuids w)}" by auto
  ultimately show ?thesis
    using assms by (auto simp: drawn_def row_ops comp rows_upd rows_uuids uuids_upd)
qed

lemma drawn_save: "drawn rows key w \<Longrightarrow> drawn rows key (snd (save_row upd key r w))"
  by (simp add: drawn_def row_ops comp rows_upd uuids_upd)

end

end
