(* ===== verification/Evolution.thy ===== *)
theory Evolution
  imports Model
begin

text \<open>
  Footprints: \<open>only S\<close> relates two worlds that differ in the tables of \<open>S\<close> at most, with the
  clock unchanged and no identifier given back. Every operation gets one footprint lemma, from
  which the frame facts of the component and system proofs follow.
\<close>

text \<open>An insert written as the new value of its table.\<close>

lemma insert_form [simp]:
  "tenants_update (\<lambda>rs. rs @ X0) w = w\<lparr>tenants := tenants w @ X0\<rparr>"
  "users_update (\<lambda>rs. rs @ X1) w = w\<lparr>users := users w @ X1\<rparr>"
  "roles_update (\<lambda>rs. rs @ X2) w = w\<lparr>roles := roles w @ X2\<rparr>"
  "permissions_update (\<lambda>rs. rs @ X3) w = w\<lparr>permissions := permissions w @ X3\<rparr>"
  "user_roles_update (\<lambda>rs. rs @ X4) w = w\<lparr>user_roles := user_roles w @ X4\<rparr>"
  "role_permissions_update (\<lambda>rs. rs @ X5) w = w\<lparr>role_permissions := role_permissions w @ X5\<rparr>"
  "api_keys_update (\<lambda>rs. rs @ X6) w = w\<lparr>api_keys := api_keys w @ X6\<rparr>"
  "policies_update (\<lambda>rs. rs @ X7) w = w\<lparr>policies := policies w @ X7\<rparr>"
  "jobs_update (\<lambda>rs. rs @ X8) w = w\<lparr>jobs := jobs w @ X8\<rparr>"
  "approvals_update (\<lambda>rs. rs @ X9) w = w\<lparr>approvals := approvals w @ X9\<rparr>"
  "audit_events_update (\<lambda>rs. rs @ X10) w = w\<lparr>audit_events := audit_events w @ X10\<rparr>"
  "email_threads_update (\<lambda>rs. rs @ X11) w = w\<lparr>email_threads := email_threads w @ X11\<rparr>"
  "deliveries_update (\<lambda>rs. rs @ X12) w = w\<lparr>deliveries := deliveries w @ X12\<rparr>"
  "regulations_update (\<lambda>rs. rs @ X13) w = w\<lparr>regulations := regulations w @ X13\<rparr>"
  "frameworks_update (\<lambda>rs. rs @ X14) w = w\<lparr>frameworks := frameworks w @ X14\<rparr>"
  "controls_update (\<lambda>rs. rs @ X15) w = w\<lparr>controls := controls w @ X15\<rparr>"
  "requirements_update (\<lambda>rs. rs @ X16) w = w\<lparr>requirements := requirements w @ X16\<rparr>"
  "control_packs_update (\<lambda>rs. rs @ X17) w = w\<lparr>control_packs := control_packs w @ X17\<rparr>"
  "ai_systems_update (\<lambda>rs. rs @ X18) w = w\<lparr>ai_systems := ai_systems w @ X18\<rparr>"
  "data_sources_update (\<lambda>rs. rs @ X19) w = w\<lparr>data_sources := data_sources w @ X19\<rparr>"
  "workflows_update (\<lambda>rs. rs @ X20) w = w\<lparr>workflows := workflows w @ X20\<rparr>"
  "governed_actions_update (\<lambda>rs. rs @ X21) w = w\<lparr>governed_actions := governed_actions w @ X21\<rparr>"
  "risk_assessments_update (\<lambda>rs. rs @ X22) w = w\<lparr>risk_assessments := risk_assessments w @ X22\<rparr>"
  "action_controls_update (\<lambda>rs. rs @ X23) w = w\<lparr>action_controls := action_controls w @ X23\<rparr>"
  "artifacts_update (\<lambda>rs. rs @ X24) w = w\<lparr>artifacts := artifacts w @ X24\<rparr>"
  "packets_update (\<lambda>rs. rs @ X25) w = w\<lparr>packets := packets w @ X25\<rparr>"
  "overrides_update (\<lambda>rs. rs @ X26) w = w\<lparr>overrides := overrides w @ X26\<rparr>"
  "trust_scores_update (\<lambda>rs. rs @ X27) w = w\<lparr>trust_scores := trust_scores w @ X27\<rparr>"
  "verifications_update (\<lambda>rs. rs @ X28) w = w\<lparr>verifications := verifications w @ X28\<rparr>"
  by (cases w; simp)+

datatype table =
    TCalls | TSent | TTenants | TUsers | TRoles | TPermissions | TUserRoles | TRolePermissions | TApiKeys
  | TPolicies | TJobs | TApprovals | TAudit | TThreads | TDeliveries | TRegulations | TFrameworks
  | TControls | TRequirements | TPacks | TAiSystems | TDataSources | TWorkflows | TActions
  | TRisk | TActionControls | TArtifacts | TPackets | TOverrides | TScores | TVerifications

fun same :: "table \<Rightarrow> world \<Rightarrow> world \<Rightarrow> bool" where
  "same TCalls w v = (api_calls v = api_calls w)"
| "same TSent w v = (sent_log v = sent_log w)"
| "same TTenants w v = (tenants v = tenants w)"
| "same TUsers w v = (users v = users w)"
| "same TRoles w v = (roles v = roles w)"
| "same TPermissions w v = (permissions v = permissions w)"
| "same TUserRoles w v = (user_roles v = user_roles w)"
| "same TRolePermissions w v = (role_permissions v = role_permissions w)"
| "same TApiKeys w v = (api_keys v = api_keys w)"
| "same TPolicies w v = (policies v = policies w)"
| "same TJobs w v = (jobs v = jobs w)"
| "same TApprovals w v = (approvals v = approvals w)"
| "same TAudit w v = (audit_events v = audit_events w)"
| "same TThreads w v = (email_threads v = email_threads w)"
| "same TDeliveries w v = (deliveries v = deliveries w)"
| "same TRegulations w v = (regulations v = regulations w)"
| "same TFrameworks w v = (frameworks v = frameworks w)"
| "same TControls w v = (controls v = controls w)"
| "same TRequirements w v = (requirements v = requirements w)"
| "same TPacks w v = (control_packs v = control_packs w)"
| "same TAiSystems w v = (ai_systems v = ai_systems w)"
| "same TDataSources w v = (data_sources v = data_sources w)"
| "same TWorkflows w v = (workflows v = workflows w)"
| "same TActions w v = (governed_actions v = governed_actions w)"
| "same TRisk w v = (risk_assessments v = risk_assessments w)"
| "same TActionControls w v = (action_controls v = action_controls w)"
| "same TArtifacts w v = (artifacts v = artifacts w)"
| "same TPackets w v = (packets v = packets w)"
| "same TOverrides w v = (overrides v = overrides w)"
| "same TScores w v = (trust_scores v = trust_scores w)"
| "same TVerifications w v = (verifications v = verifications w)"

definition only :: "table set \<Rightarrow> world \<Rightarrow> world \<Rightarrow> bool" where
  "only S w v \<longleftrightarrow> (\<forall>t. t \<notin> S \<longrightarrow> same t w v) \<and> clock v = clock w \<and> uuids w \<le> uuids v"

lemma same_refl [simp]: "same t w w"
  by (cases t) auto

lemma same_trans: "same t a b \<Longrightarrow> same t b c \<Longrightarrow> same t a c"
  by (cases t) auto

lemma only_refl [simp]: "only S w w"
  by (simp add: only_def)

interpretation only_evo: evolution "only S" for S
  by unfold_locales (auto simp: only_def intro: same_trans)

lemmas [evo] = only_evo.evo_ret only_evo.evo_raise only_evo.evo_gets only_evo.evo_lift
  only_evo.evo_bind only_evo.evo_catch only_evo.evo_foreach

lemma only_mono: "S \<subseteq> T \<Longrightarrow> only S w v \<Longrightarrow> only T w v"
  by (auto simp: only_def)

lemma only_weaken: "evolves (only S) m \<Longrightarrow> S \<subseteq> T \<Longrightarrow> evolves (only T) m"
  by (auto simp: evolves_def intro: only_mono)

lemma onlyD: "only S w v \<Longrightarrow> t \<notin> S \<Longrightarrow> same t w v"
  by (simp add: only_def)

lemma evolves_onlyD: "evolves (only S) m \<Longrightarrow> t \<notin> S \<Longrightarrow> same t w (snd (m w))"
  by (simp add: evolves_def only_def)

text \<open>\<open>touches upd t\<close>: the record update \<open>upd\<close> changes nothing but table \<open>t\<close>.\<close>

definition touches :: "(('r list \<Rightarrow> 'r list) \<Rightarrow> world \<Rightarrow> world) \<Rightarrow> table \<Rightarrow> bool" where
  "touches upd t \<longleftrightarrow> (\<forall>f w. only {t} w (upd f w))"

lemma touches_only: "touches upd t \<Longrightarrow> t \<in> S \<Longrightarrow> only S w (upd f w)"
  by (auto simp: touches_def intro: only_mono [of "{t}"])

lemma all_table:
  "(\<forall>t. P t) \<longleftrightarrow> P TCalls \<and> P TSent \<and> P TTenants \<and> P TUsers \<and> P TRoles \<and> P TPermissions \<and> P TUserRoles
     \<and> P TRolePermissions \<and> P TApiKeys \<and> P TPolicies \<and> P TJobs \<and> P TApprovals
     \<and> P TAudit \<and> P TThreads \<and> P TDeliveries \<and> P TRegulations \<and> P TFrameworks
     \<and> P TControls \<and> P TRequirements \<and> P TPacks \<and> P TAiSystems \<and> P TDataSources
     \<and> P TWorkflows \<and> P TActions \<and> P TRisk \<and> P TActionControls \<and> P TArtifacts
     \<and> P TPackets \<and> P TOverrides \<and> P TScores \<and> P TVerifications"
proof
  assume "\<forall>t. P t"
  then show "P TCalls \<and> P TSent \<and> P TTenants \<and> P TUsers \<and> P TRoles \<and> P TPermissions \<and> P TUserRoles
     \<and> P TRolePermissions \<and> P TApiKeys \<and> P TPolicies \<and> P TJobs \<and> P TApprovals
     \<and> P TAudit \<and> P TThreads \<and> P TDeliveries \<and> P TRegulations \<and> P TFrameworks
     \<and> P TControls \<and> P TRequirements \<and> P TPacks \<and> P TAiSystems \<and> P TDataSources
     \<and> P TWorkflows \<and> P TActions \<and> P TRisk \<and> P TActionControls \<and> P TArtifacts
     \<and> P TPackets \<and> P TOverrides \<and> P TScores \<and> P TVerifications" by (intro conjI) (erule spec)+
next
  assume h: "P TCalls \<and> P TSent \<and> P TTenants \<and> P TUsers \<and> P TRoles \<and> P TPermissions \<and> P TUserRoles
     \<and> P TRolePermissions \<and> P TApiKeys \<and> P TPolicies \<and> P TJobs \<and> P TApprovals
     \<and> P TAudit \<and> P TThreads \<and> P TDeliveries \<and> P TRegulations \<and> P TFrameworks
     \<and> P TControls \<and> P TRequirements \<and> P TPacks \<and> P TAiSystems \<and> P TDataSources
     \<and> P TWorkflows \<and> P TActions \<and> P TRisk \<and> P TActionControls \<and> P TArtifacts
     \<and> P TPackets \<and> P TOverrides \<and> P TScores \<and> P TVerifications"
  show "\<forall>t. P t"
  proof
    fix t show "P t" using h by (cases t; hypsubst) (elim conjE; assumption)+
  qed
qed

lemma touches_world [simp]:
  "touches tenants_update TTenants" "touches users_update TUsers" "touches roles_update TRoles"
  "touches permissions_update TPermissions" "touches user_roles_update TUserRoles"
  "touches role_permissions_update TRolePermissions" "touches api_keys_update TApiKeys"
  "touches policies_update TPolicies" "touches jobs_update TJobs" "touches approvals_update TApprovals"
  "touches audit_events_update TAudit" "touches email_threads_update TThreads"
  "touches deliveries_update TDeliveries" "touches regulations_update TRegulations"
  "touches frameworks_update TFrameworks" "touches controls_update TControls"
  "touches requirements_update TRequirements" "touches control_packs_update TPacks"
  "touches ai_systems_update TAiSystems" "touches data_sources_update TDataSources"
  "touches workflows_update TWorkflows" "touches governed_actions_update TActions"
  "touches risk_assessments_update TRisk" "touches action_controls_update TActionControls"
  "touches artifacts_update TArtifacts" "touches packets_update TPackets"
  "touches overrides_update TOverrides" "touches trust_scores_update TScores"
  "touches verifications_update TVerifications"
  unfolding touches_def only_def all_table by simp_all

lemma same_uuids [simp]: "same t w (w\<lparr>uuids := n\<rparr>)"
  by (cases t) simp_all

lemma new_id_only [evo]: "evolves (only S) new_id"
  by (rule evolvesI) (simp add: new_id_def only_def)

lemma insert_row_only:
  assumes "touches upd t" and "t \<in> S"
  shows "evolves (only S) (insert_row upd r)"
  unfolding insert_row_def by (rule only_evo.evo_modify) (rule touches_only [OF assms])

lemma save_row_only:
  assumes "touches upd t" and "t \<in> S"
  shows "evolves (only S) (save_row upd key r)"
  unfolding save_row_def by (rule only_evo.evo_modify) (rule touches_only [OF assms])

lemma update_row_only:
  assumes "touches upd t" and "t \<in> S"
  shows "evolves (only S) (update_row upd key k f)"
  unfolding update_row_def by (rule only_evo.evo_modify) (rule touches_only [OF assms])

lemma insert_unique_only:
  assumes "touches upd t" and "t \<in> S"
  shows "evolves (only S) (insert_unique rows upd clash n r)"
  by (rule evolvesI) (simp add: insert_unique_def touches_only [OF assms])

text \<open>One rule per table and write, so that a footprint proof is \<open>intro evo\<close>.\<close>

lemmas [evo] = touches_world [THEN insert_row_only] touches_world [THEN save_row_only]
  touches_world [THEN update_row_only] touches_world [THEN insert_unique_only]

section \<open>Tables that only move forward\<close>

text \<open>
  \<open>keeps J\<close>: an invariant goes through. \<open>table_le step xs ys\<close>: the rows of \<open>xs\<close> are still there,
  in place, each one related by \<open>step\<close> to what it became, with new rows after them.
\<close>

definition keeps :: "(world \<Rightarrow> bool) \<Rightarrow> world \<Rightarrow> world \<Rightarrow> bool" where
  "keeps J w v \<longleftrightarrow> (J w \<longrightarrow> J v)"

interpretation keeps_evo: evolution "keeps J" for J
  by unfold_locales (auto simp: keeps_def)

lemmas [evo] = keeps_evo.evo_ret keeps_evo.evo_raise keeps_evo.evo_gets keeps_evo.evo_lift
  keeps_evo.evo_bind keeps_evo.evo_catch keeps_evo.evo_foreach

definition table_le :: "('r \<Rightarrow> 'r \<Rightarrow> bool) \<Rightarrow> 'r list \<Rightarrow> 'r list \<Rightarrow> bool" where
  "table_le step xs ys \<longleftrightarrow> list_all2 step xs (take (length xs) ys)"

locale row_order =
  fixes step :: "'r \<Rightarrow> 'r \<Rightarrow> bool"
  assumes step_refl: "step r r"
    and step_trans: "step a b \<Longrightarrow> step b c \<Longrightarrow> step a c"
begin

lemma le_refl: "table_le step xs xs"
  by (simp add: table_le_def list_all2_refl step_refl)

lemma le_append: "table_le step xs (xs @ ys)"
  by (simp add: table_le_def list_all2_refl step_refl)

lemma le_tupd:
  assumes "\<And>r. r \<in> set xs \<Longrightarrow> key r = k \<Longrightarrow> step r (f r)"
  shows "table_le step xs (tupd key k f xs)"
  using assms by (simp add: table_le_def tupd_def list_all2_map2 list_all2_same step_refl)

lemma le_trans:
  assumes "table_le step xs ys" and "table_le step ys zs"
  shows "table_le step xs zs"
proof -
  from assms have len: "length xs \<le> length ys" "length ys \<le> length zs"
    by (auto simp: table_le_def dest!: list_all2_lengthD)
  have "list_all2 step (take (length xs) ys) (take (length xs) (take (length ys) zs))"
    using assms(2) unfolding table_le_def by (rule list_all2_takeI)
  then have tail: "list_all2 step (take (length xs) ys) (take (length xs) zs)"
    using len by (simp add: min_absorb1)
  show ?thesis
    unfolding table_le_def
  proof (rule list_all2_trans)
    show "step a b \<Longrightarrow> step b c \<Longrightarrow> step a c" for a b c by (rule step_trans)
    show "list_all2 step xs (take (length xs) ys)" using assms(1) by (simp add: table_le_def)
  qed (rule tail)
qed

lemma le_in: "table_le step xs ys \<Longrightarrow> r \<in> set xs \<Longrightarrow> \<exists>r' \<in> set ys. step r r'"
  unfolding table_le_def by (metis in_set_conv_nth in_set_takeD list_all2_conv_all_nth nth_mem)

end

end
