(* ===== verification/PyTime.thy ===== *)
theory PyTime
  imports Model
begin

text \<open>
  \<open>datetime.isoformat()\<close> of an aware UTC value, from the microseconds since 1970: Python's
  ordinal-to-date conversion (\<open>_ord2ymd\<close> of the standard library) and its field formatting.
\<close>

definition pad :: "nat \<Rightarrow> int \<Rightarrow> string" where
  "pad n i = (let s = str_int i in replicate (n - length s) CHR ''0'' @ s)"

definition days_before_month :: "int list" where
  "days_before_month = [0, 31, 59, 90, 120, 151, 181, 212, 243, 273, 304, 334]"

definition days_in_month :: "int list" where
  "days_in_month = [31, 28, 31, 30, 31, 30, 31, 31, 30, 31, 30, 31]"

definition ord2ymd :: "int \<Rightarrow> int \<times> int \<times> int" where
  "ord2ymd ordinal =
     (let n = ordinal - 1; n400 = n div 146097; n = n mod 146097;
          n100 = n div 36524; n = n mod 36524;
          n4 = n div 1461; n = n mod 1461;
          n1 = n div 365; n = n mod 365;
          year = n400 * 400 + 1 + n100 * 100 + n4 * 4 + n1
      in if n1 = 4 \<or> n100 = 4 then (year - 1, 12, 31)
         else
           let leap = (n1 = 3 \<and> (n4 \<noteq> 24 \<or> n100 = 3));
               month = (n + 50) div 32;
               preceding = days_before_month ! nat (month - 1) + (if month > 2 \<and> leap then 1 else 0)
           in if preceding > n
              then let m = month - 1;
                       p = preceding - (days_in_month ! nat (m - 1) + (if m = 2 \<and> leap then 1 else 0))
                   in (year, m, n - p + 1)
              else (year, month, n - preceding + 1))"

definition isoformat :: "time \<Rightarrow> string" where
  "isoformat t =
     (let us = t mod 1000000; s = t div 1000000; days = s div 86400; r = s mod 86400;
          (y, m, d) = ord2ymd (days + 719163)
      in pad 4 y @ ''-'' @ pad 2 m @ ''-'' @ pad 2 d @ ''T''
         @ pad 2 (r div 3600) @ '':'' @ pad 2 (r div 60 mod 60) @ '':'' @ pad 2 (r mod 60)
         @ (if us = 0 then [] else ''.'' @ pad 6 us) @ ''+00:00'')"

lemma isoformat_examples:
  "isoformat 0 = ''1970-01-01T00:00:00+00:00''"
  "isoformat 951782399000001 = ''2000-02-28T23:59:59.000001+00:00''"
  "isoformat 1735603200000000 = ''2024-12-31T00:00:00+00:00''"
  by code_simp+

end
