(* ===== verification/Samples.thy ===== *)
theory Samples
  imports Model
begin

text \<open>
  Concrete parameters for the witnesses: a configuration per environment, and one instance of
  the outside functions (a digest that is the text itself, a signature that is the key followed
  by the message, a Gmail service that answers with fixed identifiers).
\<close>

definition sample_settings :: settings where
  "sample_settings = \<lparr>gmail_mode = Stub, gmail_credentials_path = None, operator_api_key = None,
     require_rbac_for_operator = False, app_env = Demo, evidence_signing_key = None,
     evidence_packet_ttl_days = 365\<rparr>"

definition sample_env :: env where
  "sample_env = \<lparr>config = sample_settings, sha256 = (\<lambda>s. s), ed_public = (\<lambda>k. k),
     ed_sign = (\<lambda>k m. k @ m), ed_verify = (\<lambda>k s m. s = k @ m),
     is_file = (\<lambda>p. p = ''/home/pilot/token.json''), home_dir = (\<lambda>u. if u = [] then Some ''/home/pilot'' else None),
     import_error = None, token_file = (\<lambda>p s. Inr \<lparr>oauth_expired = False, oauth_refresh_token = None, oauth_token = p\<rparr>),
     token_refresh = (\<lambda>n c. Inr c), gmail_build = (\<lambda>_. Inr ()),
     gmail_get = (\<lambda>n t. Inr [(''snippet'', JStr ''hello'')]),
     gmail_create = (\<lambda>n t a b c. Inr (Some ''d1'')),
     gmail_send = (\<lambda>n d. Inr (Some ''m1''))\<rparr>"

lemmas sample_defs = sample_settings_def sample_env_def

end
