(* ===== verification/AuditService.thy ===== *)
theory AuditService
  imports Evolution PyTime Samples
begin

text \<open>
  services/audit_service.py: the append-only audit trail as a linked SHA-256 hash chain.
  The write path \<open>record\<close> with its retries against concurrent writers, the global verifier
  and the tenant-scoped one, and the listings. The chain invariant \<open>chain_ok\<close> is the
  abstract specification: the verifier decides the link part of it and every record keeps it.
\<close>

section \<open>Model\<close>

definition GENESIS_HASH :: string where
  "GENESIS_HASH = replicate 64 CHR ''0''"

definition MAX_RECORD_ATTEMPTS :: nat where
  "MAX_RECORD_ATTEMPTS = 50"

definition APPROVAL_CREATED :: string where "APPROVAL_CREATED = ''approval.created''"
definition APPROVAL_APPROVED :: string where "APPROVAL_APPROVED = ''approval.approved''"
definition APPROVAL_REJECTED :: string where "APPROVAL_REJECTED = ''approval.rejected''"
definition SEND_JOB_ENQUEUED :: string where "SEND_JOB_ENQUEUED = ''email.send_approved.enqueued''"
definition SEND_JOB_SUCCEEDED :: string where "SEND_JOB_SUCCEEDED = ''email.send_approved.succeeded''"
definition SEND_JOB_FAILED :: string where "SEND_JOB_FAILED = ''email.send_approved.failed''"
definition EVIDENCE_EXPORTED :: string where "EVIDENCE_EXPORTED = ''evidence.exported''"

definition iso :: "time option \<Rightarrow> string option" where
  "iso value = map_option isoformat value"

definition jint_opt :: "int option \<Rightarrow> json" where
  "jint_opt x = (case x of None \<Rightarrow> JNull | Some i \<Rightarrow> JInt i)"

definition canonical_payload :: "audit_event \<Rightarrow> string option \<Rightarrow> json" where
  "canonical_payload e previous_hash = JObj
     [(''seq'', jint_opt (ae_seq e)),
      (''action'', JStr (ae_action e)),
      (''resource_type'', JStr (ae_resource_type e)),
      (''resource_id'', JStr (ae_resource_id e)),
      (''tenant_id'', jopt (ae_tenant e)),
      (''actor'', jopt (ae_actor e)),
      (''actor_user_id'', jopt (ae_actor_user_id e)),
      (''actor_type'', jopt (ae_actor_type e)),
      (''action_type'', jopt (ae_action_type e)),
      (''policy_version'', jopt (ae_policy_version e)),
      (''decision'', jopt (ae_decision e)),
      (''reason'', jopt (ae_reason e)),
      (''metadata_json'', jopt (ae_metadata e)),
      (''created_at'', jopt (iso (ae_created_at e))),
      (''previous_hash'', jopt previous_hash)]"

definition compute_event_hash :: "env \<Rightarrow> audit_event \<Rightarrow> string option \<Rightarrow> string" where
  "compute_event_hash E row previous_hash = sha256 E (dumps_compact (canonical_payload row previous_hash))"

text \<open>The chained events in the order of \<open>seq\<close>, and the newest of them.\<close>

definition hashed :: "audit_event \<Rightarrow> bool" where
  "hashed e \<longleftrightarrow> ae_event_hash e \<noteq> None"

definition chain_head :: "audit_event list \<Rightarrow> audit_event option" where
  "chain_head es = first_row (order_desc ae_seq (filter hashed es))"

text \<open>The keyword arguments of \<open>record\<close> and their defaults.\<close>

record audit_args =
  arg_action :: string
  arg_resource_type :: string
  arg_resource_id :: string
  arg_tenant :: "string option"
  arg_actor :: "string option"
  arg_metadata :: dict
  arg_actor_user_id :: "string option"
  arg_actor_type :: "string option"
  arg_action_type :: "string option"
  arg_policy_version :: "string option"
  arg_decision :: "string option"
  arg_reason :: "string option"

definition audit_call :: "string \<Rightarrow> string \<Rightarrow> string \<Rightarrow> audit_args" where
  "audit_call action resource_type resource_id =
     \<lparr>arg_action = action, arg_resource_type = resource_type, arg_resource_id = resource_id,
      arg_tenant = None, arg_actor = None, arg_metadata = [], arg_actor_user_id = None,
      arg_actor_type = None, arg_action_type = None, arg_policy_version = None,
      arg_decision = None, arg_reason = None\<rparr>"

definition metadata_text :: "dict \<Rightarrow> string option" where
  "metadata_text m = (if m \<noteq> [] then Some (dumps_sorted (JObj m)) else None)"

text \<open>The row one attempt builds from the head it read.\<close>

definition audit_row :: "env \<Rightarrow> audit_args \<Rightarrow> audit_event option \<Rightarrow> string \<Rightarrow> time \<Rightarrow> audit_event" where
  "audit_row E a head pk now =
     (let previous_hash = (case head of Some h \<Rightarrow> ae_event_hash h | None \<Rightarrow> Some GENESIS_HASH);
          next_seq = (case head of Some h \<Rightarrow> (case ae_seq h of Some s \<Rightarrow> s + 1 | None \<Rightarrow> 1) | None \<Rightarrow> 1);
          row = \<lparr>ae_pk = pk, ae_action = arg_action a, ae_resource_type = arg_resource_type a,
                 ae_resource_id = arg_resource_id a, ae_tenant = arg_tenant a, ae_actor = arg_actor a,
                 ae_actor_user_id = arg_actor_user_id a, ae_actor_type = arg_actor_type a,
                 ae_action_type = arg_action_type a, ae_policy_version = arg_policy_version a,
                 ae_decision = arg_decision a, ae_reason = arg_reason a,
                 ae_metadata = metadata_text (arg_metadata a), ae_seq = Some next_seq,
                 ae_previous_hash = previous_hash, ae_event_hash = None, ae_created_at = Some now\<rparr>
      in row\<lparr>ae_event_hash := Some (compute_event_hash E row previous_hash)\<rparr>)"

text \<open>
  The retry loop. \<open>rivals i es\<close> is what the other writers do between the head read and the
  commit of attempt \<open>i\<close>: the audit table they leave, and whether the database is locked at
  that commit (OperationalError). The UNIQUE constraint on \<open>seq\<close> is the IntegrityError.
\<close>

type_synonym rivals = "nat \<Rightarrow> audit_event list \<Rightarrow> audit_event list \<times> bool"

fun record_attempts :: "env \<Rightarrow> rivals \<Rightarrow> audit_args \<Rightarrow> nat \<Rightarrow> nat \<Rightarrow> audit_event svc" where
  "record_attempts E rv a 0 i w =
     (Inl (RuntimeError ''audit record failed after 50 attempts''), w)"
| "record_attempts E rv a (Suc k) i w =
     (let row = audit_row E a (chain_head (audit_events w)) (uuid (uuids w)) (clock w);
          (es, locked) = rv i (audit_events w);
          w1 = w\<lparr>uuids := Suc (uuids w), audit_events := es\<rparr>
      in if locked \<or> list_ex (\<lambda>r. sql_eq (ae_seq r) (ae_seq row)) es
         then record_attempts E rv a k (Suc i) w1
         else (Inr row, w1\<lparr>audit_events := es @ [row]\<rparr>))"

definition record_with :: "env \<Rightarrow> rivals \<Rightarrow> audit_args \<Rightarrow> audit_event svc" where
  "record_with E rv a = record_attempts E rv a MAX_RECORD_ATTEMPTS 0"

text \<open>\<open>record\<close> as the services call it: no other writer between the read and the commit.\<close>

definition audit_record :: "env \<Rightarrow> audit_args \<Rightarrow> audit_event svc" where
  "audit_record E a = record_with E (\<lambda>_ es. (es, False)) a"

record chain_result =
  cr_status :: string
  cr_verified_count :: nat
  cr_total_count :: nat
  cr_broken_at_seq :: "int option"
  cr_reason :: "string option"

definition chain_result_ok :: "chain_result \<Rightarrow> bool" where
  "chain_result_ok r \<longleftrightarrow> cr_status r = ''verified'' \<or> cr_status r = ''empty''"

definition chain_failed :: "nat \<Rightarrow> nat \<Rightarrow> audit_event \<Rightarrow> string \<Rightarrow> chain_result" where
  "chain_failed index total_count row reason =
     \<lparr>cr_status = ''failed'', cr_verified_count = index, cr_total_count = total_count,
      cr_broken_at_seq = ae_seq row, cr_reason = Some reason\<rparr>"

definition chain_verified :: "nat \<Rightarrow> chain_result" where
  "chain_verified n = \<lparr>cr_status = ''verified'', cr_verified_count = n, cr_total_count = n,
     cr_broken_at_seq = None, cr_reason = None\<rparr>"

definition chain_empty :: chain_result where
  "chain_empty = \<lparr>cr_status = ''empty'', cr_verified_count = 0, cr_total_count = 0,
     cr_broken_at_seq = None, cr_reason = None\<rparr>"

fun verify_loop :: "env \<Rightarrow> nat \<Rightarrow> nat \<Rightarrow> string option \<Rightarrow> audit_event list \<Rightarrow> chain_result" where
  "verify_loop E total_count index expected_previous [] = chain_verified total_count"
| "verify_loop E total_count index expected_previous (row # rows) =
     (if ae_previous_hash row \<noteq> expected_previous then chain_failed index total_count row ''broken_link''
      else if Some (compute_event_hash E row (ae_previous_hash row)) \<noteq> ae_event_hash row
      then chain_failed index total_count row ''hash_mismatch''
      else verify_loop E total_count (Suc index) (ae_event_hash row) rows)"

definition verify_chain :: "env \<Rightarrow> audit_event list \<Rightarrow> chain_result" where
  "verify_chain E es =
     (let rows = sort_key ae_seq (filter hashed es) in
      if rows = [] then chain_empty else verify_loop E (length rows) 0 (Some GENESIS_HASH) rows)"

fun verify_tenant_loop :: "env \<Rightarrow> nat \<Rightarrow> nat \<Rightarrow> audit_event list \<Rightarrow> chain_result" where
  "verify_tenant_loop E total_count index [] = chain_verified total_count"
| "verify_tenant_loop E total_count index (row # rows) =
     (if Some (compute_event_hash E row (ae_previous_hash row)) \<noteq> ae_event_hash row
      then chain_failed index total_count row ''hash_mismatch''
      else verify_tenant_loop E total_count (Suc index) rows)"

definition verify_tenant_events :: "env \<Rightarrow> string \<Rightarrow> audit_event list \<Rightarrow> chain_result" where
  "verify_tenant_events E t es =
     (let rows = sort_key ae_seq (filter (\<lambda>e. ae_tenant e = Some t \<and> hashed e) es) in
      if rows = [] then chain_empty else verify_tenant_loop E (length rows) 0 rows)"

definition opt_filter :: "('r \<Rightarrow> string) \<Rightarrow> string option \<Rightarrow> 'r \<Rightarrow> bool" where
  "opt_filter f x r = (case x of None \<Rightarrow> True | Some v \<Rightarrow> v = [] \<or> f r = v)"

text \<open>\<open>LIMIT n\<close>: SQLite takes a negative bound as no bound.\<close>

definition sql_limit :: "int \<Rightarrow> 'r list \<Rightarrow> 'r list" where
  "sql_limit n rs = (if n < 0 then rs else take (nat n) rs)"

definition list_audit_events ::
  "string option \<Rightarrow> string option \<Rightarrow> string option \<Rightarrow> int \<Rightarrow> audit_event list \<Rightarrow> audit_event list" where
  "list_audit_events resource_type resource_id t limit es =
     sql_limit (min limit 500) (order_desc ae_created_at
       (filter (\<lambda>e. in_tenant ae_tenant t e \<and> opt_filter ae_resource_type resource_type e
                   \<and> opt_filter ae_resource_id resource_id e) es))"

definition list_for_resource :: "string \<Rightarrow> string \<Rightarrow> string option \<Rightarrow> audit_event list \<Rightarrow> audit_event list" where
  "list_for_resource resource_type resource_id t es =
     sort_key ae_created_at
       (filter (\<lambda>e. ae_resource_type e = resource_type \<and> ae_resource_id e = resource_id
                   \<and> in_tenant ae_tenant t e) es)"

section \<open>The chain as a specification\<close>

text \<open>
  \<open>linked E p rows\<close>: each row's \<open>previous_hash\<close> is the hash before it (\<open>p\<close> for the first) and
  its own hash is the digest of its canonical payload. \<open>chain_ok\<close>: the hashed rows are linked
  from GENESIS and numbered 1, 2, 3, ... in the order they were written, and a legacy row
  (no hash) has no number.
\<close>

fun linked :: "env \<Rightarrow> string option \<Rightarrow> audit_event list \<Rightarrow> bool" where
  "linked E p [] = True"
| "linked E p (row # rows) \<longleftrightarrow>
     ae_previous_hash row = p \<and> ae_event_hash row = Some (compute_event_hash E row p)
     \<and> linked E (ae_event_hash row) rows"

definition last_hash :: "string option \<Rightarrow> audit_event list \<Rightarrow> string option" where
  "last_hash p rows = (if rows = [] then p else ae_event_hash (last rows))"

definition chain_rows :: "audit_event list \<Rightarrow> audit_event list" where
  "chain_rows es = sort_key ae_seq (filter hashed es)"

definition chain_ok :: "env \<Rightarrow> audit_event list \<Rightarrow> bool" where
  "chain_ok E es \<longleftrightarrow>
     linked E (Some GENESIS_HASH) (filter hashed es)
     \<and> map ae_seq (filter hashed es) = map (\<lambda>n. Some (int n + 1)) [0..<length (filter hashed es)]
     \<and> list_all (\<lambda>e. hashed e \<or> ae_seq e = None) es"

lemma last_hash_Nil [simp]: "last_hash p [] = p"
  by (simp add: last_hash_def)

lemma last_hash_Cons [simp]: "last_hash p (row # rows) = last_hash (ae_event_hash row) rows"
  by (simp add: last_hash_def)

lemma last_hash_snoc [simp]: "last_hash p (rows @ [row]) = ae_event_hash row"
  by (simp add: last_hash_def)

lemma linked_append:
  "linked E p (xs @ ys) \<longleftrightarrow> linked E p xs \<and> linked E (last_hash p xs) ys"
  by (induction xs arbitrary: p) auto

lemma seqs_increasing:
  assumes "map ae_seq rs = map (\<lambda>n. Some (int n + 1)) [0..<k]"
  shows "sorted_wrt (<) (map ae_seq rs)"
  unfolding assms by (induction k) (auto simp: sorted_wrt_append)

lemma chain_ok_chain_rows: "chain_ok E es \<Longrightarrow> chain_rows es = filter hashed es"
  unfolding chain_rows_def chain_ok_def
  by (elim conjE, drule seqs_increasing) (intro sort_key_id_if_sorted strict_sorted_imp_sorted)

lemma chain_ok_head:
  assumes "chain_ok E es"
  shows "chain_head es = (if filter hashed es = [] then None else Some (last (filter hashed es)))"
proof -
  have "order_desc ae_seq (filter hashed es) = rev (filter hashed es)"
    using assms by (intro order_desc_increasing seqs_increasing) (auto simp: chain_ok_def)
  then show ?thesis
    by (cases "filter hashed es" rule: rev_cases) (simp_all add: chain_head_def first_row_def)
qed

lemma chain_ok_snoc_seq:
  assumes "chain_ok E es" and "filter hashed es \<noteq> []"
  shows "ae_seq (last (filter hashed es)) = Some (int (length (filter hashed es)))"
proof -
  let ?n = "length (filter hashed es)"
  have "ae_seq (last (filter hashed es)) = last (map ae_seq (filter hashed es))"
    using assms(2) by (simp add: last_map)
  also have "\<dots> = last (map (\<lambda>n. Some (int n + 1)) [0..<?n])"
    using assms(1) by (simp only: chain_ok_def)
  also have "\<dots> = Some (int ?n)"
    using assms(2) by (cases ?n) simp_all
  finally show ?thesis .
qed

text \<open>The row an attempt builds on the head of a good chain.\<close>

lemma audit_row_good:
  assumes "chain_ok E es"
  shows "ae_seq (audit_row E a (chain_head es) pk now) = Some (int (length (filter hashed es)) + 1)"
    and "ae_previous_hash (audit_row E a (chain_head es) pk now) = last_hash (Some GENESIS_HASH) (filter hashed es)"
    and "ae_event_hash (audit_row E a (chain_head es) pk now)
       = Some (compute_event_hash E (audit_row E a (chain_head es) pk now)
                (ae_previous_hash (audit_row E a (chain_head es) pk now)))"
  using chain_ok_snoc_seq [OF assms]
  by (auto simp: chain_ok_head [OF assms] audit_row_def Let_def last_hash_def compute_event_hash_def
      canonical_payload_def)

lemma hashed_audit_row [simp]: "hashed (audit_row E a h pk now)"
  by (simp add: hashed_def audit_row_def Let_def)

lemma chain_ok_append:
  assumes "chain_ok E es" and "ae_seq row = Some (int (length (filter hashed es)) + 1)"
    and "ae_previous_hash row = last_hash (Some GENESIS_HASH) (filter hashed es)"
    and "ae_event_hash row = Some (compute_event_hash E row (ae_previous_hash row))"
  shows "chain_ok E (es @ [row])"
  using assms by (simp add: chain_ok_def linked_append hashed_def)

lemma chain_ok_seq_bound:
  assumes "chain_ok E es" and "e \<in> set es" and "ae_seq e = Some s"
  shows "1 \<le> s \<and> s \<le> int (length (filter hashed es))"
proof -
  have "e \<in> set (filter hashed es)" using assms by (auto simp: chain_ok_def list_all_iff)
  then have "Some s \<in> set (map ae_seq (filter hashed es))" using assms(3) by (metis imageI set_map)
  moreover have "set (map ae_seq (filter hashed es)) = set (map (\<lambda>n. Some (int n + 1)) [0..<length (filter hashed es)])"
    using assms(1) by (simp only: chain_ok_def)
  ultimately show ?thesis by auto
qed

lemma chain_ok_no_clash:
  assumes "chain_ok E es" and "ae_seq row = Some (int (length (filter hashed es)) + 1)"
  shows "\<not> list_ex (\<lambda>r. sql_eq (ae_seq r) (ae_seq row)) es"
  using chain_ok_seq_bound [OF assms(1)] assms(2) by (fastforce simp: list_ex_iff sql_eq_def)

section \<open>What recording does to the trail\<close>

text \<open>
  Every operation of the program lets the trail grow: it only appends, and a good chain
  stays good.
\<close>

text \<open>Every metadata text in the trail is one that \<open>record\<close> wrote of a dictionary.\<close>

definition metadata_written :: "audit_event list \<Rightarrow> bool" where
  "metadata_written es \<longleftrightarrow> list_all (\<lambda>r. \<exists>m. ae_metadata r = metadata_text m) es"

definition audit_grows :: "env \<Rightarrow> world \<Rightarrow> world \<Rightarrow> bool" where
  "audit_grows E w v \<longleftrightarrow>
     (chain_ok E (audit_events w) \<longrightarrow> chain_ok E (audit_events v) \<and> prefix (audit_events w) (audit_events v)
       \<and> (metadata_written (audit_events w) \<longrightarrow> metadata_written (audit_events v)))"

lemma audit_grows_refl [simp]: "audit_grows E w w"
  by (simp add: audit_grows_def)

interpretation audit_evo: evolution "audit_grows E" for E
  by unfold_locales (auto simp: audit_grows_def intro: prefix_order.order_trans)

lemmas [evo] = audit_evo.evo_ret audit_evo.evo_raise audit_evo.evo_gets audit_evo.evo_lift
  audit_evo.evo_bind audit_evo.evo_catch audit_evo.evo_foreach

lemma evolves_only_audit: "evolves (only S) m \<Longrightarrow> TAudit \<notin> S \<Longrightarrow> evolves (audit_grows E) m"
  by (auto simp: evolves_def audit_grows_def only_def all_table)

lemma new_id_grows [evo]: "evolves (audit_grows E) new_id"
  by (rule evolves_only_audit [of "{}"]) (intro evo, simp)

lemma insert_row_grows: "touches upd t \<Longrightarrow> t \<noteq> TAudit \<Longrightarrow> evolves (audit_grows E) (insert_row upd r)"
  by (rule evolves_only_audit [of "{t}"]) (simp_all add: insert_row_only)

lemma save_row_grows: "touches upd t \<Longrightarrow> t \<noteq> TAudit \<Longrightarrow> evolves (audit_grows E) (save_row upd key r)"
  by (rule evolves_only_audit [of "{t}"]) (simp_all add: save_row_only)

lemma update_row_grows: "touches upd t \<Longrightarrow> t \<noteq> TAudit \<Longrightarrow> evolves (audit_grows E) (update_row upd key k f)"
  by (rule evolves_only_audit [of "{t}"]) (simp_all add: update_row_only)

lemma insert_unique_grows:
  "touches upd t \<Longrightarrow> t \<noteq> TAudit \<Longrightarrow> evolves (audit_grows E) (insert_unique rows upd clash n r)"
  by (rule evolves_only_audit [of "{t}"]) (simp_all add: insert_unique_only)

lemmas other_tables = touches_world(1-10,12-29)

lemmas [evo] = other_tables [THEN insert_row_grows, simplified] other_tables [THEN save_row_grows, simplified]
  other_tables [THEN update_row_grows, simplified] other_tables [THEN insert_unique_grows, simplified]

lemma audit_record_eq:
  assumes "chain_ok E (audit_events w)"
    and "row = audit_row E a (chain_head (audit_events w)) (uuid (uuids w)) (clock w)"
  shows "audit_record E a w = (Inr row, w\<lparr>uuids := Suc (uuids w), audit_events := audit_events w @ [row]\<rparr>)"
proof -
  have "\<not> list_ex (\<lambda>r. sql_eq (ae_seq r) (ae_seq row)) (audit_events w)"
    unfolding assms(2) by (intro chain_ok_no_clash [OF assms(1)] audit_row_good(1) assms(1))
  then show ?thesis
    by (simp add: audit_record_def record_with_def MAX_RECORD_ATTEMPTS_def numeral_eq_Suc Let_def assms(2))
qed

lemma audit_record_run:
  assumes "chain_ok E (audit_events w)"
  obtains row where
    "audit_record E a w = (Inr row, w\<lparr>uuids := Suc (uuids w), audit_events := audit_events w @ [row]\<rparr>)"
    "row = audit_row E a (chain_head (audit_events w)) (uuid (uuids w)) (clock w)"
    "chain_ok E (audit_events w @ [row])"
proof (rule that)
  let ?row = "audit_row E a (chain_head (audit_events w)) (uuid (uuids w)) (clock w)"
  show "audit_record E a w = (Inr ?row, w\<lparr>uuids := Suc (uuids w), audit_events := audit_events w @ [?row]\<rparr>)"
    by (rule audit_record_eq [OF assms refl])
  show "chain_ok E (audit_events w @ [?row])"
    by (intro chain_ok_append audit_row_good assms)
qed simp

text \<open>What other writers may do: append events that keep the chain good.\<close>

definition fair_rivals :: "env \<Rightarrow> rivals \<Rightarrow> bool" where
  "fair_rivals E rv \<longleftrightarrow> (\<forall>i es. chain_ok E es \<longrightarrow> chain_ok E (fst (rv i es)) \<and> prefix es (fst (rv i es)))"

lemma chain_ok_prefix_seq:
  assumes "chain_ok E es" "chain_ok E es'" "prefix es es'"
    and "\<not> list_ex (\<lambda>r. ae_seq r = Some (int (length (filter hashed es)) + 1)) es'"
  shows "filter hashed es' = filter hashed es"
proof -
  from assms(3) obtain ys where es': "es' = es @ ys" by (auto simp: prefix_def)
  have "filter hashed ys = []"
  proof (rule ccontr)
    assume ne: "filter hashed ys \<noteq> []"
    let ?n = "length (filter hashed es)"
    have "map ae_seq (filter hashed es') = map (\<lambda>n. Some (int n + 1)) [0..<length (filter hashed es')]"
      using assms(2) by (simp only: chain_ok_def)
    then have "map ae_seq (filter hashed es') ! ?n = Some (int ?n + 1)"
      using ne by (simp add: es')
    then have "ae_seq (hd (filter hashed ys)) = Some (int ?n + 1)"
      using ne by (simp add: es' nth_append hd_conv_nth)
    moreover have "hd (filter hashed ys) \<in> set es'"
      using hd_in_set [OF ne] by (simp add: es')
    ultimately show False using assms(4) by (auto simp: list_ex_iff)
  qed
  then show ?thesis by (simp add: es')
qed

lemma chain_ok_snoc_row:
  assumes "chain_ok E es" "chain_ok E es'" "prefix es es'"
    and "\<not> list_ex (\<lambda>r. sql_eq (ae_seq r) (ae_seq (audit_row E a (chain_head es) pk now))) es'"
  shows "chain_ok E (es' @ [audit_row E a (chain_head es) pk now])"
proof -
  have same: "filter hashed es' = filter hashed es"
    using assms audit_row_good(1) [OF assms(1)]
    by (intro chain_ok_prefix_seq) (auto simp: sql_eq_def list_ex_iff)
  show ?thesis
    using audit_row_good [OF assms(1)] by (intro chain_ok_append assms(2)) (simp_all add: same)
qed

lemma record_attempts_sound:
  assumes "fair_rivals E rv" and "chain_ok E (audit_events w)"
  shows "chain_ok E (audit_events (after (record_attempts E rv a k i) w))
     \<and> prefix (audit_events w) (audit_events (after (record_attempts E rv a k i) w))
     \<and> (case result (record_attempts E rv a k i) w of
          Inr row \<Rightarrow> suffix [row] (audit_events (after (record_attempts E rv a k i) w))
        | Inl e \<Rightarrow> e = RuntimeError ''audit record failed after 50 attempts'')"
  using assms(2)
proof (induction k arbitrary: i w)
  case 0
  then show ?case by simp
next
  case (Suc k)
  let ?row = "audit_row E a (chain_head (audit_events w)) (uuid (uuids w)) (clock w)"
  obtain es locked where rv: "rv i (audit_events w) = (es, locked)" by fastforce
  have ok: "chain_ok E es" and pre: "prefix (audit_events w) es"
    using assms(1) Suc.prems rv by (auto simp: fair_rivals_def) (metis fst_conv)+
  let ?w1 = "w\<lparr>uuids := Suc (uuids w), audit_events := es\<rparr>"
  show ?case
  proof (cases "locked \<or> list_ex (\<lambda>r. sql_eq (ae_seq r) (ae_seq ?row)) es")
    case True
    then have "record_attempts E rv a (Suc k) i w = record_attempts E rv a k (Suc i) ?w1"
      by (auto simp: rv Let_def)
    then show ?thesis
      using Suc.IH [of ?w1 "Suc i"] ok pre
      by (simp only:) (auto intro: prefix_order.order_trans)
  next
    case False
    then show ?thesis
      using chain_ok_snoc_row [OF Suc.prems ok pre] pre
      by (simp add: rv Let_def prefix_prefix)
  qed
qed

lemma metadata_written_Nil [simp]: "metadata_written []"
  by (simp add: metadata_written_def)

lemma metadata_written_row: "metadata_written (es @ [audit_row E a h k n]) \<longleftrightarrow> metadata_written es"
  by (auto simp: metadata_written_def audit_row_def Let_def)

lemma audit_record_grows [evo]: "evolves (audit_grows E) (audit_record E a)"
proof (rule evolvesI)
  fix w show "audit_grows E w (snd (audit_record E a w))"
  proof (cases "chain_ok E (audit_events w)")
    case True
    then show ?thesis
      by (rule audit_record_run [where a = a]) (simp add: audit_grows_def metadata_written_row)
  qed (simp add: audit_grows_def)
qed

lemma record_attempts_only: "only {TAudit} w (snd (record_attempts E rv a k i w))"
proof (induction k arbitrary: i w)
  case (Suc k)
  obtain es locked where rv: "rv i (audit_events w) = (es, locked)" by fastforce
  have step: "only {TAudit} w (w\<lparr>uuids := Suc (uuids w), audit_events := es'\<rparr>)" for es'
    unfolding only_def all_table by simp
  show ?case
    using only_evo.evo_trans [OF step Suc] step by (auto simp: rv Let_def)
qed simp

lemma audit_record_only [evo]: "TAudit \<in> S \<Longrightarrow> evolves (only S) (audit_record E a)"
  by (rule evolvesI) (auto simp: audit_record_def record_with_def intro: only_mono [OF _ record_attempts_only])

section \<open>What the verifier decides\<close>

text \<open>The position of the first event at which a list stops being linked.\<close>

definition break_at :: "env \<Rightarrow> string option \<Rightarrow> audit_event list \<Rightarrow> nat" where
  "break_at E p rows = length (takeWhile (\<lambda>n. linked E p (take (Suc n) rows)) [0..<length rows])"

definition break_reason :: "string option \<Rightarrow> audit_event \<Rightarrow> string" where
  "break_reason p row = (if ae_previous_hash row \<noteq> p then ''broken_link'' else ''hash_mismatch'')"

definition chain_report :: "env \<Rightarrow> nat \<Rightarrow> nat \<Rightarrow> string option \<Rightarrow> audit_event list \<Rightarrow> chain_result" where
  "chain_report E total_count index p rows =
     (if linked E p rows then chain_verified total_count
      else let n = break_at E p rows
           in chain_failed (index + n) total_count (rows ! n) (break_reason (last_hash p (take n rows)) (rows ! n)))"

lemma upt_Suc_Cons: "[0..<Suc n] = 0 # map Suc [0..<n]"
  by (simp add: map_Suc_upt upt_conv_Cons del: upt_Suc)

lemma break_at_Cons:
  "break_at E p (row # rows) = (if linked E p [row] then Suc (break_at E (ae_event_hash row) rows) else 0)"
  by (simp add: break_at_def upt_Suc_Cons takeWhile_map o_def del: upt_Suc)

lemma verify_loop_report: "verify_loop E total_count index p rows = chain_report E total_count index p rows"
proof (induction rows arbitrary: index p)
  case Nil
  then show ?case by (simp add: chain_report_def)
next
  case (Cons row rows)
  then show ?case by (auto simp: chain_report_def break_at_Cons break_reason_def Let_def)
qed

lemma chain_status [simp]:
  "cr_status (chain_verified n) = ''verified''" "cr_status chain_empty = ''empty''"
  "cr_status (chain_failed i n r s) = ''failed''"
  by (simp_all add: chain_verified_def chain_empty_def chain_failed_def)

lemma verify_chain_verified:
  "cr_status (verify_chain E es) = ''verified'' \<longleftrightarrow> chain_rows es \<noteq> [] \<and> linked E (Some GENESIS_HASH) (chain_rows es)"
  by (simp add: verify_chain_def verify_loop_report chain_report_def chain_rows_def Let_def)

lemma chain_ok_verified:
  assumes "chain_ok E es"
  shows "verify_chain E es = (if filter hashed es = [] then chain_empty else chain_verified (length (filter hashed es)))"
  using chain_ok_chain_rows [OF assms] assms
  by (simp add: verify_chain_def verify_loop_report chain_report_def chain_rows_def chain_ok_def Let_def)

section \<open>Tamper evidence\<close>

text \<open>The text whose digest is the event's hash, and what it commits to.\<close>

definition committed :: "audit_event \<Rightarrow> json" where
  "committed e = canonical_payload e (ae_previous_hash e)"

definition committed_text :: "audit_event \<Rightarrow> string" where
  "committed_text e = dumps_compact (committed e)"

lemma scalar_simps [simp]: "scalar (JStr s)" "scalar (jopt x)" "scalar (jint_opt i)"
  by (auto simp: scalar_def jopt_def jint_opt_def split: option.split)

lemma jopt_inject [simp]: "jopt x = jopt y \<longleftrightarrow> x = y"
  by (auto simp: jopt_def split: option.splits)

lemma committed_text_inject: "committed_text e = committed_text e' \<Longrightarrow> committed e = committed e'"
  unfolding committed_text_def committed_def canonical_payload_def
  by (rule arg_cong [where f = JObj], rule dumps_compact_inject) simp_all

text \<open>Everything an event says: all its columns but its key and its own hash, the time as it is printed.\<close>

definition contents :: "audit_event \<Rightarrow> audit_event \<times> string option" where
  "contents e = (e\<lparr>ae_pk := [], ae_event_hash := None, ae_created_at := None\<rparr>, iso (ae_created_at e))"

lemma jint_opt_inject [simp]: "jint_opt x = jint_opt y \<longleftrightarrow> x = y"
  by (auto simp: jint_opt_def split: option.splits)

lemma committed_contents: "committed e = committed e' \<Longrightarrow> contents e = contents e'"
  by (cases e; cases e') (simp add: committed_def canonical_payload_def contents_def)

lemma map_committed_contents: "map committed es = map committed es' \<Longrightarrow> map contents es = map contents es'"
proof (induction es arbitrary: es')
  case (Cons e es)
  then obtain e' rest where "es' = e' # rest" by (cases es') auto
  then show ?case using Cons.IH [of rest] Cons.prems committed_contents [of e e'] by simp
qed simp

lemma committed_previous: "committed e = committed e' \<Longrightarrow> ae_previous_hash e = ae_previous_hash e'"
  by (simp add: committed_def canonical_payload_def)

lemma linked_hash: "linked E p rows \<Longrightarrow> e \<in> set rows \<Longrightarrow> ae_event_hash e = Some (sha256 E (committed_text e))"
  by (induction rows arbitrary: p) (auto simp: compute_event_hash_def committed_text_def committed_def)

text \<open>A digest that makes two different texts agree, or that reaches GENESIS.\<close>

definition digest_broken :: "env \<Rightarrow> string set \<Rightarrow> bool" where
  "digest_broken E T \<longleftrightarrow> (\<exists>x \<in> T. \<exists>y \<in> T. x \<noteq> y \<and> sha256 E x = sha256 E y) \<or> GENESIS_HASH \<in> sha256 E ` T"

lemma digest_inject:
  "\<not> digest_broken E T \<Longrightarrow> x \<in> T \<Longrightarrow> y \<in> T \<Longrightarrow> sha256 E x = sha256 E y \<Longrightarrow> x = y"
  unfolding digest_broken_def by blast

lemma digest_broken_mono: "digest_broken E S \<Longrightarrow> S \<subseteq> T \<Longrightarrow> digest_broken E T"
  unfolding digest_broken_def by blast

lemma linked_determined:
  assumes "linked E (Some GENESIS_HASH) rs" and "linked E (Some GENESIS_HASH) rs'"
    and "last_hash (Some GENESIS_HASH) rs = last_hash (Some GENESIS_HASH) rs'"
    and "\<not> digest_broken E (committed_text ` (set rs \<union> set rs'))"
  shows "map committed rs = map committed rs'"
  using assms
proof (induction rs arbitrary: rs' rule: rev_induct)
  case Nil
  show ?case
  proof (cases rs' rule: rev_cases)
    case (snoc ys y)
    then have "sha256 E (committed_text y) = GENESIS_HASH"
      using Nil linked_hash [OF Nil.prems(2), of y] by simp
    then show ?thesis using Nil.prems(4) snoc by (auto simp: digest_broken_def)
  qed simp
next
  case (snoc r rs)
  have hr: "ae_event_hash r = Some (sha256 E (committed_text r))"
    using linked_hash [OF snoc.prems(1), of r] by simp
  show ?case
  proof (cases rs' rule: rev_cases)
    case Nil
    then show ?thesis using hr snoc.prems(3,4) by (auto simp: digest_broken_def)
  next
    case (snoc ys y)
    have hy: "ae_event_hash y = Some (sha256 E (committed_text y))"
      using linked_hash [OF snoc.prems(2), of y] by (simp add: snoc)
    have "sha256 E (committed_text r) = sha256 E (committed_text y)"
      using snoc.prems(3) hr hy by (simp add: snoc)
    then have "committed_text r = committed_text y"
      by (rule digest_inject [OF snoc.prems(4), rotated 2]) (simp_all add: snoc)
    then have eq: "committed r = committed y" by (rule committed_text_inject)
    have "last_hash (Some GENESIS_HASH) rs = last_hash (Some GENESIS_HASH) ys"
      using snoc.prems(1,2) committed_previous [OF eq] by (simp add: snoc linked_append)
    moreover have "\<not> digest_broken E (committed_text ` (set rs \<union> set ys))"
      by (rule contrapos_nn [OF snoc.prems(4)], erule digest_broken_mono) (auto simp: snoc)
    ultimately have "map committed rs = map committed ys"
      using snoc.IH snoc.prems(1,2) by (simp add: snoc linked_append)
    then show ?thesis by (simp add: snoc eq)
  qed
qed

section \<open>Shorter chains, free attempts, tenant checks\<close>

lemma chain_ok_prefix:
  assumes "chain_ok E (es @ es')"
  shows "chain_ok E es"
proof -
  let ?k = "length (filter hashed es)" and ?n = "length (filter hashed (es @ es'))"
  have "map ae_seq (filter hashed es) = take ?k (map ae_seq (filter hashed (es @ es')))" by simp
  also have "\<dots> = take ?k (map (\<lambda>n. Some (int n + 1)) [0..<?n])"
    using assms by (simp only: chain_ok_def)
  also have "\<dots> = map (\<lambda>n. Some (int n + 1)) [0..<?k]" by (simp add: take_map)
  finally show ?thesis using assms by (simp add: chain_ok_def linked_append)
qed

lemma record_attempts_free:
  assumes "fair_rivals E rv" and "chain_ok E (audit_events w)"
    and "i \<le> j" "j < i + k" "\<forall>es. rv j es = (es, False)"
  shows "\<exists>row. result (record_attempts E rv a k i) w = Inr row"
  using assms(2-4)
proof (induction k arbitrary: i w)
  case (Suc k)
  let ?row = "audit_row E a (chain_head (audit_events w)) (uuid (uuids w)) (clock w)"
  obtain es locked where rv: "rv i (audit_events w) = (es, locked)" by fastforce
  have ok: "chain_ok E es"
    using assms(1) Suc.prems(1) rv by (auto simp: fair_rivals_def) (metis fst_conv)
  show ?case
  proof (cases "locked \<or> list_ex (\<lambda>r. sql_eq (ae_seq r) (ae_seq ?row)) es")
    case True
    have "i \<noteq> j"
    proof
      assume "i = j"
      then have "es = audit_events w" "\<not> locked" using assms(5) rv by auto
      then show False
        using True chain_ok_no_clash [OF Suc.prems(1) audit_row_good(1) [OF Suc.prems(1)]] by simp
    qed
    moreover have "record_attempts E rv a (Suc k) i w
        = record_attempts E rv a k (Suc i) (w\<lparr>uuids := Suc (uuids w), audit_events := es\<rparr>)"
      using True by (auto simp: rv Let_def)
    ultimately show ?thesis
      using Suc.IH [of "w\<lparr>uuids := Suc (uuids w), audit_events := es\<rparr>" "Suc i"] ok Suc.prems(2,3) by simp
  qed (simp add: rv Let_def)
qed simp

definition self_hashed :: "env \<Rightarrow> audit_event \<Rightarrow> bool" where
  "self_hashed E e \<longleftrightarrow> ae_event_hash e = Some (compute_event_hash E e (ae_previous_hash e))"

lemma verify_tenant_loop_status:
  "cr_status (verify_tenant_loop E n i rows) = (if list_all (self_hashed E) rows then ''verified'' else ''failed'')"
  by (induction rows arbitrary: i) (auto simp: self_hashed_def)

lemma linked_self_hashed: "linked E p rows \<Longrightarrow> e \<in> set rows \<Longrightarrow> self_hashed E e"
  by (induction rows arbitrary: p) (auto simp: self_hashed_def)

section \<open>A sample trail\<close>

definition sample_call :: audit_args where
  "sample_call = (audit_call ''approval.created'' ''approval'' ''a1'')\<lparr>arg_tenant := Some ''t1''\<rparr>"

definition sample_trail :: "audit_event list" where
  "sample_trail = audit_events (after (bindM (audit_record sample_env sample_call)
     (\<lambda>_. audit_record sample_env sample_call)) empty_world)"

lemma chain_ok_Nil [simp]: "chain_ok E []"
  by (simp add: chain_ok_def)

lemma empty_world_trail [simp]: "audit_events empty_world = []"
  by (simp add: empty_world_def)

lemma sample_trail_ok: "chain_ok sample_env sample_trail"
  using evolvesD [OF audit_evo.evo_bind [OF audit_record_grows audit_record_grows],
      of sample_env empty_world sample_call "\<lambda>_. sample_call"]
  by (simp add: audit_grows_def sample_trail_def)

lemma sample_trail_hashed: "filter hashed (take 1 sample_trail) \<noteq> []"
proof -
  obtain row where 1: "audit_record sample_env sample_call empty_world
      = (Inr row, empty_world\<lparr>uuids := Suc (uuids empty_world), audit_events := [] @ [row]\<rparr>)"
    "hashed row" "chain_ok sample_env ([] @ [row])"
    using audit_record_run [of sample_env empty_world sample_call] hashed_audit_row
    unfolding empty_world_trail by (metis chain_ok_Nil)
  let ?w1 = "empty_world\<lparr>uuids := Suc (uuids empty_world), audit_events := [] @ [row]\<rparr>"
  have "chain_ok sample_env (audit_events ?w1)" using 1(3) by simp
  then obtain row2 where 2: "audit_record sample_env sample_call ?w1
      = (Inr row2, ?w1\<lparr>uuids := Suc (uuids ?w1), audit_events := audit_events ?w1 @ [row2]\<rparr>)"
    by (rule audit_record_run [of sample_env ?w1 sample_call])
  have trail: "sample_trail = [row, row2]"
    using 1 2 by (simp add: sample_trail_def bindM_def)
  show ?thesis unfolding trail using 1(2) by simp
qed

text \<open>The primary key is not part of the chain.\<close>

lemma hashed_rename [simp]: "filter hashed (map (ae_pk_update g) es) = map (ae_pk_update g) (filter hashed es)"
  by (induction es) (simp_all add: hashed_def)

lemma chain_ok_rename [simp]: "chain_ok E (map (ae_pk_update g) es) = chain_ok E es"
proof -
  have "compute_event_hash E (ae_pk_update g e) p = compute_event_hash E e p" for e p
    by (simp add: compute_event_hash_def canonical_payload_def)
  then have "linked E p (map (ae_pk_update g) rs) = linked E p rs" for p rs
    by (induction rs arbitrary: p) auto
  then show ?thesis by (simp add: chain_ok_def o_def list_all_iff) (simp add: hashed_def)
qed

definition sample_rivals :: rivals where
  "sample_rivals i es =
     (if i = 0 then (es @ [audit_row sample_env sample_call (chain_head es) ''rival'' 7], False)
      else (es, False))"

lemma sample_rivals_fair: "fair_rivals sample_env sample_rivals"
  by (auto simp: fair_rivals_def sample_rivals_def intro!: chain_ok_append audit_row_good)

section \<open>Properties\<close>

text \<open>C6: two audit trails that both verify and end in the same hash say the same, event by event and
  column by column (sequence, action, resource, tenant, actors, policy version, decision, reason,
  metadata, time and previous hash), unless the digest itself is broken on the texts the two trails
  hash (two different texts with one digest, or a text whose digest is GENESIS).\<close>

theorem tamper_evidence:
  assumes "cr_status (verify_chain E es) = ''verified''" and "cr_status (verify_chain E es') = ''verified''"
    and "ae_event_hash (last (chain_rows es)) = ae_event_hash (last (chain_rows es'))"
  shows "map contents (chain_rows es) = map contents (chain_rows es')
     \<or> digest_broken E (committed_text ` (set (chain_rows es) \<union> set (chain_rows es')))"
  using assms linked_determined [of E "chain_rows es" "chain_rows es'"]
    map_committed_contents [of "chain_rows es" "chain_rows es'"]
  by (auto simp: verify_chain_verified last_hash_def)

theorem tamper_evidence_witness:
  "map contents (chain_rows sample_trail)
     = map contents (chain_rows (map (ae_pk_update (\<lambda>_. ''copy'')) sample_trail))
   \<or> digest_broken sample_env (committed_text ` (set (chain_rows sample_trail)
       \<union> set (chain_rows (map (ae_pk_update (\<lambda>_. ''copy'')) sample_trail))))"
proof (rule tamper_evidence)
  let ?copy = "map (ae_pk_update (\<lambda>_. ''copy'')) sample_trail"
  have ok: "chain_ok sample_env ?copy" using sample_trail_ok by simp
  have ne: "filter hashed sample_trail \<noteq> []"
    using sample_trail_hashed by (auto simp: filter_empty_conv dest: in_set_takeD)
  then show "cr_status (verify_chain sample_env sample_trail) = ''verified''"
    by (simp add: chain_ok_verified [OF sample_trail_ok])
  show "cr_status (verify_chain sample_env ?copy) = ''verified''"
    using ne by (simp add: chain_ok_verified [OF ok])
  show "ae_event_hash (last (chain_rows sample_trail)) = ae_event_hash (last (chain_rows ?copy))"
    using ne by (simp add: chain_ok_chain_rows [OF ok] chain_ok_chain_rows [OF sample_trail_ok] last_map)
qed

text \<open>C7: on a good chain, recording appends exactly one event, never fails, and the longer
  chain verifies with the new event counted.\<close>

theorem record_extends_chain:
  assumes "chain_ok E (audit_events w)"
  shows "\<exists>row. audit_record E a w
        = (Inr row, w\<lparr>uuids := Suc (uuids w), audit_events := audit_events w @ [row]\<rparr>)
     \<and> chain_ok E (audit_events w @ [row])
     \<and> verify_chain E (audit_events w @ [row]) = chain_verified (Suc (length (filter hashed (audit_events w))))
     \<and> ae_action row = arg_action a \<and> ae_resource_id row = arg_resource_id a
     \<and> ae_tenant row = arg_tenant a \<and> ae_created_at row = Some (clock w)"
proof -
  obtain row where r: "audit_record E a w
        = (Inr row, w\<lparr>uuids := Suc (uuids w), audit_events := audit_events w @ [row]\<rparr>)"
    "row = audit_row E a (chain_head (audit_events w)) (uuid (uuids w)) (clock w)"
    "chain_ok E (audit_events w @ [row])"
    using audit_record_run [OF assms] by blast
  have "verify_chain E (audit_events w @ [row]) = chain_verified (Suc (length (filter hashed (audit_events w))))"
    using chain_ok_verified [OF r(3)] by (simp add: r(2))
  moreover have "ae_action row = arg_action a \<and> ae_resource_id row = arg_resource_id a
     \<and> ae_tenant row = arg_tenant a \<and> ae_created_at row = Some (clock w)"
    by (simp add: r(2) audit_row_def Let_def)
  ultimately show ?thesis using r(1,3) by blast
qed

theorem record_extends_chain_witness:
  "\<exists>row. audit_record sample_env sample_call empty_world
      = (Inr row, empty_world\<lparr>uuids := 1, audit_events := [row]\<rparr>)
   \<and> verify_chain sample_env [row] = chain_verified 1 \<and> ae_tenant row = Some ''t1''"
  using record_extends_chain [of sample_env empty_world sample_call]
  by (auto simp: sample_call_def empty_world_def)

text \<open>C35: \<open>verify_chain\<close> answers empty on no chained event, verified exactly when the events
  are linked from GENESIS in the order of \<open>seq\<close>, and otherwise the first break: how many
  events verified before it, its \<open>seq\<close>, and which of the two checks failed there.\<close>

theorem verify_chain_reports:
  "verify_chain E es =
     (let rows = chain_rows es; n = break_at E (Some GENESIS_HASH) rows in
      if rows = [] then chain_empty
      else if linked E (Some GENESIS_HASH) rows then chain_verified (length rows)
      else chain_failed n (length rows) (rows ! n)
             (break_reason (last_hash (Some GENESIS_HASH) (take n rows)) (rows ! n)))"
  by (simp add: verify_chain_def verify_loop_report chain_report_def chain_rows_def Let_def)

text \<open>C11: with other writers appending good events between every head read and commit, a
  record never forks the chain: the chain stays good and only grows, the row it returns is the
  last one, and it gives up only with the RuntimeError, never when some attempt ran free.\<close>

theorem concurrent_record:
  assumes "fair_rivals E rv" and "chain_ok E (audit_events w)" and "v = after (record_with E rv a) w"
  shows "chain_ok E (audit_events v) \<and> prefix (audit_events w) (audit_events v)
     \<and> (case result (record_with E rv a) w of
          Inr row \<Rightarrow> suffix [row] (audit_events v)
        | Inl e \<Rightarrow> e = RuntimeError ''audit record failed after 50 attempts''
                   \<and> (\<forall>i < 50. \<exists>es. rv i es \<noteq> (es, False)))"
proof -
  have free: "\<exists>row. result (record_with E rv a) w = Inr row" if "i < 50" "\<forall>es. rv i es = (es, False)" for i
    using record_attempts_free [OF assms(1,2), of 0 i 50] that
    by (simp add: record_with_def MAX_RECORD_ATTEMPTS_def)
  have "\<exists>es. rv i es \<noteq> (es, False)" if "result (record_with E rv a) w = Inl e" "i < 50" for e i
  proof (rule ccontr)
    assume "\<not> ?thesis"
    then show False using free [OF that(2)] that(1) by simp
  qed
  then show ?thesis
    using record_attempts_sound [OF assms(1,2), of a MAX_RECORD_ATTEMPTS 0]
    unfolding assms(3) record_with_def by (cases "result (record_attempts E rv a MAX_RECORD_ATTEMPTS 0) w") simp_all
qed

theorem concurrent_record_witness:
  "chain_ok sample_env (audit_events (after (record_with sample_env sample_rivals sample_call) empty_world))"
  using concurrent_record [OF sample_rivals_fair _ refl, of empty_world sample_call] by simp

text \<open>The tenant check verifies exactly when every chained event of the tenant carries the
  digest of its own contents, so it always passes on a good chain; it says nothing on links.\<close>

theorem tenant_verification:
  "cr_status (verify_tenant_events E t es) =
     (if filter (\<lambda>e. ae_tenant e = Some t \<and> hashed e) es = [] then ''empty''
      else if list_all (self_hashed E) (filter (\<lambda>e. ae_tenant e = Some t \<and> hashed e) es) then ''verified'' else ''failed'')"
proof -
  let ?rows = "sort_key ae_seq (filter (\<lambda>e. ae_tenant e = Some t \<and> hashed e) es)"
  have "list_all (self_hashed E) ?rows
      \<longleftrightarrow> list_all (self_hashed E) (filter (\<lambda>e. ae_tenant e = Some t \<and> hashed e) es)"
    by (simp add: list_all_iff)
  then show ?thesis
    by (simp add: verify_tenant_events_def verify_tenant_loop_status Let_def)
qed

text \<open>Removing the newest events leaves a chain that verifies: the verifier alone does not
  see a truncated trail.\<close>

theorem truncation_verifies:
  assumes "chain_ok E (es @ es')" and "filter hashed es \<noteq> []"
  shows "verify_chain E es = chain_verified (length (filter hashed es))"
  using chain_ok_verified [OF chain_ok_prefix [OF assms(1)]] assms(2) by simp

theorem truncation_verifies_witness:
  "verify_chain sample_env (take 1 sample_trail) = chain_verified (length (filter hashed (take 1 sample_trail)))"
proof (rule truncation_verifies)
  show "chain_ok sample_env (take 1 sample_trail @ drop 1 sample_trail)" by (simp add: sample_trail_ok)
  show "filter hashed (take 1 sample_trail) \<noteq> []" by (rule sample_trail_hashed)
qed

end
