(* ===== verification/Tenancy.thy ===== *)
theory Tenancy
  imports Evolution
begin

text \<open>
  The tenant boundary that every scoped read of the services implements in the same two ways:
  a fetch by primary key that answers None on a foreign row, and a query with a tenant filter.
  The locales state the two contracts; each service interprets them on its own reads, and the
  isolation lemmas follow: what a tenant reads is a function of its own rows.
\<close>

text \<open>The rows a tenant owns.\<close>

definition own :: "('r \<Rightarrow> string option) \<Rightarrow> string \<Rightarrow> 'r list \<Rightarrow> 'r list" where
  "own tenant_of t rs = filter (\<lambda>r. tenant_of r = Some t) rs"

lemma in_tenant_Some: "in_tenant f (Some t) r \<longleftrightarrow> f r = Some t"
  by (simp add: in_tenant_def)

lemma in_tenant_None [simp]: "in_tenant f None r"
  by (simp add: in_tenant_def)

lemma tget_own:
  assumes "distinct (map key rs)"
  shows "scoped_row f (Some t) (tget key k rs) = tget key k (own f t rs)"
  using assms
proof (induction rs)
  case (Cons r rs)
  have "tget key (key r) (own f t rs) = None"
    using Cons.prems by (force simp: tget_None_iff own_def)
  then show ?case using Cons by (auto simp: own_def scoped_row_def)
qed (simp add: own_def scoped_row_def)

locale scoped_fetch =
  fixes rows :: "world \<Rightarrow> 'r list"
    and key :: "'r \<Rightarrow> string"
    and tenant_of :: "'r \<Rightarrow> string option"
    and fetch :: "string \<Rightarrow> string option \<Rightarrow> world \<Rightarrow> 'r option"
  assumes fetch_scoped: "fetch k t w = scoped_row tenant_of t (tget key k (rows w))"
begin

lemma fetch_SomeD:
  "fetch k t w = Some r \<Longrightarrow> r \<in> set (rows w) \<and> key r = k \<and> (t = None \<or> tenant_of r = t)"
  by (auto simp: fetch_scoped dest!: scoped_row_SomeD dest: tget_in tget_key)

lemma fetch_isolated:
  assumes "distinct (map key (rows w))" and "distinct (map key (rows v))"
    and "own tenant_of t (rows w) = own tenant_of t (rows v)"
  shows "fetch k (Some t) w = fetch k (Some t) v"
  using assms by (simp add: fetch_scoped tget_own)

end

text \<open>
  A query: the tenant filter, another filter \<open>P\<close>, an order, a limit. \<open>shape\<close> is what is done to
  the filtered rows.
\<close>

locale scoped_query =
  fixes rows :: "world \<Rightarrow> 'r list"
    and tenant_of :: "'r \<Rightarrow> string option"
    and P :: "'p \<Rightarrow> 'r \<Rightarrow> bool"
    and shape :: "'p \<Rightarrow> 'r list \<Rightarrow> 'r list"
    and query :: "'p \<Rightarrow> string option \<Rightarrow> world \<Rightarrow> 'r list"
  assumes query_scoped: "query p t w = shape p (filter (\<lambda>r. in_tenant tenant_of t r \<and> P p r) (rows w))"
    and shape_sub: "set (shape p rs) \<subseteq> set rs"
begin

lemma query_owned: "r \<in> set (query p t w) \<Longrightarrow> r \<in> set (rows w) \<and> P p r \<and> (t = None \<or> tenant_of r = t)"
  using shape_sub by (fastforce simp: query_scoped in_tenant_def)

lemma query_isolated:
  assumes "own tenant_of t (rows w) = own tenant_of t (rows v)"
  shows "query p (Some t) w = query p (Some t) v"
proof -
  have "filter (\<lambda>r. in_tenant tenant_of (Some t) r \<and> P p r) rs = filter (P p) (own tenant_of t rs)" for rs
    by (simp add: own_def in_tenant_Some conj_commute cong: conj_cong)
  then show ?thesis using assms by (simp add: query_scoped)
qed

end

lemma sql_limit_sub: "set (take n rs) \<subseteq> set rs"
  by (rule set_take_subset)

end
