(* ===== verification/Forward.thy ===== *)
theory Forward
  imports AuditService Tenancy
begin

text \<open>
  The history order of the system: what every operation, whoever runs it and however it ends,
  does to the state of record. A good state has a verified audit chain whose metadata texts were
  written by \<open>record\<close>, keys drawn once, and unique idempotency keys; an operation keeps the state good, only appends to the audit trail,
  never removes a job or an approval or changes its identity, and never reverses a decision.
  Every operation of the services has a lemma \<open>evolves (forward E)\<close>; the system theorems are
  its consequences along a run.
\<close>

text \<open>A recorded event on a good chain: the state it leaves.\<close>

definition audited :: "env \<Rightarrow> audit_args \<Rightarrow> world \<Rightarrow> world" where
  "audited E a w = w\<lparr>uuids := Suc (uuids w), audit_events := audit_events w
     @ [audit_row E a (chain_head (audit_events w)) (uuid (uuids w)) (clock w)]\<rparr>"

lemma audit_record_audited:
  "chain_ok E (audit_events w) \<Longrightarrow>
   audit_record E a w = (Inr (audit_row E a (chain_head (audit_events w)) (uuid (uuids w)) (clock w)), audited E a w)"
  by (simp add: audit_record_eq audited_def)

lemma chain_ok_audited: "chain_ok E (audit_events w) \<Longrightarrow> chain_ok E (audit_events (audited E a w))"
  using evolvesD [OF audit_record_grows, of E w a] by (simp add: audit_grows_def audit_record_audited)

lemma audited_frame [simp]:
  "jobs (audited E a w) = jobs w" "approvals (audited E a w) = approvals w" "clock (audited E a w) = clock w"
  "deliveries (audited E a w) = deliveries w" "sent_log (audited E a w) = sent_log w"
  "policies (audited E a w) = policies w" "governed_actions (audited E a w) = governed_actions w"
  "overrides (audited E a w) = overrides w" "packets (audited E a w) = packets w"
  "trust_scores (audited E a w) = trust_scores w" "verifications (audited E a w) = verifications w"
  "risk_assessments (audited E a w) = risk_assessments w" "artifacts (audited E a w) = artifacts w"
  "action_controls (audited E a w) = action_controls w"
  by (simp_all add: audited_def)

section \<open>Idempotency keys\<close>

definition same_idempotency_key :: "job \<Rightarrow> job \<Rightarrow> bool" where
  "same_idempotency_key a b \<longleftrightarrow> sql_eq (job_idempotency_key a) (job_idempotency_key b)"

definition keys_unique :: "world \<Rightarrow> bool" where
  "keys_unique w \<longleftrightarrow> distinct (List.map_filter job_idempotency_key (jobs w))"

definition keyed :: "string \<Rightarrow> job list \<Rightarrow> job list" where
  "keyed k js = filter (\<lambda>j. job_idempotency_key j = Some k) js"

lemma keyed_at_most_one:
  "distinct (List.map_filter job_idempotency_key js) \<Longrightarrow> length (keyed k js) \<le> 1"
proof (induction js)
  case (Cons j js)
  show ?case
  proof (cases "job_idempotency_key j = Some k")
    case True
    then have "k \<notin> set (List.map_filter job_idempotency_key js)" using Cons.prems by simp
    then have "keyed k js = []" by (auto simp: keyed_def filter_empty_conv in_map_filter)
    then show ?thesis by (simp add: keyed_def)
  next
    case False
    then show ?thesis using Cons by (auto simp: keyed_def split: option.splits)
  qed
qed (simp add: keyed_def)

lemma key_clash: "list_ex (\<lambda>j'. same_idempotency_key j' j) js \<longleftrightarrow>
   (\<exists>k. job_idempotency_key j = Some k \<and> keyed k js \<noteq> [])"
  by (cases "job_idempotency_key j")
    (auto simp: list_ex_iff same_idempotency_key_def sql_eq_def keyed_def filter_empty_conv)

section \<open>Rows that only move forward\<close>

text \<open>A row keeps its identity, and once decided its status and decision time never change.\<close>

definition appr_le :: "approval \<Rightarrow> approval \<Rightarrow> bool" where
  "appr_le a b \<longleftrightarrow> appr_pk b = appr_pk a \<and> appr_tenant b = appr_tenant a \<and> appr_kind b = appr_kind a
     \<and> appr_created_at b = appr_created_at a
     \<and> (appr_status a = ApprovalPending \<or> (appr_status b = appr_status a \<and> appr_decided_at b = appr_decided_at a))"

interpretation appr_order: row_order appr_le
  by unfold_locales (auto simp: appr_le_def)

text \<open>A job keeps its identity; its status, payload and error may change.\<close>

definition job_le :: "job \<Rightarrow> job \<Rightarrow> bool" where
  "job_le a b \<longleftrightarrow> job_pk b = job_pk a \<and> job_tenant b = job_tenant a \<and> job_type b = job_type a
     \<and> job_idempotency_key b = job_idempotency_key a \<and> job_created_at b = job_created_at a"

interpretation job_order: row_order job_le
  by unfold_locales (auto simp: job_le_def)

definition good :: "env \<Rightarrow> world \<Rightarrow> bool" where
  "good E w \<longleftrightarrow> chain_ok E (audit_events w) \<and> drawn approvals appr_pk w \<and> drawn jobs job_pk w \<and> keys_unique w
     \<and> metadata_written (audit_events w)"

definition forward :: "env \<Rightarrow> world \<Rightarrow> world \<Rightarrow> bool" where
  "forward E w v \<longleftrightarrow> (good E w \<longrightarrow> good E v \<and> prefix (audit_events w) (audit_events v)
     \<and> table_le appr_le (approvals w) (approvals v) \<and> table_le job_le (jobs w) (jobs v))"

lemma goodD: "good E w \<Longrightarrow> chain_ok E (audit_events w)" "good E w \<Longrightarrow> drawn approvals appr_pk w"
  "good E w \<Longrightarrow> drawn jobs job_pk w" "good E w \<Longrightarrow> keys_unique w"
  "good E w \<Longrightarrow> metadata_written (audit_events w)"
  by (simp_all add: good_def)

interpretation forward_evo: evolution "forward E" for E
  by unfold_locales (auto simp: forward_def intro: prefix_order.order_trans appr_order.le_trans job_order.le_trans
      appr_order.le_refl job_order.le_refl)

lemmas [evo] = forward_evo.evo_ret forward_evo.evo_raise forward_evo.evo_gets forward_evo.evo_lift
  forward_evo.evo_bind forward_evo.evo_catch forward_evo.evo_foreach

lemma drawn_mono:
  assumes "drawn rows key w" and "rows v = rows w" and "uuids w \<le> uuids v"
  shows "drawn rows key v"
proof -
  have "uuid ` {..<uuids w} \<subseteq> uuid ` {..<uuids v}" using assms(3) by (intro image_mono) auto
  then show ?thesis using assms by (auto simp: drawn_def)
qed

lemma only_forward:
  assumes "only S w v" and "TAudit \<notin> S" "TApprovals \<notin> S" "TJobs \<notin> S"
  shows "forward E w v"
proof -
  have "same TAudit w v" "same TApprovals w v" "same TJobs w v" "uuids w \<le> uuids v"
    using assms by (auto dest: onlyD simp: only_def)
  then have eq: "audit_events v = audit_events w" "approvals v = approvals w" "jobs v = jobs w" "uuids w \<le> uuids v"
    by simp_all
  then show ?thesis
    by (auto simp: forward_def good_def keys_unique_def appr_order.le_refl job_order.le_refl
        intro: drawn_mono)
qed

lemma evolves_only_forward:
  "evolves (only S) m \<Longrightarrow> TAudit \<notin> S \<Longrightarrow> TApprovals \<notin> S \<Longrightarrow> TJobs \<notin> S \<Longrightarrow> evolves (forward E) m"
  by (auto simp: evolves_def intro: only_forward)

lemma new_id_forward [evo]: "evolves (forward E) new_id"
  by (rule evolves_only_forward [of "{}"]) (intro evo, simp_all)

lemma audit_record_forward [evo]: "evolves (forward E) (audit_record E a)"
proof (rule evolvesI)
  fix w
  have "only {TAudit} w (after (audit_record E a) w)"
    by (rule evolvesD) (intro evo, simp)
  then have "same TApprovals w (after (audit_record E a) w)" "same TJobs w (after (audit_record E a) w)"
    "uuids w \<le> uuids (after (audit_record E a) w)"
    by (auto dest: onlyD simp: only_def simp del: same.simps)
  moreover have "audit_grows E w (after (audit_record E a) w)"
    by (rule evolvesD [OF audit_record_grows])
  ultimately show "forward E w (after (audit_record E a) w)"
    by (auto simp: forward_def good_def keys_unique_def audit_grows_def appr_order.le_refl job_order.le_refl
        intro: drawn_mono)
qed

text \<open>Writes to the tables that carry no part of the order.\<close>

definition neutral :: "table \<Rightarrow> bool" where
  "neutral t \<longleftrightarrow> t \<noteq> TAudit \<and> t \<noteq> TApprovals \<and> t \<noteq> TJobs"

lemma insert_row_forward: "touches upd t \<Longrightarrow> neutral t \<Longrightarrow> evolves (forward E) (insert_row upd r)"
  by (rule evolves_only_forward [of "{t}"]) (auto simp: insert_row_only neutral_def)

lemma save_row_forward: "touches upd t \<Longrightarrow> neutral t \<Longrightarrow> evolves (forward E) (save_row upd key r)"
  by (rule evolves_only_forward [of "{t}"]) (auto simp: save_row_only neutral_def)

lemma update_row_forward: "touches upd t \<Longrightarrow> neutral t \<Longrightarrow> evolves (forward E) (update_row upd key k f)"
  by (rule evolves_only_forward [of "{t}"]) (auto simp: update_row_only neutral_def)

lemma insert_unique_forward:
  "touches upd t \<Longrightarrow> neutral t \<Longrightarrow> evolves (forward E) (insert_unique rows upd clash n r)"
  by (rule evolves_only_forward [of "{t}"]) (auto simp: insert_unique_only neutral_def)

lemmas neutral_tables = touches_world(1-8,12-29)

lemmas [evo] = neutral_tables [THEN insert_row_forward, simplified neutral_def, simplified]
  neutral_tables [THEN save_row_forward, simplified neutral_def, simplified]
  neutral_tables [THEN update_row_forward, simplified neutral_def, simplified]
  neutral_tables [THEN insert_unique_forward, simplified neutral_def, simplified]

text \<open>An update that keeps a job's identity.\<close>

lemma update_job_forward:
  assumes "\<And>j. job_le j (f j)"
  shows "evolves (forward E) (update_row jobs_update job_pk k f)"
proof (rule evolvesI)
  fix w :: world
  have keep: "map g (tupd job_pk k f (jobs w)) = map g (jobs w)" if "\<And>j. g (f j) = g j" for g :: "job \<Rightarrow> 'x"
    by (rule map_tupd_same) (rule that)
  have pk: "map job_pk (tupd job_pk k f (jobs w)) = map job_pk (jobs w)"
    by (rule keep) (use assms in \<open>simp add: job_le_def\<close>)
  have ik: "map job_idempotency_key (tupd job_pk k f (jobs w)) = map job_idempotency_key (jobs w)"
    by (rule keep) (use assms in \<open>simp add: job_le_def\<close>)
  have mf: "List.map_filter job_idempotency_key js = List.map_filter id (map job_idempotency_key js)" for js
    by (induction js) (auto split: option.split)
  have "job_pk ` set (tupd job_pk k f (jobs w)) = job_pk ` set (jobs w)"
    using pk by (metis set_map)
  then show "forward E w (after (update_row jobs_update job_pk k f) w)"
    using assms pk ik mf [of "jobs w"] mf [of "tupd job_pk k f (jobs w)"]
    by (auto simp: forward_def good_def drawn_def keys_unique_def update_row_def comp appr_order.le_refl
        intro: job_order.le_tupd)
qed

end
