(* ===== verification/JobService.thy ===== *)
theory JobService
  imports Forward
begin

text \<open>
  services/job_service.py and services/job_types.py: durable jobs. Creation with the UNIQUE
  idempotency key, the scoped reads, the claim of the oldest eligible pending job, the two
  outcomes, and the retry of a failed send with its guards.
\<close>

definition CHAT_ORCHESTRATE :: string where "CHAT_ORCHESTRATE = ''chat.orchestrate''"
definition EMAIL_SEND_APPROVED :: string where "EMAIL_SEND_APPROVED = ''email.send_approved''"

text \<open>\<open>json.loads(payload_json or "{}")\<close>.\<close>

definition loads :: "dict option \<Rightarrow> dict" where
  "loads p = (case p of None \<Rightarrow> [] | Some d \<Rightarrow> d)"

definition touch_job :: "time \<Rightarrow> (job \<Rightarrow> job) \<Rightarrow> job \<Rightarrow> job" where
  "touch_job now = touched (\<lambda>j. j\<lparr>job_updated_at := now\<rparr>)"

text \<open>Commit of a job loaded by its key and changed by \<open>f\<close>.\<close>

definition update_job :: "string \<Rightarrow> (job \<Rightarrow> job) \<Rightarrow> unit svc" where
  "update_job jid f = bindM (gets clock) (\<lambda>now. update_row jobs_update job_pk jid (touch_job now f))"

definition create_job :: "string \<Rightarrow> dict option \<Rightarrow> string option \<Rightarrow> string option \<Rightarrow> job svc" where
  "create_job type payload t idempotency_key =
     bindM new_id (\<lambda>pk. bindM (gets clock) (\<lambda>now.
       let job = \<lparr>job_pk = pk, job_tenant = t, job_type = type, job_status = JobPending,
                  job_idempotency_key = idempotency_key, job_payload = payload, job_attempts = 0,
                  job_last_error = None, job_run_after = None, job_created_at = now, job_updated_at = now\<rparr>
       in bindM (insert_unique jobs jobs_update same_idempotency_key ''jobs.idempotency_key'' job)
            (\<lambda>_. ret job)))"

definition mark_job_failed :: "string \<Rightarrow> string \<Rightarrow> unit svc" where
  "mark_job_failed jid message =
     update_job jid (\<lambda>j. j\<lparr>job_status := JobFailed, job_last_error := Some message\<rparr>)"

definition get_job :: "string \<Rightarrow> world \<Rightarrow> job option" where
  "get_job k w = get_row jobs job_pk k w"

definition get_job_by_id :: "string \<Rightarrow> string option \<Rightarrow> world \<Rightarrow> job option" where
  "get_job_by_id jid t w = scoped_row job_tenant t (get_job jid w)"

definition get_job_by_idempotency_key :: "string \<Rightarrow> world \<Rightarrow> job option" where
  "get_job_by_idempotency_key k w = first_row (filter (\<lambda>j. job_idempotency_key j = Some k) (jobs w))"

definition eligible :: "time \<Rightarrow> job \<Rightarrow> bool" where
  "eligible now j \<longleftrightarrow> job_status j = JobPending
     \<and> (case job_run_after j of None \<Rightarrow> True | Some r \<Rightarrow> r \<le> now)"

definition claim_next_pending :: "job option svc" where
  "claim_next_pending =
     bindM (gets clock) (\<lambda>now.
     bindM (gets (\<lambda>w. first_row (sort_key job_created_at (filter (eligible now) (jobs w))))) (\<lambda>found.
     case found of
       None \<Rightarrow> ret None
     | Some job \<Rightarrow>
         bindM (update_job (job_pk job) (\<lambda>j. j\<lparr>job_status := JobRunning\<rparr>))
           (\<lambda>_. ret (Some (touch_job now (\<lambda>j. j\<lparr>job_status := JobRunning\<rparr>) job)))))"

definition list_jobs :: "string option \<Rightarrow> string option \<Rightarrow> string option \<Rightarrow> int \<Rightarrow> world \<Rightarrow> job list" where
  "list_jobs status type t limit w =
     sql_limit (min limit 200) (order_desc job_created_at
       (filter (\<lambda>j. in_tenant job_tenant t j
                    \<and> opt_filter (job_status_value \<circ> job_status) status j
                    \<and> opt_filter job_type type j) (jobs w)))"

text \<open>A JSON value used as a primary key: only a string finds a row.\<close>

definition get_json :: "(string \<Rightarrow> world \<Rightarrow> 'r option) \<Rightarrow> json \<Rightarrow> world \<Rightarrow> 'r option" where
  "get_json get v w = (case jstr v of None \<Rightarrow> None | Some k \<Rightarrow> get k w)"

definition assert_email_send_retry_allowed :: "job \<Rightarrow> unit svc" where
  "assert_email_send_retry_allowed job =
     (let aid = dget (loads (job_payload job)) ''approval_id'' in
      if \<not> truthy aid then ret ()
      else
        bindM (gets (get_json (get_row approvals appr_pk) aid)) (\<lambda>appr.
        bindM (case appr of
                 None \<Rightarrow> ret ()
               | Some a \<Rightarrow>
                   if appr_status a = ApprovalRejected then raise (ValueError ''retry_blocked_approval_rejected'')
                   else if truthy (dget (loads (appr_payload a)) ''gmail_message_id'')
                   then raise (ValueError ''retry_blocked_already_sent'')
                   else ret ()) (\<lambda>_.
        bindM (gets (\<lambda>w. filter (\<lambda>d. sql_eq (dlv_approval d) (jstr aid)) (deliveries w))) (\<lambda>found.
        bindM (lift (scalar_one_or_none found)) (\<lambda>row.
        case row of
          None \<Rightarrow> ret ()
        | Some d \<Rightarrow>
            if dlv_status d = ''sent'' \<and> dlv_message d \<noteq> None \<and> dlv_message d \<noteq> Some []
            then raise (ValueError ''retry_blocked_delivery_sent'') else ret ())))))"

definition retry_failed_job :: "string \<Rightarrow> string option \<Rightarrow> job svc" where
  "retry_failed_job jid t =
     bindM (gets (get_job_by_id jid t)) (\<lambda>found.
     case found of
       None \<Rightarrow> raise (ValueError ''job_not_found'')
     | Some job \<Rightarrow>
         if job_type job \<noteq> EMAIL_SEND_APPROVED then raise (ValueError ''job_not_retryable'')
         else if job_status job \<noteq> JobFailed then raise (ValueError ''job_not_failed'')
         else
           bindM (assert_email_send_retry_allowed job) (\<lambda>_.
           bindM (gets clock) (\<lambda>now.
           bindM (update_job jid (\<lambda>j. j\<lparr>job_status := JobPending, job_last_error := None\<rparr>))
             (\<lambda>_. ret (touch_job now (\<lambda>j. j\<lparr>job_status := JobPending, job_last_error := None\<rparr>) job)))))"

definition mark_job_succeeded :: "string \<Rightarrow> dict option \<Rightarrow> unit svc" where
  "mark_job_succeeded jid outcome =
     update_job jid (\<lambda>j.
       (case outcome of
          None \<Rightarrow> j
        | Some r \<Rightarrow> j\<lparr>job_payload := Some (dset ''result'' (JObj r) (loads (job_payload j)))\<rparr>)
       \<lparr>job_status := JobSucceeded\<rparr>)"

section \<open>Interfaces\<close>

interpretation jobs_tbl: world_table jobs jobs_update job_pk
  by unfold_locales simp_all

interpretation job_fetch: scoped_fetch jobs job_pk job_tenant get_job_by_id
  by unfold_locales (simp add: get_job_by_id_def get_job_def get_row_def)

lemma set_sql_limit: "set (sql_limit n rs) \<subseteq> set rs"
  by (simp add: sql_limit_def set_take_subset)

interpretation job_query: scoped_query jobs job_tenant
  "\<lambda>(status, type, limit::int) j. opt_filter (job_status_value \<circ> job_status) status j \<and> opt_filter job_type type j"
  "\<lambda>(status, type, limit) rs. sql_limit (min limit 200) (order_desc job_created_at rs)"
  "\<lambda>(status, type, limit) t w. list_jobs status type t limit w"
  by unfold_locales (auto simp: list_jobs_def dest: set_sql_limit [THEN subsetD])

section \<open>Footprints\<close>

text \<open>A stamped update reads as the update, in every column but the stamp.\<close>

lemma touch_job_simps [simp]:
  "job_pk (touch_job now f j) = job_pk (f j)" "job_tenant (touch_job now f j) = job_tenant (f j)"
  "job_type (touch_job now f j) = job_type (f j)" "job_status (touch_job now f j) = job_status (f j)"
  "job_idempotency_key (touch_job now f j) = job_idempotency_key (f j)"
  "job_payload (touch_job now f j) = job_payload (f j)" "job_attempts (touch_job now f j) = job_attempts (f j)"
  "job_last_error (touch_job now f j) = job_last_error (f j)" "job_run_after (touch_job now f j) = job_run_after (f j)"
  "job_created_at (touch_job now f j) = job_created_at (f j)"
  by (simp_all add: touch_job_def touched_def)

lemma update_job_run: "update_job jid f w = (Inr (), jobs_update (tupd job_pk jid (touch_job (clock w) f)) w)"
  by (simp add: update_job_def update_row_def comp)

lemma update_job_lookup:
  assumes "\<And>j. job_pk (f j) = job_pk j"
  shows "get_row jobs job_pk k (jobs_update (tupd job_pk jid (touch_job now f)) w) =
    (if k = jid then map_option (touch_job now f) (get_row jobs job_pk k w) else get_row jobs job_pk k w)"
  using jobs_tbl.update_lookup [of "touch_job now f" k jid w] assms by (simp add: update_row_def comp)

lemma update_job_evo [evo]: "TJobs \<in> S \<Longrightarrow> evolves (only S) (update_job jid f)"
  unfolding update_job_def by (intro evo)

lemma update_job_keeps [evo]:
  assumes "\<And>j. job_le j (f j)"
  shows "evolves (forward E) (update_job jid f)"
  unfolding update_job_def
  by (intro evo update_job_forward) (use assms in \<open>simp add: job_le_def\<close>)

lemma create_job_only [evo]: "TJobs \<in> S \<Longrightarrow> evolves (only S) (create_job type payload t key)"
  unfolding create_job_def by (intro evo)

lemma mark_job_failed_evo [evo]:
  "TJobs \<in> S \<Longrightarrow> evolves (only S) (mark_job_failed jid message)"
  "evolves (forward E) (mark_job_failed jid message)"
  unfolding mark_job_failed_def by (intro evo; (assumption | simp add: job_le_def split: option.split)?)+

lemma mark_job_succeeded_evo [evo]:
  "TJobs \<in> S \<Longrightarrow> evolves (only S) (mark_job_succeeded jid r)"
  "evolves (forward E) (mark_job_succeeded jid r)"
  unfolding mark_job_succeeded_def by (intro evo; (assumption | simp add: job_le_def split: option.split)?)+

lemma claim_evo [evo]:
  "TJobs \<in> S \<Longrightarrow> evolves (only S) claim_next_pending"
  "evolves (forward E) claim_next_pending"
  unfolding claim_next_pending_def by (intro evo; (assumption | simp add: job_le_def split: option.split)?)+

lemma assert_retry_evo [evo]:
  "evolves (only S) (assert_email_send_retry_allowed job)"
  "evolves (forward E) (assert_email_send_retry_allowed job)"
  unfolding assert_email_send_retry_allowed_def by (intro evo; assumption?)+

lemma retry_evo [evo]:
  "TJobs \<in> S \<Longrightarrow> evolves (only S) (retry_failed_job jid t)"
  "evolves (forward E) (retry_failed_job jid t)"
  unfolding retry_failed_job_def by (intro evo; (assumption | simp add: job_le_def split: option.split)?)+

section \<open>The claim\<close>

definition oldest_eligible :: "world \<Rightarrow> job option" where
  "oldest_eligible w = first_row (sort_key job_created_at (filter (eligible (clock w)) (jobs w)))"

lemma claim_run:
  "claim_next_pending w =
     (case oldest_eligible w of
        None \<Rightarrow> (Inr None, w)
      | Some j \<Rightarrow> (Inr (Some (touch_job (clock w) (\<lambda>j. j\<lparr>job_status := JobRunning\<rparr>) j)),
                   jobs_update (tupd job_pk (job_pk j) (touch_job (clock w) (\<lambda>j. j\<lparr>job_status := JobRunning\<rparr>))) w))"
  by (simp add: claim_next_pending_def oldest_eligible_def comp update_job_run split: option.split)

lemma oldest_eligible_in:
  "oldest_eligible w = Some j \<Longrightarrow> j \<in> set (jobs w) \<and> eligible (clock w) j"
  by (auto simp: oldest_eligible_def dest!: first_row_in)

section \<open>Creation and idempotency keys\<close>

lemma by_key_keyed: "get_job_by_idempotency_key k w = first_row (keyed k (jobs w))"
  by (simp add: get_job_by_idempotency_key_def keyed_def)

text \<open>The job that \<open>create_job\<close> inserts, and when it does.\<close>

definition new_job :: "string \<Rightarrow> dict option \<Rightarrow> string option \<Rightarrow> string option \<Rightarrow> world \<Rightarrow> job" where
  "new_job type payload t k w =
     \<lparr>job_pk = uuid (uuids w), job_tenant = t, job_type = type, job_status = JobPending,
      job_idempotency_key = k, job_payload = payload, job_attempts = 0, job_last_error = None,
      job_run_after = None, job_created_at = clock w, job_updated_at = clock w\<rparr>"

lemma create_job_run:
  "create_job type payload t k w =
     (if (\<exists>x. k = Some x \<and> keyed x (jobs w) \<noteq> []) then (Inl (IntegrityError ''jobs.idempotency_key''), w\<lparr>uuids := Suc (uuids w)\<rparr>)
      else (Inr (new_job type payload t k w),
            w\<lparr>uuids := Suc (uuids w), jobs := jobs w @ [new_job type payload t k w]\<rparr>))"
  using key_clash [of "new_job type payload t k w" "jobs w"]
  by (simp add: create_job_def new_id_def insert_unique_def comp Let_def new_job_def)

lemma create_job_keys_unique: "keys_unique w \<Longrightarrow> keys_unique (after (create_job type payload t k) w)"
proof -
  have "x \<notin> set (List.map_filter job_idempotency_key js)" if "keyed x js = []" for x js
    using that by (auto simp: keyed_def filter_empty_conv in_map_filter)
  then show "keys_unique w \<Longrightarrow> ?thesis"
    by (auto simp: create_job_run keys_unique_def new_job_def split: option.split)
qed

lemma create_job_forward [evo]: "evolves (forward E) (create_job type payload t k)"
proof (rule evolvesI)
  fix w
  show "forward E w (after (create_job type payload t k) w)"
    unfolding forward_def
  proof (intro impI)
    assume good: "good E w"
    have "drawn jobs job_pk (after (insert_row jobs_update (new_job type payload t k w)) (w\<lparr>uuids := Suc (uuids w)\<rparr>))"
      by (rule jobs_tbl.drawn_insert) (simp_all add: goodD [OF good] new_job_def)
    then have "drawn jobs job_pk (w\<lparr>uuids := Suc (uuids w), jobs := jobs w @ [new_job type payload t k w]\<rparr>)"
      by (simp add: drawn_def insert_row_def comp)
    moreover have "drawn approvals appr_pk (after (create_job type payload t k) w)"
      "drawn jobs job_pk (w\<lparr>uuids := Suc (uuids w)\<rparr>)"
      by (rule drawn_mono [OF goodD(2) [OF good]] drawn_mono [OF goodD(3) [OF good]]; simp add: create_job_run)+
    ultimately show "good E (after (create_job type payload t k) w)
        \<and> prefix (audit_events w) (audit_events (after (create_job type payload t k) w))
        \<and> table_le appr_le (approvals w) (approvals (after (create_job type payload t k) w))
        \<and> table_le job_le (jobs w) (jobs (after (create_job type payload t k) w))"
      using create_job_keys_unique [OF goodD(4) [OF good], of type payload t k] goodD(1,5) [OF good]
      by (auto simp: good_def create_job_run insert_row_def comp appr_order.le_refl job_order.le_append job_order.le_refl)
  qed
qed

section \<open>When a retry is safe\<close>

text \<open>Nothing was sent for the approval, and it was not rejected.\<close>

definition delivered :: "delivery \<Rightarrow> bool" where
  "delivered d \<longleftrightarrow> dlv_status d = ''sent'' \<and> dlv_message d \<noteq> None \<and> dlv_message d \<noteq> Some []"

definition retry_safe :: "string \<Rightarrow> world \<Rightarrow> bool" where
  "retry_safe aid w \<longleftrightarrow>
     (case get_row approvals appr_pk aid w of None \<Rightarrow> True
      | Some a \<Rightarrow> appr_status a \<noteq> ApprovalRejected
                  \<and> \<not> truthy (dget (loads (appr_payload a)) ''gmail_message_id''))
     \<and> filter (\<lambda>d. dlv_approval d = Some aid \<and> delivered d) (deliveries w) = []"

lemma assert_retry_state: "after (assert_email_send_retry_allowed job) w = w"
  by (simp add: assert_email_send_retry_allowed_def comp Let_def scalar_one_or_none_def
      split: option.split list.split)

lemma truthy_JStr: "truthy v \<Longrightarrow> jstr v = Some s \<Longrightarrow> s \<noteq> []"
  by (cases v) auto

lemma assert_retry_safe:
  assumes "result (assert_email_send_retry_allowed job) w = Inr ()"
    and "jstr (dget (loads (job_payload job)) ''approval_id'') = Some aid"
  shows "aid = [] \<or> retry_safe aid w"
proof (cases "aid = []")
  case False
  let ?aid = "dget (loads (job_payload job)) ''approval_id''"
  have aid: "?aid = JStr aid" using assms(2) by (cases ?aid) auto
  let ?ds = "filter (\<lambda>d. sql_eq (dlv_approval d) (Some aid)) (deliveries w)"
  have ds: "filter (\<lambda>d. dlv_approval d = Some aid \<and> delivered d) (deliveries w) = filter delivered ?ds"
    by (simp add: sql_eq_def) (metis (no_types, lifting) option.distinct(1))
  have "\<exists>row. scalar_one_or_none ?ds = Inr row \<and> (case row of None \<Rightarrow> True | Some d \<Rightarrow> \<not> delivered d)"
    using assms(1) False
    by (auto simp: assert_email_send_retry_allowed_def aid comp Let_def delivered_def
        split: option.splits if_splits sum.splits)
  then have "filter delivered ?ds = []"
    by (cases ?ds rule: remdups_adj.cases) (simp_all add: scalar_one_or_none_def del: filter_filter)
  moreover have "case get_row approvals appr_pk aid w of None \<Rightarrow> True
      | Some a \<Rightarrow> appr_status a \<noteq> ApprovalRejected
                  \<and> \<not> truthy (dget (loads (appr_payload a)) ''gmail_message_id'')"
    using assms(1) False
    by (auto simp: assert_email_send_retry_allowed_def aid get_json_def comp Let_def split: option.splits if_splits)
  ultimately show ?thesis by (simp add: retry_safe_def ds)
qed simp

section \<open>Properties\<close>

text \<open>A claim takes the oldest eligible pending job and marks that row running, in place; with
  no eligible job it changes nothing and answers None. It never raises.\<close>

theorem claim_next_oldest:
  "case claim_next_pending w of
     (Inr None, v) \<Rightarrow> v = w \<and> filter (eligible (clock w)) (jobs w) = []
   | (Inr (Some j), v) \<Rightarrow> (\<exists>j0. j0 \<in> set (jobs w) \<and> eligible (clock w) j0 \<and> j = touch_job (clock w) (\<lambda>j. j\<lparr>job_status := JobRunning\<rparr>) j0
        \<and> list_all (\<lambda>j'. job_created_at j0 \<le> job_created_at j') (filter (eligible (clock w)) (jobs w))
        \<and> v = w\<lparr>jobs := tupd job_pk (job_pk j0) (touch_job (clock w) (\<lambda>j. j\<lparr>job_status := JobRunning\<rparr>)) (jobs w)\<rparr>)
   | (Inl e, v) \<Rightarrow> False"
proof (cases "sort_key job_created_at (filter (eligible (clock w)) (jobs w))")
  case Nil
  then have "filter (eligible (clock w)) (jobs w) = []" by simp
  then show ?thesis by (simp add: claim_next_pending_def first_row_def comp)
next
  case (Cons j0 js)
  let ?es = "filter (eligible (clock w)) (jobs w)"
  have "set (sort_key job_created_at ?es) = set ?es" by simp
  then have j0: "j0 \<in> set ?es" and all: "set ?es = insert j0 (set js)" unfolding Cons by auto
  have "sorted (map job_created_at (sort_key job_created_at ?es))" by simp
  then have "\<forall>j' \<in> set js. job_created_at j0 \<le> job_created_at j'" unfolding Cons by simp
  then have "list_all (\<lambda>j'. job_created_at j0 \<le> job_created_at j') ?es"
    using all by (simp add: list_all_iff)
  then show ?thesis using j0
    by (auto simp: claim_next_pending_def Cons first_row_def comp update_job_run)
qed


definition failed_send :: job where
  "failed_send = \<lparr>job_pk = uuid 0, job_tenant = None, job_type = EMAIL_SEND_APPROVED, job_status = JobFailed,
     job_idempotency_key = None, job_payload = Some [(''approval_id'', JStr ''a1'')], job_attempts = 0,
     job_last_error = Some ''timeout'', job_run_after = None, job_created_at = 0, job_updated_at = 0\<rparr>"


end
