(* ===== verification/ApprovalService.thy ===== *)
theory ApprovalService
  imports JobService
begin

text \<open>
  services/approval_service.py: approval requests. Creation, the one decision (approve or
  reject) with the draft gate, the merge of execution context, and the idempotent enqueueing
  of the send job.
\<close>

definition get_approval :: "string \<Rightarrow> world \<Rightarrow> approval option" where
  "get_approval k w = get_row approvals appr_pk k w"

definition validate_outbound_send_gate :: "approval \<Rightarrow> unit svc" where
  "validate_outbound_send_gate approval =
     (let data = loads (appr_payload approval); wf = dget data ''workflow''; sj = dget data ''job_id'' in
      if appr_kind approval \<noteq> ''job.gate'' then raise (ValueError ''approval_invalid_kind'')
      else if \<not> truthy (dget data ''gmail_draft_id'') then ret ()
      else if wf \<noteq> JNull \<and> wf \<noteq> JStr ''email.outbound'' then raise (ValueError ''approval_wrong_workflow'')
      else if \<not> truthy sj then raise (ValueError ''approval_missing_source_job'')
      else bindM (gets (get_json get_job sj)) (\<lambda>j.
             if j = None then raise (ValueError ''source_job_not_found'') else ret ()))"

definition validate_send_enqueue_eligibility :: "approval \<Rightarrow> unit svc" where
  "validate_send_enqueue_eligibility approval =
     (if appr_status approval \<noteq> ApprovalApproved then raise (ValueError ''approval_not_approved'')
      else bindM (validate_outbound_send_gate approval) (\<lambda>_.
             if \<not> truthy (dget (loads (appr_payload approval)) ''gmail_draft_id'')
             then raise (ValueError ''missing_gmail_draft_id_for_enqueue'') else ret ()))"

definition create_request :: "env \<Rightarrow> string \<Rightarrow> string option \<Rightarrow> string \<Rightarrow> dict \<Rightarrow> approval svc" where
  "create_request E kind t job_id payload =
     bindM new_id (\<lambda>pk. bindM (gets clock) (\<lambda>now.
       let row = \<lparr>appr_pk = pk, appr_tenant = t, appr_kind = kind, appr_status = ApprovalPending,
                  appr_payload = Some (dupdate [(''job_id'', JStr job_id)] payload),
                  appr_decided_at = None, appr_created_at = now\<rparr> in
       bindM (insert_row approvals_update row) (\<lambda>_.
       bindM (audit_record E ((audit_call APPROVAL_CREATED ''approval'' pk)
                \<lparr>arg_tenant := t, arg_metadata := [(''kind'', JStr kind), (''source_job_id'', JStr job_id)]\<rparr>))
         (\<lambda>_. ret row))))"

definition get_request :: "string \<Rightarrow> string option \<Rightarrow> world \<Rightarrow> approval option" where
  "get_request aid t w = scoped_row appr_tenant t (get_approval aid w)"

definition decide_row :: "approval_status \<Rightarrow> json \<Rightarrow> time \<Rightarrow> approval \<Rightarrow> approval" where
  "decide_row status decision now r =
     r\<lparr>appr_payload := Some (dset ''decision'' decision (loads (appr_payload r))),
       appr_status := status, appr_decided_at := Some now\<rparr>"

definition approve :: "env \<Rightarrow> string \<Rightarrow> string \<Rightarrow> string option \<Rightarrow> string option \<Rightarrow> approval svc" where
  "approve E aid actor note t =
     bindM (gets (get_request aid t)) (\<lambda>found.
     case found of
       None \<Rightarrow> raise (ValueError ''approval_not_found'')
     | Some row \<Rightarrow>
         if appr_status row \<noteq> ApprovalPending then raise (ValueError ''approval_not_pending'')
         else
           bindM (if truthy (dget (loads (appr_payload row)) ''gmail_draft_id'')
                  then validate_outbound_send_gate row else ret ()) (\<lambda>_.
           bindM (gets clock) (\<lambda>now.
           let f = decide_row ApprovalApproved
                     (JObj [(''status'', JStr ''approved''), (''actor'', JStr actor), (''note'', jopt note)]) now in
           bindM (update_row approvals_update appr_pk aid f) (\<lambda>_.
           bindM (audit_record E ((audit_call APPROVAL_APPROVED ''approval'' (appr_pk row))
                    \<lparr>arg_tenant := appr_tenant row, arg_actor := Some actor,
                     arg_metadata := [(''note'', jopt note)]\<rparr>)) (\<lambda>_.
           ret (f row))))))"

definition reject :: "env \<Rightarrow> string \<Rightarrow> string \<Rightarrow> string \<Rightarrow> string option \<Rightarrow> approval svc" where
  "reject E aid actor reason t =
     bindM (gets (get_request aid t)) (\<lambda>found.
     case found of
       None \<Rightarrow> raise (ValueError ''approval_not_found'')
     | Some row \<Rightarrow>
         if appr_status row \<noteq> ApprovalPending then raise (ValueError ''approval_not_pending'')
         else
           bindM (gets clock) (\<lambda>now.
           let f = decide_row ApprovalRejected
                     (JObj [(''status'', JStr ''rejected''), (''actor'', JStr actor), (''reason'', JStr reason)]) now in
           bindM (update_row approvals_update appr_pk aid f) (\<lambda>_.
           bindM (audit_record E ((audit_call APPROVAL_REJECTED ''approval'' (appr_pk row))
                    \<lparr>arg_tenant := appr_tenant row, arg_actor := Some actor,
                     arg_metadata := [(''reason'', JStr reason)]\<rparr>)) (\<lambda>_.
           ret (f row)))))"

definition list_approvals :: "string option \<Rightarrow> string option \<Rightarrow> int \<Rightarrow> world \<Rightarrow> approval list" where
  "list_approvals status t limit w =
     sql_limit (min limit 200) (order_desc appr_created_at
       (filter (\<lambda>a. in_tenant appr_tenant t a
                    \<and> opt_filter (approval_status_value \<circ> appr_status) status a) (approvals w)))"

definition merge_row :: "dict \<Rightarrow> approval \<Rightarrow> approval" where
  "merge_row context_fields r = r\<lparr>appr_payload := Some (dupdate (loads (appr_payload r)) context_fields)\<rparr>"

definition merge_execution_context :: "string \<Rightarrow> dict \<Rightarrow> approval svc" where
  "merge_execution_context aid context_fields =
     bindM (gets (get_approval aid)) (\<lambda>found.
     case found of
       None \<Rightarrow> raise (ValueError ''approval_not_found'')
     | Some row \<Rightarrow>
         bindM (update_row approvals_update appr_pk aid (merge_row context_fields)) (\<lambda>_. ret (merge_row context_fields row)))"

definition record_send_completed :: "string \<Rightarrow> string \<Rightarrow> approval svc" where
  "record_send_completed aid gmail_message_id =
     merge_execution_context aid [(''gmail_message_id'', JStr gmail_message_id), (''send_status'', JStr ''sent'')]"

definition should_enqueue_email_send_after_approval :: "approval \<Rightarrow> bool" where
  "should_enqueue_email_send_after_approval approval =
     (let data = loads (appr_payload approval); wf = dget data ''workflow'' in
      if appr_kind approval \<noteq> ''job.gate'' then False
      else if \<not> truthy (dget data ''gmail_draft_id'') then False
      else if wf \<noteq> JNull \<and> wf \<noteq> JStr ''email.outbound'' then False
      else True)"

definition send_key :: "string \<Rightarrow> string" where
  "send_key aid = ''email.send:'' @ aid"

definition enqueue_email_send_job :: "env \<Rightarrow> approval \<Rightarrow> job svc" where
  "enqueue_email_send_job E approval =
     bindM (validate_send_enqueue_eligibility approval) (\<lambda>_.
     let k = send_key (appr_pk approval);
         call = (audit_call SEND_JOB_ENQUEUED ''approval'' (appr_pk approval))\<lparr>arg_tenant := appr_tenant approval\<rparr> in
     bindM (gets (get_job_by_idempotency_key k)) (\<lambda>existing.
     case existing of
       Some j \<Rightarrow>
         bindM (audit_record E (call\<lparr>arg_metadata := [(''job_id'', JStr (job_pk j)), (''idempotent'', JBool True)]\<rparr>))
           (\<lambda>_. ret j)
     | None \<Rightarrow>
         bindM (create_job EMAIL_SEND_APPROVED (Some [(''approval_id'', JStr (appr_pk approval))])
                  (appr_tenant approval) (Some k)) (\<lambda>send_job.
         bindM (audit_record E (call\<lparr>arg_metadata := [(''job_id'', JStr (job_pk send_job))]\<rparr>))
           (\<lambda>_. ret send_job))))"

section \<open>Interfaces and footprints\<close>

interpretation approvals_tbl: world_table approvals approvals_update appr_pk
  by unfold_locales simp_all

interpretation approval_fetch: scoped_fetch approvals appr_pk appr_tenant get_request
  by unfold_locales (simp add: get_request_def get_approval_def get_row_def)

interpretation approval_query: scoped_query approvals appr_tenant
  "\<lambda>(status, limit::int) a. opt_filter (approval_status_value \<circ> appr_status) status a"
  "\<lambda>(status, limit) rs. sql_limit (min limit 200) (order_desc appr_created_at rs)"
  "\<lambda>(status, limit) t w. list_approvals status t limit w"
  by unfold_locales (auto simp: list_approvals_def dest: set_sql_limit [THEN subsetD])

lemma validate_gate_evo [evo]:
  "evolves (only S) (validate_outbound_send_gate a)"
  "evolves (forward E) (validate_outbound_send_gate a)"
  unfolding validate_outbound_send_gate_def by (intro evo; assumption?)+

lemma validate_enqueue_evo [evo]:
  "evolves (only S) (validate_send_enqueue_eligibility a)"
  "evolves (forward E) (validate_send_enqueue_eligibility a)"
  unfolding validate_send_enqueue_eligibility_def by (intro evo; assumption?)+

lemma create_request_only [evo]: "TApprovals \<in> S \<Longrightarrow> TAudit \<in> S \<Longrightarrow> evolves (only S) (create_request E kind t jid p)"
  unfolding create_request_def by (intro evo)

lemma approve_only [evo]: "TApprovals \<in> S \<Longrightarrow> TAudit \<in> S \<Longrightarrow> evolves (only S) (approve E aid actor note t)"
  unfolding approve_def by (intro evo)

lemma reject_only [evo]: "TApprovals \<in> S \<Longrightarrow> TAudit \<in> S \<Longrightarrow> evolves (only S) (reject E aid actor reason t)"
  unfolding reject_def by (intro evo)

lemma merge_only [evo]: "TApprovals \<in> S \<Longrightarrow> evolves (only S) (merge_execution_context aid context_fields)"
  unfolding merge_execution_context_def by (intro evo)

lemma record_send_completed_only [evo]: "TApprovals \<in> S \<Longrightarrow> evolves (only S) (record_send_completed aid m)"
  unfolding record_send_completed_def by (intro evo)

lemma enqueue_evo [evo]:
  "TJobs \<in> S \<Longrightarrow> TAudit \<in> S \<Longrightarrow> evolves (only S) (enqueue_email_send_job E a)"
  "evolves (forward E) (enqueue_email_send_job E a)"
  unfolding enqueue_email_send_job_def by (intro evo; assumption?)+

section \<open>The gate and the decision\<close>

text \<open>The verdict of the draft gate that \<open>approve\<close> applies, as a function of the state.\<close>

definition gate_verdict :: "approval \<Rightarrow> world \<Rightarrow> exn option" where
  "gate_verdict a w =
     (let data = loads (appr_payload a); wf = dget data ''workflow''; sj = dget data ''job_id'' in
      if \<not> truthy (dget data ''gmail_draft_id'') then None
      else if appr_kind a \<noteq> ''job.gate'' then Some (ValueError ''approval_invalid_kind'')
      else if wf \<noteq> JNull \<and> wf \<noteq> JStr ''email.outbound'' then Some (ValueError ''approval_wrong_workflow'')
      else if \<not> truthy sj then Some (ValueError ''approval_missing_source_job'')
      else if get_json get_job sj w = None then Some (ValueError ''source_job_not_found'')
      else None)"

lemma gate_run:
  "(if truthy (dget (loads (appr_payload a)) ''gmail_draft_id'') then validate_outbound_send_gate a else ret ()) w
     = (case gate_verdict a w of None \<Rightarrow> Inr () | Some e \<Rightarrow> Inl e, w)"
  by (simp add: validate_outbound_send_gate_def gate_verdict_def comp Let_def)

definition approve_audit :: "approval \<Rightarrow> string \<Rightarrow> string option \<Rightarrow> audit_args" where
  "approve_audit row actor note = (audit_call APPROVAL_APPROVED ''approval'' (appr_pk row))
     \<lparr>arg_tenant := appr_tenant row, arg_actor := Some actor, arg_metadata := [(''note'', jopt note)]\<rparr>"

definition reject_audit :: "approval \<Rightarrow> string \<Rightarrow> string \<Rightarrow> audit_args" where
  "reject_audit row actor reason = (audit_call APPROVAL_REJECTED ''approval'' (appr_pk row))
     \<lparr>arg_tenant := appr_tenant row, arg_actor := Some actor, arg_metadata := [(''reason'', JStr reason)]\<rparr>"

definition approved_decision :: "string \<Rightarrow> string option \<Rightarrow> json" where
  "approved_decision actor note = JObj [(''status'', JStr ''approved''), (''actor'', JStr actor), (''note'', jopt note)]"

definition rejected_decision :: "string \<Rightarrow> string \<Rightarrow> json" where
  "rejected_decision actor reason = JObj [(''status'', JStr ''rejected''), (''actor'', JStr actor), (''reason'', JStr reason)]"

lemma approve_run:
  assumes "chain_ok E (audit_events w)"
  shows "approve E aid actor note t w =
    (case get_request aid t w of
       None \<Rightarrow> (Inl (ValueError ''approval_not_found''), w)
     | Some row \<Rightarrow>
         if appr_status row \<noteq> ApprovalPending then (Inl (ValueError ''approval_not_pending''), w)
         else (case gate_verdict row w of
             Some e \<Rightarrow> (Inl e, w)
           | None \<Rightarrow>
               (let f = decide_row ApprovalApproved (approved_decision actor note) (clock w) in
                (Inr (f row), audited E (approve_audit row actor note) (approvals_update (tupd appr_pk aid f) w)))))"
  using assms
  by (auto simp: approve_def approve_audit_def approved_decision_def bindM_def [of "if _ then _ else _"] gate_run
      Let_def gets_def update_row_def modify_def ret_def raise_def audit_record_audited bindM_def
      split: option.split)

lemma reject_run:
  assumes "chain_ok E (audit_events w)"
  shows "reject E aid actor reason t w =
    (case get_request aid t w of
       None \<Rightarrow> (Inl (ValueError ''approval_not_found''), w)
     | Some row \<Rightarrow>
         if appr_status row \<noteq> ApprovalPending then (Inl (ValueError ''approval_not_pending''), w)
         else
           (let f = decide_row ApprovalRejected (rejected_decision actor reason) (clock w) in
            (Inr (f row), audited E (reject_audit row actor reason) (approvals_update (tupd appr_pk aid f) w))))"
  using assms
  by (auto simp: reject_def reject_audit_def rejected_decision_def Let_def comp audit_record_audited update_row_def
      split: option.split)

section \<open>The writers of approvals move forward\<close>

lemma create_request_run:
  assumes "chain_ok E (audit_events w)"
  shows "create_request E kind t jid p w =
    (let row = \<lparr>appr_pk = uuid (uuids w), appr_tenant = t, appr_kind = kind, appr_status = ApprovalPending,
                appr_payload = Some (dupdate [(''job_id'', JStr jid)] p),
                appr_decided_at = None, appr_created_at = clock w\<rparr>
     in (Inr row, audited E ((audit_call APPROVAL_CREATED ''approval'' (appr_pk row))
            \<lparr>arg_tenant := t, arg_metadata := [(''kind'', JStr kind), (''source_job_id'', JStr jid)]\<rparr>)
          (w\<lparr>uuids := Suc (uuids w), approvals := approvals w @ [row]\<rparr>)))"
  using assms by (simp add: create_request_def new_id_def insert_row_def comp Let_def audit_record_audited)

text \<open>Writing the approvals table and then one audit event.\<close>

lemma audited_forward: "chain_ok E (audit_events w) \<Longrightarrow> forward E w (audited E a w)"
  using evolvesD [OF audit_record_forward, of E w a] by (simp add: audit_record_audited)

lemma approvals_update_forward:
  assumes "\<And>r. good E w \<Longrightarrow> r \<in> set (approvals w) \<Longrightarrow> appr_pk r = k \<Longrightarrow> appr_le r (f r)"
    and pk: "\<And>r. appr_pk (f r) = appr_pk r"
  shows "forward E w (approvals_update (tupd appr_pk k f) w)"
  unfolding forward_def
proof (intro impI conjI)
  assume good: "good E w"
  have keys: "map appr_pk (tupd appr_pk k f (approvals w)) = map appr_pk (approvals w)"
    by (rule map_tupd_same) (simp add: pk)
  then have "appr_pk ` set (tupd appr_pk k f (approvals w)) = appr_pk ` set (approvals w)" by (metis set_map)
  then show "good E (approvals_update (tupd appr_pk k f) w)"
    using good keys by (auto simp: good_def drawn_def keys_unique_def)
  show "table_le appr_le (approvals w) (approvals (approvals_update (tupd appr_pk k f) w))"
    using assms(1) [OF good] by (simp add: appr_order.le_tupd)
qed (simp_all add: job_order.le_refl)

lemma create_request_forward [evo]: "evolves (forward E) (create_request E kind t jid p)"
proof (rule evolvesI)
  fix w
  show "forward E w (after (create_request E kind t jid p) w)"
  proof (cases "good E w")
    case True
    let ?row = "\<lparr>appr_pk = uuid (uuids w), appr_tenant = t, appr_kind = kind, appr_status = ApprovalPending,
                appr_payload = Some (dupdate [(''job_id'', JStr jid)] p),
                appr_decided_at = None, appr_created_at = clock w\<rparr>"
    let ?w1 = "w\<lparr>uuids := Suc (uuids w), approvals := approvals w @ [?row]\<rparr>"
    have "drawn approvals appr_pk (after (insert_row approvals_update ?row) (w\<lparr>uuids := Suc (uuids w)\<rparr>))"
      by (rule approvals_tbl.drawn_insert) (simp_all add: goodD [OF True])
    then have "drawn approvals appr_pk ?w1" by (simp add: drawn_def insert_row_def comp)
    moreover have "drawn jobs job_pk ?w1"
      by (rule drawn_mono [OF goodD(3) [OF True]]) simp_all
    ultimately have "forward E w ?w1"
      using True by (auto simp: forward_def good_def keys_unique_def appr_order.le_append job_order.le_refl)
    moreover have "chain_ok E (audit_events ?w1)" using goodD(1) [OF True] by simp
    ultimately show ?thesis
      by (simp add: create_request_run [OF goodD(1) [OF True]] Let_def)
        (rule forward_evo.evo_trans, assumption, rule audited_forward, simp)
  qed (simp add: forward_def)
qed

text \<open>The row a decision reads is the one row of its key.\<close>

lemma get_request_unique:
  assumes "get_request aid t w = Some row" and "good E w" and "r \<in> set (approvals w)" "appr_pk r = aid"
  shows "r = row"
proof -
  have "distinct (map appr_pk (approvals w))" using goodD(2) [OF assms(2)] by (simp add: drawn_def)
  moreover have "row \<in> set (approvals w)" "appr_pk row = aid"
    using approval_fetch.fetch_SomeD [OF assms(1)] by auto
  ultimately show ?thesis using assms(3,4) by (auto simp: distinct_map inj_on_def)
qed

lemma decide_forward:
  assumes "get_request aid t w = Some row" and "appr_status row = ApprovalPending"
  shows "forward E w (approvals_update (tupd appr_pk aid (decide_row s d now)) w)"
proof (rule approvals_update_forward)
  fix r assume "good E w" "r \<in> set (approvals w)" "appr_pk r = aid"
  then have "r = row" by (rule get_request_unique [OF assms(1)])
  then show "appr_le r (decide_row s d now r)" using assms(2) by (simp add: appr_le_def decide_row_def)
qed (simp add: decide_row_def)

lemma good_chain_approvals: "good E w \<Longrightarrow> chain_ok E (audit_events (approvals_update f w))"
  by (simp add: good_def)

lemma approve_forward [evo]: "evolves (forward E) (approve E aid actor note t)"
proof (rule evolvesI)
  fix w
  show "forward E w (after (approve E aid actor note t) w)"
  proof (cases "good E w")
    case True
    then show ?thesis
      by (auto simp: approve_run goodD(1) Let_def good_chain_approvals split: option.split
          intro!: forward_evo.evo_trans [OF decide_forward audited_forward] forward_evo.evo_refl)
  qed (simp add: forward_def)
qed

lemma reject_forward [evo]: "evolves (forward E) (reject E aid actor reason t)"
proof (rule evolvesI)
  fix w
  show "forward E w (after (reject E aid actor reason t) w)"
  proof (cases "good E w")
    case True
    then show ?thesis
      by (auto simp: reject_run goodD(1) Let_def good_chain_approvals split: option.split
          intro!: forward_evo.evo_trans [OF decide_forward audited_forward] forward_evo.evo_refl)
  qed (simp add: forward_def)
qed

lemma merge_run:
  "merge_execution_context aid fs w =
     (case get_approval aid w of None \<Rightarrow> (Inl (ValueError ''approval_not_found''), w)
      | Some row \<Rightarrow> (Inr (merge_row fs row), approvals_update (tupd appr_pk aid (merge_row fs)) w))"
  by (simp add: merge_execution_context_def comp update_row_def split: option.split)

lemma merge_forward [evo]: "evolves (forward E) (merge_execution_context aid fs)"
  by (rule evolvesI) (auto simp: merge_run merge_row_def appr_le_def split: option.split
      intro!: approvals_update_forward forward_evo.evo_refl)

lemma record_send_completed_forward [evo]: "evolves (forward E) (record_send_completed aid m)"
  unfolding record_send_completed_def by (intro evo)

section \<open>Enqueueing\<close>

definition enqueue_verdict :: "approval \<Rightarrow> world \<Rightarrow> exn option" where
  "enqueue_verdict a w =
     (if appr_status a \<noteq> ApprovalApproved then Some (ValueError ''approval_not_approved'')
      else if appr_kind a \<noteq> ''job.gate'' then Some (ValueError ''approval_invalid_kind'')
      else case gate_verdict a w of
             Some e \<Rightarrow> Some e
           | None \<Rightarrow> if \<not> truthy (dget (loads (appr_payload a)) ''gmail_draft_id'')
                     then Some (ValueError ''missing_gmail_draft_id_for_enqueue'') else None)"

lemma validate_enqueue_run:
  "validate_send_enqueue_eligibility a w = (case enqueue_verdict a w of None \<Rightarrow> Inr () | Some e \<Rightarrow> Inl e, w)"
  by (simp add: validate_send_enqueue_eligibility_def validate_outbound_send_gate_def enqueue_verdict_def
      gate_verdict_def comp Let_def)

definition enqueue_audit :: "approval \<Rightarrow> dict \<Rightarrow> audit_args" where
  "enqueue_audit a m = (audit_call SEND_JOB_ENQUEUED ''approval'' (appr_pk a))
     \<lparr>arg_tenant := appr_tenant a, arg_metadata := m\<rparr>"

lemma enqueue_run:
  assumes "chain_ok E (audit_events w)"
  shows "enqueue_email_send_job E a w =
    (case enqueue_verdict a w of
       Some e \<Rightarrow> (Inl e, w)
     | None \<Rightarrow>
         (case keyed (send_key (appr_pk a)) (jobs w) of
            j # _ \<Rightarrow> (Inr j, audited E (enqueue_audit a [(''job_id'', JStr (job_pk j)), (''idempotent'', JBool True)]) w)
          | [] \<Rightarrow>
              let j = new_job EMAIL_SEND_APPROVED (Some [(''approval_id'', JStr (appr_pk a))]) (appr_tenant a)
                        (Some (send_key (appr_pk a))) w
              in (Inr j, audited E (enqueue_audit a [(''job_id'', JStr (job_pk j))])
                    (w\<lparr>uuids := Suc (uuids w), jobs := jobs w @ [j]\<rparr>))))"
  using assms
  by (auto simp: enqueue_email_send_job_def bindM_def [of "validate_send_enqueue_eligibility _"] validate_enqueue_run
      by_key_keyed first_row_def enqueue_audit_def audit_record_audited create_job_run bindM_def ret_def gets_def
      Let_def split: option.split list.split)

lemma enqueue_verdict_later:
  assumes "enqueue_verdict a w = None" and "jobs v = jobs w @ js"
  shows "enqueue_verdict a v = None"
proof -
  have "get_json get_job sj v = None \<Longrightarrow> get_json get_job sj w = None" for sj
    using assms(2)
    by (auto simp: get_json_def get_job_def get_row_def tget_append split: option.splits)
  then show ?thesis
    using assms(1) by (force simp: enqueue_verdict_def gate_verdict_def Let_def split: if_splits option.splits)
qed

lemma keyed_append: "keyed k (js @ js') = keyed k js @ keyed k js'"
  by (simp add: keyed_def)

section \<open>A sample approval with its source job\<close>

definition sample_source_job :: job where
  "sample_source_job = \<lparr>job_pk = uuid 2, job_tenant = Some ''t1'', job_type = CHAT_ORCHESTRATE,
     job_status = JobSucceeded, job_idempotency_key = None, job_payload = None, job_attempts = 0,
     job_last_error = None, job_run_after = None, job_created_at = 0, job_updated_at = 0\<rparr>"

definition sample_approval :: "approval_status \<Rightarrow> approval" where
  "sample_approval s = \<lparr>appr_pk = uuid 3, appr_tenant = Some ''t1'', appr_kind = ''job.gate'', appr_status = s,
     appr_payload = Some [(''job_id'', JStr (uuid 2)), (''workflow'', JStr ''email.outbound''),
       (''gmail_draft_id'', JStr ''d1'')],
     appr_decided_at = None, appr_created_at = 0\<rparr>"

definition sample_state :: "approval_status \<Rightarrow> world" where
  "sample_state s = empty_world\<lparr>uuids := 4, jobs := [sample_source_job], approvals := [sample_approval s]\<rparr>"

lemma sample_state_good: "good sample_env (sample_state s)"
  by (auto simp: good_def drawn_def keys_unique_def sample_state_def sample_source_job_def sample_approval_def
      empty_world_def)

lemma sample_state_request [simp]: "get_request (uuid 3) None (sample_state s) = Some (sample_approval s)"
  by (simp add: get_request_def get_approval_def get_row_def sample_state_def sample_approval_def)

lemma sample_state_clock [simp]: "clock (sample_state s) = 0"
  by (simp add: sample_state_def empty_world_def)

lemma sample_approval_status [simp]: "appr_status (sample_approval s) = s"
  by (simp add: sample_approval_def)

lemma sample_gate [simp]: "gate_verdict (sample_approval s) (sample_state s') = None"
  by (simp add: gate_verdict_def sample_approval_def sample_state_def loads_def get_json_def get_job_def
      get_row_def sample_source_job_def Let_def)

section \<open>Properties\<close>



text \<open>C10: a decision is final. Once an approval is decided, in every later state of the system
  both \<open>approve\<close> and \<open>reject\<close> answer approval_not_pending and leave the state as it is.\<close>

theorem decision_final:
  assumes "good E w" and "get_request aid t w = Some row" and "appr_status row \<noteq> ApprovalPending"
    and "forward E w v"
  shows "approve E aid actor note t v = (Inl (ValueError ''approval_not_pending''), v)
     \<and> reject E aid actor' reason t v = (Inl (ValueError ''approval_not_pending''), v)"
proof -
  have v: "good E v" "table_le appr_le (approvals w) (approvals v)"
    using assms(1,4) by (auto simp: forward_def)
  have row: "row \<in> set (approvals w)" "appr_pk row = aid" "t = None \<or> appr_tenant row = t"
    using approval_fetch.fetch_SomeD [OF assms(2)] by auto
  obtain r where r: "r \<in> set (approvals v)" "appr_le row r"
    using appr_order.le_in [OF v(2) row(1)] by blast
  have "distinct (map appr_pk (approvals v))" using goodD(2) [OF v(1)] by (simp add: drawn_def)
  then have "tget appr_pk aid (approvals v) = Some r"
    using r row(2) by (simp add: tget_Some_iff appr_le_def)
  then have "get_request aid t v = Some r"
    using row(3) r(2) by (auto simp: get_request_def get_approval_def get_row_def scoped_row_def appr_le_def)
  moreover have "appr_status r \<noteq> ApprovalPending" using assms(3) r(2) by (auto simp: appr_le_def)
  ultimately show ?thesis
    by (simp add: approve_run [OF goodD(1) [OF v(1)]] reject_run [OF goodD(1) [OF v(1)]])
qed

theorem decision_final_witness:
  "approve sample_env (uuid 3) ''ana'' None None (sample_state ApprovalRejected)
     = (Inl (ValueError ''approval_not_pending''), sample_state ApprovalRejected)"
  using decision_final [OF sample_state_good sample_state_request _ forward_evo.evo_refl, of ApprovalRejected]
  by simp

text \<open>C36: enqueueing a send is idempotent. Whatever job it answers with is the only job under the
  approval's key, the approval was approved with a draft, and enqueueing again answers with the
  same job and adds none.\<close>

theorem enqueue_idempotent:
  assumes "good E w" and "enqueue_email_send_job E a w = (Inr j, v)"
  shows "keyed (send_key (appr_pk a)) (jobs v) = [j] \<and> appr_status a = ApprovalApproved
     \<and> truthy (dget (loads (appr_payload a)) ''gmail_draft_id'')
     \<and> result (enqueue_email_send_job E a) v = Inr j \<and> jobs (after (enqueue_email_send_job E a) v) = jobs v"
proof -
  let ?k = "send_key (appr_pk a)"
  have one: "length (keyed ?k (jobs w)) \<le> 1"
    using goodD(4) [OF assms(1)] by (intro keyed_at_most_one) (simp add: keys_unique_def)
  have verdict: "enqueue_verdict a w = None"
    using assms(2) by (simp add: enqueue_run [OF goodD(1) [OF assms(1)]] split: option.splits)
  then have a: "appr_status a = ApprovalApproved" "truthy (dget (loads (appr_payload a)) ''gmail_draft_id'')"
    by (auto simp: enqueue_verdict_def split: if_splits option.splits)
  have "keyed ?k (jobs v) = [j] \<and> (\<exists>js. jobs v = jobs w @ js) \<and> chain_ok E (audit_events v)"
  proof (cases "keyed ?k (jobs w)")
    case Nil
    then show ?thesis
      using assms(2) verdict goodD(1) [OF assms(1)]
      by (auto simp: enqueue_run Let_def keyed_append keyed_def new_job_def intro!: chain_ok_audited)
  next
    case (Cons j' js)
    then have "keyed ?k (jobs w) = [j']" using one by simp
    then show ?thesis
      using assms(2) verdict goodD(1) [OF assms(1)] by (auto simp: enqueue_run intro!: chain_ok_audited)
  qed
  moreover then obtain js where "jobs v = jobs w @ js" by blast
  then have "enqueue_verdict a v = None" by (rule enqueue_verdict_later [OF verdict])
  ultimately show ?thesis using a by (simp add: enqueue_run)
qed

theorem enqueue_idempotent_witness:
  "\<exists>j v. enqueue_email_send_job sample_env (sample_approval ApprovalApproved) (sample_state ApprovalApproved) = (Inr j, v)
     \<and> jobs v = [sample_source_job, j] \<and> keyed (send_key (uuid 3)) (jobs v) = [j]"
proof -
  let ?a = "sample_approval ApprovalApproved" and ?w = "sample_state ApprovalApproved"
  have "enqueue_verdict ?a ?w = None"
    by (simp add: enqueue_verdict_def) (simp add: sample_approval_def loads_def)
  moreover have "keyed k (jobs ?w) = []" for k
    by (simp add: sample_state_def keyed_def sample_source_job_def)
  ultimately obtain j v where run: "enqueue_email_send_job sample_env ?a ?w = (Inr j, v)" "jobs v = jobs ?w @ [j]"
    by (simp add: enqueue_run [OF goodD(1) [OF sample_state_good]] Let_def)
  have "appr_pk ?a = uuid 3" "jobs ?w = [sample_source_job]" by (simp_all add: sample_approval_def sample_state_def)
  then show ?thesis using run enqueue_idempotent [OF sample_state_good run(1)] by auto
qed

end
