(* ===== verification/EmailPersistence.thy ===== *)
theory EmailPersistence
  imports ApprovalService
begin

text \<open>
  services/email_persistence.py: the durable rows of an email thread (one per tenant and external
  id) and of an outbound delivery (one per approval), with the UNIQUE constraints that keep them
  single.
\<close>

definition same_thread :: "email_thread \<Rightarrow> email_thread \<Rightarrow> bool" where
  "same_thread a b \<longleftrightarrow> sql_eq (thread_tenant a) (thread_tenant b) \<and> thread_external_id a = thread_external_id b"

text \<open>The query by tenant and external id: \<open>IS NULL\<close> without a tenant.\<close>

definition threads_of :: "string option \<Rightarrow> string \<Rightarrow> email_thread list \<Rightarrow> email_thread list" where
  "threads_of t ext rs = filter (\<lambda>r. thread_external_id r = ext \<and> thread_tenant r = t) rs"

text \<open>An UPDATE refreshes \<open>updated_at\<close> (\<open>onupdate=func.now()\<close>) when a column changed.\<close>

definition touch :: "time \<Rightarrow> (delivery \<Rightarrow> delivery) \<Rightarrow> delivery \<Rightarrow> delivery" where
  "touch now = touched (\<lambda>d. d\<lparr>dlv_updated_at := now\<rparr>)"

definition touch_thread :: "time \<Rightarrow> (email_thread \<Rightarrow> email_thread) \<Rightarrow> email_thread \<Rightarrow> email_thread" where
  "touch_thread now = touched (\<lambda>r. r\<lparr>thread_updated_at := now\<rparr>)"

definition or_else :: "'a option \<Rightarrow> 'a option \<Rightarrow> 'a option" where
  "or_else new old = (case new of None \<Rightarrow> old | Some v \<Rightarrow> Some v)"

definition upsert_thread_record ::
  "string option \<Rightarrow> string \<Rightarrow> string option \<Rightarrow> string option \<Rightarrow> string option \<Rightarrow> dict \<Rightarrow> unit svc" where
  "upsert_thread_record t external_thread_id source_job_id snippet intent extra =
     (let extra_json = (if extra \<noteq> [] then Some extra else None) in
      bindM (gets (\<lambda>w. threads_of t external_thread_id (email_threads w))) (\<lambda>found.
      bindM (lift (scalar_one_or_none found)) (\<lambda>row.
      bindM (gets clock) (\<lambda>now.
      case row of
        None \<Rightarrow>
          bindM new_id (\<lambda>pk.
          insert_unique email_threads email_threads_update same_thread ''email_threads.tenant_external''
            \<lparr>thread_pk = pk, thread_tenant = t, thread_external_id = external_thread_id,
             thread_snippet = snippet, thread_intent = intent, thread_source_job = source_job_id,
             thread_extra = extra_json, thread_updated_at = now\<rparr>)
      | Some r \<Rightarrow>
          update_row email_threads_update thread_pk (thread_pk r) (touch_thread now (\<lambda>r.
            r\<lparr>thread_snippet := or_else snippet (thread_snippet r),
              thread_intent := or_else intent (thread_intent r),
              thread_source_job := or_else source_job_id (thread_source_job r),
              thread_extra := or_else extra_json (thread_extra r)\<rparr>))))))"

definition same_delivery :: "delivery \<Rightarrow> delivery \<Rightarrow> bool" where
  "same_delivery a b \<longleftrightarrow> sql_eq (dlv_approval a) (dlv_approval b)"

definition deliveries_of :: "string \<Rightarrow> delivery list \<Rightarrow> delivery list" where
  "deliveries_of aid ds = filter (\<lambda>d. dlv_approval d = Some aid) ds"

definition upsert_outbound_delivery ::
  "string option \<Rightarrow> string \<Rightarrow> string \<Rightarrow> string \<Rightarrow> string \<Rightarrow> string \<Rightarrow> unit svc" where
  "upsert_outbound_delivery t ext_id gmail_draft_id approval_id source_job_id status =
     bindM (gets (\<lambda>w. deliveries_of approval_id (deliveries w))) (\<lambda>found.
     bindM (lift (scalar_one_or_none found)) (\<lambda>row.
     bindM (gets clock) (\<lambda>now.
     case row of
       None \<Rightarrow>
         bindM new_id (\<lambda>pk.
         insert_unique deliveries deliveries_update same_delivery ''uq_email_delivery_approval''
           \<lparr>dlv_pk = pk, dlv_tenant = t, dlv_thread = ext_id, dlv_draft = Some gmail_draft_id,
            dlv_message = None, dlv_approval = Some approval_id, dlv_source_job = Some source_job_id,
            dlv_execution_job = None, dlv_status = status, dlv_last_error = None, dlv_updated_at = now\<rparr>)
     | Some d \<Rightarrow>
         update_row deliveries_update dlv_pk (dlv_pk d) (touch now (\<lambda>d.
           d\<lparr>dlv_thread := ext_id, dlv_draft := Some gmail_draft_id,
             dlv_source_job := Some source_job_id, dlv_status := status, dlv_last_error := None\<rparr>)))))"

definition mark_delivery_sent :: "string \<Rightarrow> string \<Rightarrow> string \<Rightarrow> unit svc" where
  "mark_delivery_sent approval_id execution_job_id gmail_message_id =
     bindM (gets (\<lambda>w. deliveries_of approval_id (deliveries w))) (\<lambda>found.
     bindM (lift (scalar_one_or_none found)) (\<lambda>row.
     bindM (gets clock) (\<lambda>now.
     case row of
       None \<Rightarrow> ret ()
     | Some d \<Rightarrow>
         update_row deliveries_update dlv_pk (dlv_pk d) (touch now (\<lambda>d.
           d\<lparr>dlv_message := Some gmail_message_id, dlv_execution_job := Some execution_job_id,
             dlv_status := ''sent'', dlv_last_error := None\<rparr>)))))"

definition mark_delivery_failed :: "string \<Rightarrow> string \<Rightarrow> string \<Rightarrow> unit svc" where
  "mark_delivery_failed approval_id execution_job_id error =
     bindM (gets (\<lambda>w. deliveries_of approval_id (deliveries w))) (\<lambda>found.
     bindM (lift (scalar_one_or_none found)) (\<lambda>row.
     bindM (gets clock) (\<lambda>now.
     case row of
       None \<Rightarrow> ret ()
     | Some d \<Rightarrow>
         update_row deliveries_update dlv_pk (dlv_pk d) (touch now (\<lambda>d.
           d\<lparr>dlv_execution_job := Some execution_job_id, dlv_status := ''failed'', dlv_last_error := Some error\<rparr>)))))"

definition list_deliveries :: "string option \<Rightarrow> string option \<Rightarrow> int \<Rightarrow> world \<Rightarrow> delivery list" where
  "list_deliveries status t limit w =
     sql_limit (min limit 200) (order_desc dlv_updated_at
       (filter (\<lambda>d. in_tenant dlv_tenant t d \<and> opt_filter dlv_status status d) (deliveries w)))"

definition get_delivery_by_approval_id :: "string \<Rightarrow> string option \<Rightarrow> world \<Rightarrow> delivery option" where
  "get_delivery_by_approval_id approval_id t w =
     scoped_row dlv_tenant t (first_row (deliveries_of approval_id (deliveries w)))"

definition get_delivery_by_execution_job_id :: "string \<Rightarrow> string option \<Rightarrow> world \<Rightarrow> delivery option" where
  "get_delivery_by_execution_job_id job_id t w =
     scoped_row dlv_tenant t (first_row (filter (\<lambda>d. dlv_execution_job d = Some job_id) (deliveries w)))"

definition thread_json :: "email_thread \<Rightarrow> json" where
  "thread_json r = JObj [(''id'', JStr (thread_pk r)), (''external_thread_id'', JStr (thread_external_id r)),
     (''last_snippet'', jopt (thread_snippet r)), (''last_intent'', jopt (thread_intent r)),
     (''source_job_id'', jopt (thread_source_job r))]"

definition delivery_json :: "delivery \<Rightarrow> json" where
  "delivery_json d = JObj [(''id'', JStr (dlv_pk d)), (''approval_id'', jopt (dlv_approval d)),
     (''status'', JStr (dlv_status d)), (''gmail_draft_id'', jopt (dlv_draft d)),
     (''gmail_message_id'', jopt (dlv_message d)), (''source_job_id'', jopt (dlv_source_job d)),
     (''execution_job_id'', jopt (dlv_execution_job d)), (''last_error'', jopt (dlv_last_error d))]"

definition get_thread_summary :: "string option \<Rightarrow> string \<Rightarrow> dict svc" where
  "get_thread_summary t external_thread_id =
     bindM (gets (\<lambda>w. threads_of t external_thread_id (email_threads w))) (\<lambda>found.
     bindM (lift (scalar_one_or_none found)) (\<lambda>thread.
     bindM (gets (\<lambda>w. filter (\<lambda>d. dlv_thread d = external_thread_id \<and> dlv_tenant d = t) (deliveries w))) (\<lambda>ds.
     ret [(''thread'', case thread of None \<Rightarrow> JNull | Some r \<Rightarrow> thread_json r),
          (''deliveries'', JArr (map delivery_json ds))])))"

section \<open>Interfaces and footprints\<close>

interpretation deliveries_tbl: world_table deliveries deliveries_update dlv_pk
  by unfold_locales simp_all

interpretation threads_tbl: world_table email_threads email_threads_update thread_pk
  by unfold_locales simp_all

interpretation delivery_query: scoped_query deliveries dlv_tenant
  "\<lambda>(status, limit::int) d. opt_filter dlv_status status d"
  "\<lambda>(status, limit) rs. sql_limit (min limit 200) (order_desc dlv_updated_at rs)"
  "\<lambda>(status, limit) t w. list_deliveries status t limit w"
  by unfold_locales (auto simp: list_deliveries_def dest: set_sql_limit [THEN subsetD])

lemma upsert_thread_evo [evo]:
  "TThreads \<in> S \<Longrightarrow> evolves (only S) (upsert_thread_record t x j s i e)"
  "evolves (forward E) (upsert_thread_record t x j s i e)"
  unfolding upsert_thread_record_def by (intro evo; assumption?)+

lemma upsert_delivery_evo [evo]:
  "TDeliveries \<in> S \<Longrightarrow> evolves (only S) (upsert_outbound_delivery t x d a j s)"
  "evolves (forward E) (upsert_outbound_delivery t x d a j s)"
  unfolding upsert_outbound_delivery_def by (intro evo; assumption?)+

lemma mark_delivery_evo [evo]:
  "TDeliveries \<in> S \<Longrightarrow> evolves (only S) (mark_delivery_sent a j m)"
  "evolves (forward E) (mark_delivery_sent a j m)"
  "TDeliveries \<in> S \<Longrightarrow> evolves (only S) (mark_delivery_failed a j m)"
  "evolves (forward E) (mark_delivery_failed a j m)"
  unfolding mark_delivery_sent_def mark_delivery_failed_def by (intro evo; assumption?)+

section \<open>One delivery per approval\<close>

definition deliveries_single :: "world \<Rightarrow> bool" where
  "deliveries_single w \<longleftrightarrow> distinct (List.map_filter dlv_approval (deliveries w)) \<and> drawn deliveries dlv_pk w"

lemma deliveries_of_at_most_one:
  "distinct (List.map_filter dlv_approval ds) \<Longrightarrow> length (deliveries_of a ds) \<le> 1"
proof (induction ds)
  case (Cons d ds)
  show ?case
  proof (cases "dlv_approval d = Some a")
    case True
    then have "a \<notin> set (List.map_filter dlv_approval ds)" using Cons.prems by simp
    then have "deliveries_of a ds = []" by (auto simp: deliveries_of_def filter_empty_conv in_map_filter)
    then show ?thesis by (simp add: deliveries_of_def)
  next
    case False
    then show ?thesis using Cons by (auto simp: deliveries_of_def split: option.splits)
  qed
qed (simp add: deliveries_of_def)

lemma deliveries_of_cases:
  assumes "distinct (List.map_filter dlv_approval ds)"
  obtains "deliveries_of a ds = []" | d where "deliveries_of a ds = [d]"
  using deliveries_of_at_most_one [OF assms, of a] by (cases "deliveries_of a ds" rule: remdups_adj.cases) auto

text \<open>An update of the one delivery of an approval, found by the approval and written by its key.\<close>

lemma update_delivery:
  assumes single: "deliveries_single w" and d: "deliveries_of a (deliveries w) = [d]"
    and f: "\<And>r. dlv_approval (f r) = dlv_approval r" "\<And>r. dlv_pk (f r) = dlv_pk r"
  defines "v \<equiv> deliveries_update (tupd dlv_pk (dlv_pk d) f) w"
  shows "deliveries_of a (deliveries v) = [f d]" and "deliveries_single v"
    and "filter (\<lambda>r. dlv_approval r \<noteq> Some a) (deliveries v) = filter (\<lambda>r. dlv_approval r \<noteq> Some a) (deliveries w)"
proof -
  show "deliveries_of a (deliveries v) = [f d]"
    using d by (simp add: v_def deliveries_of_def filter_tupd f)
  have keys: "map dlv_pk (deliveries v) = map dlv_pk (deliveries w)"
    by (simp add: v_def map_tupd_same f)
  then have "dlv_pk ` set (deliveries v) = dlv_pk ` set (deliveries w)" by (metis set_map)
  then show "deliveries_single v"
    using single keys by (simp add: deliveries_single_def drawn_def v_def map_filter_tupd f)
  have d_in: "d \<in> set (deliveries w)" "dlv_approval d = Some a"
    using arg_cong [OF d, of set] by (auto simp: deliveries_of_def)
  have "dlv_pk r \<noteq> dlv_pk d" if "r \<in> set (deliveries w)" "dlv_approval r \<noteq> Some a" for r
    using single that d_in distinct_key_unique [of dlv_pk "deliveries w" r d]
    by (auto simp: deliveries_single_def drawn_def)
  then show "filter (\<lambda>r. dlv_approval r \<noteq> Some a) (deliveries v) = filter (\<lambda>r. dlv_approval r \<noteq> Some a) (deliveries w)"
    by (simp add: v_def filter_tupd f) (rule tupd_other, auto)
qed

lemma touch_keeps:
  "(\<And>r. dlv_approval (f r) = dlv_approval r) \<Longrightarrow> dlv_approval (touch now f r) = dlv_approval r"
  "(\<And>r. dlv_pk (f r) = dlv_pk r) \<Longrightarrow> dlv_pk (touch now f r) = dlv_pk r"
  "dlv_draft (touch now f r) = dlv_draft (f r)" "dlv_status (touch now f r) = dlv_status (f r)"
  "dlv_message (touch now f r) = dlv_message (f r)" "dlv_execution_job (touch now f r) = dlv_execution_job (f r)"
  "dlv_last_error (touch now f r) = dlv_last_error (f r)" "dlv_thread (touch now f r) = dlv_thread (f r)"
  by (simp_all add: touch_def touched_def)

lemma insert_delivery:
  assumes single: "deliveries_single w" and none: "deliveries_of a (deliveries w) = []"
    and r: "dlv_pk r = uuid (uuids w)" "dlv_approval r = Some a"
  shows "deliveries_of a (deliveries w @ [r]) = [r]"
    and "deliveries_single (w\<lparr>uuids := Suc (uuids w), deliveries := deliveries w @ [r]\<rparr>)"
    and "\<not> list_ex (\<lambda>r'. same_delivery r' r) (deliveries w)"
proof -
  show "deliveries_of a (deliveries w @ [r]) = [r]" using none r by (simp add: deliveries_of_def)
  have "a \<notin> set (List.map_filter dlv_approval (deliveries w))"
    using none by (auto simp: deliveries_of_def filter_empty_conv in_map_filter)
  moreover have "drawn deliveries dlv_pk (after (insert_row deliveries_update r) (w\<lparr>uuids := Suc (uuids w)\<rparr>))"
    using single r by (intro deliveries_tbl.drawn_insert) (simp_all add: deliveries_single_def)
  ultimately show "deliveries_single (w\<lparr>uuids := Suc (uuids w), deliveries := deliveries w @ [r]\<rparr>)"
    using single r by (simp add: deliveries_single_def insert_row_def comp drawn_def)
  show "\<not> list_ex (\<lambda>r'. same_delivery r' r) (deliveries w)"
    using none r by (auto simp: list_ex_iff same_delivery_def sql_eq_def deliveries_of_def filter_empty_conv)
qed

section \<open>Properties\<close>

text \<open>C39: an approval has one delivery row, ever. On deliveries that are single per approval, the
  upsert never fails, leaves exactly one row for the approval, with the new draft, thread, status
  and no error, touches no other row, and keeps the deliveries single.\<close>

theorem delivery_upsert:
  assumes "deliveries_single w" and "v = after (upsert_outbound_delivery t x d a j s) w"
  shows "result (upsert_outbound_delivery t x d a j s) w = Inr () \<and> deliveries_single v
     \<and> (\<exists>r. deliveries_of a (deliveries v) = [r] \<and> dlv_draft r = Some d \<and> dlv_thread r = x
            \<and> dlv_status r = s \<and> dlv_last_error r = None)
     \<and> filter (\<lambda>r. dlv_approval r \<noteq> Some a) (deliveries v) = filter (\<lambda>r. dlv_approval r \<noteq> Some a) (deliveries w)"
proof -
  have "distinct (List.map_filter dlv_approval (deliveries w))" using assms(1) by (simp add: deliveries_single_def)
  then show ?thesis
  proof (cases rule: deliveries_of_cases [where a = a])
    case 1
    let ?r = "\<lparr>dlv_pk = uuid (uuids w), dlv_tenant = t, dlv_thread = x, dlv_draft = Some d,
            dlv_message = None, dlv_approval = Some a, dlv_source_job = Some j,
            dlv_execution_job = None, dlv_status = s, dlv_last_error = None, dlv_updated_at = clock w\<rparr>"
    note ins = insert_delivery [OF assms(1) 1, of ?r]
    have "upsert_outbound_delivery t x d a j s w
        = (Inr (), w\<lparr>uuids := Suc (uuids w), deliveries := deliveries w @ [?r]\<rparr>)"
      using ins(3) by (simp add: upsert_outbound_delivery_def 1 scalar_one_or_none_def comp new_id_def insert_unique_def)
    then show ?thesis using ins(1,2) by (simp add: assms(2))
  next
    case (2 r)
    let ?f = "touch (clock w) (\<lambda>r. r\<lparr>dlv_thread := x, dlv_draft := Some d,
             dlv_source_job := Some j, dlv_status := s, dlv_last_error := None\<rparr>)"
    have "upsert_outbound_delivery t x d a j s w = (Inr (), deliveries_update (tupd dlv_pk (dlv_pk r) ?f) w)"
      by (simp add: upsert_outbound_delivery_def 2 scalar_one_or_none_def comp update_row_def)
    then show ?thesis
      using update_delivery [OF assms(1) 2, of ?f] by (simp add: assms(2) touch_keeps)
  qed
qed

theorem delivery_upsert_witness:
  "result (upsert_outbound_delivery None ''t1'' ''d1'' ''a1'' ''j1'' ''awaiting_approval'') empty_world = Inr ()"
  using delivery_upsert [OF _ refl, of empty_world None "''t1''" "''d1''" "''a1''" "''j1''" "''awaiting_approval''"]
  by (simp add: deliveries_single_def drawn_def empty_world_def)

end
