(* ===== verification/PyFormat.thy ===== *)
theory PyFormat
  imports Json
begin

text \<open>
  Python text of values: \<open>repr\<close> and \<open>str\<close> of the values that reach an f-string, and the two
  renderings of the exports, \<open>json.dumps(v, indent=2, ensure_ascii=False)\<close> and a Markdown list.
  Two characters of the exported documents lie outside Latin-1, the em dash and the arrow; they
  are written as the bytes of their UTF-8 encoding.
\<close>

definition str_opt :: "string option \<Rightarrow> string" where
  "str_opt x = (case x of None \<Rightarrow> ''None'' | Some s \<Rightarrow> s)"

definition str_opt_int :: "int option \<Rightarrow> string" where
  "str_opt_int x = (case x of None \<Rightarrow> ''None'' | Some i \<Rightarrow> str_int i)"

text \<open>\<open>repr\<close> of a string: single quotes unless it holds one and no double quote.\<close>

definition repr_char :: "nat \<Rightarrow> char \<Rightarrow> string" where
  "repr_char q c =
     (let n = ord c in
      if n = q \<or> n = 92 then [chr 92, c]
      else if n = 10 then [chr 92, CHR ''n'']
      else if n = 13 then [chr 92, CHR ''r'']
      else if n = 9 then [chr 92, CHR ''t'']
      else if n < 32 \<or> (127 \<le> n \<and> n \<le> 160) \<or> n = 173
        then [chr 92, CHR ''x'', hexdigit (n div 16), hexdigit (n mod 16)]
      else [c])"

definition repr_str :: "string \<Rightarrow> string" where
  "repr_str s =
     (let q = (if chr 39 \<in> set s \<and> chr 34 \<notin> set s then 34 else 39)
      in chr q # concat (map (repr_char q) s) @ [chr q])"

primrec py_repr :: "json \<Rightarrow> string" where
  "py_repr JNull = ''None''"
| "py_repr (JBool b) = (if b then ''True'' else ''False'')"
| "py_repr (JInt i) = str_int i"
| "py_repr (JStr s) = repr_str s"
| "py_repr (JArr xs) = ''['' @ join '', '' (map py_repr xs) @ '']''"
| "py_repr (JObj kvs) =
     ''{'' @ join '', '' (map (\<lambda>(k, t). repr_str k @ '': '' @ t) (map (map_prod id py_repr) kvs)) @ ''}''"

fun py_str :: "json \<Rightarrow> string" where
  "py_str (JStr s) = s"
| "py_str v = py_repr v"

section \<open>Exports\<close>

definition newline :: "nat \<Rightarrow> string" where
  "newline n = chr 10 # replicate (2 * n) (CHR '' '')"

definition esc_char_raw :: "char \<Rightarrow> string" where
  "esc_char_raw c = (if 127 \<le> ord c then [c] else esc_char c)"

definition quote_raw :: "string \<Rightarrow> string" where
  "quote_raw s = chr 34 # concat (map esc_char_raw s) @ [chr 34]"

primrec dumps_pretty :: "json \<Rightarrow> nat \<Rightarrow> string" where
  "dumps_pretty JNull n = ''null''"
| "dumps_pretty (JBool b) n = (if b then ''true'' else ''false'')"
| "dumps_pretty (JInt i) n = str_int i"
| "dumps_pretty (JStr s) n = quote_raw s"
| "dumps_pretty (JArr xs) n =
     (if xs = [] then ''[]''
      else ''['' @ newline (Suc n) @ join ('','' @ newline (Suc n)) (map (\<lambda>x. dumps_pretty x (Suc n)) xs)
             @ newline n @ '']'')"
| "dumps_pretty (JObj kvs) n =
     (if kvs = [] then ''{}''
      else ''{'' @ newline (Suc n)
             @ join ('','' @ newline (Suc n)) (map (\<lambda>(k, t). quote_raw k @ '': '' @ t)
                 (map (map_prod id (\<lambda>v. dumps_pretty v (Suc n))) kvs))
             @ newline n @ ''}'')"

definition EM_DASH :: string where "EM_DASH = [chr 226, chr 128, chr 148]"
definition ARROW :: string where "ARROW = [chr 226, chr 134, chr 146]"

definition md_list :: "string list \<Rightarrow> string" where
  "md_list items = (if items = [] then ''- (none)'' else join [chr 10] (map (\<lambda>item. ''- '' @ item) items))"

end
