(* ===== verification/PyPath.thy ===== *)
theory PyPath
  imports PyText
begin

text \<open>
  The part of pathlib.PurePosixPath and of os.path that the configuration uses: the text of a path, which
  drops empty and \<open>.\<close> components, and \<open>expanduser\<close>.
\<close>

text \<open>\<open>s.split(c)\<close> for one character.\<close>

fun split_on :: "char \<Rightarrow> string \<Rightarrow> string list" where
  "split_on c [] = [[]]"
| "split_on c (d # s) =
     (if d = c then [] # split_on c s else (case split_on c s of [] \<Rightarrow> [[d]] | p # ps \<Rightarrow> (d # p) # ps))"

text \<open>Two leading slashes, and no more, are a root of their own.\<close>

definition path_root :: "string \<Rightarrow> string" where
  "path_root p =
     (if startswith p ''///'' then ''/'' else if startswith p ''//'' then ''//''
      else if startswith p ''/'' then ''/'' else [])"

definition path_tail :: "string \<Rightarrow> string list" where
  "path_tail p = filter (\<lambda>x. x \<noteq> [] \<and> x \<noteq> ''.'') (split_on (CHR ''/'') p)"

definition path_text :: "string \<Rightarrow> string list \<Rightarrow> string" where
  "path_text root tail = (let s = root @ join ''/'' tail in if s = [] then ''.'' else s)"

definition py_path :: "string \<Rightarrow> string" where
  "py_path p = path_text (path_root p) (path_tail p)"

definition rstrip_slash :: "string \<Rightarrow> string" where
  "rstrip_slash s = rev (dropWhile (\<lambda>c. c = CHR ''/'') (rev s))"

text \<open>
  \<open>str(Path(p).expanduser())\<close>: a first component \<open>~\<close> or \<open>~name\<close> is replaced by the home directory, which
  the environment (HOME) and the password database of the host give or do not give.
\<close>

definition expanduser :: "(string \<Rightarrow> string option) \<Rightarrow> string \<Rightarrow> string option" where
  "expanduser home p =
     (case path_tail p of
        [] \<Rightarrow> Some (py_path p)
      | t # ts \<Rightarrow>
          if path_root p = [] \<and> startswith t ''~'' then
            (case home (tl t) of
               None \<Rightarrow> None
             | Some h \<Rightarrow>
                 let homedir = (if rstrip_slash h = [] then ''/'' else rstrip_slash h) in
                 if startswith homedir ''~'' then None
                 else Some (path_text (path_root homedir) (path_tail homedir @ ts)))
          else Some (py_path p))"

section \<open>Facts\<close>

lemma split_on_parts: "split_on c s \<noteq> [] \<and> list_all (\<lambda>p. c \<notin> set p) (split_on c s)"
  by (induction c s rule: split_on.induct) (auto split: list.split)

lemma split_on_part [simp]: "c \<notin> set p \<Longrightarrow> split_on c p = [p]"
  by (induction c p rule: split_on.induct) auto

lemma split_on_join: "list_all (\<lambda>p. c \<notin> set p) ps \<Longrightarrow> ps \<noteq> [] \<Longrightarrow> split_on c (join [c] ps) = ps"
proof (induction "[c]" ps rule: join.induct)
  case (3 p q ps)
  have "split_on c (p @ c # s) = p # split_on c s" if "c \<notin> set p" for s using that by (induction p) auto
  then show ?case using 3 by simp
qed auto

lemma path_tail_parts: "x \<in> set (path_tail p) \<Longrightarrow> CHR ''/'' \<notin> set x \<and> x \<noteq> [] \<and> x \<noteq> ''.''"
  using split_on_parts [of "CHR ''/''" p] by (auto simp: path_tail_def list_all_iff)

lemma root_absolute: "startswith p ''/'' \<longleftrightarrow> path_root p \<noteq> []"
  by (auto simp: path_root_def startswith_def prefix_def)

lemma expanduser_absolute: "startswith p ''/'' \<Longrightarrow> expanduser home p = Some (py_path p)"
  by (auto simp: expanduser_def root_absolute split: list.split)

text \<open>The text of a path has the path's root and components again: \<open>Path(str(p)) == p\<close>.\<close>

lemma filter_all: "list_all P xs \<Longrightarrow> filter P xs = xs"
  by (induction xs) auto

lemma tail_join:
  assumes "list_all (\<lambda>x. CHR ''/'' \<notin> set x \<and> x \<noteq> [] \<and> x \<noteq> ''.'') ps"
  shows "path_tail (join ''/'' ps) = ps"
proof (cases ps)
  case (Cons q qs)
  have "split_on (CHR ''/'') (join ''/'' ps) = ps"
    using assms by (intro split_on_join) (auto simp: list_all_iff Cons)
  then show ?thesis using assms by (auto simp: path_tail_def list_all_iff intro!: filter_all)
qed (simp add: path_tail_def)

lemma tail_slash: "path_tail (CHR ''/'' # s) = path_tail s"
  by (simp add: path_tail_def)

lemma root_cases: "path_root p \<in> {[], ''/'', ''//''}"
  by (simp add: path_root_def)

lemma join_no_slash:
  assumes "list_all (\<lambda>x. CHR ''/'' \<notin> set x \<and> x \<noteq> [] \<and> x \<noteq> ''.'') ps"
  shows "startswith (join ''/'' ps) ''/'' = False"
proof (cases ps rule: list.exhaust)
  case (Cons q qs)
  then obtain c r where "q = c # r" "c \<noteq> CHR ''/''" using assms by (cases q) auto
  then show ?thesis using Cons by (cases qs) (auto simp: startswith_def)
qed (simp add: startswith_def)

lemma py_path_idem: "py_path (py_path p) = py_path p"
proof -
  let ?j = "join ''/'' (path_tail p)"
  have parts: "list_all (\<lambda>x. CHR ''/'' \<notin> set x \<and> x \<noteq> [] \<and> x \<noteq> ''.'') (path_tail p)"
    using path_tail_parts by (auto simp: list_all_iff)
  have tail: "path_tail ?j = path_tail p" by (rule tail_join [OF parts])
  have ns: "startswith ?j ''/'' = False" by (rule join_no_slash [OF parts])
  then have roots: "path_root ?j = []" "path_root (CHR ''/'' # ?j) = ''/''" "path_root (CHR ''/'' # CHR ''/'' # ?j) = ''//''"
    by (auto simp: path_root_def startswith_def prefix_def)
  have dot: "path_root ''.'' = []" "path_tail ''.'' = []" by (simp_all add: path_root_def path_tail_def startswith_def)
  show ?thesis
    using root_cases [of p] by (auto simp: py_path_def path_text_def Let_def roots tail tail_slash dot)
qed

end
