(* ===== verification/GmailConnector.thy ===== *)
theory GmailConnector
  imports Forward PyFormat PyPath
begin

text \<open>
  connectors/gmail.py, connectors/gmail_live.py and connectors/factory.py: the Gmail connector in
  its stub and live modes. Every call of the Gmail API is numbered (\<open>api_calls\<close>); a draft the
  provider accepted for sending is written to \<open>sent_log\<close> with the message id it answered.
\<close>

definition permanent_error :: "string \<Rightarrow> exn" where
  "permanent_error m = ConnectorError ''PermanentProviderError'' m"

definition auth_error :: "string \<Rightarrow> exn" where
  "auth_error m = ConnectorError ''AuthError'' m"

text \<open>\<open>GmailConfig\<close>, its defaults, and the connector the factory builds from the settings.\<close>

record gmail_config =
  cfg_mode :: gmail_mode
  cfg_default_sender :: "string option"
  cfg_credentials_path :: "string option"

definition default_gmail_config :: gmail_config where
  "default_gmail_config = \<lparr>cfg_mode = Stub, cfg_default_sender = None, cfg_credentials_path = None\<rparr>"

definition get_gmail_connector :: "env \<Rightarrow> gmail_config" where
  "get_gmail_connector E =
     default_gmail_config\<lparr>cfg_mode := gmail_mode (config E), cfg_credentials_path := gmail_credentials_path (config E)\<rparr>"

definition api_call :: "(nat \<Rightarrow> exn + 'a) \<Rightarrow> 'a svc" where
  "api_call f w = (f (api_calls w), w\<lparr>api_calls := Suc (api_calls w)\<rparr>)"

section \<open>The client\<close>

definition SCOPES :: "string list" where
  "SCOPES = [''https://www.googleapis.com/auth/gmail.readonly'', ''https://www.googleapis.com/auth/gmail.compose'']"

definition require_deps :: "env \<Rightarrow> exn + unit" where
  "require_deps E =
     (case import_error E of
        None \<Rightarrow> Inr ()
      | Some _ \<Rightarrow> Inl (auth_error (''Gmail live mode requires optional deps: pip install '' @ [chr 39] @ ''codex-control-plane[gmail]'' @ [chr 39])))"

definition load_credentials :: "env \<Rightarrow> string option \<Rightarrow> exn + oauth_credentials" where
  "load_credentials E credentials_path =
     (case require_deps E of
        Inl e \<Rightarrow> Inl e
      | Inr _ \<Rightarrow>
          (case credentials_path of
             None \<Rightarrow> Inl (auth_error ''Set GMAIL_CREDENTIALS_PATH to a Gmail OAuth user token JSON file.'')
           | Some p \<Rightarrow>
               if p = [] then Inl (auth_error ''Set GMAIL_CREDENTIALS_PATH to a Gmail OAuth user token JSON file.'')
               else if \<not> is_file E (py_path p) then Inl (auth_error (''Gmail credentials file not found: '' @ py_path p))
               else token_file E (py_path p) SCOPES))"

definition build_gmail_service :: "env \<Rightarrow> string option \<Rightarrow> unit svc" where
  "build_gmail_service E credentials_path =
     bindM (lift (require_deps E)) (\<lambda>_.
     bindM (lift (load_credentials E credentials_path)) (\<lambda>creds.
     bindM (if oauth_expired creds \<and> oauth_refresh_token creds \<notin> {None, Some []}
            then api_call (\<lambda>n. token_refresh E n creds) else ret creds) (\<lambda>creds.
     lift (gmail_build E creds))))"

section \<open>Calls\<close>

definition json_len :: "json \<Rightarrow> int" where
  "json_len v = (case v of JArr xs \<Rightarrow> int (length xs) | JObj kvs \<Rightarrow> int (length kvs) | JStr s \<Rightarrow> int (length s) | _ \<Rightarrow> 0)"

definition or_empty :: "json \<Rightarrow> json" where
  "or_empty v = (if truthy v then v else JArr [])"

definition live_read_thread :: "env \<Rightarrow> string \<Rightarrow> dict svc" where
  "live_read_thread E thread_id =
     (let tid = strip thread_id in
      if tid = [] \<or> startswith tid ''session:''
      then raise (permanent_error ''Live read requires a real Gmail thread id, not a virtual session hint.'')
      else bindM (api_call (\<lambda>n. gmail_get E n tid)) (\<lambda>t.
        ret [(''thread_id'', dget t ''id''), (''snippet'', dget t ''snippet''),
             (''message_count'', JInt (json_len (or_empty (dget t ''messages'')))),
             (''messages'', or_empty (dget t ''messages''))]))"

definition live_create_draft :: "env \<Rightarrow> string option \<Rightarrow> string \<Rightarrow> string \<Rightarrow> string option \<Rightarrow> string svc" where
  "live_create_draft E thread_id subject body sender =
     (let thread = (case thread_id of Some t \<Rightarrow> if t \<noteq> [] \<and> \<not> startswith t ''session:'' then Some t else None
                                    | None \<Rightarrow> None) in
      bindM (api_call (\<lambda>n. gmail_create E n thread subject body sender)) (\<lambda>i.
        case i of None \<Rightarrow> raise (KeyError ''id'') | Some d \<Rightarrow> ret d))"

definition log_sent :: "string \<Rightarrow> string \<Rightarrow> unit svc" where
  "log_sent draft_id mid = modify (\<lambda>w. w\<lparr>sent_log := sent_log w @ [(draft_id, mid)]\<rparr>)"

definition live_send_draft :: "env \<Rightarrow> string \<Rightarrow> string svc" where
  "live_send_draft E draft_id =
     (if startswith draft_id ''draft:stub:''
      then raise (permanent_error ''Cannot send stub draft id in live mode.'')
      else bindM (api_call (\<lambda>n. gmail_send E n draft_id)) (\<lambda>i.
        let mid = (case i of None \<Rightarrow> [] | Some m \<Rightarrow> m) in
        bindM (log_sent draft_id mid) (\<lambda>_.
        if mid = [] then raise (permanent_error ''Gmail send returned no message id'') else ret mid)))"

definition read_thread :: "env \<Rightarrow> gmail_config \<Rightarrow> string \<Rightarrow> dict svc" where
  "read_thread E g thread_id =
     (case cfg_mode g of
        Stub \<Rightarrow>
          let tid = (if strip thread_id = [] then ''unknown'' else strip thread_id) in
          ret [(''thread_id'', JStr tid), (''snippet'', JStr ''stub_thread''), (''message_count'', JInt 0),
               (''messages'', JArr [])]
      | Live \<Rightarrow> bindM (build_gmail_service E (cfg_credentials_path g)) (\<lambda>_. live_read_thread E thread_id))"

definition create_draft :: "env \<Rightarrow> gmail_config \<Rightarrow> string option \<Rightarrow> string \<Rightarrow> string \<Rightarrow> string svc" where
  "create_draft E g thread_id subject body =
     (case cfg_mode g of
        Stub \<Rightarrow> bindM new_id (\<lambda>u. ret (''draft:stub:'' @ u))
      | Live \<Rightarrow> bindM (build_gmail_service E (cfg_credentials_path g)) (\<lambda>_. live_create_draft E thread_id subject body (cfg_default_sender g)))"

definition send_message :: "env \<Rightarrow> gmail_config \<Rightarrow> string \<Rightarrow> bool \<Rightarrow> string svc" where
  "send_message E g draft_id approved =
     (if \<not> approved
      then raise (permanent_error ''Send is gated: set approved=True only after operator approval.'')
      else case cfg_mode g of
        Stub \<Rightarrow> bindM new_id (\<lambda>u. bindM (log_sent draft_id (''msg:stub:'' @ u)) (\<lambda>_. ret (''msg:stub:'' @ u)))
      | Live \<Rightarrow> bindM (build_gmail_service E (cfg_credentials_path g)) (\<lambda>_. live_send_draft E draft_id))"

definition send_approved_draft :: "env \<Rightarrow> gmail_config \<Rightarrow> string \<Rightarrow> string svc" where
  "send_approved_draft E g draft_id = send_message E g draft_id True"

text \<open>\<open>health_check\<close> and \<open>refresh_credentials\<close>; \<open>os.path.isfile\<close> takes the path as it is written.\<close>

definition health_check :: "env \<Rightarrow> gmail_config \<Rightarrow> dict" where
  "health_check E g =
     (let ok = cfg_mode g = Stub
            \<or> (case cfg_credentials_path g of None \<Rightarrow> False | Some p \<Rightarrow> p \<noteq> [] \<and> is_file E p) in
      [(''provider'', JStr ''gmail''), (''mode'', JStr (case cfg_mode g of Stub \<Rightarrow> ''stub'' | Live \<Rightarrow> ''live'')),
       (''status'', JStr (if ok then ''ok'' else ''not_configured''))])"

definition refresh_credentials :: "unit svc" where
  "refresh_credentials = raise (auth_error ''OAuth refresh not implemented'')"

section \<open>Footprints and what a send leaves\<close>

lemma evolves_mode [evo]: "evolves R a \<Longrightarrow> evolves R b \<Longrightarrow> evolves R (case m of Stub \<Rightarrow> a | Live \<Rightarrow> b)"
  by (cases m) simp_all

lemma only_calls: "TCalls \<in> S \<Longrightarrow> only S w (w\<lparr>api_calls := n\<rparr>)"
  by (rule only_mono [of "{TCalls}"], simp, simp add: only_def all_table)

lemma only_sent: "TSent \<in> S \<Longrightarrow> only S w (w\<lparr>sent_log := l\<rparr>)"
  by (rule only_mono [of "{TSent}"], simp, simp add: only_def all_table)

lemma api_call_evo [evo]: "TCalls \<in> S \<Longrightarrow> evolves (only S) (api_call f)" "evolves (forward E) (api_call f)"
  by (auto simp: evolves_def api_call_def only_calls intro!: only_forward [of "{TCalls}"])

lemma log_sent_evo [evo]: "TSent \<in> S \<Longrightarrow> evolves (only S) (log_sent d m)" "evolves (forward E) (log_sent d m)"
  by (auto simp: evolves_def log_sent_def modify_def only_sent intro!: only_forward [of "{TSent}"])

lemma connector_evo [evo]:
  "TCalls \<in> S \<Longrightarrow> evolves (only S) (build_gmail_service E p)" "evolves (forward E') (build_gmail_service E p)"
  unfolding build_gmail_service_def by (intro evo; assumption?)+

lemma read_thread_evo [evo]:
  "TCalls \<in> S \<Longrightarrow> evolves (only S) (read_thread E g t)" "evolves (forward E') (read_thread E g t)"
  unfolding read_thread_def live_read_thread_def by (intro evo; assumption?)+

lemma create_draft_evo [evo]:
  "TCalls \<in> S \<Longrightarrow> evolves (only S) (create_draft E g t s b)" "evolves (forward E') (create_draft E g t s b)"
  unfolding create_draft_def live_create_draft_def by (intro evo; assumption?)+

lemma send_approved_draft_evo [evo]:
  "TCalls \<in> S \<Longrightarrow> TSent \<in> S \<Longrightarrow> evolves (only S) (send_approved_draft E g d)" "evolves (forward E') (send_approved_draft E g d)"
  unfolding send_approved_draft_def send_message_def live_send_draft_def by (intro evo; assumption?)+

text \<open>
  The documented answer of \<open>users.drafts.send\<close>: a message resource with its id. Without it the
  connector raises after the provider has sent.
\<close>

definition send_answers_id :: "env \<Rightarrow> bool" where
  "send_answers_id E \<longleftrightarrow> gmail_mode (config E) = Stub \<or> (\<forall>n d. gmail_send E n d \<noteq> Inr None \<and> gmail_send E n d \<noteq> Inr (Some []))"

lemma build_sends_nothing: "build_gmail_service E p w = (r, v) \<Longrightarrow> sent_log v = sent_log w"
  using evolvesD [OF connector_evo(1) [of "{TCalls}" E p], of w] onlyD [of "{TCalls}" w v TSent] by simp

lemma send_outcome:
  assumes "send_answers_id E" and "send_approved_draft E (get_gmail_connector E) d w = (r, v)"
  shows "(case r of Inr m \<Rightarrow> m \<noteq> [] \<and> sent_log v = sent_log w @ [(d, m)] | Inl e \<Rightarrow> sent_log v = sent_log w)"
proof (cases "gmail_mode (config E)")
  case Stub
  then show ?thesis
    using assms(2)
    by (auto simp: send_approved_draft_def send_message_def get_gmail_connector_def log_sent_def comp new_id_def Let_def)
next
  case Live
  obtain b u where b: "build_gmail_service E (gmail_credentials_path (config E)) w = (b, u)" by fastforce
  then have "sent_log u = sent_log w" by (rule build_sends_nothing)
  then show ?thesis
    using assms Live
    by (auto simp: send_approved_draft_def send_message_def get_gmail_connector_def live_send_draft_def bindM_def b
        api_call_def log_sent_def modify_def ret_def raise_def Let_def send_answers_id_def
        split: sum.splits option.splits if_splits)
qed

end
