(* ===== verification/PolicyService.thy ===== *)
theory PolicyService
  imports Model
begin

text \<open>
  services/policy_service.py: the policy categories, the evaluation of a category, and the
  keyword classifier of user text. The lemmas show the precedence of the categories and that
  a gated message stays gated whatever text surrounds it.
\<close>

datatype policy_category = ReadOnly | DraftOnly | OutboundSend | Publish | Destructive

fun policy_category_value :: "policy_category \<Rightarrow> string" where
  "policy_category_value ReadOnly = ''read_only''"
| "policy_category_value DraftOnly = ''draft_only''"
| "policy_category_value OutboundSend = ''outbound_send''"
| "policy_category_value Publish = ''publish''"
| "policy_category_value Destructive = ''destructive''"

record policy_evaluation =
  pe_category :: policy_category
  pe_allowed :: bool
  pe_blocked :: bool
  pe_requires_approval :: bool
  pe_reason :: "string option"

definition OUTBOUND_PHRASE_MARKERS :: "string list" where
  "OUTBOUND_PHRASE_MARKERS =
     [''send email'', ''send an email'', ''send this email'', ''send the email'',
      ''send that email'', ''reply to all'', ''mail this'']"

fun evaluate_action :: "policy_category \<Rightarrow> policy_evaluation" where
  "evaluate_action ReadOnly = \<lparr>pe_category = ReadOnly, pe_allowed = True, pe_blocked = False,
     pe_requires_approval = False, pe_reason = None\<rparr>"
| "evaluate_action DraftOnly = \<lparr>pe_category = DraftOnly, pe_allowed = True, pe_blocked = False,
     pe_requires_approval = False, pe_reason = None\<rparr>"
| "evaluate_action OutboundSend = \<lparr>pe_category = OutboundSend, pe_allowed = True, pe_blocked = False,
     pe_requires_approval = True, pe_reason = Some ''Outbound send requires explicit approval.''\<rparr>"
| "evaluate_action Publish = \<lparr>pe_category = Publish, pe_allowed = True, pe_blocked = False,
     pe_requires_approval = True, pe_reason = Some ''Publishing requires explicit approval.''\<rparr>"
| "evaluate_action Destructive = \<lparr>pe_category = Destructive, pe_allowed = False, pe_blocked = True,
     pe_requires_approval = False, pe_reason = Some ''Destructive actions are blocked by default.''\<rparr>"

definition destructive_markers :: "string list" where
  "destructive_markers = [''delete '', ''remove '', '' wipe'', ''destroy '', ''drop '']"

definition publish_markers :: "string list" where
  "publish_markers = [''publish'', ''post to youtube'', ''go live'', ''upload video'', ''push to channel'']"

definition read_markers :: "string list" where
  "read_markers = [''list my emails'', ''fetch inbox'', ''read messages'', ''show thread'']"

definition classify_message_policy_category :: "string \<Rightarrow> policy_category" where
  "classify_message_policy_category message =
     (let text = lower message in
      if any_in destructive_markers text then Destructive
      else if any_in publish_markers text then Publish
      else if any_in OUTBOUND_PHRASE_MARKERS text then OutboundSend
      else if any_in read_markers text then ReadOnly
      else DraftOnly)"

section \<open>Gating\<close>

text \<open>A message is gated when its category is blocked or needs an approval.\<close>

definition gated :: "policy_category \<Rightarrow> bool" where
  "gated c \<longleftrightarrow> pe_blocked (evaluate_action c) \<or> pe_requires_approval (evaluate_action c)"

lemma gated_cases [simp]:
  "gated Destructive" "gated Publish" "gated OutboundSend" "\<not> gated ReadOnly" "\<not> gated DraftOnly"
  by (simp_all add: gated_def)

lemma any_in_context: "any_in ms s \<Longrightarrow> any_in ms (p @ s @ q)"
  by (auto simp: any_in_iff intro: py_in_append1 py_in_append2)

lemma classify_gated_iff:
  "gated (classify_message_policy_category m) \<longleftrightarrow>
     any_in (destructive_markers @ publish_markers @ OUTBOUND_PHRASE_MARKERS) (lower m)"
  by (auto simp: classify_message_policy_category_def Let_def any_in_iff)

lemma evaluate_action_category: "pe_category (evaluate_action c) = c"
  by (cases c) simp_all

text \<open>A category is either allowed or blocked, never both, only a destructive one is
  blocked, and exactly the two outbound categories ask for an approval; a reason is given
  exactly when the action is gated.\<close>

theorem evaluate_action_total:
  "pe_category (evaluate_action c) = c \<and> pe_blocked (evaluate_action c) = (c = Destructive)
   \<and> pe_allowed (evaluate_action c) = (c \<noteq> Destructive)
   \<and> pe_requires_approval (evaluate_action c) = (c \<in> {OutboundSend, Publish})
   \<and> (pe_reason (evaluate_action c) \<noteq> None) = gated c"
  by (cases c) simp_all

text \<open>The classifier looks at the lower-cased text only, a gated message stays gated in any
  surrounding text, and a message is let through ungated only when it holds no destructive,
  publish or outbound marker at all.\<close>

theorem classify_gate:
  "classify_message_policy_category (lower m) = classify_message_policy_category m
   \<and> (gated (classify_message_policy_category m) \<longleftrightarrow>
        any_in (destructive_markers @ publish_markers @ OUTBOUND_PHRASE_MARKERS) (lower m))
   \<and> gated (classify_message_policy_category m) \<le> gated (classify_message_policy_category (p @ m @ q))"
proof -
  have "gated (classify_message_policy_category (p @ m @ q))" if "gated (classify_message_policy_category m)"
    using that any_in_context [of _ "lower m" "lower p" "lower q"] by (simp add: classify_gated_iff)
  then show ?thesis
    by (simp add: classify_gated_iff) (simp add: classify_message_policy_category_def)
qed

end
