(* ===== verification/EmailService.thy ===== *)
theory EmailService
  imports EmailPersistence GmailConnector PolicyService
begin

text \<open>
  services/email_service.py: what the chat handler adds for an email message (classification,
  drafts, the thread envelope) and the worker's send of an approved draft. The artifacts follow
  app/schemas/results.py and app/schemas/email.py.
\<close>

section \<open>Results and intents\<close>

record artifact_ref =
  af_kind :: string
  af_uri :: "string option"
  af_ref_id :: "string option"
  af_metadata :: dict

definition artifact_of :: "string \<Rightarrow> string option \<Rightarrow> dict \<Rightarrow> artifact_ref" where
  "artifact_of kind ref_id metadata = \<lparr>af_kind = kind, af_uri = None, af_ref_id = ref_id, af_metadata = metadata\<rparr>"

datatype orch_status = Completed | Blocked | NeedsApproval

fun orch_status_value :: "orch_status \<Rightarrow> string" where
  "orch_status_value Completed = ''completed''"
| "orch_status_value Blocked = ''blocked''"
| "orch_status_value NeedsApproval = ''needs_approval''"

record orch_result =
  or_status :: orch_status
  or_summary :: string
  or_artifacts :: "artifact_ref list"
  or_approval_required :: bool
  or_next_action :: "string option"
  or_task_type :: string
  or_policy_category :: string
  or_approval_id :: "string option"

definition artifact_dump :: "artifact_ref \<Rightarrow> json" where
  "artifact_dump a = JObj [(''kind'', JStr (af_kind a)), (''uri'', jopt (af_uri a)), (''ref_id'', jopt (af_ref_id a)),
     (''metadata'', JObj (af_metadata a))]"

definition result_dump :: "orch_result \<Rightarrow> dict" where
  "result_dump r = [(''kind'', JStr ''chat.orchestrate''), (''status'', JStr (orch_status_value (or_status r))),
     (''summary'', JStr (or_summary r)), (''artifacts'', JArr (map artifact_dump (or_artifacts r))),
     (''approval_required'', JBool (or_approval_required r)), (''next_action'', jopt (or_next_action r)),
     (''task_type'', JStr (or_task_type r)), (''policy_category'', JStr (or_policy_category r)),
     (''approval_id'', jopt (or_approval_id r))]"

datatype email_intent = InboxRead | DraftReply | IntentOutbound

fun email_intent_value :: "email_intent \<Rightarrow> string" where
  "email_intent_value InboxRead = ''inbox_read''"
| "email_intent_value DraftReply = ''draft_reply''"
| "email_intent_value IntentOutbound = ''outbound_send''"

definition READ_MARKERS :: "string list" where
  "READ_MARKERS = [''list my emails'', ''fetch inbox'', ''read messages'', ''show thread'']"

definition is_email_related :: "string \<Rightarrow> bool" where
  "is_email_related message =
     (let t = lower message in
      if any_in (OUTBOUND_PHRASE_MARKERS @ READ_MARKERS) t then True
      else if any_in ['' email'', ''email '', ''gmail'', ''inbox'', ''reply to''] t then True
      else False)"

definition classify_email_intent :: "string \<Rightarrow> email_intent" where
  "classify_email_intent message =
     (let t = lower message in
      if any_in OUTBOUND_PHRASE_MARKERS t then IntentOutbound
      else if any_in READ_MARKERS t then InboxRead
      else if (py_in ''draft'' t \<and> py_in ''email'' t) \<or> (py_in ''write'' t \<and> py_in ''reply'' t)
              \<or> (py_in ''compose'' t \<and> py_in ''email'' t) then DraftReply
      else DraftReply)"

text \<open>
  The thread hint, \<open>thread[:=\s]+([A-Za-z0-9_-]+)\<close> without case: the first position where the
  word, at least one separator and at least one identifier character follow one another (the two
  character classes are disjoint, so the match never backtracks).
\<close>

definition is_separator :: "char \<Rightarrow> bool" where
  "is_separator c \<longleftrightarrow> c = CHR '':'' \<or> c = CHR ''='' \<or> is_space c"

definition is_hint_char :: "char \<Rightarrow> bool" where
  "is_hint_char c =
     (let n = ord c in (65 \<le> n \<and> n \<le> 90) \<or> (97 \<le> n \<and> n \<le> 122) \<or> (48 \<le> n \<and> n \<le> 57) \<or> n = 95 \<or> n = 45)"

definition hint_at :: "string \<Rightarrow> string option" where
  "hint_at s =
     (let rest = dropWhile is_separator (drop 6 s); h = takeWhile is_hint_char rest in
      if lower (take 6 s) = ''thread'' \<and> takeWhile is_separator (drop 6 s) \<noteq> [] \<and> h \<noteq> [] then Some h else None)"

fun hint_search :: "string \<Rightarrow> string option" where
  "hint_search [] = None"
| "hint_search (c # s) = (case hint_at (c # s) of Some h \<Rightarrow> Some h | None \<Rightarrow> hint_search s)"

definition parse_thread_hint :: "string \<Rightarrow> string \<Rightarrow> string" where
  "parse_thread_hint message session_id =
     (case hint_search message of Some h \<Rightarrow> h | None \<Rightarrow> ''session:'' @ session_id)"

section \<open>The chat workflow\<close>

definition workflow_read_thread :: "env \<Rightarrow> string \<Rightarrow> string option \<Rightarrow> string \<Rightarrow> email_intent \<Rightarrow> dict svc" where
  "workflow_read_thread E thread_id t source_job_id intent =
     bindM (read_thread E (get_gmail_connector E) thread_id) (\<lambda>data.
     bindM (upsert_thread_record t (py_str (dget data ''thread_id'')) (Some source_job_id)
              (if truthy (dget data ''snippet'') then Some (py_str (dget data ''snippet'')) else None)
              (Some (email_intent_value intent)) []) (\<lambda>_.
     ret data))"

definition workflow_summarize_thread_state :: "string option \<Rightarrow> string \<Rightarrow> dict svc" where
  "workflow_summarize_thread_state t external_thread_id = get_thread_summary t external_thread_id"

text \<open>The validated chat payload the handler passes on.\<close>

record chat_payload =
  cp_session_id :: string
  cp_message :: string
  cp_max_steps :: json

definition enrich_orchestrate_result :: "env \<Rightarrow> job \<Rightarrow> chat_payload \<Rightarrow> orch_result \<Rightarrow> orch_result svc" where
  "enrich_orchestrate_result E job payload res =
     (let message = cp_message payload in
      if \<not> is_email_related message then ret res
      else
        let intent = classify_email_intent message;
            thread_hint = parse_thread_hint message (cp_session_id payload);
            artifacts = artifact_of ''email.classification'' None
                [(''intent'', JStr (email_intent_value intent)), (''thread_hint'', JStr thread_hint),
                 (''policy_category'', JStr (or_policy_category res))] # or_artifacts res
        in
        if or_status res = Blocked then ret (res\<lparr>or_artifacts := artifacts\<rparr>)
        else if or_status res = NeedsApproval \<and> intent = IntentOutbound then
          bindM (create_draft E (get_gmail_connector E) (Some thread_hint) ''Outbound (pending approval)'' (take 2000 message)) (\<lambda>draft_id.
          let artifacts = artifacts @ [artifact_of ''gmail.draft'' (Some draft_id)
                [(''awaiting_approval'', JBool True), (''thread_hint'', JStr thread_hint)]];
              summary = or_summary res @ '' Draft prepared for gated send.'' in
          bindM (case or_approval_id res of
                   None \<Rightarrow> ret ()
                 | Some aid \<Rightarrow>
                     if aid = [] then ret ()
                     else
                       bindM (merge_execution_context aid [(''gmail_draft_id'', JStr draft_id),
                                (''thread_hint'', JStr thread_hint), (''workflow'', JStr ''email.outbound'')]) (\<lambda>_.
                       upsert_outbound_delivery (job_tenant job) thread_hint draft_id aid (job_pk job)
                         ''awaiting_approval'')) (\<lambda>_.
          ret (res\<lparr>or_artifacts := artifacts, or_summary := summary\<rparr>)))
        else if or_status res = Completed then
          (case intent of
             InboxRead \<Rightarrow>
               bindM (workflow_read_thread E thread_hint (job_tenant job) (job_pk job) intent) (\<lambda>data.
               ret (res\<lparr>or_artifacts := artifacts @ [artifact_of ''gmail.thread'' (Some (py_str (dget data ''thread_id'')))
                          [(''snippet'', dget data ''snippet''), (''message_count'', dget data ''message_count'')]],
                        or_summary := or_summary res @ '' Thread envelope loaded (stub).''\<rparr>))
           | DraftReply \<Rightarrow>
               bindM (upsert_thread_record (job_tenant job) thread_hint (Some (job_pk job)) None
                        (Some (email_intent_value intent)) []) (\<lambda>_.
               bindM (create_draft E (get_gmail_connector E) (Some thread_hint) ''Draft reply''
                        (''Draft regarding: '' @ take 1500 message)) (\<lambda>draft_id.
               ret (res\<lparr>or_artifacts := artifacts @ [artifact_of ''gmail.draft'' (Some draft_id)
                          [(''thread_hint'', JStr thread_hint)]],
                        or_summary := or_summary res @ '' Draft created (stub).''\<rparr>)))
           | IntentOutbound \<Rightarrow> ret (res\<lparr>or_artifacts := artifacts\<rparr>))
        else ret (res\<lparr>or_artifacts := artifacts\<rparr>))"

section \<open>The approved send\<close>

definition validate_send_execution_invariants :: "job \<Rightarrow> approval \<Rightarrow> unit svc" where
  "validate_send_execution_invariants job approval =
     (if job_type job \<noteq> EMAIL_SEND_APPROVED then raise (ValueError ''invalid_execution_job_type'')
      else if dget (loads (job_payload job)) ''approval_id'' \<noteq> JStr (appr_pk approval)
      then raise (ValueError ''execution_job_approval_mismatch'')
      else if job_tenant job \<noteq> appr_tenant approval then raise (ValueError ''tenant_mismatch_execution_job'')
      else validate_send_enqueue_eligibility approval)"

definition build_send_approved_result :: "string \<Rightarrow> json \<Rightarrow> json \<Rightarrow> string \<Rightarrow> json \<Rightarrow> bool \<Rightarrow> dict" where
  "build_send_approved_result approval_id source_job_id draft_id message_id decision deduped =
     [(''kind'', JStr ''email.send_approved''), (''status'', JStr ''sent''),
      (''summary'', JStr (if \<not> deduped then ''Outbound message sent (stub).''
                         else ''Send already completed (idempotent worker replay).'')),
      (''approval_id'', JStr approval_id), (''source_job_id'', source_job_id), (''deduped'', JBool deduped),
      (''artifacts'', JArr
        [JObj [(''kind'', JStr ''gmail.message''), (''ref_id'', JStr message_id),
               (''metadata'', JObj [(''draft_id'', draft_id)])],
         JObj [(''kind'', JStr ''approval.decision''), (''ref_id'', JStr approval_id),
               (''metadata'', JObj [(''decision'', decision)])]])]"

definition or_dict :: "json \<Rightarrow> json" where
  "or_dict v = (if truthy v then v else JObj [])"

definition run_send_approved_job :: "env \<Rightarrow> job \<Rightarrow> dict svc" where
  "run_send_approved_job E job =
     (let aid_value = dget (loads (job_payload job)) ''approval_id'' in
      if \<not> truthy aid_value then raise (ValueError ''missing_approval_id'')
      else
        bindM (gets (get_json (\<lambda>aid. get_request aid None) aid_value)) (\<lambda>found.
        case found of
          None \<Rightarrow> raise (ValueError ''approval_not_found'')
        | Some approval \<Rightarrow>
            bindM (validate_send_execution_invariants job approval) (\<lambda>_.
            let body = loads (appr_payload approval);
                approval_id = appr_pk approval;
                draft_id = dget body ''gmail_draft_id'';
                existing_mid = dget body ''gmail_message_id'' in
            if \<not> truthy draft_id then raise (ValueError ''missing_gmail_draft_id'')
            else if truthy existing_mid then
              bindM (mark_delivery_sent approval_id (job_pk job) (py_str existing_mid)) (\<lambda>_.
              ret (build_send_approved_result approval_id (dget body ''job_id'') draft_id (py_str existing_mid)
                     (or_dict (dget body ''decision'')) True))
            else
              bindM (send_approved_draft E (get_gmail_connector E) (py_str draft_id)) (\<lambda>message_id.
              bindM (record_send_completed approval_id message_id) (\<lambda>_.
              bindM (mark_delivery_sent approval_id (job_pk job) message_id) (\<lambda>_.
              bindM (audit_record E ((audit_call SEND_JOB_SUCCEEDED ''job'' (job_pk job))
                       \<lparr>arg_tenant := job_tenant job,
                        arg_metadata := [(''approval_id'', JStr approval_id), (''gmail_message_id'', JStr message_id)]\<rparr>))
                (\<lambda>_.
              ret (build_send_approved_result approval_id (dget body ''job_id'') draft_id message_id
                     (or_dict (dget body ''decision'')) False))))))))"

section \<open>Footprints\<close>

lemma evolves_intent [evo]:
  "evolves R a \<Longrightarrow> evolves R b \<Longrightarrow> evolves R c \<Longrightarrow>
   evolves R (case i of InboxRead \<Rightarrow> a | DraftReply \<Rightarrow> b | IntentOutbound \<Rightarrow> c)"
  by (cases i) simp_all

lemma workflow_read_thread_evo [evo]:
  "TCalls \<in> S \<Longrightarrow> TThreads \<in> S \<Longrightarrow> evolves (only S) (workflow_read_thread E th t j i)"
  "evolves (forward E') (workflow_read_thread E th t j i)"
  unfolding workflow_read_thread_def by (intro evo; assumption?)+

lemma enrich_evo [evo]:
  "TCalls \<in> S \<Longrightarrow> TThreads \<in> S \<Longrightarrow> TApprovals \<in> S \<Longrightarrow> TDeliveries \<in> S \<Longrightarrow>
   evolves (only S) (enrich_orchestrate_result E job p r)"
  "evolves (forward E') (enrich_orchestrate_result E job p r)"
  unfolding enrich_orchestrate_result_def by (intro evo; assumption?)+

lemma validate_send_evo [evo]:
  "evolves (only S) (validate_send_execution_invariants job a)"
  "evolves (forward E) (validate_send_execution_invariants job a)"
  unfolding validate_send_execution_invariants_def by (intro evo)+

lemma run_send_evo [evo]:
  "TCalls \<in> S \<Longrightarrow> TSent \<in> S \<Longrightarrow> TApprovals \<in> S \<Longrightarrow> TDeliveries \<in> S \<Longrightarrow> TAudit \<in> S \<Longrightarrow>
   evolves (only S) (run_send_approved_job E job)"
  "evolves (forward E) (run_send_approved_job E job)"
  unfolding run_send_approved_job_def by (intro evo; assumption?)+

end
