(* ===== verification/ChatOrchestrate.thy ===== *)
theory ChatOrchestrate
  imports EmailService
begin

text \<open>
  services/chat_orchestrate.py: the chat handler's body. The payload is validated, the message
  classified and held against the policy: blocked, approval-gated (a pending approval is created
  first), or completed; the email workflow then adds its artifacts.
\<close>

definition REQUIRED_PAYLOAD_KEYS :: "string list" where
  "REQUIRED_PAYLOAD_KEYS = [''session_id'', ''message'', ''max_steps'']"

text \<open>\<open>isinstance(v, int) and v >= 1\<close>: a bool is an int.\<close>

definition positive_int :: "json \<Rightarrow> bool" where
  "positive_int v = (case v of JInt i \<Rightarrow> 1 \<le> i | JBool b \<Rightarrow> b | _ \<Rightarrow> False)"

definition nonblank :: "json \<Rightarrow> bool" where
  "nonblank v = (case v of JStr s \<Rightarrow> strip s \<noteq> [] | _ \<Rightarrow> False)"

definition json_text :: "json \<Rightarrow> string" where
  "json_text v = (case v of JStr s \<Rightarrow> s | _ \<Rightarrow> [])"

definition validate_payload :: "dict \<Rightarrow> exn + chat_payload" where
  "validate_payload raw =
     (let missing = filter (\<lambda>k. \<not> dhas raw k) REQUIRED_PAYLOAD_KEYS;
          session_id = dget raw ''session_id''; message = dget raw ''message''; max_steps = dget raw ''max_steps'' in
      if missing \<noteq> [] then Inl (ValueError (''missing_fields:'' @ join '','' missing))
      else if \<not> nonblank session_id then Inl (ValueError ''invalid_session_id'')
      else if \<not> nonblank message then Inl (ValueError ''invalid_message'')
      else if \<not> positive_int max_steps then Inl (ValueError ''invalid_max_steps'')
      else Inr \<lparr>cp_session_id = strip (json_text session_id), cp_message = strip (json_text message),
                cp_max_steps = max_steps\<rparr>)"

text \<open>
  \<open>\b(script|draft|caption|thumbnail|post)\b\<close>: one of the words with no word character (letter,
  digit, underscore) on either side.
\<close>

definition is_word_char :: "char \<Rightarrow> bool" where
  "is_word_char c =
     (let n = ord c in
      (65 \<le> n \<and> n \<le> 90) \<or> (97 \<le> n \<and> n \<le> 122) \<or> (48 \<le> n \<and> n \<le> 57) \<or> n = 95
      \<or> n = 170 \<or> n = 178 \<or> n = 179 \<or> n = 181 \<or> n = 185 \<or> n = 186 \<or> (188 \<le> n \<and> n \<le> 190)
      \<or> (192 \<le> n \<and> n \<noteq> 215 \<and> n \<noteq> 247))"

definition word_ends :: "string \<Rightarrow> bool" where
  "word_ends s = (case s of [] \<Rightarrow> True | c # _ \<Rightarrow> \<not> is_word_char c)"

definition word_here :: "string list \<Rightarrow> string \<Rightarrow> bool" where
  "word_here ws s = list_ex (\<lambda>w. prefix w s \<and> word_ends (drop (length w) s)) ws"

fun word_search :: "string list \<Rightarrow> bool \<Rightarrow> string \<Rightarrow> bool" where
  "word_search ws after_word [] = False"
| "word_search ws after_word (c # s) =
     ((\<not> after_word \<and> word_here ws (c # s)) \<or> word_search ws (is_word_char c) s)"

definition content_words :: "string list" where
  "content_words = [''script'', ''draft'', ''caption'', ''thumbnail'', ''post'']"

definition task_type_label :: "policy_category \<Rightarrow> string \<Rightarrow> string" where
  "task_type_label category message =
     (case category of
        ReadOnly \<Rightarrow> ''inbox_read''
      | OutboundSend \<Rightarrow> ''outbound_message''
      | Publish \<Rightarrow> ''publish_request''
      | Destructive \<Rightarrow> ''destructive_request''
      | DraftOnly \<Rightarrow> if word_search content_words False (lower message) then ''content_draft'' else ''general'')"

definition or_text :: "string option \<Rightarrow> string \<Rightarrow> string" where
  "or_text x d = (case x of None \<Rightarrow> d | Some s \<Rightarrow> if s = [] then d else s)"

text \<open>The three \<open>ChatOrchestrateResult\<close>s the handler starts from.\<close>

definition blocked_result :: "policy_evaluation \<Rightarrow> string \<Rightarrow> orch_result" where
  "blocked_result evaluation task_type =
     \<lparr>or_status = Blocked, or_summary = or_text (pe_reason evaluation) ''blocked_by_policy'', or_artifacts = [],
      or_approval_required = False, or_next_action = None, or_task_type = task_type,
      or_policy_category = policy_category_value (pe_category evaluation), or_approval_id = None\<rparr>"

definition approval_result :: "policy_evaluation \<Rightarrow> string \<Rightarrow> approval \<Rightarrow> orch_result" where
  "approval_result evaluation task_type a =
     \<lparr>or_status = NeedsApproval, or_summary = or_text (pe_reason evaluation) ''approval_required'',
      or_artifacts = [artifact_of ''approval.request'' (Some (appr_pk a)) [(''kind'', JStr (appr_kind a))]],
      or_approval_required = True, or_next_action = Some ''await_approval'', or_task_type = task_type,
      or_policy_category = policy_category_value (pe_category evaluation), or_approval_id = Some (appr_pk a)\<rparr>"

definition completed_result :: "policy_evaluation \<Rightarrow> string \<Rightarrow> orch_result" where
  "completed_result evaluation task_type =
     \<lparr>or_status = Completed,
      or_summary = ''Classified and cleared policy; orchestration stub (no LLM or connectors).'', or_artifacts = [],
      or_approval_required = False, or_next_action = None, or_task_type = task_type,
      or_policy_category = policy_category_value (pe_category evaluation), or_approval_id = None\<rparr>"

definition execute_chat_orchestrate :: "env \<Rightarrow> job \<Rightarrow> orch_result svc" where
  "execute_chat_orchestrate E job =
     bindM (lift (validate_payload (loads (job_payload job)))) (\<lambda>payload.
     let category = classify_message_policy_category (cp_message payload);
         evaluation = evaluate_action category;
         task_type = task_type_label category (cp_message payload) in
     if pe_blocked evaluation \<or> \<not> pe_allowed evaluation then
       enrich_orchestrate_result E job payload (blocked_result evaluation task_type)
     else if pe_requires_approval evaluation then
       bindM (create_request E ''job.gate'' (job_tenant job) (job_pk job)
                [(''policy_category'', JStr (policy_category_value category)), (''task_type'', JStr task_type)]) (\<lambda>a.
       enrich_orchestrate_result E job payload (approval_result evaluation task_type a))
     else
       enrich_orchestrate_result E job payload (completed_result evaluation task_type))"

lemma result_status [simp]:
  "or_status (blocked_result ev t) = Blocked" "or_status (approval_result ev t a) = NeedsApproval"
  "or_status (completed_result ev t) = Completed" "or_approval_id (approval_result ev t a) = Some (appr_pk a)"
  by (simp_all add: blocked_result_def approval_result_def completed_result_def)

lemma execute_chat_evo [evo]:
  "TCalls \<in> S \<Longrightarrow> TThreads \<in> S \<Longrightarrow> TApprovals \<in> S \<Longrightarrow> TDeliveries \<in> S \<Longrightarrow> TAudit \<in> S \<Longrightarrow>
   evolves (only S) (execute_chat_orchestrate E job)"
  "evolves (forward E) (execute_chat_orchestrate E job)"
  unfolding execute_chat_orchestrate_def by (intro evo; assumption?)+

section \<open>What enrichment leaves alone\<close>

lemma enrich_status:
  assumes "enrich_orchestrate_result E job p res w = (Inr r, v)"
  shows "or_status r = or_status res \<and> or_approval_id r = or_approval_id res
     \<and> or_policy_category r = or_policy_category res \<and> or_approval_required r = or_approval_required res"
  using assms
  by (auto simp: enrich_orchestrate_result_def bindM_eq_Inr_iff ret_def Let_def
      split: if_splits email_intent.splits option.splits)

lemma enrich_blocked:
  "or_status res = Blocked \<Longrightarrow> \<exists>r. enrich_orchestrate_result E job p res w = (Inr r, w)"
  by (simp add: enrich_orchestrate_result_def ret_def Let_def)

lemma enrich_completed_only:
  assumes "or_status res = Completed"
  shows "only {TCalls, TThreads} w (after (enrich_orchestrate_result E job p res) w)"
proof -
  have "evolves (only {TCalls, TThreads}) (enrich_orchestrate_result E job p res)"
    unfolding enrich_orchestrate_result_def using assms by (intro evo; simp)
  then show ?thesis by (rule evolvesD)
qed

text \<open>The identity and status of every approval, in order: enrichment changes payloads only.\<close>

definition appr_view :: "world \<Rightarrow> (string \<times> approval_status) list" where
  "appr_view w = map (\<lambda>a. (appr_pk a, appr_status a)) (approvals w)"

definition same_view :: "world \<Rightarrow> world \<Rightarrow> bool" where
  "same_view w v \<longleftrightarrow> appr_view v = appr_view w"

interpretation view_evo: evolution same_view
  by unfold_locales (auto simp: same_view_def)

lemmas view_intros = view_evo.evo_ret view_evo.evo_raise view_evo.evo_gets view_evo.evo_lift view_evo.evo_bind

lemma only_view: "evolves (only S) m \<Longrightarrow> TApprovals \<notin> S \<Longrightarrow> evolves same_view m"
  by (auto simp: evolves_def same_view_def appr_view_def only_def all_table)

lemma merge_view: "evolves same_view (merge_execution_context aid fs)"
proof (rule evolvesI)
  fix w :: world
  have "map (\<lambda>a. (appr_pk a, appr_status a)) (tupd appr_pk aid (merge_row fs) (approvals w))
      = map (\<lambda>a. (appr_pk a, appr_status a)) (approvals w)"
    by (rule map_tupd_same) (simp add: merge_row_def)
  then show "same_view w (after (merge_execution_context aid fs) w)"
    by (simp add: merge_run same_view_def appr_view_def split: option.split)
qed

lemma enrich_view: "evolves same_view (enrich_orchestrate_result E job p r)"
proof -
  have "evolves same_view (create_draft E (get_gmail_connector E) t s b)" for t s b
    by (rule only_view [of "{TCalls}"]) (simp_all add: create_draft_evo)
  moreover have "evolves same_view (workflow_read_thread E th t j i)" for th t j i
    by (rule only_view [of "{TCalls, TThreads}"]) (simp_all add: workflow_read_thread_evo)
  moreover have "evolves same_view (upsert_thread_record t x j s i e)" for t x j s i e
    by (rule only_view [of "{TThreads}"]) (simp_all add: upsert_thread_evo)
  moreover have "evolves same_view (upsert_outbound_delivery t x d a j s)" for t x d a j s
    by (rule only_view [of "{TDeliveries}"]) (simp_all add: upsert_delivery_evo)
  ultimately show ?thesis
    unfolding enrich_orchestrate_result_def
    by (intro view_intros merge_view evolves_if evolves_option evolves_let evolves_intent)
qed

lemma view_pending:
  assumes "same_view w v" and "drawn approvals appr_pk v" and "a \<in> set (approvals w)"
  shows "\<exists>b. get_approval (appr_pk a) v = Some b \<and> appr_status b = appr_status a"
proof -
  have "(appr_pk a, appr_status a) \<in> set (appr_view w)" using assms(3) by (auto simp: appr_view_def)
  then have "(appr_pk a, appr_status a) \<in> set (appr_view v)" using assms(1) by (simp add: same_view_def)
  then obtain b where b: "b \<in> set (approvals v)" "appr_pk b = appr_pk a" "appr_status b = appr_status a"
    by (auto simp: appr_view_def)
  then have "get_approval (appr_pk a) v = Some b"
    using assms(2) by (simp add: get_approval_def get_row_def drawn_def tget_Some_iff)
  then show ?thesis using b(3) by blast
qed

section \<open>Properties\<close>

text \<open>C37: the policy decides what a chat job does. On a valid payload, a destructive message is
  blocked and changes nothing; an outbound or publish message that is answered at all is answered
  needs_approval, with an approval request that exists and is pending; any other message that is
  answered is completed, and creates no approval, no audit event and no delivery.\<close>

theorem chat_policy_gate:
  assumes good: "good E w" and valid: "validate_payload (loads (job_payload job)) = Inr p"
    and run: "execute_chat_orchestrate E job w = (Inr r, v)"
  shows "case classify_message_policy_category (cp_message p) of
      Destructive \<Rightarrow> or_status r = Blocked \<and> v = w
    | OutboundSend \<Rightarrow> or_status r = NeedsApproval
        \<and> (\<exists>aid a. or_approval_id r = Some aid \<and> get_approval aid v = Some a \<and> appr_status a = ApprovalPending)
    | Publish \<Rightarrow> or_status r = NeedsApproval
        \<and> (\<exists>aid a. or_approval_id r = Some aid \<and> get_approval aid v = Some a \<and> appr_status a = ApprovalPending)
    | _ \<Rightarrow> or_status r = Completed \<and> approvals v = approvals w \<and> audit_events v = audit_events w
        \<and> deliveries v = deliveries w"
proof -
  let ?c = "classify_message_policy_category (cp_message p)"
  let ?n = "evaluate_action ?c" and ?t = "task_type_label ?c (cp_message p)"
  let ?pl = "[(''policy_category'', JStr (policy_category_value ?c)), (''task_type'', JStr ?t)]"
  have exec: "execute_chat_orchestrate E job w =
     (if ?c = Destructive then enrich_orchestrate_result E job p (blocked_result ?n ?t) w
      else if ?c = OutboundSend \<or> ?c = Publish then
        bindM (create_request E ''job.gate'' (job_tenant job) (job_pk job) ?pl)
          (\<lambda>a. enrich_orchestrate_result E job p (approval_result ?n ?t a)) w
      else enrich_orchestrate_result E job p (completed_result ?n ?t) w)"
    by (cases ?c) (simp_all add: execute_chat_orchestrate_def valid Let_def)
  have blocked: "or_status r = Blocked \<and> v = w" if "?c = Destructive"
  proof -
    have e: "enrich_orchestrate_result E job p (blocked_result ?n ?t) w = (Inr r, v)"
      using run exec that by simp
    then show ?thesis using enrich_blocked [of "blocked_result ?n ?t" E job p w] enrich_status [OF e] by simp
  qed
  have pending: "or_status r = NeedsApproval
        \<and> (\<exists>aid a. or_approval_id r = Some aid \<and> get_approval aid v = Some a \<and> appr_status a = ApprovalPending)"
    if "?c = OutboundSend \<or> ?c = Publish"
  proof -
    obtain a w1 where a: "create_request E ''job.gate'' (job_tenant job) (job_pk job) ?pl w = (Inr a, w1)"
      "appr_status a = ApprovalPending" "a \<in> set (approvals w1)"
      by (simp add: create_request_run [OF goodD(1) [OF good]] Let_def)
    have e: "enrich_orchestrate_result E job p (approval_result ?n ?t a) w1 = (Inr r, v)"
      using run that a(1) by (auto simp: exec bindM_def)
    have "forward E w w1"
      using evolvesD [OF create_request_forward, of E w "''job.gate''" "job_tenant job" "job_pk job" ?pl] a(1) by simp
    moreover have "forward E w1 v"
      using evolvesD [OF enrich_evo(2), of E w1 E job p "approval_result ?n ?t a"] e by simp
    ultimately have "forward E w v" by (rule forward_evo.evo_trans)
    then have "drawn approvals appr_pk v" using good by (simp add: forward_def good_def)
    moreover have "same_view w1 v" using evolvesD [OF enrich_view, of w1 E job p "approval_result ?n ?t a"] e by simp
    ultimately show ?thesis using view_pending [of w1 v a] a(2,3) enrich_status [OF e] by auto
  qed
  have completed: "or_status r = Completed \<and> approvals v = approvals w \<and> audit_events v = audit_events w
        \<and> deliveries v = deliveries w" if "?c = ReadOnly \<or> ?c = DraftOnly"
  proof -
    have e: "enrich_orchestrate_result E job p (completed_result ?n ?t) w = (Inr r, v)"
      using run that by (auto simp: exec)
    have "only {TCalls, TThreads} w v"
      using enrich_completed_only [of "completed_result ?n ?t" w E job p] e by simp
    then have "same TApprovals w v" "same TAudit w v" "same TDeliveries w v" by (auto dest: onlyD simp del: same.simps)
    then show ?thesis using enrich_status [OF e] by simp
  qed
  show ?thesis using blocked pending completed by (cases ?c) auto
qed

definition sample_chat_job :: "string \<Rightarrow> job" where
  "sample_chat_job message = sample_source_job
     \<lparr>job_payload := Some [(''session_id'', JStr ''s''), (''message'', JStr message), (''max_steps'', JInt 1)]\<rparr>"

theorem chat_policy_gate_witness:
  "\<exists>r. execute_chat_orchestrate sample_env (sample_chat_job ''delete it'') (sample_state ApprovalPending)
       = (Inr r, sample_state ApprovalPending) \<and> or_status r = Blocked"
proof -
  let ?p = "\<lparr>cp_session_id = ''s'', cp_message = ''delete it'', cp_max_steps = JInt 1\<rparr>"
  let ?e = "evaluate_action Destructive"
  have p: "validate_payload (loads (job_payload (sample_chat_job ''delete it''))) = Inr ?p"
    by (simp add: sample_chat_job_def loads_def) code_simp
  have c: "classify_message_policy_category (cp_message ?p) = Destructive" by code_simp
  have q: "\<not> is_email_related (cp_message ?p)" by code_simp
  have run: "execute_chat_orchestrate sample_env (sample_chat_job ''delete it'') (sample_state ApprovalPending)
       = (Inr (blocked_result ?e ''destructive_request''), sample_state ApprovalPending)"
    unfolding execute_chat_orchestrate_def using c q
    by (simp add: p Let_def enrich_orchestrate_result_def task_type_label_def ret_def)
  have "or_status (blocked_result ?e ''destructive_request'') = Blocked"
    using chat_policy_gate [OF sample_state_good p run] c by simp
  then show ?thesis using run by blast
qed

end
