(* ===== verification/Worker.thy ===== *)
theory Worker
  imports ChatOrchestrate
begin

text \<open>
  workers/tasks.py and workers/runner.py: the task handlers, the worker boundary that turns every
  exception into a failed job, and one poll of the queue.
\<close>

text \<open>\<open>str(exc)\<close>.\<close>

fun exn_str :: "exn \<Rightarrow> string" where
  "exn_str (ValueError m) = m"
| "exn_str (ConnectorError c m) = m"
| "exn_str (RuntimeError m) = m"
| "exn_str (IntegrityError m) = m"
| "exn_str (KeyError k) = chr 39 # k @ [chr 39]"
| "exn_str NoResultFound = ''No row was found when one was required''"
| "exn_str MultipleResultsFound = ''Multiple rows were found when one or none was required''"
| "exn_str (InvalidApiKey m) = m"
| "exn_str (HTTPException n m) = m"
| "exn_str (ProviderException m) = m"
| "exn_str StopIteration = []"
| "exn_str (IndexError m) = m"

definition count_attempt :: "string \<Rightarrow> unit svc" where
  "count_attempt jid = update_job jid (\<lambda>j. j\<lparr>job_attempts := job_attempts j + 1\<rparr>)"

text \<open>The outcome dictionary: None is \<open>{"ok": True}\<close>, Some the error.\<close>

type_synonym outcome = "string option"

text \<open>
  The \<open>try\<close> of a handler: the body's value, or None after \<open>fail\<close> handled a ValueError (its text) or
  a ConnectorError (class and text); any other exception goes on to the worker boundary.
\<close>

definition attempt :: "'a svc \<Rightarrow> (string \<Rightarrow> unit svc) \<Rightarrow> 'a option svc" where
  "attempt body fail =
     catch (bindM body (\<lambda>r. ret (Some r)))
       (\<lambda>e. case e of
          ValueError m \<Rightarrow> bindM (fail m) (\<lambda>_. ret None)
        | ConnectorError c m \<Rightarrow> bindM (fail (c @ '':'' @ m)) (\<lambda>_. ret None)
        | _ \<Rightarrow> raise e)"

definition handle_chat_orchestrate :: "env \<Rightarrow> job \<Rightarrow> unit svc" where
  "handle_chat_orchestrate E job =
     bindM (count_attempt (job_pk job)) (\<lambda>_.
     bindM (attempt (execute_chat_orchestrate E job) (mark_job_failed (job_pk job))) (\<lambda>outcome.
     case outcome of None \<Rightarrow> ret () | Some r \<Rightarrow> mark_job_succeeded (job_pk job) (Some (result_dump r))))"

definition audit_send_job_failed :: "env \<Rightarrow> job \<Rightarrow> string \<Rightarrow> unit svc" where
  "audit_send_job_failed E job error =
     (if job_type job \<noteq> EMAIL_SEND_APPROVED then ret ()
      else
        let aid = dget (loads (job_payload job)) ''approval_id'' in
        bindM (case (if truthy aid then jstr aid else None) of
                 None \<Rightarrow> ret () | Some a \<Rightarrow> mark_delivery_failed a (job_pk job) error) (\<lambda>_.
        bindM (audit_record E ((audit_call SEND_JOB_FAILED ''job'' (job_pk job))
                 \<lparr>arg_tenant := job_tenant job, arg_metadata := [(''error'', JStr error), (''approval_id'', aid)]\<rparr>))
          (\<lambda>_. ret ())))"

definition handle_email_send_approved :: "env \<Rightarrow> job \<Rightarrow> unit svc" where
  "handle_email_send_approved E job =
     bindM (count_attempt (job_pk job)) (\<lambda>_.
     bindM (attempt (run_send_approved_job E job)
              (\<lambda>m. bindM (mark_job_failed (job_pk job) m) (\<lambda>_. audit_send_job_failed E job m))) (\<lambda>outcome.
     case outcome of None \<Rightarrow> ret () | Some r \<Rightarrow> mark_job_succeeded (job_pk job) (Some r)))"

definition run_task :: "env \<Rightarrow> job \<Rightarrow> outcome svc" where
  "run_task E job =
     (if job_type job = CHAT_ORCHESTRATE then bindM (handle_chat_orchestrate E job) (\<lambda>_. ret None)
      else if job_type job = EMAIL_SEND_APPROVED then bindM (handle_email_send_approved E job) (\<lambda>_. ret None)
      else ret (Some (''unknown_job_type:'' @ job_type job)))"

definition process_job :: "env \<Rightarrow> job \<Rightarrow> outcome svc" where
  "process_job E job =
     bindM (catch (bindM (run_task E job) (\<lambda>outcome. ret (False, outcome)))
              (\<lambda>e. bindM (mark_job_failed (job_pk job) (exn_str e)) (\<lambda>_. ret (True, Some (exn_str e)))))
       (\<lambda>(raised, outcome).
          if raised then ret outcome
          else case outcome of
            None \<Rightarrow> ret None
          | Some err \<Rightarrow> bindM (mark_job_failed (job_pk job) err) (\<lambda>_. ret (Some err)))"

definition poll_once :: "env \<Rightarrow> bool svc" where
  "poll_once E =
     bindM claim_next_pending (\<lambda>found.
     case found of
       None \<Rightarrow> ret False
     | Some job \<Rightarrow> bindM (process_job E job) (\<lambda>_. ret True))"

section \<open>Footprints\<close>

lemma count_attempt_evo [evo]:
  "TJobs \<in> S \<Longrightarrow> evolves (only S) (count_attempt jid)"
  "evolves (forward E) (count_attempt jid)"
  unfolding count_attempt_def by (intro evo update_job_forward; (assumption | simp add: job_le_def)?)+

lemma attempt_evo [evo]:
  "evolves (only S) body \<Longrightarrow> (\<And>m. evolves (only S) (fail m)) \<Longrightarrow> evolves (only S) (attempt body fail)"
  "evolves (forward E) body \<Longrightarrow> (\<And>m. evolves (forward E) (fail m)) \<Longrightarrow> evolves (forward E) (attempt body fail)"
  unfolding attempt_def by (intro evo; assumption?)+

lemma attempt_Some: "attempt body fail w = (Inr (Some r), v) \<Longrightarrow> body w = (Inr r, v)"
  by (auto simp: attempt_def catch_def bindM_def ret_def raise_def split: prod.splits sum.splits exn.splits)

lemma attempt_None:
  assumes "attempt body fail w = (Inr None, v)"
  obtains e w' m where "body w = (Inl e, w')" and "fail m w' = (Inr (), v)"
  using assms
  by (auto simp: attempt_def catch_def bindM_def ret_def raise_def split: prod.splits sum.splits exn.splits)

definition worker_tables :: "table set" where
  "worker_tables = {TCalls, TSent, TJobs, TApprovals, TAudit, TThreads, TDeliveries}"

lemma worker_tables_in [simp, intro]:
  "TCalls \<in> worker_tables" "TSent \<in> worker_tables" "TJobs \<in> worker_tables" "TApprovals \<in> worker_tables"
  "TAudit \<in> worker_tables" "TThreads \<in> worker_tables" "TDeliveries \<in> worker_tables"
  by (simp_all add: worker_tables_def)

lemma audit_send_job_failed_evo [evo]:
  "TDeliveries \<in> S \<Longrightarrow> TAudit \<in> S \<Longrightarrow> evolves (only S) (audit_send_job_failed E job m)"
  "evolves (forward E) (audit_send_job_failed E job m)"
  unfolding audit_send_job_failed_def by (intro evo; assumption?)+

lemma worker_evo [evo]:
  "evolves (only worker_tables) (handle_chat_orchestrate E job)"
  "evolves (forward E) (handle_chat_orchestrate E job)"
  "evolves (only worker_tables) (handle_email_send_approved E job)"
  "evolves (forward E) (handle_email_send_approved E job)"
  unfolding handle_chat_orchestrate_def handle_email_send_approved_def by (intro evo; simp?)+

lemma process_job_evo [evo]:
  "evolves (only worker_tables) (process_job E job)"
  "evolves (forward E) (process_job E job)"
  unfolding process_job_def run_task_def by (intro evo; simp?)+

lemma poll_once_evo [evo]:
  "evolves (only worker_tables) (poll_once E)"
  "evolves (forward E) (poll_once E)"
  unfolding poll_once_def by (intro evo; simp?)+

section \<open>A claimed job is settled\<close>

definition settled :: "string \<Rightarrow> world \<Rightarrow> bool" where
  "settled jid w \<longleftrightarrow>
     (case get_job jid w of None \<Rightarrow> False | Some j \<Rightarrow> job_status j = JobSucceeded \<or> job_status j = JobFailed)"

text \<open>A job that is there stays there.\<close>

lemma job_stays:
  assumes "good E w" and "forward E w v" and "get_job jid w \<noteq> None"
  shows "get_job jid v \<noteq> None"
proof -
  have le: "table_le job_le (jobs w) (jobs v)" using assms(1,2) by (simp add: forward_def)
  obtain j where "j \<in> set (jobs w)" "job_pk j = jid"
    using assms(3) by (auto simp: get_job_def get_row_def dest: tget_in tget_key)
  then obtain j' where "j' \<in> set (jobs v)" "job_pk j' = jid"
    using job_order.le_in [OF le] by (auto simp: job_le_def)
  then show ?thesis by (auto simp: get_job_def get_row_def tget_None_iff)
qed

lemma settled_marks:
  assumes "get_job jid w \<noteq> None"
  shows "settled jid (after (mark_job_failed jid m) w)" and "settled jid (after (mark_job_succeeded jid r) w)"
  using assms
  by (auto simp: settled_def mark_job_failed_def mark_job_succeeded_def get_job_def update_job_run update_job_lookup
      split: option.split)

lemma settled_frame: "only S w v \<Longrightarrow> TJobs \<notin> S \<Longrightarrow> settled jid w \<Longrightarrow> settled jid v"
  using onlyD [of S w v TJobs] by (simp add: settled_def get_job_def get_row_def)

lemma settled_after: "evolves (only S) m \<Longrightarrow> TJobs \<notin> S \<Longrightarrow> settled jid w \<Longrightarrow> settled jid (after m w)"
  using settled_frame [of S w "after m w"] by (simp add: evolves_def)

lemma mark_run:
  "mark_job_failed jid m w = (Inr (), after (mark_job_failed jid m) w)"
  "mark_job_succeeded jid r w = (Inr (), after (mark_job_succeeded jid r) w)"
  "count_attempt jid w = (Inr (), after (count_attempt jid) w)"
  by (simp_all add: mark_job_failed_def mark_job_succeeded_def count_attempt_def update_job_run)

lemma forward_run: "evolves (forward E) m \<Longrightarrow> m w = (r, v) \<Longrightarrow> forward E w v"
  using evolvesD [of "forward E" m w] by simp

lemma only_run: "evolves (only S) m \<Longrightarrow> m w = (r, v) \<Longrightarrow> only S w v"
  using evolvesD [of "only S" m w] by simp

lemma handler_settles:
  assumes good: "good E w" and here: "get_job jid w \<noteq> None"
    and body: "evolves (forward E) body"
    and fail: "\<And>m x u y. get_job jid x \<noteq> None \<Longrightarrow> fail m x = (Inr u, y) \<Longrightarrow> settled jid y"
    and run: "bindM (count_attempt jid) (\<lambda>_. bindM (attempt body fail)
        (\<lambda>outcome. case outcome of None \<Rightarrow> ret () | Some r \<Rightarrow> mark_job_succeeded jid (g r))) w = (Inr u, v)"
  shows "settled jid v"
proof -
  let ?w1 = "after (count_attempt jid) w"
  have f1: "forward E w ?w1" by (rule evolvesD) (rule count_attempt_evo)
  have stay: "get_job jid x \<noteq> None" if "body ?w1 = (r, x)" for r x
    by (rule job_stays [OF good _ here]) (rule forward_evo.evo_trans [OF f1 forward_run [of E body ?w1 r x, OF body that]])
  obtain outcome x where x: "attempt body fail ?w1 = (Inr outcome, x)"
    "(case outcome of None \<Rightarrow> ret () | Some r \<Rightarrow> mark_job_succeeded jid (g r)) x = (Inr u, v)"
    using run by (auto simp: bindM_Inr [OF mark_run(3)] bindM_eq_Inr_iff)
  show ?thesis
  proof (cases outcome)
    case None
    then have "attempt body fail ?w1 = (Inr None, v)" using x by (simp add: ret_def)
    then show ?thesis by (rule attempt_None) (metis stay fail)
  next
    case (Some r)
    then have "body ?w1 = (Inr r, x)" using x(1) by (auto dest: attempt_Some)
    then have "get_job jid x \<noteq> None" by (rule stay)
    then show ?thesis using x(2) Some settled_marks(2) [of jid x "g r"] by simp
  qed
qed

lemma mark_failed_run:
  assumes "get_job jid x \<noteq> None"
  obtains y where "mark_job_failed jid m x = (Inr (), y)" and "settled jid y"
  using mark_run(1) [of jid m x] settled_marks(1) [OF assms, of m] by blast

lemma mark_failed_settles:
  "get_job jid x \<noteq> None \<Longrightarrow> mark_job_failed jid m x = (Inr u, y) \<Longrightarrow> settled jid y"
  using settled_marks(1) [of jid x m] by simp

lemma handlers_settle:
  assumes "good E w" and "get_job (job_pk job) w \<noteq> None"
  shows "handle_chat_orchestrate E job w = (Inr u, v) \<Longrightarrow> settled (job_pk job) v"
    and "handle_email_send_approved E job w = (Inr u, v) \<Longrightarrow> settled (job_pk job) v"
proof -
  show "handle_chat_orchestrate E job w = (Inr u, v) \<Longrightarrow> settled (job_pk job) v"
    unfolding handle_chat_orchestrate_def
    by (rule handler_settles [OF assms execute_chat_evo(2)]) (erule mark_failed_settles)
  have fail: "settled (job_pk job) y"
    if "get_job (job_pk job) x \<noteq> None"
      and "bindM (mark_job_failed (job_pk job) m) (\<lambda>_. audit_send_job_failed E job m) x = (Inr u, y)" for x m u y
  proof -
    have "audit_send_job_failed E job m (after (mark_job_failed (job_pk job) m) x) = (Inr u, y)"
      using that(2) by (simp add: bindM_Inr [OF mark_run(1)])
    moreover have "evolves (only {TDeliveries, TAudit}) (audit_send_job_failed E job m)"
      by (rule audit_send_job_failed_evo) simp_all
    ultimately have "only {TDeliveries, TAudit} (after (mark_job_failed (job_pk job) m) x) y"
      by (intro only_run [of _ "audit_send_job_failed E job m"])
    then show ?thesis by (rule settled_frame) (simp_all add: settled_marks that(1))
  qed
  assume "handle_email_send_approved E job w = (Inr u, v)"
  then show "settled (job_pk job) v"
    unfolding handle_email_send_approved_def
    by (intro handler_settles [where g = Some and body = "run_send_approved_job E job" and
          fail = "\<lambda>m. bindM (mark_job_failed (job_pk job) m) (\<lambda>_. audit_send_job_failed E job m)",
          OF assms run_send_evo(2) fail])
qed

lemma run_task_settles:
  assumes "good E w" and "get_job (job_pk job) w \<noteq> None" and "run_task E job w = (Inr None, v)"
  shows "settled (job_pk job) v"
  using assms(3) handlers_settle [OF assms(1,2)]
  by (auto simp: run_task_def bindM_eq_Inr_iff ret_def split: if_splits)

lemma process_job_settles:
  assumes good: "good E w" and here: "get_job (job_pk job) w \<noteq> None"
  shows "\<exists>outcome v. process_job E job w = (Inr outcome, v) \<and> settled (job_pk job) v"
proof -
  obtain r x where run: "run_task E job w = (r, x)" by fastforce
  have "evolves (forward E) (run_task E job)"
    unfolding run_task_def by (intro evo)
  then have stay: "get_job (job_pk job) x \<noteq> None"
    using job_stays [OF good _ here] forward_run [of E "run_task E job" w r x] run by blast
  show ?thesis
  proof (cases r)
    case (Inl e)
    obtain y where "mark_job_failed (job_pk job) (exn_str e) x = (Inr (), y)" "settled (job_pk job) y"
      using mark_failed_run [OF stay] .
    then show ?thesis
      using run Inl by (simp add: process_job_def bindM_def catch_def ret_def)
  next
    case (Inr outcome)
    show ?thesis
    proof (cases outcome)
      case None
      then show ?thesis
        using run Inr run_task_settles [OF good here] by (simp add: process_job_def bindM_def catch_def ret_def)
    next
      case (Some err)
      obtain y where "mark_job_failed (job_pk job) err x = (Inr (), y)" "settled (job_pk job) y"
        using mark_failed_run [OF stay] .
      then show ?thesis
        using run Inr Some by (simp add: process_job_def bindM_def catch_def ret_def)
    qed
  qed
qed

lemma claimed_is_there:
  assumes "oldest_eligible w = Some j"
  shows "get_job (job_pk j) (after claim_next_pending w) \<noteq> None"
proof -
  have "get_job (job_pk j) w \<noteq> None"
    using oldest_eligible_in [OF assms] by (auto simp: get_job_def get_row_def tget_None_iff)
  then show ?thesis
    by (auto simp: claim_run assms get_job_def get_row_def tget_tupd)
qed

section \<open>Properties\<close>

text \<open>C19: a poll never raises and keeps the state good. It answers False exactly when no pending job
  is eligible, and otherwise the job it claimed, the oldest, ends succeeded or failed: whatever
  the handler or the provider raised, no claimed job is left running.\<close>

theorem poll_once_settles:
  assumes "good E w"
  shows "case oldest_eligible w of
           None \<Rightarrow> poll_once E w = (Inr False, w)
         | Some j \<Rightarrow> (\<exists>v. poll_once E w = (Inr True, v) \<and> good E v \<and> settled (job_pk j) v)"
proof (cases "oldest_eligible w")
  case None
  then show ?thesis by (simp add: poll_once_def bindM_def claim_run ret_def)
next
  case (Some j)
  let ?j = "touch_job (clock w) (\<lambda>j. j\<lparr>job_status := JobRunning\<rparr>) j"
  obtain w1 where claim: "claim_next_pending w = (Inr (Some ?j), w1)"
    by (simp add: claim_run Some)
  have good1: "good E w1"
    using assms forward_run [OF claim_evo(2) claim, of E] by (simp add: forward_def)
  then obtain out v where v: "process_job E ?j w1 = (Inr out, v)" "settled (job_pk j) v"
    using process_job_settles [OF good1, of ?j] claimed_is_there [OF Some] by (auto simp: claim)
  have "good E v"
    using good1 forward_run [OF process_job_evo(2) v(1)] by (simp add: forward_def)
  moreover have "poll_once E w = (Inr True, v)"
    using v(1) by (simp add: poll_once_def bindM_def claim ret_def)
  ultimately show ?thesis using Some v(2) by simp
qed

theorem poll_once_settles_witness:
  "poll_once sample_env (sample_state ApprovalApproved) = (Inr False, sample_state ApprovalApproved)
   \<and> (\<exists>v. poll_once sample_env (sample_state ApprovalApproved\<lparr>jobs := [sample_source_job\<lparr>job_status := JobPending\<rparr>]\<rparr>)
        = (Inr True, v) \<and> settled (uuid 2) v)"
proof
  have none: "oldest_eligible (sample_state ApprovalApproved) = None"
    by (simp add: oldest_eligible_def sample_state_def sample_source_job_def eligible_def first_row_def empty_world_def)
  then show "poll_once sample_env (sample_state ApprovalApproved) = (Inr False, sample_state ApprovalApproved)"
    using poll_once_settles [OF sample_state_good, of ApprovalApproved] by simp
  let ?w = "sample_state ApprovalApproved\<lparr>jobs := [sample_source_job\<lparr>job_status := JobPending\<rparr>]\<rparr>"
  have good: "good sample_env ?w"
    using sample_state_good [of ApprovalApproved]
    by (simp add: good_def drawn_def keys_unique_def sample_state_def sample_source_job_def)
  have "oldest_eligible ?w = Some (sample_source_job\<lparr>job_status := JobPending\<rparr>)"
    by (simp add: oldest_eligible_def eligible_def first_row_def sample_source_job_def)
  then show "\<exists>v. poll_once sample_env ?w = (Inr True, v) \<and> settled (uuid 2) v"
    using poll_once_settles [OF good] by (auto simp: sample_source_job_def)
qed

end
