(* ===== verification/SendLedger.thy ===== *)
theory SendLedger
  imports Worker
begin

text \<open>
  The ledger of outbound sends across the approval, email and worker code: the messages the
  provider accepted are exactly the message ids recorded on approvals, one for one, and every
  approval that carries one is approved. Operations that write approvals or send are shown to keep
  the ledger; all others do by their footprint.
\<close>

definition sent_msg :: "approval \<Rightarrow> string option" where
  "sent_msg a = (case dget (loads (appr_payload a)) ''gmail_message_id'' of
                   JStr m \<Rightarrow> if m = [] then None else Some m | _ \<Rightarrow> None)"

definition ledger :: "world \<Rightarrow> bool" where
  "ledger w \<longleftrightarrow> drawn approvals appr_pk w
     \<and> mset (map snd (sent_log w)) = mset (List.map_filter sent_msg (approvals w))
     \<and> list_all (\<lambda>a. sent_msg a = None \<or> appr_status a = ApprovalApproved) (approvals w)"

lemma only_ledger:
  assumes "only S w v" and "TApprovals \<notin> S" "TSent \<notin> S"
  shows "keeps ledger w v"
proof -
  have "same TApprovals w v" "same TSent w v" "uuids w \<le> uuids v"
    using assms by (auto dest: onlyD simp: only_def simp del: same.simps)
  then show ?thesis by (auto simp: keeps_def ledger_def intro: drawn_mono)
qed

lemma evolves_only_ledger:
  "evolves (only S) m \<Longrightarrow> TApprovals \<notin> S \<Longrightarrow> TSent \<notin> S \<Longrightarrow> evolves (keeps ledger) m"
  by (auto simp: evolves_def intro: only_ledger)

text \<open>Recording an event after a step that kept the ledger.\<close>

lemma audit_then_ret_ledger:
  "keeps ledger w w1 \<Longrightarrow> keeps ledger w (after (bindM (audit_record E a) (\<lambda>_. ret r)) w1)"
proof -
  have "evolves (only {TAudit}) (bindM (audit_record E a) (\<lambda>_. ret r))" by (intro evo) simp
  then have "evolves (keeps ledger) (bindM (audit_record E a) (\<lambda>_. ret r))"
    by (rule evolves_only_ledger) simp_all
  then have "keeps ledger w1 (after (bindM (audit_record E a) (\<lambda>_. ret r)) w1)"
    by (rule evolvesD)
  then show "keeps ledger w w1 \<Longrightarrow> ?thesis" by (rule keeps_evo.evo_trans [rotated])
qed

lemma map_filter_tupd_in:
  "(\<And>r. r \<in> set rs \<Longrightarrow> key r = k \<Longrightarrow> g (f r) = g r) \<Longrightarrow> List.map_filter g (tupd key k f rs) = List.map_filter g rs"
  by (induction rs) (auto split: option.split)

lemma approvals_update_ledger:
  assumes "\<And>r. ledger w \<Longrightarrow> r \<in> set (approvals w) \<Longrightarrow> appr_pk r = k \<Longrightarrow>
      sent_msg (f r) = sent_msg r \<and> (sent_msg r = None \<or> appr_status (f r) = ApprovalApproved)"
    and pk: "\<And>r. appr_pk (f r) = appr_pk r"
  shows "keeps ledger w (approvals_update (tupd appr_pk k f) w)"
  unfolding keeps_def
proof
  assume l: "ledger w"
  have keys: "map appr_pk (tupd appr_pk k f (approvals w)) = map appr_pk (approvals w)"
    by (rule map_tupd_same) (simp add: pk)
  then have "appr_pk ` set (tupd appr_pk k f (approvals w)) = appr_pk ` set (approvals w)" by (metis set_map)
  moreover have "List.map_filter sent_msg (tupd appr_pk k f (approvals w)) = List.map_filter sent_msg (approvals w)"
    by (rule map_filter_tupd_in) (use assms(1) [OF l] in blast)
  moreover have "sent_msg a = None \<or> appr_status a = ApprovalApproved"
    if "a \<in> set (tupd appr_pk k f (approvals w))" for a
    using that
  proof (rule in_tupdE)
    assume "a \<in> set (approvals w)"
    then show ?thesis using l by (auto simp: ledger_def list_all_iff)
  next
    fix r assume "r \<in> set (approvals w)" "appr_pk r = k" "a = f r"
    then show ?thesis using assms(1) [OF l, of r] by auto
  qed
  ultimately show "ledger (approvals_update (tupd appr_pk k f) w)"
    using l keys by (simp add: ledger_def drawn_def list_all_iff)
qed

lemma ledger_unique:
  assumes "ledger w" and "get_request aid t w = Some row" and "r \<in> set (approvals w)" "appr_pk r = aid"
  shows "r = row"
proof -
  have "row \<in> set (approvals w)" "appr_pk row = aid"
    using approval_fetch.fetch_SomeD [OF assms(2)] by auto
  moreover have "distinct (map appr_pk (approvals w))" using assms(1) by (simp add: ledger_def drawn_def)
  ultimately show ?thesis using assms(3,4) by (auto intro: distinct_key_unique)
qed

lemma sent_msg_decide [simp]: "sent_msg (decide_row s d now r) = sent_msg r"
  by (simp add: sent_msg_def decide_row_def loads_def)

lemma decide_ledger:
  assumes "get_request aid t w = Some row" and "appr_status row = ApprovalPending"
  shows "keeps ledger w (approvals_update (tupd appr_pk aid (decide_row s d now)) w)"
proof (rule approvals_update_ledger)
  fix r assume l: "ledger w" and r: "r \<in> set (approvals w)" "appr_pk r = aid"
  then have "r = row" by (rule ledger_unique [OF _ assms(1)])
  then have "sent_msg r = None" using l r(1) assms(2) by (auto simp: ledger_def list_all_iff)
  then show "sent_msg (decide_row s d now r) = sent_msg r
      \<and> (sent_msg r = None \<or> appr_status (decide_row s d now r) = ApprovalApproved)" by simp
qed (simp add: decide_row_def)

lemma approve_ledger [evo]: "evolves (keeps ledger) (approve E aid actor note t)"
proof (rule evolvesI)
  fix w
  show "keeps ledger w (after (approve E aid actor note t) w)"
  proof (cases "get_request aid t w")
    case None
    then show ?thesis by (simp add: approve_def gets_def bindM_def raise_def keeps_evo.evo_refl)
  next
    case (Some row)
    show ?thesis
    proof (cases "appr_status row = ApprovalPending \<and> gate_verdict row w = None")
      case True
      let ?f = "decide_row ApprovalApproved (approved_decision actor note) (clock w)"
      have "approve E aid actor note t w = bindM (audit_record E (approve_audit row actor note)) (\<lambda>_. ret (?f row))
          (approvals_update (tupd appr_pk aid ?f) w)"
        using True by (simp add: approve_def Some bindM_def [of "if _ then _ else _"] gate_run Let_def
            update_row_def approve_audit_def approved_decision_def)
      then show ?thesis
        using audit_then_ret_ledger [OF decide_ledger [OF Some]] True by simp
    next
      case False
      then have "after (approve E aid actor note t) w = w"
        by (auto simp: approve_def Some bindM_def [of "if _ then _ else _"] gate_run raise_def split: option.split)
      then show ?thesis by (simp add: keeps_evo.evo_refl)
    qed
  qed
qed

lemma reject_ledger [evo]: "evolves (keeps ledger) (reject E aid actor reason t)"
proof (rule evolvesI)
  fix w
  show "keeps ledger w (after (reject E aid actor reason t) w)"
  proof (cases "get_request aid t w")
    case None
    then show ?thesis by (simp add: reject_def gets_def bindM_def raise_def keeps_evo.evo_refl)
  next
    case (Some row)
    show ?thesis
    proof (cases "appr_status row = ApprovalPending")
      case True
      let ?f = "decide_row ApprovalRejected (rejected_decision actor reason) (clock w)"
      have "reject E aid actor reason t w = bindM (audit_record E (reject_audit row actor reason)) (\<lambda>_. ret (?f row))
          (approvals_update (tupd appr_pk aid ?f) w)"
        using True by (simp add: reject_def Some Let_def update_row_def reject_audit_def rejected_decision_def)
      then show ?thesis
        using audit_then_ret_ledger [OF decide_ledger [OF Some True]] by simp
    next
      case False
      then show ?thesis by (simp add: reject_def Some raise_def keeps_evo.evo_refl)
    qed
  qed
qed

lemma sent_msg_fresh:
  "''gmail_message_id'' \<notin> fst ` set p \<Longrightarrow>
   dget (dupdate [(''job_id'', JStr j)] p) ''gmail_message_id'' = JNull"
  by (simp add: dget_dupdate_notin)

lemma create_request_ledger [evo]:
  assumes "''gmail_message_id'' \<notin> fst ` set p"
  shows "evolves (keeps ledger) (create_request E kind t jid p)"
proof (rule evolvesI)
  fix w :: world
  let ?row = "\<lparr>appr_pk = uuid (uuids w), appr_tenant = t, appr_kind = kind, appr_status = ApprovalPending,
                appr_payload = Some (dupdate [(''job_id'', JStr jid)] p),
                appr_decided_at = None, appr_created_at = clock w\<rparr>"
  let ?w1 = "w\<lparr>uuids := Suc (uuids w), approvals := approvals w @ [?row]\<rparr>"
  have "sent_msg ?row = None" using sent_msg_fresh [OF assms] by (simp add: sent_msg_def loads_def)
  moreover have "drawn approvals appr_pk (after (insert_row approvals_update ?row) (w\<lparr>uuids := Suc (uuids w)\<rparr>))"
    if "ledger w"
    by (rule approvals_tbl.drawn_insert) (use that in \<open>simp_all add: ledger_def\<close>)
  ultimately have "keeps ledger w ?w1"
    by (simp add: keeps_def ledger_def insert_row_def comp drawn_def)
  moreover have "create_request E kind t jid p w = bindM (audit_record E ((audit_call APPROVAL_CREATED ''approval'' (appr_pk ?row))
            \<lparr>arg_tenant := t, arg_metadata := [(''kind'', JStr kind), (''source_job_id'', JStr jid)]\<rparr>)) (\<lambda>_. ret ?row) ?w1"
    by (simp add: create_request_def bindM_def [of new_id] new_id_def insert_row_def Let_def)
  ultimately show "keeps ledger w (after (create_request E kind t jid p) w)"
    using audit_then_ret_ledger by simp
qed

lemma merge_ledger [evo]:
  assumes "''gmail_message_id'' \<notin> fst ` set fs"
  shows "evolves (keeps ledger) (merge_execution_context aid fs)"
proof (rule evolvesI)
  fix w
  have "sent_msg (merge_row fs r) = sent_msg r" for r
    by (simp add: sent_msg_def merge_row_def loads_def dget_dupdate_notin [OF assms])
  then have "keeps ledger w (approvals_update (tupd appr_pk aid (merge_row fs)) w)"
    by (intro approvals_update_ledger) (auto simp: merge_row_def ledger_def list_all_iff)
  then show "keeps ledger w (after (merge_execution_context aid fs) w)"
    by (simp add: merge_run keeps_evo.evo_refl split: option.split)
qed

text \<open>Operations that neither write approvals nor send.\<close>

lemma neutral_ledger [evo]:
  "evolves (keeps ledger) (create_draft E (get_gmail_connector E) t s b)"
  "evolves (keeps ledger) (workflow_read_thread E th t j i)"
  "evolves (keeps ledger) (upsert_thread_record t x j0 sn i0 e)"
  "evolves (keeps ledger) (upsert_outbound_delivery t x d a j st)"
  "evolves (keeps ledger) (mark_delivery_sent a j m)"
  "evolves (keeps ledger) (mark_delivery_failed a j m)"
  "evolves (keeps ledger) (audit_record E a')"
  "evolves (keeps ledger) (mark_job_failed j m)"
  "evolves (keeps ledger) (mark_job_succeeded j r)"
  "evolves (keeps ledger) (count_attempt j)"
  "evolves (keeps ledger) claim_next_pending"
  by (rule evolves_only_ledger [of "{TCalls, TThreads, TDeliveries, TAudit, TJobs}"], (rule evo; simp), simp, simp)+

lemma enrich_ledger [evo]: "evolves (keeps ledger) (enrich_orchestrate_result E job p r)"
  unfolding enrich_orchestrate_result_def by (intro evo; simp)

lemma execute_chat_ledger [evo]: "evolves (keeps ledger) (execute_chat_orchestrate E job)"
  unfolding execute_chat_orchestrate_def by (intro evo; simp)

section \<open>The send\<close>

lemma validate_send_state: "\<exists>r. validate_send_execution_invariants job a w = (r, w)"
  by (auto simp: validate_send_execution_invariants_def raise_def validate_enqueue_run)

lemma send_and_record:
  assumes ids: "send_answers_id E" and l: "ledger w" and row: "get_approval aid w = Some row"
    and ok: "appr_status row = ApprovalApproved" and fresh: "\<not> truthy (dget (loads (appr_payload row)) ''gmail_message_id'')"
  shows "ledger (after (bindM (send_approved_draft E (get_gmail_connector E) d) (\<lambda>m. record_send_completed aid m)) w)"
proof -
  obtain r w1 where send: "send_approved_draft E (get_gmail_connector E) d w = (r, w1)" by fastforce
  have "only {TCalls, TSent} w w1"
    by (rule only_run [of _ "send_approved_draft E (get_gmail_connector E) d" w r w1]) (simp_all add: send send_approved_draft_evo(1))
  then have frame: "approvals w1 = approvals w" "uuids w \<le> uuids w1"
    using onlyD [of _ w w1 TApprovals] by (auto simp: only_def)
  note out = send_outcome [OF ids send]
  show ?thesis
  proof (cases r)
    case (Inl e)
    then show ?thesis
      using l out frame by (auto simp: bindM_def send ledger_def intro: drawn_mono)
  next
    case (Inr m)
    let ?fs = "[(''gmail_message_id'', JStr m), (''send_status'', JStr ''sent'')]"
    have row1: "get_approval aid w1 = Some row" using row frame by (simp add: get_approval_def get_row_def)
    have split: "distinct (map appr_pk (approvals w))" "tget appr_pk aid (approvals w) = Some row"
      using l row by (simp_all add: ledger_def drawn_def get_approval_def get_row_def)
    then obtain xs ys where xy: "approvals w = xs @ row # ys"
      "tput appr_pk (merge_row ?fs row) (approvals w) = xs @ merge_row ?fs row # ys"
      using tput_split [OF split, where thesis = thesis] tget_key [OF split(2)] by (simp add: merge_row_def)
    have upd: "tupd appr_pk aid (merge_row ?fs) (approvals w) = xs @ merge_row ?fs row # ys"
      using tput_eq_tupd [OF split, of "merge_row ?fs"] tget_key [OF split(2)] xy(2) by (simp add: merge_row_def)
    have "sent_msg row = None"
      using fresh by (auto simp: sent_msg_def split: json.split)
    moreover have "sent_msg (merge_row ?fs row) = Some m"
      using out Inr by (simp add: sent_msg_def merge_row_def loads_def)
    moreover have "map appr_pk (tupd appr_pk aid (merge_row ?fs) (approvals w)) = map appr_pk (approvals w)"
      by (rule map_tupd_same) (simp add: merge_row_def)
    then have "drawn approvals appr_pk (approvals_update (tupd appr_pk aid (merge_row ?fs)) w1)"
      using drawn_mono [of approvals appr_pk w w1] l frame
      by (simp add: ledger_def drawn_def) (metis set_map)
    moreover have "after (bindM (send_approved_draft E (get_gmail_connector E) d) (\<lambda>m. record_send_completed aid m)) w
        = approvals_update (tupd appr_pk aid (merge_row ?fs)) w1"
      by (simp add: bindM_def send Inr record_send_completed_def merge_run row1)
    ultimately show ?thesis
      using l out Inr frame ok upd xy(1) by (simp add: ledger_def merge_row_def)
  qed
qed

lemma keeps_bind_tail:
  assumes "J (after (bindM m f) w)" and "\<And>x. evolves (keeps J) (g x)"
  shows "J (after (bindM m (\<lambda>x. bindM (f x) (\<lambda>_. g x))) w)"
proof -
  obtain r w1 where m: "m w = (r, w1)" by fastforce
  show ?thesis
  proof (cases r)
    case (Inl e)
    then show ?thesis using assms(1) m by (simp add: bindM_def)
  next
    case (Inr x)
    obtain r2 w2 where f: "f x w1 = (r2, w2)" by fastforce
    have "J w2" using assms(1) m f Inr by (simp add: bindM_def)
    then have "J (after (g x) w2)" using evolvesD [OF assms(2), of w2 x] by (simp add: keeps_def)
    with \<open>J w2\<close> show ?thesis using m f Inr by (cases r2) (simp_all add: bindM_def)
  qed
qed

text \<open>What follows the provider's answer, and the run of the job once it passed its checks.\<close>

definition send_tail :: "env \<Rightarrow> job \<Rightarrow> approval \<Rightarrow> string \<Rightarrow> dict svc" where
  "send_tail E job row m =
     bindM (mark_delivery_sent (appr_pk row) (job_pk job) m) (\<lambda>_.
     bindM (audit_record E ((audit_call SEND_JOB_SUCCEEDED ''job'' (job_pk job))
            \<lparr>arg_tenant := job_tenant job,
             arg_metadata := [(''approval_id'', JStr (appr_pk row)), (''gmail_message_id'', JStr m)]\<rparr>)) (\<lambda>_.
     ret (build_send_approved_result (appr_pk row) (dget (loads (appr_payload row)) ''job_id'')
            (dget (loads (appr_payload row)) ''gmail_draft_id'') m
            (or_dict (dget (loads (appr_payload row)) ''decision'')) False)))"

definition checked :: "job \<Rightarrow> world \<Rightarrow> approval \<Rightarrow> bool" where
  "checked job w row \<longleftrightarrow>
     get_json (\<lambda>aid. get_request aid None) (dget (loads (job_payload job)) ''approval_id'') w = Some row
     \<and> validate_send_execution_invariants job row w = (Inr (), w)
     \<and> truthy (dget (loads (appr_payload row)) ''gmail_draft_id'')"

lemma checkedD:
  assumes "checked job w row"
  shows "get_approval (appr_pk row) w = Some row" and "appr_status row = ApprovalApproved"
    and "job_type job = EMAIL_SEND_APPROVED" and "job_tenant job = appr_tenant row"
    and "dget (loads (job_payload job)) ''approval_id'' = JStr (appr_pk row)"
proof -
  show "get_approval (appr_pk row) w = Some row"
    using assms by (auto simp: checked_def get_json_def get_request_def get_approval_def
        dest: approvals_tbl.get_row_key split: option.splits)
  show "appr_status row = ApprovalApproved" "job_type job = EMAIL_SEND_APPROVED" "job_tenant job = appr_tenant row"
    "dget (loads (job_payload job)) ''approval_id'' = JStr (appr_pk row)"
    using assms by (auto simp: checked_def validate_send_execution_invariants_def raise_def validate_enqueue_run
        enqueue_verdict_def split: if_splits option.splits)
qed

lemma run_send_checked:
  assumes "checked job w row" and "appr_pk row \<noteq> []"
  shows "run_send_approved_job E job w =
     (if truthy (dget (loads (appr_payload row)) ''gmail_message_id'') then
        bindM (mark_delivery_sent (appr_pk row) (job_pk job) (py_str (dget (loads (appr_payload row)) ''gmail_message_id''))) (\<lambda>_.
          ret (build_send_approved_result (appr_pk row) (dget (loads (appr_payload row)) ''job_id'')
            (dget (loads (appr_payload row)) ''gmail_draft_id'')
            (py_str (dget (loads (appr_payload row)) ''gmail_message_id''))
            (or_dict (dget (loads (appr_payload row)) ''decision'')) True)) w
      else bindM (send_approved_draft E (get_gmail_connector E) (py_str (dget (loads (appr_payload row)) ''gmail_draft_id'')))
             (\<lambda>m. bindM (record_send_completed (appr_pk row) m) (\<lambda>_. send_tail E job row m)) w)"
  using assms checkedD(5) [OF assms(1)]
  by (simp add: run_send_approved_job_def checked_def Let_def send_tail_def
      bindM_def [of "validate_send_execution_invariants _ _"])

lemma run_send_unchecked:
  assumes "\<not> (\<exists>row. checked job w row \<and> appr_pk row \<noteq> [])"
  shows "\<exists>e. run_send_approved_job E job w = (Inl e, w)"
proof (cases "truthy (dget (loads (job_payload job)) ''approval_id'')")
  case False
  then show ?thesis by (simp add: run_send_approved_job_def raise_def Let_def)
next
  case True
  show ?thesis
  proof (cases "get_json (\<lambda>aid. get_request aid None) (dget (loads (job_payload job)) ''approval_id'') w")
    case None
    then show ?thesis using True by (simp add: run_send_approved_job_def raise_def Let_def)
  next
    case (Some row)
    obtain r where r: "validate_send_execution_invariants job row w = (r, w)"
      using validate_send_state by blast
    show ?thesis
    proof (cases r)
      case (Inl e)
      then show ?thesis using True Some r
        by (simp add: run_send_approved_job_def Let_def bindM_def [of "validate_send_execution_invariants _ _"])
    next
      case (Inr u)
      have "appr_pk row \<noteq> []"
        using True Some by (cases "dget (loads (job_payload job)) ''approval_id''")
          (auto simp: get_json_def dest: approval_fetch.fetch_SomeD)
      then have "\<not> truthy (dget (loads (appr_payload row)) ''gmail_draft_id'')"
        using assms Some r Inr by (auto simp: checked_def)
      then show ?thesis using True Some r Inr
        by (simp add: run_send_approved_job_def Let_def raise_def bindM_def [of "validate_send_execution_invariants _ _"])
    qed
  qed
qed

lemma send_tail_ledger: "evolves (keeps ledger) (send_tail E job row m)"
  unfolding send_tail_def by (intro evo)

lemma run_send_ledger:
  assumes ids: "send_answers_id E"
  shows "evolves (keeps ledger) (run_send_approved_job E job)"
proof (rule evolvesI, unfold keeps_def, rule impI)
  fix w assume l: "ledger w"
  show "ledger (after (run_send_approved_job E job) w)"
  proof (cases "\<exists>row. checked job w row \<and> appr_pk row \<noteq> []")
    case False
    then show ?thesis using run_send_unchecked [OF False, of E] l by auto
  next
    case True
    then obtain row where row: "checked job w row" "appr_pk row \<noteq> []" by blast
    note run = run_send_checked [OF row, of E]
    have dedup: "evolves (keeps ledger) (bindM (mark_delivery_sent a j m) (\<lambda>_. ret x))" for a j m and x :: dict
      by (intro evo)
    show ?thesis
    proof (cases "truthy (dget (loads (appr_payload row)) ''gmail_message_id'')")
      case True
      then show ?thesis using l run evolvesD [OF dedup] by (simp add: keeps_def)
    next
      case False
      have "ledger (after (bindM (send_approved_draft E (get_gmail_connector E) d) (\<lambda>m. record_send_completed (appr_pk row) m)) w)" for d
        by (rule send_and_record [OF ids l checkedD(1) [OF row(1)] checkedD(2) [OF row(1)] False])
      then have "ledger (after (bindM (send_approved_draft E (get_gmail_connector E) d)
          (\<lambda>m. bindM (record_send_completed (appr_pk row) m) (\<lambda>_. send_tail E job row m))) w)" for d
        by (rule keeps_bind_tail) (rule send_tail_ledger)
      then show ?thesis using run False by simp
    qed
  qed
qed

section \<open>Handlers and polls\<close>

lemma attempt_ledger [evo]:
  "evolves (keeps ledger) body \<Longrightarrow> (\<And>m. evolves (keeps ledger) (fail m)) \<Longrightarrow> evolves (keeps ledger) (attempt body fail)"
  unfolding attempt_def by (intro evo; assumption?)

lemma audit_send_job_failed_ledger [evo]: "evolves (keeps ledger) (audit_send_job_failed E job m)"
  unfolding audit_send_job_failed_def by (intro evo)

lemma process_job_ledger:
  assumes "send_answers_id E"
  shows "evolves (keeps ledger) (process_job E job)"
  unfolding process_job_def run_task_def handle_chat_orchestrate_def handle_email_send_approved_def
  by (intro evo run_send_ledger assms)

lemma poll_once_ledger: "send_answers_id E \<Longrightarrow> evolves (keeps ledger) (poll_once E)"
  unfolding poll_once_def by (intro evo process_job_ledger)

section \<open>Where a send can come from\<close>

abbreviation quiet :: "table set" where
  "quiet \<equiv> - {TSent}"

lemma quiet_sent: "evolves (only quiet) m \<Longrightarrow> sent_log (after m w) = sent_log w"
  using evolves_onlyD [of quiet m TSent w] by simp

lemma sent_bind:
  assumes "\<And>x. evolves (only quiet) (f x)"
  shows "sent_log (after (bindM m f) w) = sent_log (after m w)"
  using quiet_sent [OF assms] by (cases "m w") (simp add: bindM_def split: sum.split)

lemma sent_catch:
  assumes "\<And>e. evolves (only quiet) (h e)"
  shows "sent_log (after (catch m h) w) = sent_log (after m w)"
  using quiet_sent [OF assms] by (cases "m w") (simp add: catch_def split: sum.split)

lemma chat_quiet: "evolves (only quiet) (handle_chat_orchestrate E job)"
  unfolding handle_chat_orchestrate_def by (intro evo; simp)

lemma send_log_cases:
  "\<exists>m. sent_log (after (send_approved_draft E g d) w) \<in> {sent_log w, sent_log w @ [(d, m)]}"
proof (cases "cfg_mode g")
  case Stub
  then show ?thesis
    by (auto simp: send_approved_draft_def send_message_def log_sent_def comp new_id_def Let_def)
next
  case Live
  obtain b u where b: "build_gmail_service E (cfg_credentials_path g) w = (b, u)" by fastforce
  then have "sent_log u = sent_log w" by (rule build_sends_nothing)
  then show ?thesis
    using Live
    by (auto simp: send_approved_draft_def send_message_def live_send_draft_def bindM_def b
        api_call_def log_sent_def modify_def ret_def raise_def Let_def split: sum.splits option.splits if_splits)
qed

lemma run_send_sent:
  "sent_log (after (run_send_approved_job E job) w) = sent_log w
   \<or> (\<exists>row m. checked job w row \<and> \<not> truthy (dget (loads (appr_payload row)) ''gmail_message_id'')
        \<and> sent_log (after (run_send_approved_job E job) w)
            = sent_log w @ [(py_str (dget (loads (appr_payload row)) ''gmail_draft_id''), m)])"
proof (cases "\<exists>row. checked job w row \<and> appr_pk row \<noteq> []")
  case False
  then show ?thesis using run_send_unchecked [OF False, of E] by auto
next
  case True
  then obtain row where row: "checked job w row" "appr_pk row \<noteq> []" by blast
  note run = run_send_checked [OF row, of E]
  show ?thesis
  proof (cases "truthy (dget (loads (appr_payload row)) ''gmail_message_id'')")
    case True
    have q: "evolves (only quiet) (bindM (mark_delivery_sent a j m) (\<lambda>_. ret x))" for a j m and x :: dict
      by (intro evo) simp
    show ?thesis using run True quiet_sent [OF q] by simp
  next
    case False
    let ?d = "py_str (dget (loads (appr_payload row)) ''gmail_draft_id'')"
    have tail: "evolves (only quiet) (bindM (record_send_completed (appr_pk row) m) (\<lambda>_. send_tail E job row m))" for m
      unfolding send_tail_def by (intro evo; simp)
    have "sent_log (after (run_send_approved_job E job) w) = sent_log (after (send_approved_draft E (get_gmail_connector E) ?d) w)"
      using run False sent_bind [OF tail] by simp
    then show ?thesis using send_log_cases [of E "get_gmail_connector E" ?d w] row(1) False by auto
  qed
qed

lemma count_attempt_frame:
  "get_approval a (after (count_attempt j) w) = get_approval a w"
  "get_request a t (after (count_attempt j) w) = get_request a t w"
  "sent_log (after (count_attempt j) w) = sent_log w"
  by (simp_all add: count_attempt_def update_job_run get_approval_def get_request_def get_row_def)

lemma handle_email_sent:
  "sent_log (after (handle_email_send_approved E job) w)
     = sent_log (after (run_send_approved_job E job) (after (count_attempt (job_pk job)) w))"
proof -
  have "sent_log (after (handle_email_send_approved E job) w) =
     sent_log (after (attempt (run_send_approved_job E job)
        (\<lambda>m. bindM (mark_job_failed (job_pk job) m) (\<lambda>_. audit_send_job_failed E job m)))
        (after (count_attempt (job_pk job)) w))"
    unfolding handle_email_send_approved_def bindM_Inr [OF mark_run(3)]
    by (rule sent_bind) (intro evo; simp)
  also have "\<dots> = sent_log (after (run_send_approved_job E job) (after (count_attempt (job_pk job)) w))"
    unfolding attempt_def by (subst sent_catch, (intro evo; simp), rule sent_bind, intro evo)
  finally show ?thesis .
qed

lemma process_job_sent:
  "sent_log (after (process_job E job) w) =
     (if job_type job = EMAIL_SEND_APPROVED
      then sent_log (after (run_send_approved_job E job) (after (count_attempt (job_pk job)) w))
      else sent_log w)"
proof -
  have "sent_log (after (process_job E job) w) = sent_log (after (run_task E job) w)"
    unfolding process_job_def
    by (subst sent_bind, (intro evo; simp), subst sent_catch, (intro evo; simp), rule sent_bind, intro evo)
  moreover have "sent_log (after (run_task E job) w) = sent_log (after (handle_email_send_approved E job) w)"
    if "job_type job = EMAIL_SEND_APPROVED"
    using that by (simp add: run_task_def CHAT_ORCHESTRATE_def EMAIL_SEND_APPROVED_def) (rule sent_bind, intro evo)
  moreover have "sent_log (after (run_task E job) w) = sent_log w" if "job_type job \<noteq> EMAIL_SEND_APPROVED"
    using that by (simp add: run_task_def ret_def) (auto simp: quiet_sent [OF chat_quiet] sent_bind [OF only_evo.evo_ret])
  ultimately show ?thesis by (simp add: handle_email_sent)
qed

section \<open>Properties\<close>

text \<open>C4: the only way out. Whatever job the worker processes, it sends nothing, or it sends exactly
  one draft: the job is an \<open>email.send_approved\<close> job, it names an approval of the same tenant that
  is approved and has no message id yet, and what is sent is the draft that approval holds. A chat
  job never sends.\<close>

theorem send_gate:
  "sent_log (after (process_job E job) w) = sent_log w
   \<or> (\<exists>row m. job_type job = EMAIL_SEND_APPROVED
        \<and> dget (loads (job_payload job)) ''approval_id'' = JStr (appr_pk row)
        \<and> get_approval (appr_pk row) w = Some row \<and> appr_status row = ApprovalApproved
        \<and> job_tenant job = appr_tenant row
        \<and> truthy (dget (loads (appr_payload row)) ''gmail_draft_id'')
        \<and> truthy (dget (loads (appr_payload row)) ''gmail_message_id'') = False
        \<and> sent_log (after (process_job E job) w)
            = sent_log w @ [(py_str (dget (loads (appr_payload row)) ''gmail_draft_id''), m)])"
proof (cases "job_type job = EMAIL_SEND_APPROVED")
  case False
  then show ?thesis by (simp add: process_job_sent)
next
  case True
  let ?w1 = "after (count_attempt (job_pk job)) w"
  show ?thesis
    using run_send_sent [of E job ?w1] True checkedD [of job ?w1]
    by (auto simp: process_job_sent count_attempt_frame checked_def)
qed

end
