(* ===== verification/Seeding.thy ===== *)
theory Seeding
  imports Forward
begin

text \<open>
  The get-or-create idiom of the start-up seeders (rbac_service, control_catalog): a row is looked
  up by its natural key and inserted when it is missing, and the whole pass is one transaction.
  \<open>seeds J A m Q\<close> is what such a pass promises from a state with the invariant \<open>J\<close> and the condition
  \<open>A\<close>: it succeeds, keeps \<open>J\<close> and every natural key single, leaves a state where \<open>Q\<close> holds for good,
  and there a second pass answers the same and changes nothing.
\<close>

text \<open>A block with one commit at its end: an exception rolls its writes back.\<close>

definition atomic :: "'a svc \<Rightarrow> 'a svc" where
  "atomic m w = (case m w of (Inl e, v) \<Rightarrow> (Inl e, w\<lparr>uuids := uuids v\<rparr>) | (Inr x, v) \<Rightarrow> (Inr x, v))"

definition ensure ::
  "(world \<Rightarrow> 'r list) \<Rightarrow> ('r \<Rightarrow> bool) \<Rightarrow> ('r \<Rightarrow> unit svc) \<Rightarrow> (string \<Rightarrow> time \<Rightarrow> 'r) \<Rightarrow> 'r svc" where
  "ensure rows P ins mk =
     bindM (gets (\<lambda>w. filter P (rows w))) (\<lambda>found.
     bindM (lift (scalar_one_or_none found)) (\<lambda>row.
     case row of
       Some r \<Rightarrow> ret r
     | None \<Rightarrow> bindM new_id (\<lambda>pk. bindM (gets clock) (\<lambda>now.
                 bindM (ins (mk pk now)) (\<lambda>_. ret (mk pk now))))))"

primrec gather :: "'a list \<Rightarrow> ('a \<Rightarrow> 'b svc) \<Rightarrow> 'b list svc" where
  "gather [] f = ret []"
| "gather (x # xs) f = bindM (f x) (\<lambda>y. bindM (gather xs f) (\<lambda>ys. ret (y # ys)))"

lemma atomic_only [evo]:
  assumes "evolves (only S) m"
  shows "evolves (only S) (atomic m)"
proof (rule evolvesI)
  fix w
  have "only S w (after m w)" using assms by (rule evolvesD)
  then have "uuids w \<le> uuids (after m w)" "only S w (after m w)" by (simp_all add: only_def)
  then show "only S w (after (atomic m) w)"
    by (auto simp: atomic_def only_def split: prod.split sum.split)
qed

lemma gather_only [evo]: "(\<And>x. evolves (only S) (f x)) \<Longrightarrow> evolves (only S) (gather xs f)"
  by (induction xs) (simp_all, (intro evo; assumption)+)

lemma ensure_only [evo]: "(\<And>r. evolves (only S) (ins r)) \<Longrightarrow> evolves (only S) (ensure rows P ins mk)"
  unfolding ensure_def by (intro evo; assumption?)

section \<open>Natural keys\<close>

definition perm_ident :: "permission \<Rightarrow> string option" where
  "perm_ident p = Some (perm_name p)"

definition role_ident :: "role \<Rightarrow> string option" where
  "role_ident r = (if role_tenant r = None then Some (role_name r) else None)"

definition link_ident :: "role_permission \<Rightarrow> (string \<times> string) option" where
  "link_ident l = Some (rp_role l, rp_permission l)"

definition fw_ident :: "framework \<Rightarrow> (string \<times> string) option" where
  "fw_ident f = Some (fw_name f, fw_version f)"

definition ctl_ident :: "control \<Rightarrow> (string \<times> string) option" where
  "ctl_ident c = Some (ctl_framework c, ctl_code c)"

definition reg_ident :: "regulation \<Rightarrow> string option" where
  "reg_ident r = Some (reg_name r)"

definition req_ident :: "requirement \<Rightarrow> (string \<times> string) option" where
  "req_ident r = Some (req_control r, req_text r)"

definition pack_ident :: "control_pack \<Rightarrow> string option" where
  "pack_ident p = (if pack_tenant p = None then Some (pack_name p) else None)"

lemmas ident_defs = perm_ident_def role_ident_def link_ident_def fw_ident_def ctl_ident_def
  reg_ident_def req_ident_def pack_ident_def

text \<open>No two rows share a natural key; and what was found by its key is still what is found.\<close>

definition single :: "('r \<Rightarrow> 'k option) \<Rightarrow> 'r list \<Rightarrow> bool" where
  "single ident rs \<longleftrightarrow> distinct (List.map_filter ident rs)"

definition kept :: "('r \<Rightarrow> 'k option) \<Rightarrow> 'r list \<Rightarrow> 'r list \<Rightarrow> bool" where
  "kept ident rs ss \<longleftrightarrow>
     (\<forall>k. filter (\<lambda>r. ident r = Some k) rs \<noteq> [] \<longrightarrow>
          filter (\<lambda>r. ident r = Some k) ss = filter (\<lambda>r. ident r = Some k) rs)"

lemma kept_refl [simp]: "kept ident rs rs"
  by (simp add: kept_def)

lemma kept_trans: "kept ident rs ss \<Longrightarrow> kept ident ss ts \<Longrightarrow> kept ident rs ts"
  by (simp add: kept_def)

lemma single_found:
  assumes "single ident rs" and "ident r = Some k" and "r \<in> set rs"
  shows "filter (\<lambda>r. ident r = Some k) rs = [r]"
  using assms
proof (induction rs)
  case (Cons a rs)
  have later: "filter (\<lambda>r. ident r = Some k) rs = []" if "ident a = Some k"
    using Cons.prems(1) that by (force simp: single_def filter_empty_conv in_map_filter)
  have tail: "single ident rs" using Cons.prems(1) by (auto simp: single_def split: option.splits)
  show ?case
  proof (cases "ident a = Some k")
    case True
    then have "r = a" using Cons.prems(2,3) later by (auto simp: filter_empty_conv)
    then show ?thesis using True later by simp
  next
    case False
    then show ?thesis using Cons.IH [OF tail Cons.prems(2)] Cons.prems(2,3) by auto
  qed
qed simp

lemma single_filter: "single ident rs \<Longrightarrow> filter (\<lambda>r. ident r = Some k) rs = [] \<or> (\<exists>r. filter (\<lambda>r. ident r = Some k) rs = [r])"
  by (metis (mono_tags, lifting) filter_empty_conv single_found)

lemma single_append:
  "single ident rs \<Longrightarrow> filter (\<lambda>r. ident r = Some k) rs = [] \<Longrightarrow> ident x = Some k \<Longrightarrow> single ident (rs @ [x])"
  by (auto simp: single_def filter_empty_conv in_map_filter)

definition singles :: "world \<Rightarrow> bool" where
  "singles w \<longleftrightarrow> single perm_ident (permissions w) \<and> single role_ident (roles w)
     \<and> single link_ident (role_permissions w) \<and> single fw_ident (frameworks w)
     \<and> single ctl_ident (controls w) \<and> single reg_ident (regulations w)
     \<and> single req_ident (requirements w) \<and> single pack_ident (control_packs w)"

definition stocked :: "world \<Rightarrow> world \<Rightarrow> bool" where
  "stocked w v \<longleftrightarrow> kept perm_ident (permissions w) (permissions v) \<and> kept role_ident (roles w) (roles v)
     \<and> kept link_ident (role_permissions w) (role_permissions v) \<and> kept fw_ident (frameworks w) (frameworks v)
     \<and> kept ctl_ident (controls w) (controls v) \<and> kept reg_ident (regulations w) (regulations v)
     \<and> kept req_ident (requirements w) (requirements v) \<and> kept pack_ident (control_packs w) (control_packs v)"

lemma stocked_refl [simp]: "stocked w w"
  by (simp add: stocked_def)

lemma stocked_trans: "stocked a b \<Longrightarrow> stocked b c \<Longrightarrow> stocked a c"
  unfolding stocked_def by (elim conjE, intro conjI) (erule (1) kept_trans)+

lemma singles_empty [simp]: "singles empty_world"
  by (simp add: singles_def single_def empty_world_def)

section \<open>Passes\<close>

definition seeds :: "(world \<Rightarrow> bool) \<Rightarrow> (world \<Rightarrow> bool) \<Rightarrow> 'a svc \<Rightarrow> ('a \<Rightarrow> world \<Rightarrow> bool) \<Rightarrow> bool" where
  "seeds J A m Q \<longleftrightarrow>
     (\<forall>w. singles w \<longrightarrow> J w \<longrightarrow> A w \<longrightarrow> (\<exists>x v. m w = (Inr x, v) \<and> singles v \<and> J v \<and> stocked w v
        \<and> (\<forall>u. stocked v u \<longrightarrow> m u = (Inr x, u) \<and> Q x u)))"

text \<open>Conditions that a pass cannot take back.\<close>

definition lasting :: "(world \<Rightarrow> bool) \<Rightarrow> bool" where
  "lasting A \<longleftrightarrow> (\<forall>w v. A w \<longrightarrow> stocked w v \<longrightarrow> A v)"

lemma lasting_True [simp]: "lasting (\<lambda>_. True)"
  by (simp add: lasting_def)

lemma lasting_conj: "lasting A \<Longrightarrow> lasting B \<Longrightarrow> lasting (\<lambda>w. A w \<and> B w)"
  unfolding lasting_def by blast

lemma lastingD: "lasting A \<Longrightarrow> A w \<Longrightarrow> stocked w v \<Longrightarrow> A v"
  unfolding lasting_def by blast

lemma lasting_list:
  assumes "\<And>x y. lasting (Q x y)"
  shows "lasting (\<lambda>w. list_all2 (\<lambda>x y. Q x y w) xs ys)"
  unfolding lasting_def
proof (intro allI impI)
  fix w v assume "list_all2 (\<lambda>x y. Q x y w) xs ys" "stocked w v"
  then show "list_all2 (\<lambda>x y. Q x y v) xs ys"
    by (elim list_all2_mono) (rule lastingD [OF assms])
qed

lemma list_all2_left: "list_all2 (\<lambda>x y. P x) xs ys \<Longrightarrow> \<forall>x \<in> set xs. P x"
  by (auto simp: list_all2_conv_all_nth in_set_conv_nth)

lemma seedsE:
  assumes "seeds J A m Q" and "singles w" and "J w" and "A w"
  obtains x v where "m w = (Inr x, v)" "singles v" "J v" "stocked w v"
    "\<And>u. stocked v u \<Longrightarrow> m u = (Inr x, u)" "\<And>u. stocked v u \<Longrightarrow> Q x u"
  using assms unfolding seeds_def by metis

lemma seeds_ret: "(\<And>w. A w \<Longrightarrow> Q x w) \<Longrightarrow> lasting A \<Longrightarrow> seeds J A (ret x) Q"
  unfolding seeds_def ret_def lasting_def by (metis stocked_refl)

lemma seeds_bind:
  assumes m: "seeds J A m Q" and A: "lasting A" and f: "\<And>x. seeds J (\<lambda>w. A w \<and> Q x w) (f x) (S x)"
  shows "seeds J A (bindM m f) (\<lambda>y u. \<exists>x. Q x u \<and> S x y u)"
  unfolding seeds_def
proof (intro allI impI)
  fix w assume w: "singles w" "J w" "A w"
  from m this obtain x w1 where x: "m w = (Inr x, w1)" "singles w1" "J w1" "stocked w w1"
    "\<And>u. stocked w1 u \<Longrightarrow> m u = (Inr x, u)" "\<And>u. stocked w1 u \<Longrightarrow> Q x u" by (erule seedsE)
  have "A w1 \<and> Q x w1" using A w(3) x(4,6) by (auto simp: lasting_def)
  from f x(2,3) this obtain y v where y: "f x w1 = (Inr y, v)" "singles v" "J v" "stocked w1 v"
    "\<And>u. stocked v u \<Longrightarrow> f x u = (Inr y, u)" "\<And>u. stocked v u \<Longrightarrow> S x y u" by (erule seedsE)
  have later: "bindM m f u = (Inr y, u) \<and> Q x u \<and> S x y u" if "stocked v u" for u
    using x(5,6) [OF stocked_trans [OF y(4) that]] y(5,6) [OF that] by (simp add: bindM_def)
  have "bindM m f w = (Inr y, v)" using x(1) y(1) by (simp add: bindM_def)
  then show "\<exists>y v. bindM m f w = (Inr y, v) \<and> singles v \<and> J v \<and> stocked w v
      \<and> (\<forall>u. stocked v u \<longrightarrow> bindM m f u = (Inr y, u) \<and> (\<exists>x. Q x u \<and> S x y u))"
    using y(2,3) stocked_trans [OF x(4) y(4)] later by blast
qed

lemma seeds_mono:
  "seeds J B m Q \<Longrightarrow> (\<And>w. A w \<Longrightarrow> B w) \<Longrightarrow> (\<And>x u. Q x u \<Longrightarrow> S x u) \<Longrightarrow> seeds J A m S"
  unfolding seeds_def by meson

text \<open>What was there stays there.\<close>

lemma seeds_keep: "seeds J A m Q \<Longrightarrow> lasting A \<Longrightarrow> seeds J A m (\<lambda>x w. A w \<and> Q x w)"
  unfolding seeds_def lasting_def by (meson stocked_trans)

text \<open>The rule for a step whose successor needs only what it promises.\<close>

lemma seeds_then:
  assumes "seeds J A m Q" and "lasting A" and "\<And>x. seeds J (\<lambda>w. A w \<and> Q x w) (f x) S"
  shows "seeds J A (bindM m f) S"
  by (rule seeds_mono [OF seeds_bind [OF assms(1,2), of f "\<lambda>_. S"]]) (use assms(3) in auto)

lemma seeds_never: "(\<And>w. \<not> A w) \<Longrightarrow> seeds J A m Q"
  by (simp add: seeds_def)

lemma seeds_atomic: "seeds J A m Q \<Longrightarrow> seeds J A (atomic m) Q"
  unfolding seeds_def atomic_def by (fastforce split: prod.split sum.split)

lemma seeds_foreach:
  assumes "lasting A" and "\<And>x. x \<in> set xs \<Longrightarrow> seeds J A (f x) (\<lambda>_. Q x)"
  shows "seeds J A (foreach xs f) (\<lambda>_ u. \<forall>x \<in> set xs. Q x u)"
  using assms(2)
proof (induction xs)
  case (Cons x xs)
  have x: "seeds J A (f x) (\<lambda>_. Q x)" using Cons.prems by simp
  have "seeds J A (foreach xs f) (\<lambda>_ u. \<forall>y \<in> set xs. Q y u)" using Cons by simp
  then have xs: "seeds J (\<lambda>w. A w \<and> Q x w) (foreach xs f) (\<lambda>_ u. \<forall>y \<in> set xs. Q y u)"
    by (rule seeds_mono) auto
  show ?case by (simp, rule seeds_mono [OF seeds_bind [OF x assms(1) xs]]) auto
qed (auto intro: seeds_ret simp: assms(1))

lemma seeds_gather:
  assumes A: "lasting A" and Q: "\<And>x y. lasting (Q x y)" and f: "\<And>x. x \<in> set xs \<Longrightarrow> seeds J A (f x) (Q x)"
  shows "seeds J A (gather xs f) (\<lambda>ys u. list_all2 (\<lambda>x y. Q x y u) xs ys)"
  using f
proof (induction xs)
  case (Cons x xs)
  let ?R = "\<lambda>ys u. list_all2 (\<lambda>x y. Q x y u) xs ys"
  have x: "seeds J A (f x) (Q x)" using Cons.prems by simp
  have "seeds J A (gather xs f) ?R" using Cons by simp
  then have xs: "seeds J (\<lambda>w. A w \<and> Q x y w) (gather xs f) ?R" for y
    by (rule seeds_mono) auto
  have lst: "lasting (\<lambda>w. A w \<and> Q x y w)" for y by (rule lasting_conj [OF A Q])
  have last: "seeds J (\<lambda>w. (A w \<and> Q x y w) \<and> ?R ys w) (ret (y # ys))
      (\<lambda>ys u. list_all2 (\<lambda>x y. Q x y u) (x # xs) ys)" for y ys
    by (rule seeds_ret [OF _ lasting_conj [OF lst lasting_list [OF Q]]]) simp
  show ?case
    by (simp, rule seeds_then [OF x A], rule seeds_then [OF xs lst], rule last)
qed (auto intro: seeds_ret simp: A)

text \<open>The lookup of \<open>k\<close> finds the one row \<open>r\<close>.\<close>

definition found :: "(world \<Rightarrow> 'r list) \<Rightarrow> ('r \<Rightarrow> 'k option) \<Rightarrow> 'k \<Rightarrow> 'r \<Rightarrow> world \<Rightarrow> bool" where
  "found rows ident k r w \<longleftrightarrow> filter (\<lambda>r. ident r = Some k) (rows w) = [r]"

lemma found_in: "found rows ident k r w \<Longrightarrow> r \<in> set (rows w) \<and> ident r = Some k"
  unfolding found_def by (drule arg_cong [of _ _ set]) auto

text \<open>
  A table that is seeded: its UNIQUE constraint, if any, never rejects a row whose natural key is
  new. What the lookup then finds, it finds for good.
\<close>

locale seed_table =
  fixes rows :: "world \<Rightarrow> 'r list"
    and upd :: "('r list \<Rightarrow> 'r list) \<Rightarrow> world \<Rightarrow> world"
    and clash :: "'r \<Rightarrow> 'r \<Rightarrow> bool"
    and ident :: "'r \<Rightarrow> 'k option"
  assumes rows_upd: "rows (upd f w) = f (rows w)"
    and rows_uuids: "rows (w\<lparr>uuids := n\<rparr>) = rows w"
    and clash_ident: "clash r' r \<Longrightarrow> ident r = Some k \<Longrightarrow> ident r' = Some k"
    and singles_single: "singles w \<Longrightarrow> single ident (rows w)"
    and singles_upd: "singles w \<Longrightarrow> single ident (f (rows w)) \<Longrightarrow> singles (upd f (w\<lparr>uuids := n\<rparr>))"
    and stocked_upd: "kept ident (rows w) (f (rows w)) \<Longrightarrow> stocked w (upd f (w\<lparr>uuids := n\<rparr>))"
    and stocked_kept: "stocked w v \<Longrightarrow> kept ident (rows w) (rows v)"
begin

lemma kept_insert:
  "filter (\<lambda>r. ident r = Some k) rs = [] \<Longrightarrow> ident x = Some k \<Longrightarrow> kept ident rs (rs @ [x])"
  by (auto simp: kept_def)

lemma lasting_found: "lasting (found rows ident k r)"
  unfolding lasting_def
proof (intro allI impI)
  fix w v assume "found rows ident k r w" and "stocked w v"
  then show "found rows ident k r v" using stocked_kept [of w v] by (simp add: found_def kept_def)
qed

lemma ensure_seeds:
  assumes P: "\<And>r. P r = (ident r = Some k)" and mk: "\<And>pk now. ident (mk pk now) = Some k"
    and J: "\<And>w. J w \<Longrightarrow> A w \<Longrightarrow> filter (\<lambda>r. ident r = Some k) (rows w) = [] \<Longrightarrow>
      J (upd (\<lambda>rs. rs @ [mk (uuid (uuids w)) (clock w)]) (w\<lparr>uuids := Suc (uuids w)\<rparr>))"
  shows "seeds J A (ensure rows P (insert_unique rows upd clash n) mk) (found rows ident k)"
  unfolding seeds_def
proof (intro allI impI)
  let ?m = "ensure rows P (insert_unique rows upd clash n) mk"
  have P': "P = (\<lambda>r. ident r = Some k)" by (rule ext) (rule P)
  have stable: "?m u = (Inr r, u) \<and> found rows ident k r u" if "found rows ident k r v" "stocked v u" for r u v
    using that stocked_kept [OF that(2)]
    by (simp add: found_def kept_def ensure_def P' comp scalar_one_or_none_def)
  fix w assume w: "singles w" and Jw: "J w" and Aw: "A w"
  show "\<exists>r v. ?m w = (Inr r, v) \<and> singles v \<and> J v \<and> stocked w v
      \<and> (\<forall>u. stocked v u \<longrightarrow> ?m u = (Inr r, u) \<and> found rows ident k r u)"
  proof (cases "\<exists>r. filter (\<lambda>r. ident r = Some k) (rows w) = [r]")
    case True
    then obtain r where r: "found rows ident k r w" by (auto simp: found_def)
    then have "?m w = (Inr r, w)" using stable [OF r stocked_refl] by simp
    then show ?thesis using w Jw stable [OF r] by (meson stocked_refl)
  next
    case False
    then have none: "filter (\<lambda>r. ident r = Some k) (rows w) = []"
      using single_filter [OF singles_single [OF w]] by metis
    let ?r = "mk (uuid (uuids w)) (clock w)"
    let ?v = "upd (\<lambda>rs. rs @ [?r]) (w\<lparr>uuids := Suc (uuids w)\<rparr>)"
    have "\<not> list_ex (\<lambda>r'. clash r' ?r) (rows w)"
      using none clash_ident [OF _ mk] by (auto simp: list_ex_iff filter_empty_conv)
    then have run: "?m w = (Inr ?r, ?v)"
      using none by (simp add: ensure_def P' comp scalar_one_or_none_def new_id_def insert_unique_def rows_uuids)
    have "singles ?v" by (rule singles_upd [OF w]) (rule single_append [OF singles_single [OF w] none mk])
    moreover have "stocked w ?v" by (rule stocked_upd) (rule kept_insert [OF none mk])
    moreover have "found rows ident k ?r ?v" using none by (simp add: found_def rows_upd rows_uuids mk)
    moreover have "J ?v" by (rule J [OF Jw Aw none])
    ultimately show ?thesis using run stable by blast
  qed
qed

end

end
