(* ===== verification/PolicyVersion.thy ===== *)
theory PolicyVersion
  imports Seeding Samples
begin

text \<open>
  services/policy_version_service.py: the registry of policy versions. A version is a draft, active
  or superseded; activating one supersedes the others of its tenant and name; a rollback activates
  an earlier version; the system default is ensured at every start.
\<close>

definition DEFAULT_POLICY_NAME :: string where
  "DEFAULT_POLICY_NAME = ''ai_vendor_governance''"

definition get_version :: "string \<Rightarrow> string option \<Rightarrow> world \<Rightarrow> policy option" where
  "get_version version_id t w = scoped_row policy_tenant t (get_row policies policy_pk version_id w)"

definition list_versions :: "string option \<Rightarrow> string option \<Rightarrow> world \<Rightarrow> policy list" where
  "list_versions t name w =
     order_desc policy_created_at
       (filter (\<lambda>p. in_tenant policy_tenant t p \<and> opt_filter policy_name name p) (policies w))"

definition is_version_of :: "string option \<Rightarrow> string \<Rightarrow> policy \<Rightarrow> bool" where
  "is_version_of t name p \<longleftrightarrow> policy_name p = name \<and> policy_tenant p = t"

definition active_versions :: "string option \<Rightarrow> string \<Rightarrow> world \<Rightarrow> policy list" where
  "active_versions t name w = filter (\<lambda>p. is_version_of t name p \<and> policy_status p = ''active'') (policies w)"

definition get_active :: "string option \<Rightarrow> string \<Rightarrow> world \<Rightarrow> policy option" where
  "get_active t name w =
     (case active_versions t name w of
        p # _ \<Rightarrow> Some p
      | [] \<Rightarrow> if t \<noteq> None then first_row (active_versions None name w) else None)"

definition same_policy :: "policy \<Rightarrow> policy \<Rightarrow> bool" where
  "same_policy a b \<longleftrightarrow> sql_eq (policy_tenant a) (policy_tenant b) \<and> policy_name a = policy_name b
     \<and> policy_version a = policy_version b"

definition policy_audit :: "string \<Rightarrow> policy \<Rightarrow> string option \<Rightarrow> dict \<Rightarrow> audit_args" where
  "policy_audit action p actor extra =
     (audit_call action ''policy_version'' (policy_pk p))
       \<lparr>arg_tenant := policy_tenant p, arg_actor := actor,
        arg_metadata := [(''name'', JStr (policy_name p)), (''version'', JStr (policy_version p))] @ extra\<rparr>"

definition create_version ::
  "env \<Rightarrow> string option \<Rightarrow> string \<Rightarrow> string \<Rightarrow> dict option \<Rightarrow> string option \<Rightarrow> string option \<Rightarrow> policy svc" where
  "create_version E t name version rules created_by change_reason =
     bindM new_id (\<lambda>pk. bindM (gets clock) (\<lambda>now.
       let row = \<lparr>policy_pk = pk, policy_tenant = t, policy_name = name, policy_version = version,
                  policy_rules = (if rules = None \<or> rules = Some [] then None else rules),
                  policy_is_active = False, policy_status = ''draft'', policy_effective_from = None,
                  policy_effective_to = None, policy_created_by = created_by, policy_approved_by = None,
                  policy_change_reason = change_reason, policy_created_at = now\<rparr> in
       bindM (insert_unique policies policies_update same_policy ''uq_policy_tenant_name_version'' row) (\<lambda>_.
       bindM (audit_record E (policy_audit ''policy.version.created'' row created_by [])) (\<lambda>_. ret row))))"

text \<open>What activation does to the other active versions, and to the version itself.\<close>

definition supersede :: "time \<Rightarrow> policy \<Rightarrow> policy" where
  "supersede now p = p\<lparr>policy_status := ''superseded'', policy_is_active := False, policy_effective_to := Some now\<rparr>"

definition make_active :: "time \<Rightarrow> string option \<Rightarrow> policy \<Rightarrow> policy" where
  "make_active now approved_by p =
     p\<lparr>policy_status := ''active'', policy_is_active := True, policy_effective_from := Some now,
       policy_effective_to := None,
       policy_approved_by := (case approved_by of None \<Rightarrow> policy_approved_by p
                              | Some u \<Rightarrow> if u = [] then policy_approved_by p else Some u)\<rparr>"

definition activate :: "env \<Rightarrow> string \<Rightarrow> string option \<Rightarrow> string option \<Rightarrow> policy svc" where
  "activate E version_id approved_by t =
     bindM (gets (get_version version_id t)) (\<lambda>found.
     case found of
       None \<Rightarrow> raise (ValueError ''policy_version_not_found'')
     | Some pol \<Rightarrow>
         bindM (gets clock) (\<lambda>now.
         bindM (gets (active_versions (policy_tenant pol) (policy_name pol))) (\<lambda>others.
         bindM (foreach others (\<lambda>other.
                  if policy_pk other \<noteq> policy_pk pol
                  then update_row policies_update policy_pk (policy_pk other) (supersede now) else ret ())) (\<lambda>_.
         bindM (update_row policies_update policy_pk (policy_pk pol) (make_active now approved_by)) (\<lambda>_.
         let activated = make_active now approved_by pol in
         bindM (audit_record E (policy_audit ''policy.version.activated'' activated approved_by []))
           (\<lambda>_. ret activated))))))"

definition rollback_to :: "env \<Rightarrow> string \<Rightarrow> string option \<Rightarrow> string option \<Rightarrow> string option \<Rightarrow> policy svc" where
  "rollback_to E version_id approved_by change_reason t =
     bindM (gets (get_version version_id t)) (\<lambda>found.
     case found of
       None \<Rightarrow> raise (ValueError ''policy_version_not_found'')
     | Some pol \<Rightarrow>
         bindM (activate E version_id approved_by t) (\<lambda>activated.
         bindM (audit_record E (policy_audit ''policy.version.rolled_back'' activated approved_by
                  [(''change_reason'', jopt change_reason), (''mode'', JStr ''activate_previous'')]))
           (\<lambda>_. ret activated)))"

definition reactivate :: "time \<Rightarrow> policy \<Rightarrow> policy" where
  "reactivate now p =
     p\<lparr>policy_status := ''active'', policy_is_active := True,
       policy_effective_from := (case policy_effective_from p of None \<Rightarrow> Some now | Some x \<Rightarrow> Some x)\<rparr>"

definition seed_default_policy :: "policy svc" where
  "seed_default_policy =
     bindM (gets (\<lambda>w. filter (\<lambda>p. is_version_of None DEFAULT_POLICY_NAME p \<and> policy_version p = ''v1'') (policies w))) (\<lambda>found.
     bindM (lift (scalar_one_or_none found)) (\<lambda>row.
     bindM (gets clock) (\<lambda>now.
     case row of
       Some existing \<Rightarrow>
         if policy_status existing \<noteq> ''active'' then
           bindM (update_row policies_update policy_pk (policy_pk existing) (reactivate now))
             (\<lambda>_. ret (reactivate now existing))
         else ret existing
     | None \<Rightarrow>
         bindM new_id (\<lambda>pk.
         let row = \<lparr>policy_pk = pk, policy_tenant = None, policy_name = DEFAULT_POLICY_NAME,
                    policy_version = ''v1'', policy_rules = None, policy_is_active = True,
                    policy_status = ''active'', policy_effective_from = Some now, policy_effective_to = None,
                    policy_created_by = None, policy_approved_by = None,
                    policy_change_reason = Some ''Initial system default policy version.'',
                    policy_created_at = now\<rparr> in
         bindM (insert_unique policies policies_update same_policy ''uq_policy_tenant_name_version'' row)
           (\<lambda>_. ret row)))))"

section \<open>Interfaces and footprints\<close>

interpretation policies_tbl: world_table policies policies_update policy_pk
  by unfold_locales simp_all

interpretation version_fetch: scoped_fetch policies policy_pk policy_tenant get_version
  by unfold_locales (simp add: get_version_def get_row_def)

interpretation version_query: scoped_query policies policy_tenant
  "\<lambda>name p. opt_filter policy_name name p" "\<lambda>_. order_desc policy_created_at" "\<lambda>name t w. list_versions t name w"
  by unfold_locales (simp_all add: list_versions_def)

lemma create_version_evo [evo]:
  "{TPolicies, TAudit} \<subseteq> S \<Longrightarrow> evolves (only S) (create_version E t n v r b c)"
  "evolves (forward E) (create_version E t n v r b c)"
  unfolding create_version_def by (intro evo; simp?)+

lemma activate_evo [evo]:
  "{TPolicies, TAudit} \<subseteq> S \<Longrightarrow> evolves (only S) (activate E vid b t)"
  "evolves (forward E) (activate E vid b t)"
  unfolding activate_def by (intro evo; simp?)+

lemma rollback_evo [evo]:
  "{TPolicies, TAudit} \<subseteq> S \<Longrightarrow> evolves (only S) (rollback_to E vid b c t)"
  "evolves (forward E) (rollback_to E vid b c t)"
  unfolding rollback_to_def by (intro evo; simp?)+

lemma seed_default_evo [evo]:
  "TPolicies \<in> S \<Longrightarrow> evolves (only S) seed_default_policy"
  "evolves (forward E) seed_default_policy"
  unfolding seed_default_policy_def by (intro evo; simp?)+

section \<open>One active version\<close>

lemma supersede_keys [simp]:
  "policy_pk (supersede now p) = policy_pk p" "policy_tenant (supersede now p) = policy_tenant p"
  "policy_name (supersede now p) = policy_name p" "policy_status (supersede now p) = ''superseded''"
  by (simp_all add: supersede_def)

lemma make_active_keys [simp]:
  "policy_pk (make_active now b p) = policy_pk p" "policy_tenant (make_active now b p) = policy_tenant p"
  "policy_name (make_active now b p) = policy_name p" "policy_status (make_active now b p) = ''active''"
  by (simp_all add: make_active_def)

lemma supersede_loop:
  assumes "distinct (map policy_pk os)"
  shows "foreach os (\<lambda>other. if policy_pk other \<noteq> k
           then update_row policies_update policy_pk (policy_pk other) (supersede now) else ret ()) w
     = (Inr (), policies_update (map (\<lambda>q. if policy_pk q \<in> policy_pk ` set os \<and> policy_pk q \<noteq> k
                                            then supersede now q else q)) w)"
  using assms
proof (induction os arbitrary: w)
  case Nil
  then show ?case by (simp add: ret_def)
next
  case (Cons a os)
  have map_eq: "map (\<lambda>q. if policy_pk q \<in> policy_pk ` set os \<and> policy_pk q \<noteq> k then supersede now q else q)
      (if policy_pk a \<noteq> k then tupd policy_pk (policy_pk a) (supersede now) ps else ps)
    = map (\<lambda>q. if policy_pk q \<in> policy_pk ` set (a # os) \<and> policy_pk q \<noteq> k then supersede now q else q) ps" for ps
    using Cons.prems by (induction ps) (auto simp: tupd_def)
  show ?case
    using Cons.IH Cons.prems map_eq
    by (cases "policy_pk a = k") (simp_all add: update_row_def comp fun_eq_iff)
qed

definition activated :: "policy \<Rightarrow> time \<Rightarrow> string option \<Rightarrow> policy list \<Rightarrow> policy list" where
  "activated pol now by ps = map (\<lambda>q.
     if policy_pk q = policy_pk pol then make_active now by q
     else if is_version_of (policy_tenant pol) (policy_name pol) q \<and> policy_status q = ''active'' then supersede now q
     else q) ps"

lemma activate_run:
  assumes chain: "chain_ok E (audit_events w)" and keys: "distinct (map policy_pk (policies w))"
  shows "activate E vid by t w =
    (case get_version vid t w of
       None \<Rightarrow> (Inl (ValueError ''policy_version_not_found''), w)
     | Some pol \<Rightarrow> (Inr (make_active (clock w) by pol),
         audited E (policy_audit ''policy.version.activated'' (make_active (clock w) by pol) by [])
           (w\<lparr>policies := activated pol (clock w) by (policies w)\<rparr>)))"
proof (cases "get_version vid t w")
  case None
  then show ?thesis by (simp add: activate_def raise_def)
next
  case (Some pol)
  let ?os = "active_versions (policy_tenant pol) (policy_name pol) w"
  have d: "distinct (map policy_pk ?os)"
    using keys by (simp add: active_versions_def distinct_map_filter)
  have mem: "policy_pk q \<in> policy_pk ` set ?os \<longleftrightarrow>
      is_version_of (policy_tenant pol) (policy_name pol) q \<and> policy_status q = ''active''"
    if "q \<in> set (policies w)" for q
    using that keys by (auto simp: active_versions_def dest: distinct_key_unique)
  have ps: "tupd policy_pk (policy_pk pol) (make_active (clock w) by)
      (map (\<lambda>q. if policy_pk q \<in> policy_pk ` set ?os \<and> policy_pk q \<noteq> policy_pk pol then supersede (clock w) q else q)
        (policies w)) = activated pol (clock w) by (policies w)"
    using mem by (auto simp: tupd_def activated_def)
  have "policies_update (tupd policy_pk (policy_pk pol) (make_active (clock w) by) \<circ>
      map (\<lambda>q. if policy_pk q \<in> policy_pk ` set ?os \<and> policy_pk q \<noteq> policy_pk pol then supersede (clock w) q else q)) w
    = w\<lparr>policies := activated pol (clock w) by (policies w)\<rparr>"
    using ps by (cases w) simp
  moreover have "chain_ok E (audit_events (w\<lparr>policies := ps\<rparr>))" for ps using chain by simp
  ultimately show ?thesis
    using Some
    by (simp add: activate_def supersede_loop [OF d] bindM_def gets_def update_row_def modify_def Let_def
        audit_record_audited ret_def)
qed

lemma filter_map_same:
  assumes "\<And>q. q \<in> set qs \<Longrightarrow> P (f q) = P q \<and> (P q \<longrightarrow> f q = q)"
  shows "filter P (map f qs) = filter P qs"
  using assms by (induction qs) auto

lemma activated_active:
  assumes keys: "distinct (map policy_pk ps)" and pol: "pol \<in> set ps"
  shows "filter (\<lambda>p. is_version_of (policy_tenant pol) (policy_name pol) p \<and> policy_status p = ''active'')
      (activated pol now by ps) = [make_active now by pol]"
  using assms
proof (induction ps)
  case (Cons p ps)
  have others: "filter (\<lambda>p. is_version_of (policy_tenant pol) (policy_name pol) p \<and> policy_status p = ''active'')
      (activated pol now by ps) = []" if "policy_pk pol \<notin> policy_pk ` set ps"
    using that by (auto simp: activated_def filter_empty_conv is_version_of_def split: if_splits) (metis image_eqI)
  show ?case
  proof (cases "pol = p")
    case True
    then show ?thesis using others Cons.prems by (simp add: activated_def is_version_of_def)
  next
    case False
    then have "pol \<in> set ps" "policy_pk p \<noteq> policy_pk pol" using Cons.prems by auto
    then show ?thesis using Cons by (simp add: activated_def is_version_of_def)
  qed
qed simp

lemma reactivate_keys [simp]:
  "policy_pk (reactivate now p) = policy_pk p" "policy_tenant (reactivate now p) = policy_tenant p"
  "policy_name (reactivate now p) = policy_name p" "policy_status (reactivate now p) = ''active''"
  by (simp_all add: reactivate_def)

text \<open>At most one version of a tenant and name is active.\<close>

definition one_active :: "world \<Rightarrow> bool" where
  "one_active w \<longleftrightarrow> (\<forall>t n. length (active_versions t n w) \<le> 1)"

section \<open>Properties\<close>

text \<open>C29: activation moves the one active pointer. It fails with \<open>policy_version_not_found\<close> exactly when
  the version does not exist for the caller; otherwise the version becomes the only active one of its
  tenant and name, the version that was active until then is marked superseded, no longer active and
  ended now, every other version is untouched, the identity and rules of every version stay, at most
  one version per tenant and name stays active, and no governed action is rebound.\<close>

theorem activate_supersedes:
  assumes good: "good E w" and keys: "drawn policies policy_pk w" and one: "one_active w"
  shows "case activate E vid by t w of
      (Inl e, v) \<Rightarrow> e = ValueError ''policy_version_not_found'' \<and> v = w \<and> get_version vid t w = None
    | (Inr pol, v) \<Rightarrow> policy_pk pol = vid \<and> active_versions (policy_tenant pol) (policy_name pol) v = [pol]
        \<and> get_active (policy_tenant pol) (policy_name pol) v = Some pol
        \<and> policy_is_active pol
        \<and> list_all2 (\<lambda>q q'. q' = (if policy_pk q = vid then pol
              else if is_version_of (policy_tenant pol) (policy_name pol) q \<and> policy_status q = ''active''
              then q\<lparr>policy_status := ''superseded'', policy_is_active := False, policy_effective_to := Some (clock w)\<rparr>
              else q)) (policies w) (policies v)
        \<and> map (\<lambda>q. (policy_pk q, policy_tenant q, policy_name q, policy_version q, policy_rules q)) (policies v)
            = map (\<lambda>q. (policy_pk q, policy_tenant q, policy_name q, policy_version q, policy_rules q)) (policies w)
        \<and> one_active v \<and> governed_actions v = governed_actions w"
proof (cases "get_version vid t w")
  case None
  then show ?thesis using goodD(1) [OF good] keys by (simp add: activate_run drawn_def)
next
  case (Some p)
  have d: "distinct (map policy_pk (policies w))" using keys by (simp add: drawn_def)
  have p: "p \<in> set (policies w)" "policy_pk p = vid" using version_fetch.fetch_SomeD [OF Some] by auto
  let ?pol = "make_active (clock w) by p" and ?ps = "activated p (clock w) by (policies w)"
  let ?v = "audited E (policy_audit ''policy.version.activated'' ?pol by []) (w\<lparr>policies := ?ps\<rparr>)"
  have run: "activate E vid by t w = (Inr ?pol, ?v)"
    using goodD(1) [OF good] d Some by (simp add: activate_run)
  have act: "active_versions (policy_tenant p) (policy_name p) ?v = [?pol]"
    by (simp add: active_versions_def activated_active [OF d p(1)])
  have same: "policy_pk q = policy_pk p \<Longrightarrow> q = p" if "q \<in> set (policies w)" for q
    using distinct_key_unique [OF d that p(1)] .
  have fields: "policy_pk ?pol = policy_pk p" "policy_tenant ?pol = policy_tenant p" "policy_name ?pol = policy_name p"
    "policy_is_active ?pol" by (simp_all add: make_active_def)
  have others: "list_all2 (\<lambda>q q'. q' = (if policy_pk q = vid then ?pol
        else if is_version_of (policy_tenant ?pol) (policy_name ?pol) q \<and> policy_status q = ''active''
        then q\<lparr>policy_status := ''superseded'', policy_is_active := False, policy_effective_to := Some (clock w)\<rparr>
        else q)) (policies w) ?ps"
    unfolding fields using same p(2) by (auto simp: activated_def supersede_def list_all2_map2 list_all2_same)
  have ident: "map (\<lambda>q. (policy_pk q, policy_tenant q, policy_name q, policy_version q, policy_rules q)) ?ps
      = map (\<lambda>q. (policy_pk q, policy_tenant q, policy_name q, policy_version q, policy_rules q)) (policies w)"
    by (simp add: activated_def make_active_def supersede_def)
  have "length (active_versions t' n ?v) \<le> 1" for t' n
  proof (cases "t' = policy_tenant p \<and> n = policy_name p")
    case True
    then show ?thesis using act by simp
  next
    case False
    have "active_versions t' n ?v = active_versions t' n w"
      unfolding active_versions_def activated_def audited_frame
      by simp (rule filter_map_same, use False in \<open>auto simp: is_version_of_def dest: same\<close>)
    then show ?thesis using one by (simp add: one_active_def)
  qed
  then show ?thesis
    using run act others ident p(2) fields by (simp add: get_active_def one_active_def)
qed

definition sample_policy :: "string \<Rightarrow> string \<Rightarrow> string \<Rightarrow> policy" where
  "sample_policy pk version status = \<lparr>policy_pk = pk, policy_tenant = None, policy_name = DEFAULT_POLICY_NAME,
     policy_version = version, policy_rules = None, policy_is_active = (status = ''active''), policy_status = status,
     policy_effective_from = Some 0, policy_effective_to = None, policy_created_by = None,
     policy_approved_by = None, policy_change_reason = None, policy_created_at = 0\<rparr>"

definition sample_registry :: "string \<Rightarrow> string \<Rightarrow> world" where
  "sample_registry s1 s2 = empty_world\<lparr>uuids := 4,
     policies := [sample_policy (uuid 2) ''v1'' s1, sample_policy (uuid 3) ''v2'' s2]\<rparr>"

lemma sample_registry_ok:
  "good E (sample_registry s1 s2)" "drawn policies policy_pk (sample_registry s1 s2)"
  by (auto simp: sample_registry_def good_def drawn_def keys_unique_def sample_policy_def empty_world_def chain_ok_def chain_rows_def)

theorem activate_supersedes_witness:
  "\<exists>pol v. activate sample_env (uuid 3) (Some ''u'') None (sample_registry ''active'' ''draft'') = (Inr pol, v)
     \<and> active_versions None DEFAULT_POLICY_NAME v = [pol] \<and> policy_version pol = ''v2''"
proof -
  let ?w = "sample_registry ''active'' ''draft''"
  have one: "one_active ?w"
    by (auto simp: one_active_def active_versions_def sample_registry_def sample_policy_def)
  have run: "\<exists>v. activate sample_env (uuid 3) (Some ''u'') None ?w
      = (Inr (make_active 0 (Some ''u'') (sample_policy (uuid 3) ''v2'' ''draft'')), v)"
    using goodD(1) [OF sample_registry_ok(1)] sample_registry_ok(2) [of "''active''" "''draft''"]
    by (simp add: activate_run drawn_def get_version_def get_row_def)
      (simp add: sample_registry_def sample_policy_def scoped_row_def empty_world_def)
  then obtain v where v: "activate sample_env (uuid 3) (Some ''u'') None ?w
      = (Inr (make_active 0 (Some ''u'') (sample_policy (uuid 3) ''v2'' ''draft'')), v)" by blast
  show ?thesis
    using activate_supersedes [of sample_env ?w "uuid 3" None "Some ''u''", OF sample_registry_ok one] v
    by (simp add: sample_policy_def make_active_def)
qed



text \<open>C40: the start-up seeding undoes an activation. When the system default v1 was superseded by
  another version, running \<open>seed_default_policy\<close> (as every start does) makes v1 active again without
  superseding the other: two versions are active, and the one that binds new actions is the earlier
  row of the registry.\<close>

theorem seed_default_doubles:
  assumes v1: "filter (\<lambda>p. is_version_of None DEFAULT_POLICY_NAME p \<and> policy_version p = ''v1'') (policies w) = [p1]"
    and off: "policy_status p1 \<noteq> ''active''"
    and active: "active_versions None DEFAULT_POLICY_NAME w = [p2]"
    and keys: "distinct (map policy_pk (policies w))"
  shows "length (active_versions None DEFAULT_POLICY_NAME (after seed_default_policy w)) = 2
     \<and> one_active (after seed_default_policy w) = False"
proof -
  let ?P = "\<lambda>p. is_version_of None DEFAULT_POLICY_NAME p \<and> policy_status p = ''active''"
  have p1: "p1 \<in> set (policies w)" "is_version_of None DEFAULT_POLICY_NAME p1"
    using arg_cong [OF v1, of set] by auto
  have upd: "length (filter ?P (tupd policy_pk (policy_pk p1) (reactivate now) ps)) = Suc (length (filter ?P ps))"
    if "distinct (map policy_pk ps)" "p1 \<in> set ps" for now ps
    using that
  proof (induction ps)
    case (Cons p ps)
    have skip: "tupd policy_pk (policy_pk p1) (reactivate now) ps = ps" if "p1 = p"
      using Cons.prems that by (auto simp: tupd_def intro!: map_idI) (metis image_eqI)
    show ?case
    proof (cases "p1 = p")
      case True
      then have "tupd policy_pk (policy_pk p1) (reactivate now) (p # ps) = reactivate now p # ps"
        using skip by (simp add: tupd_def)
      then show ?thesis using True off p1(2) by (simp add: is_version_of_def)
    next
      case False
      then have "p1 \<in> set ps" "policy_pk p \<noteq> policy_pk p1" using Cons.prems by auto
      then show ?thesis using Cons by (simp add: tupd_def)
    qed
  qed simp
  have "after seed_default_policy w = policies_update (tupd policy_pk (policy_pk p1) (reactivate (clock w))) w"
    using off by (simp add: seed_default_policy_def v1 comp scalar_one_or_none_def update_row_def)
  then have "length (active_versions None DEFAULT_POLICY_NAME (after seed_default_policy w)) = 2"
    using upd [OF keys p1(1), of "clock w"] active by (simp add: active_versions_def)
  moreover then have "one_active (after seed_default_policy w) = False"
    unfolding one_active_def by (metis numeral_le_one_iff semiring_norm(69))
  ultimately show ?thesis by blast
qed

theorem seed_default_doubles_witness:
  "map policy_version (active_versions None DEFAULT_POLICY_NAME (after seed_default_policy (sample_registry ''superseded'' ''active'')))
      = [''v1'', ''v2'']
   \<and> one_active (after seed_default_policy (sample_registry ''superseded'' ''active'')) = False"
proof -
  let ?w = "sample_registry ''superseded'' ''active''"
  note sample = sample_registry_def sample_policy_def is_version_of_def active_versions_def
  have v1: "filter (\<lambda>p. is_version_of None DEFAULT_POLICY_NAME p \<and> policy_version p = ''v1'') (policies ?w)
      = [sample_policy (uuid 2) ''v1'' ''superseded'']" by (simp add: sample)
  have off: "policy_status (sample_policy (uuid 2) ''v1'' ''superseded'') \<noteq> ''active''" by (simp add: sample)
  have act: "active_versions None DEFAULT_POLICY_NAME ?w = [sample_policy (uuid 3) ''v2'' ''active'']" by (simp add: sample)
  have keys: "distinct (map policy_pk (policies ?w))" by (simp add: sample)
  have "map policy_version (active_versions None DEFAULT_POLICY_NAME (after seed_default_policy ?w)) = [''v1'', ''v2'']"
    by (simp add: seed_default_policy_def v1 comp scalar_one_or_none_def update_row_def off)
      (simp add: sample tupd_def reactivate_def)
  then show ?thesis using seed_default_doubles [OF v1 off act keys] by blast
qed

end
