(* ===== verification/EvidenceGraph.thy ===== *)
theory EvidenceGraph
  imports PolicyVersion ApprovalService
begin

text \<open>
  services/evidence_graph.py: the nodes of the governance graph, their tenant-scoped creation and
  reads, and the assembly of everything connected to one governed action.
\<close>

text \<open>\<open>json.dumps(metadata) if metadata else None\<close>.\<close>

definition metadata_json :: "dict \<Rightarrow> dict option" where
  "metadata_json m = (if m \<noteq> [] then Some m else None)"

section \<open>Creation\<close>

definition same_ai_system :: "ai_system \<Rightarrow> ai_system \<Rightarrow> bool" where
  "same_ai_system a b \<longleftrightarrow> sql_eq (ais_tenant a) (ais_tenant b) \<and> ais_name a = ais_name b"

definition create_ai_system :: "string option \<Rightarrow> string \<Rightarrow> string option \<Rightarrow> string option \<Rightarrow> ai_system svc" where
  "create_ai_system t name description owner_user_id =
     bindM new_id (\<lambda>pk. bindM (gets clock) (\<lambda>now.
       let row = \<lparr>ais_pk = pk, ais_tenant = t, ais_name = name, ais_description = description,
                  ais_owner = owner_user_id, ais_created_at = now\<rparr>
       in bindM (insert_unique ai_systems ai_systems_update same_ai_system ''uq_ai_system_tenant_name'' row)
            (\<lambda>_. ret row)))"

definition same_data_source :: "data_source \<Rightarrow> data_source \<Rightarrow> bool" where
  "same_data_source a b \<longleftrightarrow> sql_eq (ds_tenant a) (ds_tenant b) \<and> ds_name a = ds_name b"

definition create_data_source :: "string option \<Rightarrow> string \<Rightarrow> string \<Rightarrow> dict \<Rightarrow> data_source svc" where
  "create_data_source t name source_type metadata =
     bindM new_id (\<lambda>pk. bindM (gets clock) (\<lambda>now.
       let row = \<lparr>ds_pk = pk, ds_tenant = t, ds_name = name, ds_source_type = source_type,
                  ds_metadata = metadata_json metadata, ds_created_at = now\<rparr>
       in bindM (insert_unique data_sources data_sources_update same_data_source ''uq_data_source_tenant_name'' row)
            (\<lambda>_. ret row)))"

definition same_workflow :: "workflow \<Rightarrow> workflow \<Rightarrow> bool" where
  "same_workflow a b \<longleftrightarrow> sql_eq (wf_tenant a) (wf_tenant b) \<and> wf_name a = wf_name b"

definition create_workflow :: "string option \<Rightarrow> string \<Rightarrow> string option \<Rightarrow> string option \<Rightarrow> workflow svc" where
  "create_workflow t name ai_system_id description =
     bindM new_id (\<lambda>pk. bindM (gets clock) (\<lambda>now.
       let row = \<lparr>wf_pk = pk, wf_tenant = t, wf_ai_system = ai_system_id, wf_name = name,
                  wf_description = description, wf_created_at = now\<rparr>
       in bindM (insert_unique workflows workflows_update same_workflow ''uq_workflow_tenant_name'' row)
            (\<lambda>_. ret row)))"

definition same_governed_action :: "governed_action \<Rightarrow> governed_action \<Rightarrow> bool" where
  "same_governed_action a b \<longleftrightarrow> sql_eq (ga_tenant a) (ga_tenant b) \<and> sql_eq (ga_source_job a) (ga_source_job b)"

text \<open>The keyword arguments of \<open>create_governed_action\<close> and their defaults.\<close>

record action_args =
  aa_tenant :: "string option"
  aa_action_type :: string
  aa_workflow :: "string option"
  aa_source_job :: "string option"
  aa_approval :: "string option"
  aa_execution_job :: "string option"
  aa_policy_version :: "string option"
  aa_policy_decision :: "string option"
  aa_policy_version_id :: "string option"
  aa_status :: string
  aa_metadata :: dict

definition action_call :: "string option \<Rightarrow> string \<Rightarrow> action_args" where
  "action_call t action_type =
     \<lparr>aa_tenant = t, aa_action_type = action_type, aa_workflow = None, aa_source_job = None, aa_approval = None,
      aa_execution_job = None, aa_policy_version = None, aa_policy_decision = None,
      aa_policy_version_id = None, aa_status = ''pending'', aa_metadata = []\<rparr>"

definition create_governed_action :: "action_args \<Rightarrow> governed_action svc" where
  "create_governed_action a =
     bindM new_id (\<lambda>pk. bindM (gets clock) (\<lambda>now.
       let row = \<lparr>ga_pk = pk, ga_tenant = aa_tenant a, ga_workflow = aa_workflow a,
                  ga_source_job = aa_source_job a, ga_approval = aa_approval a,
                  ga_execution_job = aa_execution_job a, ga_action_type = aa_action_type a,
                  ga_policy_version = aa_policy_version a, ga_policy_version_id = aa_policy_version_id a,
                  ga_policy_decision = aa_policy_decision a, ga_status = aa_status a,
                  ga_metadata = metadata_json (aa_metadata a), ga_created_at = now, ga_updated_at = now\<rparr>
       in bindM (insert_unique governed_actions governed_actions_update same_governed_action
                   ''uq_governed_action_tenant_job'' row) (\<lambda>_. ret row)))"

definition create_risk_assessment ::
  "string option \<Rightarrow> string \<Rightarrow> string option \<Rightarrow> string option \<Rightarrow> string option \<Rightarrow> dict \<Rightarrow> risk_assessment svc" where
  "create_risk_assessment t risk_level ai_system_id workflow_id summary metadata =
     bindM new_id (\<lambda>pk. bindM (gets clock) (\<lambda>now.
       let row = \<lparr>ra_pk = pk, ra_tenant = t, ra_ai_system = ai_system_id, ra_workflow = workflow_id,
                  ra_risk_level = risk_level, ra_summary = summary,
                  ra_metadata = metadata_json metadata, ra_created_at = now\<rparr>
       in bindM (insert_row risk_assessments_update row) (\<lambda>_. ret row)))"

definition record_evidence_artifact ::
  "string option \<Rightarrow> string \<Rightarrow> string option \<Rightarrow> string option \<Rightarrow> dict \<Rightarrow> artifact svc" where
  "record_evidence_artifact t artifact_type governed_action_id uri metadata =
     bindM new_id (\<lambda>pk. bindM (gets clock) (\<lambda>now.
       let row = \<lparr>art_pk = pk, art_tenant = t, art_action = governed_action_id, art_type = artifact_type,
                  art_uri = uri, art_metadata = metadata_json metadata, art_created_at = now\<rparr>
       in bindM (insert_row artifacts_update row) (\<lambda>_. ret row)))"

section \<open>Reads\<close>

definition list_ai_systems :: "string option \<Rightarrow> world \<Rightarrow> ai_system list" where
  "list_ai_systems t w = order_desc ais_created_at (filter (in_tenant ais_tenant t) (ai_systems w))"

definition get_ai_system :: "string \<Rightarrow> string option \<Rightarrow> world \<Rightarrow> ai_system option" where
  "get_ai_system k t w = scoped_row ais_tenant t (get_row ai_systems ais_pk k w)"

definition list_workflows :: "string option \<Rightarrow> string option \<Rightarrow> world \<Rightarrow> workflow list" where
  "list_workflows t ai_system_id w =
     order_desc wf_created_at (filter (\<lambda>r. in_tenant wf_tenant t r
       \<and> (ai_system_id = None \<or> wf_ai_system r = ai_system_id)) (workflows w))"

definition get_workflow :: "string \<Rightarrow> string option \<Rightarrow> world \<Rightarrow> workflow option" where
  "get_workflow k t w = scoped_row wf_tenant t (get_row workflows wf_pk k w)"

definition get_governed_action :: "string \<Rightarrow> string option \<Rightarrow> world \<Rightarrow> governed_action option" where
  "get_governed_action k t w = scoped_row ga_tenant t (get_row governed_actions ga_pk k w)"

definition list_governed_actions ::
  "string option \<Rightarrow> string option \<Rightarrow> time option \<Rightarrow> time option \<Rightarrow> world \<Rightarrow> governed_action list" where
  "list_governed_actions t workflow_id start_at end_at w =
     order_desc ga_created_at (filter (\<lambda>a. in_tenant ga_tenant t a
       \<and> (workflow_id = None \<or> ga_workflow a = workflow_id)
       \<and> (case start_at of None \<Rightarrow> True | Some s \<Rightarrow> s \<le> ga_created_at a)
       \<and> (case end_at of None \<Rightarrow> True | Some e \<Rightarrow> ga_created_at a \<le> e)) (governed_actions w))"

definition list_evidence_artifacts :: "string option \<Rightarrow> string option \<Rightarrow> world \<Rightarrow> artifact list" where
  "list_evidence_artifacts t governed_action_id w =
     order_desc art_created_at (filter (\<lambda>a. in_tenant art_tenant t a
       \<and> (governed_action_id = None \<or> art_action a = governed_action_id)) (artifacts w))"

section \<open>Graph assembly\<close>

record mapping_view =
  mv_control :: "control option"
  mv_framework :: "framework option"
  mv_regulation :: "regulation option"
  mv_rationale :: "string option"

record graph =
  g_action :: governed_action
  g_ai_system :: "ai_system option"
  g_workflow :: "workflow option"
  g_policy_version :: "string option"
  g_policy_decision :: "string option"
  g_approval :: "approval option"
  g_source_job :: "job option"
  g_execution_job :: "job option"
  g_audit_events :: "audit_event list"
  g_control_mappings :: "mapping_view list"
  g_artifacts :: "artifact list"
  g_overrides :: "override list"

text \<open>\<open>x if link else None\<close> over a nullable link column.\<close>

definition via :: "string option \<Rightarrow> (string \<Rightarrow> 'a option) \<Rightarrow> 'a option" where
  "via link get = (case link of None \<Rightarrow> None | Some k \<Rightarrow> if k = [] then None else get k)"

definition truthy_ids :: "string option list \<Rightarrow> string list" where
  "truthy_ids ids = filter (\<lambda>k. k \<noteq> []) (List.map_filter id ids)"

definition action_events :: "governed_action \<Rightarrow> string option \<Rightarrow> world \<Rightarrow> audit_event list" where
  "action_events action t w =
     (let resource_ids = truthy_ids [Some (ga_pk action), ga_approval action, ga_source_job action, ga_execution_job action] in
      sort_key ae_seq (filter (\<lambda>e. in_tenant ae_tenant t e \<and> ae_resource_id e \<in> set resource_ids) (audit_events w)))"

definition mapping_view_of :: "world \<Rightarrow> action_control \<Rightarrow> mapping_view" where
  "mapping_view_of w m =
     (let ctl = get_row controls ctl_pk (ac_control m) w in
      \<lparr>mv_control = ctl,
       mv_framework = (case ctl of None \<Rightarrow> None | Some c \<Rightarrow> get_row frameworks fw_pk (ctl_framework c) w),
       mv_regulation = via (ac_regulation m) (\<lambda>k. get_row regulations reg_pk k w),
       mv_rationale = ac_rationale m\<rparr>)"

definition get_evidence_graph :: "string \<Rightarrow> string option \<Rightarrow> world \<Rightarrow> graph option" where
  "get_evidence_graph governed_action_id t w =
     (case get_governed_action governed_action_id t w of
        None \<Rightarrow> None
      | Some action \<Rightarrow>
          (let wf = via (ga_workflow action) (\<lambda>k. get_workflow k t w);
               ais = (case wf of None \<Rightarrow> None | Some f \<Rightarrow> via (wf_ai_system f) (\<lambda>k. get_ai_system k t w)) in
           Some \<lparr>g_action = action, g_ai_system = ais, g_workflow = wf,
             g_policy_version = ga_policy_version action, g_policy_decision = ga_policy_decision action,
             g_approval = via (ga_approval action) (\<lambda>k. get_request k t w),
             g_source_job = via (ga_source_job action) (\<lambda>k. get_job_by_id k t w),
             g_execution_job = via (ga_execution_job action) (\<lambda>k. get_job_by_id k t w),
             g_audit_events = action_events action t w,
             g_control_mappings = map (mapping_view_of w)
               (filter (\<lambda>m. in_tenant ac_tenant t m \<and> ac_action m = ga_pk action) (action_controls w)),
             g_artifacts = list_evidence_artifacts t (Some (ga_pk action)) w,
             g_overrides = filter (\<lambda>ov. in_tenant ov_tenant t ov \<and> ov_action ov = ga_pk action) (overrides w)\<rparr>))"

section \<open>Interfaces and footprints\<close>

interpretation actions_tbl: world_table governed_actions governed_actions_update ga_pk
  by unfold_locales simp_all

interpretation workflows_tbl: world_table workflows workflows_update wf_pk
  by unfold_locales simp_all

interpretation ai_fetch: scoped_fetch ai_systems ais_pk ais_tenant get_ai_system
  by unfold_locales (simp add: get_ai_system_def get_row_def)

interpretation workflow_fetch: scoped_fetch workflows wf_pk wf_tenant get_workflow
  by unfold_locales (simp add: get_workflow_def get_row_def)

interpretation action_fetch: scoped_fetch governed_actions ga_pk ga_tenant get_governed_action
  by unfold_locales (simp add: get_governed_action_def get_row_def)

interpretation action_query: scoped_query governed_actions ga_tenant
  "\<lambda>(workflow_id, start_at, end_at) a. (workflow_id = None \<or> ga_workflow a = workflow_id)
     \<and> (case start_at of None \<Rightarrow> True | Some s \<Rightarrow> s \<le> ga_created_at a)
     \<and> (case end_at of None \<Rightarrow> True | Some e \<Rightarrow> ga_created_at a \<le> e)"
  "\<lambda>_. order_desc ga_created_at"
  "\<lambda>(workflow_id, start_at, end_at) t w. list_governed_actions t workflow_id start_at end_at w"
  by unfold_locales (auto simp: list_governed_actions_def)

interpretation artifact_query: scoped_query artifacts art_tenant
  "\<lambda>aid a. aid = None \<or> art_action a = aid" "\<lambda>_. order_desc art_created_at" "\<lambda>aid t w. list_evidence_artifacts t aid w"
  by unfold_locales (auto simp: list_evidence_artifacts_def)

interpretation workflow_query: scoped_query workflows wf_tenant
  "\<lambda>k r. k = None \<or> wf_ai_system r = k" "\<lambda>_. order_desc wf_created_at" "\<lambda>k t w. list_workflows t k w"
  by unfold_locales (auto simp: list_workflows_def)

interpretation ai_query: scoped_query ai_systems ais_tenant
  "\<lambda>_ _. True" "\<lambda>_::unit. order_desc ais_created_at" "\<lambda>_ t w. list_ai_systems t w"
  by unfold_locales (auto simp: list_ai_systems_def)

interpretation event_query: scoped_query audit_events ae_tenant
  "\<lambda>a e. ae_resource_id e \<in> set (truthy_ids [Some (ga_pk a), ga_approval a, ga_source_job a, ga_execution_job a])"
  "\<lambda>_. sort_key ae_seq" action_events
  by unfold_locales (simp_all add: action_events_def Let_def)

lemma graph_writers_evo [evo]:
  "TAiSystems \<in> S \<Longrightarrow> evolves (only S) (create_ai_system t n d ow)" "evolves (forward E) (create_ai_system t n d ow)"
  "TDataSources \<in> S \<Longrightarrow> evolves (only S) (create_data_source t n st m)" "evolves (forward E) (create_data_source t n st m)"
  "TWorkflows \<in> S \<Longrightarrow> evolves (only S) (create_workflow t n k d)" "evolves (forward E) (create_workflow t n k d)"
  "TActions \<in> S \<Longrightarrow> evolves (only S) (create_governed_action a)" "evolves (forward E) (create_governed_action a)"
  "TRisk \<in> S \<Longrightarrow> evolves (only S) (create_risk_assessment t rl k wk s m)"
  "evolves (forward E) (create_risk_assessment t rl k wk s m)"
  "TArtifacts \<in> S \<Longrightarrow> evolves (only S) (record_evidence_artifact t ty k u m)"
  "evolves (forward E) (record_evidence_artifact t ty k u m)"
  unfolding create_ai_system_def create_data_source_def create_workflow_def create_governed_action_def
    create_risk_assessment_def record_evidence_artifact_def
  by (intro evo; assumption?)+

section \<open>What one tenant sees\<close>

text \<open>Two databases that hold the same rows of one tenant, and the same reference catalog.\<close>

definition same_for :: "string \<Rightarrow> world \<Rightarrow> world \<Rightarrow> bool" where
  "same_for t w v \<longleftrightarrow>
     own ga_tenant t (governed_actions w) = own ga_tenant t (governed_actions v)
   \<and> own wf_tenant t (workflows w) = own wf_tenant t (workflows v)
   \<and> own ais_tenant t (ai_systems w) = own ais_tenant t (ai_systems v)
   \<and> own appr_tenant t (approvals w) = own appr_tenant t (approvals v)
   \<and> own job_tenant t (jobs w) = own job_tenant t (jobs v)
   \<and> own ae_tenant t (audit_events w) = own ae_tenant t (audit_events v)
   \<and> own ac_tenant t (action_controls w) = own ac_tenant t (action_controls v)
   \<and> own art_tenant t (artifacts w) = own art_tenant t (artifacts v)
   \<and> own ov_tenant t (overrides w) = own ov_tenant t (overrides v)
   \<and> own ra_tenant t (risk_assessments w) = own ra_tenant t (risk_assessments v)
   \<and> own dlv_tenant t (deliveries w) = own dlv_tenant t (deliveries v)
   \<and> own policy_tenant t (policies w) = own policy_tenant t (policies v)
   \<and> own pkt_tenant t (packets w) = own pkt_tenant t (packets v)
   \<and> own ts_tenant t (trust_scores w) = own ts_tenant t (trust_scores v)
   \<and> own ver_tenant t (verifications w) = own ver_tenant t (verifications v)
   \<and> controls w = controls v \<and> frameworks w = frameworks v \<and> regulations w = regulations v"

text \<open>Primary keys are unique in the tables that are read by key.\<close>

definition keyed_tables :: "world \<Rightarrow> bool" where
  "keyed_tables w \<longleftrightarrow> distinct (map ga_pk (governed_actions w)) \<and> distinct (map wf_pk (workflows w))
     \<and> distinct (map ais_pk (ai_systems w)) \<and> distinct (map appr_pk (approvals w))
     \<and> distinct (map job_pk (jobs w)) \<and> distinct (map policy_pk (policies w))
     \<and> distinct (map pkt_pk (packets w)) \<and> distinct (map ver_pk (verifications w))"

lemma own_filter:
  assumes "own f t rs = own f t ss"
  shows "filter (\<lambda>r. in_tenant f (Some t) r \<and> P r) rs = filter (\<lambda>r. in_tenant f (Some t) r \<and> P r) ss"
proof -
  have "filter (\<lambda>r. in_tenant f (Some t) r \<and> P r) rs = filter P (own f t rs)" for rs
    by (simp add: own_def in_tenant_Some conj_commute cong: conj_cong)
  then show ?thesis using assms by simp
qed

lemma scoped_reads_same:
  assumes "same_for t w v" and "keyed_tables w" and "keyed_tables v"
  shows "get_governed_action k (Some t) w = get_governed_action k (Some t) v"
    "get_workflow k (Some t) w = get_workflow k (Some t) v"
    "get_ai_system k (Some t) w = get_ai_system k (Some t) v"
    "get_request k (Some t) w = get_request k (Some t) v"
    "get_job_by_id k (Some t) w = get_job_by_id k (Some t) v"
    "get_version k (Some t) w = get_version k (Some t) v"
    "action_events a (Some t) w = action_events a (Some t) v"
    "list_evidence_artifacts (Some t) aid w = list_evidence_artifacts (Some t) aid v"
    "list_governed_actions (Some t) wid s e w = list_governed_actions (Some t) wid s e v"
    "list_jobs st ty (Some t) n w = list_jobs st ty (Some t) n v"
  using assms
    action_fetch.fetch_isolated [of w v t k] workflow_fetch.fetch_isolated [of w v t k]
    ai_fetch.fetch_isolated [of w v t k] approval_fetch.fetch_isolated [of w v t k]
    job_fetch.fetch_isolated [of w v t k] version_fetch.fetch_isolated [of w v t k]
    event_query.query_isolated [of t w v a] artifact_query.query_isolated [of t w v aid]
    action_query.query_isolated [of t w v "(wid, s, e)"] job_query.query_isolated [of t w v "(st, ty, n)"]
  by (simp_all add: same_for_def keyed_tables_def)

lemma mapping_view_same: "same_for t w v \<Longrightarrow> mapping_view_of w = mapping_view_of v"
  by (simp add: fun_eq_iff mapping_view_of_def same_for_def get_row_def Let_def split: option.split)

lemma graph_same:
  assumes "same_for t w v" and "keyed_tables w" and "keyed_tables v"
  shows "get_evidence_graph aid (Some t) w = get_evidence_graph aid (Some t) v"
proof -
  have maps: "filter (\<lambda>m. in_tenant ac_tenant (Some t) m \<and> ac_action m = k) (action_controls w)
      = filter (\<lambda>m. in_tenant ac_tenant (Some t) m \<and> ac_action m = k) (action_controls v)" for k
    by (rule own_filter) (use assms(1) in \<open>simp add: same_for_def\<close>)
  have ovs: "filter (\<lambda>ov. in_tenant ov_tenant (Some t) ov \<and> ov_action ov = k) (overrides w)
      = filter (\<lambda>ov. in_tenant ov_tenant (Some t) ov \<and> ov_action ov = k) (overrides v)" for k
    by (rule own_filter) (use assms(1) in \<open>simp add: same_for_def\<close>)
  show ?thesis
    by (simp add: get_evidence_graph_def scoped_reads_same [OF assms] mapping_view_same [OF assms(1)] maps ovs
        cong: option.case_cong)
qed

text \<open>A row for the witnesses of the theories above.\<close>

definition sample_action :: "string \<Rightarrow> string \<Rightarrow> string \<Rightarrow> governed_action" where
  "sample_action pk t status = \<lparr>ga_pk = pk, ga_tenant = Some t, ga_workflow = None, ga_source_job = None,
     ga_approval = None, ga_execution_job = None, ga_action_type = ''ai_vendor_governance_review'',
     ga_policy_version = Some ''v1'', ga_policy_version_id = None, ga_policy_decision = Some ''allowed'',
     ga_status = status, ga_metadata = None, ga_created_at = 0, ga_updated_at = 0\<rparr>"

end
