(* ===== verification/TenantRbac.thy ===== *)
theory TenantRbac
  imports Seeding Samples Tenancy
begin

text \<open>
  services/tenant_service.py, services/rbac_service.py, app/deps.py and
  app/middleware/operator_auth.py: who is calling. An API key resolves to its tenant and, when it
  is bound to a user, to the permissions of the user's roles; no key is the operator, in demo mode
  only; a permission dependency refuses everybody else.
\<close>

section \<open>Tenants and API keys\<close>

definition hash_api_key :: "env \<Rightarrow> string \<Rightarrow> string" where
  "hash_api_key E raw_key = sha256 E raw_key"

definition get_tenant :: "string \<Rightarrow> world \<Rightarrow> tenant option" where
  "get_tenant tenant_id w = get_row tenants tenant_pk tenant_id w"

definition same_key_hash :: "api_key \<Rightarrow> api_key \<Rightarrow> bool" where
  "same_key_hash a b \<longleftrightarrow> key_hash a = key_hash b"

definition provision_api_key :: "env \<Rightarrow> string \<Rightarrow> string \<Rightarrow> string \<Rightarrow> string option \<Rightarrow> api_key svc" where
  "provision_api_key E tenant_id name raw_key user_id =
     bindM new_id (\<lambda>pk. bindM (gets clock) (\<lambda>now.
       let row = \<lparr>key_pk = pk, key_tenant = Some tenant_id, key_user = user_id, key_name = name,
                  key_hash = hash_api_key E raw_key, key_is_active = True, key_created_at = now,
                  key_last_used_at = None\<rparr>
       in bindM (insert_unique api_keys api_keys_update same_key_hash ''api_keys.key_hash'' row)
            (\<lambda>_. ret row)))"

text \<open>The query for an active key with the hash of the raw key.\<close>

definition active_keys :: "env \<Rightarrow> string \<Rightarrow> world \<Rightarrow> api_key list" where
  "active_keys E raw w = filter (\<lambda>k. key_hash k = hash_api_key E raw \<and> key_is_active k) (api_keys w)"

definition no_key :: "string option \<Rightarrow> bool" where
  "no_key api_key \<longleftrightarrow> api_key = None \<or> api_key = Some []"

definition resolve_tenant_id :: "env \<Rightarrow> string option \<Rightarrow> string option svc" where
  "resolve_tenant_id E api_key =
     (if no_key api_key then ret None
      else
        bindM (gets (active_keys E (the api_key))) (\<lambda>found.
        bindM (lift (scalar_one_or_none found)) (\<lambda>row.
        case row of
          None \<Rightarrow> raise (InvalidApiKey ''invalid_api_key'')
        | Some k \<Rightarrow>
            bindM (gets clock) (\<lambda>now.
            bindM (update_row api_keys_update key_pk (key_pk k) (\<lambda>k. k\<lparr>key_last_used_at := Some now\<rparr>))
              (\<lambda>_. ret (key_tenant k))))))"

section \<open>Permissions and roles\<close>

definition P_CREATE :: string where "P_CREATE = ''create_governed_action''"
definition P_APPROVE :: string where "P_APPROVE = ''approve_action''"
definition P_REJECT :: string where "P_REJECT = ''reject_action''"
definition P_EXECUTE :: string where "P_EXECUTE = ''execute_approved_action''"
definition P_VIEW_AUDIT :: string where "P_VIEW_AUDIT = ''view_audit''"
definition P_EXPORT_EVIDENCE :: string where "P_EXPORT_EVIDENCE = ''export_evidence''"
definition P_MANAGE_POLICIES :: string where "P_MANAGE_POLICIES = ''manage_policies''"
definition P_MANAGE_CONTROLS :: string where "P_MANAGE_CONTROLS = ''manage_controls''"
definition P_MANAGE_USERS :: string where "P_MANAGE_USERS = ''manage_users''"
definition P_OVERRIDE :: string where "P_OVERRIDE = ''override_high_risk_action''"

lemmas perm_defs = P_CREATE_def P_APPROVE_def P_REJECT_def P_EXECUTE_def P_VIEW_AUDIT_def
  P_EXPORT_EVIDENCE_def P_MANAGE_POLICIES_def P_MANAGE_CONTROLS_def P_MANAGE_USERS_def P_OVERRIDE_def

definition PERMISSION_NAMES :: "string list" where
  "PERMISSION_NAMES = [''create_governed_action'', ''approve_action'', ''reject_action'',
     ''execute_approved_action'', ''view_audit'', ''export_evidence'', ''manage_policies'',
     ''manage_controls'', ''manage_users'', ''override_high_risk_action'']"

text \<open>The permission sets of the matrix as lists (a set's iteration order is not fixed).\<close>

definition ROLE_PERMISSIONS :: "(string \<times> string list) list" where
  "ROLE_PERMISSIONS =
     [(''Owner'', PERMISSION_NAMES),
      (''Admin'', filter (\<lambda>p. p \<noteq> P_MANAGE_USERS) PERMISSION_NAMES),
      (''Compliance Officer'', [P_APPROVE, P_REJECT, P_VIEW_AUDIT, P_EXPORT_EVIDENCE, P_MANAGE_CONTROLS,
         P_MANAGE_POLICIES, P_OVERRIDE]),
      (''Auditor'', [P_VIEW_AUDIT, P_EXPORT_EVIDENCE]),
      (''Operator'', [P_CREATE, P_EXECUTE, P_VIEW_AUDIT]),
      (''Reviewer'', [P_APPROVE, P_REJECT, P_VIEW_AUDIT]),
      (''Viewer'', [P_VIEW_AUDIT])]"

record principal =
  pr_tenant :: "string option"
  pr_user :: "string option"
  pr_permissions :: "string set"
  pr_is_operator :: bool

definition has :: "principal \<Rightarrow> string \<Rightarrow> bool" where
  "has p permission \<longleftrightarrow> pr_is_operator p \<or> permission \<in> pr_permissions p"

section \<open>Seeding\<close>

definition same_perm :: "permission \<Rightarrow> permission \<Rightarrow> bool" where
  "same_perm a b \<longleftrightarrow> perm_name a = perm_name b"

definition same_role :: "role \<Rightarrow> role \<Rightarrow> bool" where
  "same_role a b \<longleftrightarrow> sql_eq (role_tenant a) (role_tenant b) \<and> role_name a = role_name b"

definition same_link :: "role_permission \<Rightarrow> role_permission \<Rightarrow> bool" where
  "same_link a b \<longleftrightarrow> rp_role a = rp_role b \<and> rp_permission a = rp_permission b"

definition seed_permission :: "string \<Rightarrow> permission svc" where
  "seed_permission name =
     ensure permissions (\<lambda>p. perm_name p = name)
       (insert_unique permissions permissions_update same_perm ''permissions.name'')
       (\<lambda>pk now. \<lparr>perm_pk = pk, perm_name = name, perm_description = None, perm_created_at = now\<rparr>)"

definition seed_role :: "string \<Rightarrow> role svc" where
  "seed_role name =
     ensure roles (\<lambda>r. role_tenant r = None \<and> role_name r = name)
       (insert_unique roles roles_update same_role ''uq_role_tenant_name'')
       (\<lambda>pk now. \<lparr>role_pk = pk, role_tenant = None, role_name = name, role_description = None,
                  role_is_system = True, role_created_at = now\<rparr>)"

definition seed_link :: "string \<Rightarrow> string \<Rightarrow> role_permission svc" where
  "seed_link role_id permission_id =
     ensure role_permissions (\<lambda>l. rp_role l = role_id \<and> rp_permission l = permission_id)
       (insert_unique role_permissions role_permissions_update same_link ''uq_role_permission'')
       (\<lambda>pk now. \<lparr>rp_pk = pk, rp_role = role_id, rp_permission = permission_id, rp_created_at = now\<rparr>)"

definition seed_role_links :: "(string \<times> permission) list \<Rightarrow> string \<times> string list \<Rightarrow> unit svc" where
  "seed_role_links perms entry =
     bindM (seed_role (fst entry)) (\<lambda>role.
     foreach (snd entry) (\<lambda>perm_name.
       case map_of perms perm_name of
         None \<Rightarrow> raise (KeyError perm_name)
       | Some perm \<Rightarrow> bindM (seed_link (role_pk role) (perm_pk perm)) (\<lambda>_. ret ())))"

definition seed_rbac :: "unit svc" where
  "seed_rbac = atomic
     (bindM (gather PERMISSION_NAMES seed_permission) (\<lambda>perms.
      foreach ROLE_PERMISSIONS (seed_role_links (zip PERMISSION_NAMES perms))))"

section \<open>Users and their roles\<close>

definition same_user :: "user \<Rightarrow> user \<Rightarrow> bool" where
  "same_user a b \<longleftrightarrow> sql_eq (user_tenant a) (user_tenant b) \<and> user_email a = user_email b"

definition provision_user :: "string \<Rightarrow> string \<Rightarrow> string option \<Rightarrow> user svc" where
  "provision_user tenant_id email display_name =
     bindM new_id (\<lambda>pk. bindM (gets clock) (\<lambda>now.
       let row = \<lparr>user_pk = pk, user_tenant = Some tenant_id, user_email = email,
                  user_display_name = display_name, user_is_active = True, user_created_at = now\<rparr>
       in bindM (insert_unique users users_update same_user ''uq_user_tenant_email'' row) (\<lambda>_. ret row)))"

definition same_user_role :: "user_role \<Rightarrow> user_role \<Rightarrow> bool" where
  "same_user_role a b \<longleftrightarrow> ur_user a = ur_user b \<and> ur_role a = ur_role b"

text \<open>\<open>scalar_one()\<close>.\<close>

definition scalar_one :: "'r list \<Rightarrow> exn + 'r" where
  "scalar_one rs = (case rs of [] \<Rightarrow> Inl NoResultFound | [r] \<Rightarrow> Inr r | _ \<Rightarrow> Inl MultipleResultsFound)"

definition assign_role :: "string \<Rightarrow> string \<Rightarrow> string option \<Rightarrow> user_role svc" where
  "assign_role user_id role_name' tenant_id =
     bindM (gets (\<lambda>w. filter (\<lambda>r. role_tenant r = None \<and> role_name r = role_name') (roles w))) (\<lambda>found.
     bindM (lift (scalar_one found)) (\<lambda>role.
     bindM new_id (\<lambda>pk. bindM (gets clock) (\<lambda>now.
       let link = \<lparr>ur_pk = pk, ur_tenant = tenant_id, ur_user = user_id, ur_role = role_pk role,
                   ur_created_at = now\<rparr>
       in bindM (insert_unique user_roles user_roles_update same_user_role ''uq_user_role'' link)
            (\<lambda>_. ret link)))))"

text \<open>The join of the user's roles with their links and the permissions.\<close>

definition permissions_for_user :: "string \<Rightarrow> world \<Rightarrow> string set" where
  "permissions_for_user user_id w =
     set (concat (map (\<lambda>ur.
            concat (map (\<lambda>rp. map perm_name (filter (\<lambda>p. perm_pk p = rp_permission rp) (permissions w)))
              (filter (\<lambda>rp. rp_role rp = ur_role ur) (role_permissions w))))
            (filter (\<lambda>ur. ur_user ur = user_id) (user_roles w))))"

definition operator_bypass :: "settings \<Rightarrow> bool" where
  "operator_bypass s \<longleftrightarrow> app_env s = Demo \<and> \<not> require_rbac_for_operator s"

definition resolve_principal :: "env \<Rightarrow> string option \<Rightarrow> principal svc" where
  "resolve_principal E api_key =
     (if no_key api_key then
        ret \<lparr>pr_tenant = None, pr_user = None, pr_permissions = {}, pr_is_operator = operator_bypass (config E)\<rparr>
      else
        bindM (gets (active_keys E (the api_key))) (\<lambda>found.
        bindM (lift (scalar_one_or_none found)) (\<lambda>row.
        case row of
          None \<Rightarrow> raise (InvalidApiKey ''invalid_api_key'')
        | Some k \<Rightarrow>
            (case key_user k of
               None \<Rightarrow> ret \<lparr>pr_tenant = key_tenant k, pr_user = None, pr_permissions = {}, pr_is_operator = False\<rparr>
             | Some u \<Rightarrow>
                 bindM (gets (permissions_for_user u)) (\<lambda>ps.
                 ret \<lparr>pr_tenant = key_tenant k, pr_user = Some u, pr_permissions = ps, pr_is_operator = False\<rparr>)))))"

section \<open>Request dependencies\<close>

definition unauthorized :: "exn \<Rightarrow> 'a svc" where
  "unauthorized e = (case e of InvalidApiKey m \<Rightarrow> raise (HTTPException 401 ''invalid_api_key'') | _ \<Rightarrow> raise e)"

definition get_current_tenant_id :: "env \<Rightarrow> string option \<Rightarrow> string option svc" where
  "get_current_tenant_id E api_key = catch (resolve_tenant_id E api_key) unauthorized"

definition get_principal :: "env \<Rightarrow> string option \<Rightarrow> principal svc" where
  "get_principal E api_key = catch (resolve_principal E api_key) unauthorized"

definition require_permission :: "env \<Rightarrow> string \<Rightarrow> string option \<Rightarrow> principal svc" where
  "require_permission E permission api_key =
     bindM (get_principal E api_key) (\<lambda>p.
     if \<not> has p permission then raise (HTTPException 403 ''permission_denied'') else ret p)"

definition PROTECTED_PREFIXES :: "string list" where
  "PROTECTED_PREFIXES = [''/jobs'', ''/approvals'', ''/audit'', ''/email'']"

text \<open>\<open>dispatch\<close>: True is \<open>call_next\<close>, False the 401 answer.\<close>

definition operator_gate :: "settings \<Rightarrow> string \<Rightarrow> string option \<Rightarrow> bool" where
  "operator_gate s path operator_header =
     (if no_key (operator_api_key s) then True
      else if \<not> list_ex (\<lambda>pre. path = pre \<or> startswith path (pre @ ''/'')) PROTECTED_PREFIXES then True
      else operator_header = operator_api_key s)"

section \<open>Interfaces\<close>

interpretation keys_tbl: world_table api_keys api_keys_update key_pk
  by unfold_locales simp_all

interpretation roles_tbl: world_table roles roles_update role_pk
  by unfold_locales simp_all

interpretation perms_tbl: world_table permissions permissions_update perm_pk
  by unfold_locales simp_all

interpretation perm_seed: seed_table permissions permissions_update same_perm perm_ident
  by unfold_locales (auto simp: same_perm_def perm_ident_def singles_def stocked_def)

interpretation role_seed: seed_table roles roles_update same_role role_ident
  by unfold_locales (auto simp: same_role_def role_ident_def singles_def stocked_def sql_eq_def)

interpretation link_seed: seed_table role_permissions role_permissions_update same_link link_ident
  by unfold_locales (auto simp: same_link_def link_ident_def singles_def stocked_def)

section \<open>Footprints\<close>

lemma seed_steps_only [evo]:
  "TPermissions \<in> S \<Longrightarrow> evolves (only S) (seed_permission n)"
  "TRoles \<in> S \<Longrightarrow> evolves (only S) (seed_role n)"
  "TRolePermissions \<in> S \<Longrightarrow> evolves (only S) (seed_link r p)"
  unfolding seed_permission_def seed_role_def seed_link_def by (intro evo; assumption)+

lemma seed_rbac_only [evo]:
  "{TPermissions, TRoles, TRolePermissions} \<subseteq> S \<Longrightarrow> evolves (only S) seed_rbac"
  unfolding seed_rbac_def seed_role_links_def by (intro evo; simp)

lemma provision_only [evo]:
  "TUsers \<in> S \<Longrightarrow> evolves (only S) (provision_user t0 e n)"
  "TUserRoles \<in> S \<Longrightarrow> evolves (only S) (assign_role u rn t)"
  "TApiKeys \<in> S \<Longrightarrow> evolves (only S) (provision_api_key E t' kn k uid)"
  unfolding provision_user_def assign_role_def provision_api_key_def by (intro evo; assumption)+

lemma resolve_only [evo]:
  "TApiKeys \<in> S \<Longrightarrow> evolves (only S) (resolve_tenant_id E k)"
  "evolves (only S) (resolve_principal E k)"
  unfolding resolve_tenant_id_def resolve_principal_def by (intro evo; assumption?)+

lemma unauthorized_only [evo]: "evolves (only S) (unauthorized e)"
  unfolding unauthorized_def by (intro evo)

lemma deps_only [evo]:
  "TApiKeys \<in> S \<Longrightarrow> evolves (only S) (get_current_tenant_id E k)"
  "evolves (only S) (get_principal E k)" "evolves (only S) (require_permission E p k)"
  unfolding get_current_tenant_id_def require_permission_def get_principal_def by (intro evo; assumption?)+

section \<open>What a role grants\<close>

definition role_grants :: "string \<Rightarrow> world \<Rightarrow> string set" where
  "role_grants role_id w = {perm_name p |p. p \<in> set (permissions w)
     \<and> (\<exists>l \<in> set (role_permissions w). rp_role l = role_id \<and> rp_permission l = perm_pk p)}"

lemma permissions_for_user_grants:
  "permissions_for_user u w = (\<Union>ur \<in> {ur \<in> set (user_roles w). ur_user ur = u}. role_grants (ur_role ur) w)"
proof (intro set_eqI iffI)
  fix x assume "x \<in> permissions_for_user u w"
  then obtain ur rp p where "ur \<in> set (user_roles w)" "ur_user ur = u" "rp \<in> set (role_permissions w)"
    "rp_role rp = ur_role ur" "p \<in> set (permissions w)" "perm_pk p = rp_permission rp" "x = perm_name p"
    by (auto simp: permissions_for_user_def)
  then show "x \<in> (\<Union>ur \<in> {ur \<in> set (user_roles w). ur_user ur = u}. role_grants (ur_role ur) w)"
    by (fastforce simp: role_grants_def)
next
  fix x assume "x \<in> (\<Union>ur \<in> {ur \<in> set (user_roles w). ur_user ur = u}. role_grants (ur_role ur) w)"
  then obtain ur p l where "ur \<in> set (user_roles w)" "ur_user ur = u" "p \<in> set (permissions w)"
    "l \<in> set (role_permissions w)" "rp_role l = ur_role ur" "rp_permission l = perm_pk p" "x = perm_name p"
    by (auto simp: role_grants_def)
  then show "x \<in> permissions_for_user u w"
    by (fastforce simp: permissions_for_user_def)
qed

text \<open>Every link of the database is in the matrix.\<close>

definition in_matrix :: "world \<Rightarrow> role_permission \<Rightarrow> bool" where
  "in_matrix w l \<longleftrightarrow> (\<exists>entry \<in> set ROLE_PERMISSIONS. \<exists>r \<in> set (roles w). \<exists>p \<in> set (permissions w).
     role_ident r = Some (fst entry) \<and> role_pk r = rp_role l \<and> perm_pk p = rp_permission l
     \<and> perm_name p \<in> set (snd entry))"

definition rbac_ok :: "world \<Rightarrow> bool" where
  "rbac_ok w \<longleftrightarrow> drawn roles role_pk w \<and> drawn permissions perm_pk w
     \<and> (\<forall>l \<in> set (role_permissions w). in_matrix w l)"

lemma rbac_ok_empty [simp]: "rbac_ok empty_world"
  by (simp add: rbac_ok_def drawn_def empty_world_def)

lemma in_matrix_mono:
  "in_matrix w l \<Longrightarrow> set (roles w) \<subseteq> set (roles v) \<Longrightarrow> set (permissions w) \<subseteq> set (permissions v) \<Longrightarrow> in_matrix v l"
  unfolding in_matrix_def by blast

lemma seed_permission_seeds:
  "seeds rbac_ok A (seed_permission n) (found permissions perm_ident n)"
  unfolding seed_permission_def
proof (rule perm_seed.ensure_seeds)
  fix w :: world
  let ?r = "\<lparr>perm_pk = uuid (uuids w), perm_name = n, perm_description = None, perm_created_at = clock w\<rparr>"
  assume ok: "rbac_ok w"
  have "drawn permissions perm_pk (after (insert_row permissions_update ?r) (w\<lparr>uuids := Suc (uuids w)\<rparr>))"
    using ok by (intro perms_tbl.drawn_insert) (simp_all add: rbac_ok_def)
  then show "rbac_ok (permissions_update (\<lambda>rs. rs @ [?r]) (w\<lparr>uuids := Suc (uuids w)\<rparr>))"
    using ok by (auto simp: rbac_ok_def insert_row_def comp intro: drawn_mono in_matrix_mono)
qed (simp_all add: perm_ident_def)

lemma seed_role_seeds:
  "seeds rbac_ok A (seed_role n) (found roles role_ident n)"
  unfolding seed_role_def
proof (rule role_seed.ensure_seeds)
  fix w :: world
  let ?r = "\<lparr>role_pk = uuid (uuids w), role_tenant = None, role_name = n, role_description = None,
     role_is_system = True, role_created_at = clock w\<rparr>"
  assume ok: "rbac_ok w"
  have "drawn roles role_pk (after (insert_row roles_update ?r) (w\<lparr>uuids := Suc (uuids w)\<rparr>))"
    using ok by (intro roles_tbl.drawn_insert) (simp_all add: rbac_ok_def)
  then show "rbac_ok (roles_update (\<lambda>rs. rs @ [?r]) (w\<lparr>uuids := Suc (uuids w)\<rparr>))"
    using ok by (auto simp: rbac_ok_def insert_row_def comp intro: drawn_mono in_matrix_mono)
qed (auto simp: role_ident_def)

lemma seed_link_seeds:
  assumes "entry \<in> set ROLE_PERMISSIONS" and "n \<in> set (snd entry)"
    and A: "\<And>w. A w \<Longrightarrow> found roles role_ident (fst entry) r w \<and> found permissions perm_ident n p w"
  shows "seeds rbac_ok A (seed_link (role_pk r) (perm_pk p))
    (found role_permissions link_ident (role_pk r, perm_pk p))"
  unfolding seed_link_def
proof (rule link_seed.ensure_seeds)
  fix w :: world
  let ?l = "\<lparr>rp_pk = uuid (uuids w), rp_role = role_pk r, rp_permission = perm_pk p, rp_created_at = clock w\<rparr>"
  let ?v = "role_permissions_update (\<lambda>rs. rs @ [?l]) (w\<lparr>uuids := Suc (uuids w)\<rparr>)"
  assume ok: "rbac_ok w" and "A w"
  then have "in_matrix ?v ?l"
    using A [OF \<open>A w\<close>] assms(1,2) by (fastforce simp: in_matrix_def perm_ident_def dest: found_in)
  then show "rbac_ok ?v"
    using ok by (auto simp: rbac_ok_def intro: drawn_mono in_matrix_mono)
qed (auto simp: link_ident_def)

text \<open>What the pass over one entry of the matrix leaves for good.\<close>

definition granted :: "string \<times> string list \<Rightarrow> world \<Rightarrow> bool" where
  "granted entry w \<longleftrightarrow> (\<exists>r. found roles role_ident (fst entry) r w
     \<and> (\<forall>n \<in> set (snd entry). \<exists>p l. found permissions perm_ident n p w
          \<and> found role_permissions link_ident (role_pk r, perm_pk p) l w))"

lemma zip_lookup:
  assumes "list_all2 R xs ys" and "map_of (zip xs ys) x = Some y"
  shows "R x y"
  using map_of_SomeD [OF assms(2)] assms(1) by (auto simp: list_all2_iff)

lemma seed_role_links_seeds:
  assumes e: "entry \<in> set ROLE_PERMISSIONS" and names: "set (snd entry) \<subseteq> set PERMISSION_NAMES"
  shows "seeds rbac_ok (\<lambda>w. list_all2 (\<lambda>n p. found permissions perm_ident n p w) PERMISSION_NAMES perms)
    (seed_role_links (zip PERMISSION_NAMES perms) entry) (\<lambda>_. granted entry)"
    (is "seeds _ ?A _ _")
proof -
  let ?B = "\<lambda>r w. ?A w \<and> found roles role_ident (fst entry) r w"
  let ?Q = "\<lambda>r n w. \<exists>p l. found permissions perm_ident n p w
              \<and> found role_permissions link_ident (role_pk r, perm_pk p) l w"
  let ?body = "\<lambda>r n. case map_of (zip PERMISSION_NAMES perms) n of None \<Rightarrow> raise (KeyError n)
       | Some p \<Rightarrow> bindM (seed_link (role_pk r) (perm_pk p)) (\<lambda>_. ret ())"
  have A: "lasting ?A" by (rule lasting_list) (rule perm_seed.lasting_found)
  have B: "lasting (?B r)" for r by (rule lasting_conj [OF A role_seed.lasting_found])
  have step: "seeds rbac_ok (?B r) (?body r n) (\<lambda>_. ?Q r n)" if n: "n \<in> set (snd entry)" for r n
  proof (cases "map_of (zip PERMISSION_NAMES perms) n")
    case None
    have "\<not> ?B r w" for w
    proof
      assume "?B r w"
      then have "length PERMISSION_NAMES = length perms" by (auto dest: list_all2_lengthD)
      then show False using None n names by (auto simp: map_of_zip_is_None)
    qed
    then show ?thesis by (rule seeds_never)
  next
    case (Some p)
    have B': "found roles role_ident (fst entry) r w \<and> found permissions perm_ident n p w" if "?B r w" for w
      using that zip_lookup [OF _ Some] by blast
    have link: "seeds rbac_ok (?B r) (seed_link (role_pk r) (perm_pk p))
       (found role_permissions link_ident (role_pk r, perm_pk p))"
      by (rule seed_link_seeds [OF e n]) (rule B')
    have lst: "lasting (\<lambda>w. ?B r w \<and> found role_permissions link_ident (role_pk r, perm_pk p) l w)" for l
      by (rule lasting_conj [OF B link_seed.lasting_found])
    have last: "seeds rbac_ok (\<lambda>w. ?B r w \<and> found role_permissions link_ident (role_pk r, perm_pk p) l w)
       (ret ()) (\<lambda>_. ?Q r n)" for l
      by (rule seeds_ret [OF _ lst]) (use B' in blast)
    show ?thesis by (simp only: Some option.case) (rule seeds_then [OF link B last])
  qed
  have loop: "seeds rbac_ok (?B r) (foreach (snd entry) (?body r)) (\<lambda>_ w. \<forall>n \<in> set (snd entry). ?Q r n w)" for r
    by (rule seeds_foreach [OF B step])
  show ?thesis
    unfolding seed_role_links_def
    by (rule seeds_mono [OF seeds_bind [OF seed_role_seeds A loop]]) (auto simp: granted_def)
qed

lemma matrix_names:
  "entry \<in> set ROLE_PERMISSIONS \<Longrightarrow> set (snd entry) \<subseteq> set PERMISSION_NAMES"
  "distinct (map fst ROLE_PERMISSIONS)"
  by (auto simp: ROLE_PERMISSIONS_def PERMISSION_NAMES_def perm_defs)

lemma seed_rbac_seeds: "seeds rbac_ok (\<lambda>_. True) seed_rbac (\<lambda>_ w. \<forall>entry \<in> set ROLE_PERMISSIONS. granted entry w)"
proof -
  let ?A = "\<lambda>perms w. list_all2 (\<lambda>n p. found permissions perm_ident n p w) PERMISSION_NAMES perms"
  have catalog: "seeds rbac_ok (\<lambda>_. True) (gather PERMISSION_NAMES seed_permission) ?A"
    by (rule seeds_gather [OF lasting_True perm_seed.lasting_found seed_permission_seeds])
  have A: "lasting (?A perms)" for perms by (rule lasting_list) (rule perm_seed.lasting_found)
  have "seeds rbac_ok (?A perms) (foreach ROLE_PERMISSIONS (seed_role_links (zip PERMISSION_NAMES perms)))
     (\<lambda>_ w. \<forall>entry \<in> set ROLE_PERMISSIONS. granted entry w)" for perms
    by (rule seeds_foreach [OF A]) (rule seed_role_links_seeds [OF _ matrix_names(1)])
  then show ?thesis
    unfolding seed_rbac_def
    by (intro seeds_atomic seeds_then [OF catalog lasting_True]) (auto intro: seeds_mono)
qed

lemma role_grants_exact:
  assumes ok: "rbac_ok w" and g: "granted entry w" and e: "entry \<in> set ROLE_PERMISSIONS"
    and r: "r \<in> set (roles w)" "role_ident r = Some (fst entry)" and single: "singles w"
  shows "role_grants (role_pk r) w = set (snd entry)"
proof -
  obtain r' where r': "found roles role_ident (fst entry) r' w"
    "\<forall>n \<in> set (snd entry). \<exists>p l. found permissions perm_ident n p w
       \<and> found role_permissions link_ident (role_pk r', perm_pk p) l w"
    using g by (auto simp: granted_def)
  have "r' = r" using r'(1) single_found [OF role_seed.singles_single [OF single] r(2,1)] by (simp add: found_def)
  have dr: "distinct (map role_pk (roles w))" "distinct (map perm_pk (permissions w))"
    using ok by (simp_all add: rbac_ok_def drawn_def)
  show ?thesis
  proof (intro set_eqI iffI)
    fix x assume "x \<in> role_grants (role_pk r) w"
    then obtain p l where p: "p \<in> set (permissions w)" "l \<in> set (role_permissions w)" "rp_role l = role_pk r"
      "rp_permission l = perm_pk p" "x = perm_name p" by (auto simp: role_grants_def)
    then obtain e2 r2 p2 where 2: "e2 \<in> set ROLE_PERMISSIONS" "r2 \<in> set (roles w)" "p2 \<in> set (permissions w)"
      "role_ident r2 = Some (fst e2)" "role_pk r2 = role_pk r" "perm_pk p2 = perm_pk p" "perm_name p2 \<in> set (snd e2)"
      using ok by (force simp: rbac_ok_def in_matrix_def)
    then have "r2 = r" "p2 = p" using r(1) p(1) dr by (auto dest: distinct_key_unique)
    then have "e2 = entry" using 2(1,4) e r(2) matrix_names(2) by (auto dest: distinct_key_unique)
    then show "x \<in> set (snd entry)" using 2(7) \<open>p2 = p\<close> p(5) by simp
  next
    fix x assume "x \<in> set (snd entry)"
    then obtain p l where "found permissions perm_ident x p w"
      "found role_permissions link_ident (role_pk r, perm_pk p) l w" using r'(2) \<open>r' = r\<close> by blast
    then show "x \<in> role_grants (role_pk r) w"
      using found_in [of permissions] found_in [of role_permissions] by (fastforce simp: role_grants_def perm_ident_def link_ident_def)
  qed
qed

lemma seeded:
  assumes "singles w" and "rbac_ok w"
  obtains v where "seed_rbac w = (Inr (), v)" "singles v" "rbac_ok v" "seed_rbac v = (Inr (), v)"
    "\<And>entry. entry \<in> set ROLE_PERMISSIONS \<Longrightarrow> \<exists>r. found roles role_ident (fst entry) r v \<and> role_grants (role_pk r) v = set (snd entry)"
proof -
  obtain v where v: "seed_rbac w = (Inr (), v)" "singles v" "rbac_ok v"
    and later: "\<And>u. stocked v u \<Longrightarrow> seed_rbac u = (Inr (), u)"
    "\<And>u. stocked v u \<Longrightarrow> \<forall>entry \<in> set ROLE_PERMISSIONS. granted entry u"
    by (rule seedsE [OF seed_rbac_seeds assms TrueI]) (rule that; simp)
  have "\<exists>r. found roles role_ident (fst entry) r v \<and> role_grants (role_pk r) v = set (snd entry)"
    if "entry \<in> set ROLE_PERMISSIONS" for entry
  proof -
    have g: "granted entry v" using later(2) [OF stocked_refl] that by blast
    then obtain r where r: "found roles role_ident (fst entry) r v" by (auto simp: granted_def)
    then show ?thesis using role_grants_exact [OF v(3) g that] found_in [OF r] v(2) by auto
  qed
  then show thesis using that v later(1) [OF stocked_refl] by blast
qed

lemma system_role_query:
  assumes "found roles role_ident n r w"
  shows "filter (\<lambda>r. role_tenant r = None \<and> role_name r = n) (roles w) = [r]"
proof -
  have "(\<lambda>r. role_tenant r = None \<and> role_name r = n) = (\<lambda>r. role_ident r = Some n)"
    by (auto simp: role_ident_def fun_eq_iff)
  then show ?thesis using assms by (simp add: found_def)
qed

lemma assign_role_run:
  assumes "found roles role_ident n r w" and "filter (\<lambda>ur. ur_user ur = u) (user_roles w) = []"
  shows "\<exists>l. assign_role u n t w = (Inr l, w\<lparr>uuids := Suc (uuids w), user_roles := user_roles w @ [l]\<rparr>)
     \<and> ur_user l = u \<and> ur_role l = role_pk r"
proof -
  have free: "\<not> (\<exists>ur \<in> set (user_roles w). ur_user ur = u \<and> ur_role ur = k)" for k
    using assms(2) by (auto simp: filter_empty_conv)
  show ?thesis
    using free by (simp add: assign_role_def comp system_role_query [OF assms(1)] scalar_one_def new_id_def Let_def insert_unique_def
        same_user_role_def list_ex_iff)
qed

text \<open>Seeding is total and idempotent, and it installs the matrix. From any state where no
  permission name, system role or link is doubled and every link is in the matrix (an empty database
  is one), it succeeds; running it again changes nothing; and a user without roles who is then
  assigned a role of the matrix holds exactly that role's permissions, no more and no fewer.\<close>

theorem seed_rbac_matrix:
  assumes "singles w" and "rbac_ok w" and "filter (\<lambda>ur. ur_user ur = u) (user_roles w) = []"
  shows "\<exists>v. seed_rbac w = (Inr (), v) \<and> seed_rbac v = (Inr (), v)
     \<and> list_all (\<lambda>(name, ps). \<exists>l x. assign_role u name t v = (Inr l, x) \<and> permissions_for_user u x = set ps)
         ROLE_PERMISSIONS"
proof -
  obtain v where v: "seed_rbac w = (Inr (), v)" "seed_rbac v = (Inr (), v)"
    and grants: "\<And>entry. entry \<in> set ROLE_PERMISSIONS \<Longrightarrow>
      \<exists>r. found roles role_ident (fst entry) r v \<and> role_grants (role_pk r) v = set (snd entry)"
    using seeded [OF assms(1,2)] by metis
  have "only {TPermissions, TRoles, TRolePermissions} w (after seed_rbac w)"
    by (rule evolvesD) (intro evo, simp)
  then have "same TUserRoles w (after seed_rbac w)" by (rule onlyD) simp
  then have none: "filter (\<lambda>ur. ur_user ur = u) (user_roles v) = []" using assms(3) v(1) by simp
  have "\<exists>l x. assign_role u (fst entry) t v = (Inr l, x) \<and> permissions_for_user u x = set (snd entry)"
    if e: "entry \<in> set ROLE_PERMISSIONS" for entry
  proof -
    obtain r where r: "found roles role_ident (fst entry) r v" "role_grants (role_pk r) v = set (snd entry)"
      using grants [OF e] by blast
    obtain l where l: "assign_role u (fst entry) t v = (Inr l, v\<lparr>uuids := Suc (uuids v), user_roles := user_roles v @ [l]\<rparr>)"
      "ur_user l = u" "ur_role l = role_pk r"
      using assign_role_run [OF r(1) none] by blast
    have "{ur \<in> set (user_roles v @ [l]). ur_user ur = u} = {l}"
      using none l(2) by (auto simp: filter_empty_conv)
    then have "permissions_for_user u (v\<lparr>uuids := Suc (uuids v), user_roles := user_roles v @ [l]\<rparr>)
        = role_grants (role_pk r) v"
      using l(3) by (simp add: permissions_for_user_grants role_grants_def)
    then show ?thesis using l(1) r(2) by blast
  qed
  then show ?thesis using v by (fastforce simp: list_all_iff)
qed

theorem seed_rbac_matrix_witness:
  "\<exists>v l x. seed_rbac empty_world = (Inr (), v) \<and> assign_role ''u1'' ''Reviewer'' None v = (Inr l, x)
     \<and> permissions_for_user ''u1'' x = {P_APPROVE, P_REJECT, P_VIEW_AUDIT}"
proof -
  have "filter (\<lambda>ur. ur_user ur = ''u1'') (user_roles empty_world) = []" by (simp add: empty_world_def)
  from seed_rbac_matrix [OF singles_empty rbac_ok_empty this, of None]
  show ?thesis by (auto simp: ROLE_PERMISSIONS_def)
qed

definition principal_of_key :: "api_key \<Rightarrow> world \<Rightarrow> principal" where
  "principal_of_key k w = \<lparr>pr_tenant = key_tenant k, pr_user = key_user k,
     pr_permissions = (case key_user k of None \<Rightarrow> {} | Some u \<Rightarrow> permissions_for_user u w), pr_is_operator = False\<rparr>"

lemma get_principal_run:
  "get_principal E key w =
     (if no_key key then
        (Inr \<lparr>pr_tenant = None, pr_user = None, pr_permissions = {}, pr_is_operator = operator_bypass (config E)\<rparr>, w)
      else (case active_keys E (the key) w of
              [] \<Rightarrow> (Inl (HTTPException 401 ''invalid_api_key''), w)
            | [k] \<Rightarrow> (Inr (principal_of_key k w), w)
            | _ \<Rightarrow> (Inl MultipleResultsFound, w)))"
  by (simp add: get_principal_def resolve_principal_def unauthorized_def catch_def ret_def raise_def bindM_def
      gets_def lift_def scalar_one_or_none_def principal_of_key_def split: list.split option.split)

lemma require_permission_run:
  "require_permission E perm key w =
     (case get_principal E key w of
        (Inl e, v) \<Rightarrow> (Inl e, v)
      | (Inr p, v) \<Rightarrow> if has p perm then (Inr p, v) else (Inl (HTTPException 403 ''permission_denied''), v))"
  by (simp add: require_permission_def bindM_def ret_def raise_def split: prod.split sum.split)


text \<open>The tenant of a request is its key's tenant. No key reads unscoped; a key that is unknown or
  inactive is refused with 401 and never falls back to an unscoped read; a good key answers its own
  tenant and only stamps its last use.\<close>

theorem tenant_of_request:
  "case get_current_tenant_id E key w of
     (Inr t, v) \<Rightarrow> (no_key key \<and> t = None \<and> v = w)
       \<or> (\<exists>k. no_key key = False \<and> active_keys E (the key) w = [k] \<and> t = key_tenant k
             \<and> v = w\<lparr>api_keys := tupd key_pk (key_pk k) (\<lambda>k. k\<lparr>key_last_used_at := Some (clock w)\<rparr>) (api_keys w)\<rparr>)
   | (Inl e, v) \<Rightarrow> v = w \<and> no_key key = False \<and> (active_keys E (the key) w = [] \<and> e = HTTPException 401 ''invalid_api_key''
       \<or> 2 \<le> length (active_keys E (the key) w) \<and> e = MultipleResultsFound)"
proof (cases "no_key key")
  case True
  then show ?thesis by (simp add: get_current_tenant_id_def resolve_tenant_id_def comp)
next
  case False
  then show ?thesis
    by (cases "active_keys E (the key) w" rule: remdups_adj.cases)
      (simp_all add: get_current_tenant_id_def resolve_tenant_id_def unauthorized_def comp update_row_def
        scalar_one_or_none_def)
qed

text \<open>A deactivated user keeps every permission: the resolution of a principal never reads the
  users table, so \<open>is_active\<close> has no effect on it.\<close>

theorem principal_ignores_users:
  "resolve_principal E key (w\<lparr>users := us\<rparr>)
     = (result (resolve_principal E key) w, (after (resolve_principal E key) w)\<lparr>users := us\<rparr>)"
  by (auto simp: resolve_principal_def comp active_keys_def permissions_for_user_def scalar_one_or_none_def
      split: option.split list.split)

text \<open>The operator key guards four routers only. With a key configured and none sent, the jobs,
  approvals, audit and email routes are refused at a path boundary, and every other route (policies,
  evidence, workflows, incidents, trust, verification, controls) is passed on.\<close>

theorem operator_gate_scope:
  "operator_gate (sample_settings\<lparr>operator_api_key := Some ''k''\<rparr>) path None =
     (\<not> list_ex (\<lambda>pre. path = pre \<or> startswith path (pre @ ''/'')) [''/jobs'', ''/approvals'', ''/audit'', ''/email''])
   \<and> list_all (\<lambda>p. operator_gate (sample_settings\<lparr>operator_api_key := Some ''k''\<rparr>) p None)
       [''/policies'', ''/evidence/packets'', ''/workflows/vendor-review'', ''/incidents'', ''/trust'',
        ''/verification'', ''/controls'', ''/jobsx'']
   \<and> operator_gate s path (operator_api_key s)"
proof (intro conjI)
  show "list_all (\<lambda>p. operator_gate (sample_settings\<lparr>operator_api_key := Some ''k''\<rparr>) p None)
       [''/policies'', ''/evidence/packets'', ''/workflows/vendor-review'', ''/incidents'', ''/trust'',
        ''/verification'', ''/controls'', ''/jobsx'']"
    by code_simp
qed (simp_all add: operator_gate_def PROTECTED_PREFIXES_def no_key_def)

end
