(* ===== verification/ControlCatalog.thy ===== *)
theory ControlCatalog
  imports EvidenceGraph TenantRbac
begin

text \<open>
  services/control_catalog.py: the reference catalog of frameworks, controls, regulations,
  requirements and one industry pack, seeded at every start, its reads, and the links from governed
  actions to controls.
\<close>

section \<open>Catalog data\<close>

definition CATALOG_LANGUAGE :: string where
  "CATALOG_LANGUAGE = ''supports evidence collection, control mapping, audit readiness, and governance workflows''"

definition FRAMEWORK_VERSION :: string where
  "FRAMEWORK_VERSION = ''current''"

definition FRAMEWORK_CONTROLS :: "(string \<times> (string \<times> string) list) list" where
  "FRAMEWORK_CONTROLS = [
     (''NIST AI RMF'', [(''GOVERN'', ''Govern''), (''MAP'', ''Map''), (''MEASURE'', ''Measure''),
        (''MANAGE'', ''Manage'')]),
     (''NIST Cybersecurity Framework 2.0'', [(''GV'', ''Govern''), (''ID'', ''Identify''),
        (''PR'', ''Protect''), (''DE'', ''Detect''), (''RS'', ''Respond''), (''RC'', ''Recover'')]),
     (''ISO 27001'', [(''A.5'', ''Organizational controls''), (''A.6'', ''People controls''),
        (''A.7'', ''Physical controls''), (''A.8'', ''Technological controls'')]),
     (''ISO 42001'', [(''CTX'', ''Context of the organization''), (''LEAD'', ''Leadership''),
        (''PLAN'', ''Planning''), (''SUP'', ''Support''), (''OPS'', ''Operation''),
        (''PERF'', ''Performance evaluation''), (''IMP'', ''Improvement'')]),
     (''SOC 2'', [(''CC'', ''Common Criteria (Security)''), (''A'', ''Availability''),
        (''PI'', ''Processing Integrity''), (''C'', ''Confidentiality''), (''P'', ''Privacy'')]),
     (''HIPAA'', [(''ADM'', ''Administrative Safeguards''), (''PHY'', ''Physical Safeguards''),
        (''TEC'', ''Technical Safeguards''), (''PRV'', ''Privacy Rule''),
        (''BRN'', ''Breach Notification Rule'')]),
     (''GDPR'', [(''ART5'', ''Principles (Art. 5)''), (''ART6'', ''Lawful basis (Art. 6)''),
        (''CH3'', ''Data subject rights (Ch. III)''), (''ART32'', ''Security of processing (Art. 32)''),
        (''ART33'', ''Breach notification (Art. 33-34)'')]),
     (''EU AI Act'', [(''CLASS'', ''Risk classification''), (''HIGHRISK'', ''High-risk requirements''),
        (''TRANSP'', ''Transparency obligations''), (''OVERSIGHT'', ''Human oversight''),
        (''PMM'', ''Post-market monitoring'')]),
     (''NIST 800-53'', [(''AC'', ''Access Control''), (''AU'', ''Audit and Accountability''),
        (''CA'', ''Assessment, Authorization, and Monitoring''), (''CM'', ''Configuration Management''),
        (''IR'', ''Incident Response''), (''RA'', ''Risk Assessment''),
        (''SC'', ''System and Communications Protection''), (''SI'', ''System and Information Integrity'')]),
     (''NIST 800-171'', [(''3.1'', ''Access Control''), (''3.3'', ''Audit and Accountability''),
        (''3.11'', ''Risk Assessment''), (''3.13'', ''System and Communications Protection''),
        (''3.14'', ''System and Information Integrity'')]),
     (''CMMC'', [(''L1'', ''Level 1 - Foundational''), (''L2'', ''Level 2 - Advanced''),
        (''L3'', ''Level 3 - Expert'')]),
     (''SOX'', [(''302'', ''Disclosure controls (Sec. 302)''),
        (''404'', ''Internal control over financial reporting (Sec. 404)''),
        (''409'', ''Real-time disclosure (Sec. 409)'')]),
     (''FFIEC / model risk'', [(''DEV'', ''Model development''), (''VAL'', ''Model validation''),
        (''GOV'', ''Governance and controls'')]),
     (''DORA'', [(''ICTRM'', ''ICT risk management''), (''INC'', ''ICT incident reporting''),
        (''TEST'', ''Digital operational resilience testing''), (''TPRM'', ''ICT third-party risk''),
        (''INFO'', ''Information sharing'')])]"

definition REGULATIONS :: "(string \<times> string) list" where
  "REGULATIONS = [(''HIPAA'', ''United States''),
     (''GDPR'', ''European Union''),
     (''EU AI Act'', ''European Union''),
     (''SOX'', ''United States''),
     (''DORA'', ''European Union''),
     (''FFIEC / model risk'', ''United States'')]"

definition SAMPLE_REQUIREMENTS :: "(string \<times> string \<times> string \<times> string) list" where
  "SAMPLE_REQUIREMENTS = [(''NIST AI RMF'', ''GOVERN'',
      ''Establish and maintain AI governance policies, roles, and accountability.'',
      ''policy''),
     (''HIPAA'', ''TEC'',
      ''Implement technical access controls and audit logging for systems handling regulated data.'',
      ''audit_log'')]"

section \<open>Seeding\<close>

definition same_framework :: "framework \<Rightarrow> framework \<Rightarrow> bool" where
  "same_framework a b \<longleftrightarrow> fw_name a = fw_name b \<and> fw_version a = fw_version b"

definition same_control :: "control \<Rightarrow> control \<Rightarrow> bool" where
  "same_control a b \<longleftrightarrow> ctl_framework a = ctl_framework b \<and> ctl_code a = ctl_code b"

definition same_regulation :: "regulation \<Rightarrow> regulation \<Rightarrow> bool" where
  "same_regulation a b \<longleftrightarrow> reg_name a = reg_name b"

definition same_pack :: "control_pack \<Rightarrow> control_pack \<Rightarrow> bool" where
  "same_pack a b \<longleftrightarrow> sql_eq (pack_tenant a) (pack_tenant b) \<and> pack_name a = pack_name b"

definition get_or_create_framework :: "string \<Rightarrow> framework svc" where
  "get_or_create_framework name =
     ensure frameworks (\<lambda>f. fw_name f = name \<and> fw_version f = FRAMEWORK_VERSION)
       (insert_unique frameworks frameworks_update same_framework ''uq_control_framework_name_version'')
       (\<lambda>pk now. \<lparr>fw_pk = pk, fw_name = name, fw_version = FRAMEWORK_VERSION,
                  fw_description = Some CATALOG_LANGUAGE, fw_created_at = now\<rparr>)"

definition get_or_create_control :: "string \<Rightarrow> string \<Rightarrow> string \<Rightarrow> control svc" where
  "get_or_create_control framework_id code title =
     ensure controls (\<lambda>c. ctl_framework c = framework_id \<and> ctl_code c = code)
       (insert_unique controls controls_update same_control ''uq_control_framework_code'')
       (\<lambda>pk now. \<lparr>ctl_pk = pk, ctl_framework = framework_id, ctl_code = code, ctl_title = title,
                  ctl_description = Some CATALOG_LANGUAGE, ctl_created_at = now\<rparr>)"

text \<open>One framework and its controls, as entries of \<open>controls_by_key\<close>.\<close>

definition seed_framework :: "string \<times> (string \<times> string) list \<Rightarrow> ((string \<times> string) \<times> control) list svc" where
  "seed_framework entry =
     bindM (get_or_create_framework (fst entry)) (\<lambda>fw.
     gather (snd entry) (\<lambda>(code, title).
       bindM (get_or_create_control (fw_pk fw) code title) (\<lambda>ctrl. ret ((fst entry, code), ctrl))))"

definition seed_regulation :: "string \<times> string \<Rightarrow> unit svc" where
  "seed_regulation entry =
     bindM (ensure regulations (\<lambda>r. reg_name r = fst entry)
              (insert_unique regulations regulations_update same_regulation ''regulations.name'')
              (\<lambda>pk now. \<lparr>reg_pk = pk, reg_name = fst entry, reg_jurisdiction = Some (snd entry),
                         reg_description = Some CATALOG_LANGUAGE, reg_created_at = now\<rparr>))
       (\<lambda>_. ret ())"

definition seed_requirement :: "((string \<times> string) \<times> control) list \<Rightarrow> string \<times> string \<times> string \<times> string \<Rightarrow> unit svc" where
  "seed_requirement controls_by_key entry =
     (case entry of (framework_name, code, txt, evidence_type) \<Rightarrow>
      case map_of controls_by_key (framework_name, code) of
        None \<Rightarrow> ret ()
      | Some ctrl \<Rightarrow>
          bindM (ensure requirements (\<lambda>r. req_control r = ctl_pk ctrl \<and> req_text r = txt)
                   (insert_row requirements_update)
                   (\<lambda>pk now. \<lparr>req_pk = pk, req_control = ctl_pk ctrl, req_text = txt,
                              req_evidence_type = Some evidence_type, req_created_at = now\<rparr>))
            (\<lambda>_. ret ()))"

definition PACK_NAME :: string where
  "PACK_NAME = ''Healthcare AI Governance Starter''"

definition seed_pack :: "((string \<times> string) \<times> control) list \<Rightarrow> unit svc" where
  "seed_pack controls_by_key =
     bindM (ensure control_packs (\<lambda>p. pack_tenant p = None \<and> pack_name p = PACK_NAME)
              (insert_unique control_packs control_packs_update same_pack ''uq_control_pack_tenant_name'')
              (\<lambda>pk now. \<lparr>pack_pk = pk, pack_tenant = None, pack_industry = ''Healthcare'', pack_name = PACK_NAME,
                 pack_description = Some CATALOG_LANGUAGE,
                 pack_control_ids = Some (map (ctl_pk \<circ> snd) (filter (\<lambda>kc. fst (fst kc) = ''HIPAA'') controls_by_key)),
                 pack_created_at = now\<rparr>))
       (\<lambda>_. ret ())"

definition seed_control_catalog :: "unit svc" where
  "seed_control_catalog = atomic
     (bindM (gather FRAMEWORK_CONTROLS seed_framework) (\<lambda>entries.
      let controls_by_key = concat entries in
      bindM (foreach REGULATIONS seed_regulation) (\<lambda>_.
      bindM (foreach SAMPLE_REQUIREMENTS (seed_requirement controls_by_key)) (\<lambda>_.
      seed_pack controls_by_key))))"

section \<open>Reads and links\<close>

definition list_frameworks :: "world \<Rightarrow> framework list" where
  "list_frameworks w = sort_key fw_name (frameworks w)"

definition get_framework :: "string \<Rightarrow> world \<Rightarrow> framework option" where
  "get_framework k w = get_row frameworks fw_pk k w"

definition list_controls :: "string \<Rightarrow> world \<Rightarrow> control list" where
  "list_controls framework_id w = sort_key ctl_code (filter (\<lambda>c. ctl_framework c = framework_id) (controls w))"

definition get_control :: "string \<Rightarrow> world \<Rightarrow> control option" where
  "get_control k w = get_row controls ctl_pk k w"

definition list_regulations :: "world \<Rightarrow> regulation list" where
  "list_regulations w = sort_key reg_name (regulations w)"

definition same_action_control :: "action_control \<Rightarrow> action_control \<Rightarrow> bool" where
  "same_action_control a b \<longleftrightarrow> sql_eq (ac_tenant a) (ac_tenant b) \<and> ac_action a = ac_action b
     \<and> ac_control a = ac_control b"

definition create_action_control_mapping ::
  "string option \<Rightarrow> string \<Rightarrow> string \<Rightarrow> string option \<Rightarrow> string option \<Rightarrow> action_control svc" where
  "create_action_control_mapping t governed_action_id control_id regulation_id rationale =
     bindM new_id (\<lambda>pk. bindM (gets clock) (\<lambda>now.
       let row = \<lparr>ac_pk = pk, ac_tenant = t, ac_action = governed_action_id, ac_control = control_id,
                  ac_regulation = regulation_id, ac_rationale = rationale, ac_created_at = now\<rparr>
       in bindM (insert_unique action_controls action_controls_update same_action_control
                   ''uq_action_control_tenant'' row) (\<lambda>_. ret row)))"

definition list_action_control_mappings :: "string \<Rightarrow> string option \<Rightarrow> world \<Rightarrow> action_control list" where
  "list_action_control_mappings governed_action_id t w =
     filter (\<lambda>m. in_tenant ac_tenant t m \<and> ac_action m = governed_action_id) (action_controls w)"

section \<open>Interfaces and footprints\<close>

interpretation fw_seed: seed_table frameworks frameworks_update same_framework fw_ident
  by unfold_locales (auto simp: same_framework_def fw_ident_def singles_def stocked_def)

interpretation ctl_seed: seed_table controls controls_update same_control ctl_ident
  by unfold_locales (auto simp: same_control_def ctl_ident_def singles_def stocked_def)

interpretation reg_seed: seed_table regulations regulations_update same_regulation reg_ident
  by unfold_locales (auto simp: same_regulation_def reg_ident_def singles_def stocked_def)

interpretation req_seed: seed_table requirements requirements_update "\<lambda>_ _. False" req_ident
  by unfold_locales (auto simp: req_ident_def singles_def stocked_def)

interpretation pack_seed: seed_table control_packs control_packs_update same_pack pack_ident
  by unfold_locales (auto simp: same_pack_def pack_ident_def singles_def stocked_def sql_eq_def)

interpretation mapping_query: scoped_query action_controls ac_tenant
  "\<lambda>k m. ac_action m = k" "\<lambda>_. id" list_action_control_mappings
  by unfold_locales (auto simp: list_action_control_mappings_def)

lemma seed_catalog_steps [evo]:
  "TFrameworks \<in> S \<Longrightarrow> evolves (only S) (get_or_create_framework n)"
  "TControls \<in> S \<Longrightarrow> evolves (only S) (get_or_create_control k c t)"
  "TRegulations \<in> S \<Longrightarrow> evolves (only S) (seed_regulation r)"
  "TRequirements \<in> S \<Longrightarrow> evolves (only S) (seed_requirement m q)"
  "TPacks \<in> S \<Longrightarrow> evolves (only S) (seed_pack m)"
  unfolding get_or_create_framework_def get_or_create_control_def seed_regulation_def seed_requirement_def seed_pack_def
  by (intro evo; assumption)+

lemma seed_framework_only [evo]: "TFrameworks \<in> S \<Longrightarrow> TControls \<in> S \<Longrightarrow> evolves (only S) (seed_framework e)"
  unfolding seed_framework_def by (intro evo; assumption)

lemma catalog_evo [evo]:
  "{TFrameworks, TControls, TRegulations, TRequirements, TPacks} \<subseteq> S \<Longrightarrow> evolves (only S) seed_control_catalog"
  unfolding seed_control_catalog_def by (intro evo; simp)

lemma mapping_evo [evo]:
  "TActionControls \<in> S \<Longrightarrow> evolves (only S) (create_action_control_mapping t k c r x)"
  "evolves (forward E) (create_action_control_mapping t k c r x)"
  unfolding create_action_control_mapping_def by (intro evo; assumption?)+

section \<open>Properties\<close>

lemma insert_row_unique: "insert_row upd r = insert_unique rows upd (\<lambda>_ _. False) n r"
  by (auto simp: insert_row_def insert_unique_def comp fun_eq_iff list_ex_iff)

lemma fw_seeds: "seeds (\<lambda>_. True) A (get_or_create_framework n) (found frameworks fw_ident (n, FRAMEWORK_VERSION))"
  unfolding get_or_create_framework_def by (rule fw_seed.ensure_seeds) (auto simp: fw_ident_def)

lemma ctl_seeds: "seeds (\<lambda>_. True) A (get_or_create_control k c t) (found controls ctl_ident (k, c))"
  unfolding get_or_create_control_def by (rule ctl_seed.ensure_seeds) (auto simp: ctl_ident_def)

lemmas lasting_catalog = fw_seed.lasting_found ctl_seed.lasting_found

text \<open>The framework and each control of an entry of the catalog are there, once.\<close>

definition catalogued :: "string \<times> (string \<times> string) list \<Rightarrow> world \<Rightarrow> bool" where
  "catalogued entry w \<longleftrightarrow> (\<exists>f. found frameworks fw_ident (fst entry, FRAMEWORK_VERSION) f w
     \<and> (\<forall>ct \<in> set (snd entry). \<exists>c. found controls ctl_ident (fw_pk f, fst ct) c w))"

lemma lasting_catalogued: "lasting (catalogued entry)"
  unfolding lasting_def catalogued_def
proof (intro allI impI, elim exE conjE)
  fix w v f
  assume "stocked w v" "found frameworks fw_ident (fst entry, FRAMEWORK_VERSION) f w"
    and ctls: "\<forall>ct \<in> set (snd entry). \<exists>c. found controls ctl_ident (fw_pk f, fst ct) c w"
  then have "found frameworks fw_ident (fst entry, FRAMEWORK_VERSION) f v"
    using lastingD [OF lasting_catalog(1)] by blast
  moreover have "\<forall>ct \<in> set (snd entry). \<exists>c. found controls ctl_ident (fw_pk f, fst ct) c v"
    using ctls \<open>stocked w v\<close> lastingD [OF lasting_catalog(2)] by blast
  ultimately show "\<exists>f. found frameworks fw_ident (fst entry, FRAMEWORK_VERSION) f v
      \<and> (\<forall>ct \<in> set (snd entry). \<exists>c. found controls ctl_ident (fw_pk f, fst ct) c v)" by blast
qed

definition regulated :: "string \<times> string \<Rightarrow> world \<Rightarrow> bool" where
  "regulated entry w \<longleftrightarrow> (\<exists>r. found regulations reg_ident (fst entry) r w)"

lemma lasting_regulated: "lasting (regulated entry)"
  unfolding lasting_def regulated_def using lastingD [OF reg_seed.lasting_found] by blast

lemma seed_framework_seeds: "seeds (\<lambda>_. True) (\<lambda>_. True) (seed_framework entry) (\<lambda>_. catalogued entry)"
proof -
  let ?F = "found frameworks fw_ident (fst entry, FRAMEWORK_VERSION)"
  let ?A = "\<lambda>f w. True \<and> ?F f w"
  let ?C = "\<lambda>f ct w. \<exists>c. found controls ctl_ident (fw_pk f, fst ct) c w"
  have A: "lasting (?A f)" for f by (rule lasting_conj [OF lasting_True lasting_catalog(1)])
  have C: "lasting (?C f ct)" for f ct
    unfolding lasting_def using lastingD [OF lasting_catalog(2)] by blast
  have one: "seeds (\<lambda>_. True) (?A f) (case ct of (code, title) \<Rightarrow>
      bindM (get_or_create_control (fw_pk f) code title) (\<lambda>ctrl. ret ((fst entry, code), ctrl))) (\<lambda>_. ?C f ct)" for f ct
    by (cases ct, simp only: prod.case, rule seeds_then [OF ctl_seeds A], rule seeds_ret)
      (auto intro: lasting_conj A lasting_catalog)
  have "seeds (\<lambda>_. True) (?A f) (gather (snd entry) (\<lambda>(code, title).
      bindM (get_or_create_control (fw_pk f) code title) (\<lambda>ctrl. ret ((fst entry, code), ctrl))))
      (\<lambda>ys u. list_all2 (\<lambda>ct y. ?C f ct u) (snd entry) ys)" for f
    by (rule seeds_gather [OF A C one])
  then show ?thesis
    unfolding seed_framework_def
    by (rule seeds_mono [OF seeds_bind [OF fw_seeds lasting_True]])
      (auto simp: catalogued_def dest!: list_all2_left)
qed

definition catalog_there :: "world \<Rightarrow> bool" where
  "catalog_there w \<longleftrightarrow> list_all (\<lambda>entry. catalogued entry w) FRAMEWORK_CONTROLS
     \<and> list_all (\<lambda>entry. regulated entry w) REGULATIONS"

lemma seed_regulation_seeds:
  assumes "lasting B"
  shows "seeds (\<lambda>_. True) B (seed_regulation r) (\<lambda>_. regulated r)"
proof -
  have step: "seeds (\<lambda>_. True) B (ensure regulations (\<lambda>x. reg_name x = fst r)
        (insert_unique regulations regulations_update same_regulation ''regulations.name'')
        (\<lambda>pk now. \<lparr>reg_pk = pk, reg_name = fst r, reg_jurisdiction = Some (snd r),
                   reg_description = Some CATALOG_LANGUAGE, reg_created_at = now\<rparr>)) (found regulations reg_ident (fst r))"
    by (rule reg_seed.ensure_seeds) (auto simp: reg_ident_def)
  show ?thesis
    unfolding seed_regulation_def
    by (rule seeds_then [OF step assms], rule seeds_ret)
      (auto simp: regulated_def intro: lasting_conj assms reg_seed.lasting_found)
qed

lemma seed_requirement_seeds:
  assumes "lasting B"
  shows "seeds (\<lambda>_. True) B (seed_requirement m r) (\<lambda>_ _. True)"
proof (cases "map_of m (fst r, fst (snd r))")
  case None
  then show ?thesis by (auto simp: seed_requirement_def seeds_def ret_def split: prod.split)
next
  case (Some c)
  then show ?thesis
    unfolding seed_requirement_def insert_row_unique [of requirements_update _ requirements "[]", abs_def]
    by (cases r, simp, intro seeds_then [OF req_seed.ensure_seeds assms])
      (auto simp: req_ident_def seeds_def ret_def)
qed

lemma seed_pack_seeds:
  assumes "lasting B"
  shows "seeds (\<lambda>_. True) B (seed_pack m) (\<lambda>_ _. True)"
  unfolding seed_pack_def
  by (rule seeds_then [OF pack_seed.ensure_seeds assms], auto simp: pack_ident_def)
    (auto simp: seeds_def ret_def)

lemma seed_catalog_seeds: "seeds (\<lambda>_. True) (\<lambda>_. True) seed_control_catalog (\<lambda>_. catalog_there)"
proof -
  let ?all = "\<lambda>ys u. list_all2 (\<lambda>entry y. catalogued entry u) FRAMEWORK_CONTROLS (ys :: ((string \<times> string) \<times> control) list list)"
  let ?A = "\<lambda>ys w. True \<and> ?all ys w"
  let ?B = "\<lambda>ys w. ?A ys w \<and> (\<forall>r \<in> set REGULATIONS. regulated r w)"
  let ?C = "\<lambda>ys w. ?B ys w \<and> (\<forall>x \<in> set SAMPLE_REQUIREMENTS. True)"
  have A: "lasting (?A ys)" for ys by (rule lasting_conj [OF lasting_True lasting_list [OF lasting_catalogued]])
  have B: "lasting (?B ys)" for ys
    by (rule lasting_conj [OF A]) (use lastingD [OF lasting_regulated] in \<open>auto simp: lasting_def\<close>)
  have C: "lasting (?C ys)" for ys using B by simp
  have rest: "seeds (\<lambda>_. True) (?A ys)
      (let m = concat ys in bindM (foreach REGULATIONS seed_regulation) (\<lambda>_.
         bindM (foreach SAMPLE_REQUIREMENTS (seed_requirement m)) (\<lambda>_. seed_pack m))) (\<lambda>_ w. ?C ys w \<and> True)" for ys
    unfolding Let_def
    by (rule seeds_then [OF seeds_foreach [OF A seed_regulation_seeds [OF A]] A],
        rule seeds_then [OF seeds_foreach [OF B seed_requirement_seeds [OF B]] B],
        rule seeds_keep [OF seed_pack_seeds [OF C] C])
  show ?thesis
    unfolding seed_control_catalog_def
    by (rule seeds_atomic, rule seeds_mono [OF seeds_bind [OF
          seeds_gather [OF lasting_True lasting_catalogued seed_framework_seeds] lasting_True rest]])
      (auto simp: catalog_there_def list_all_iff dest!: list_all2_left)
qed

text \<open>The catalog seeding is total and idempotent. From any state with single natural keys (an
  empty database is one) it succeeds, each framework of the catalog is then there exactly once with
  each of its controls exactly once, so is each regulation, and running it again changes nothing.\<close>

theorem seed_catalog_complete:
  assumes "singles w"
  shows "\<exists>v. seed_control_catalog w = (Inr (), v) \<and> seed_control_catalog v = (Inr (), v) \<and> singles v
     \<and> list_all (\<lambda>entry. catalogued entry v) FRAMEWORK_CONTROLS \<and> list_all (\<lambda>entry. regulated entry v) REGULATIONS"
proof -
  obtain v where "seed_control_catalog w = (Inr (), v)" "singles v"
    "\<And>u. stocked v u \<Longrightarrow> seed_control_catalog u = (Inr (), u)"
    "\<And>u. stocked v u \<Longrightarrow> catalog_there u"
    by (rule seedsE [OF seed_catalog_seeds assms TrueI TrueI]) (rule that; simp)
  then show ?thesis using stocked_refl unfolding catalog_there_def by blast
qed

theorem seed_catalog_complete_witness:
  "\<exists>v. seed_control_catalog empty_world = (Inr (), v) \<and> frameworks v \<noteq> []"
proof -
  obtain v where v: "seed_control_catalog empty_world = (Inr (), v)"
    "list_all (\<lambda>entry. catalogued entry v) FRAMEWORK_CONTROLS"
    using seed_catalog_complete [OF singles_empty] by blast
  then have "catalogued (hd FRAMEWORK_CONTROLS) v" by (simp add: FRAMEWORK_CONTROLS_def)
  then show ?thesis using v(1) found_in [of frameworks] by (fastforce simp: catalogued_def)
qed

end
