(* ===== verification/EvidencePacket.thy ===== *)
theory EvidencePacket
  imports ControlCatalog PyFormat
begin

text \<open>
  services/evidence_packet.py: the exportable packet of an action, a workflow or a tenant, put
  together from the evidence graphs of its actions and the verification of the audit trail, and its
  two exports. A packet is a record with the keys of the source's dictionary; \<open>packet_json\<close> is that
  dictionary.
\<close>

definition DISCLAIMER :: string where
  "DISCLAIMER = ''This packet supports evidence collection, control mapping, audit readiness, and governance workflows. It is provided for audit-readiness and governance review only and is not a certification, guarantee, or regulatory determination of compliance.''"

section \<open>Audit verification of the scope\<close>

record chain_view =
  cv_scope :: string
  cv_status :: string
  cv_ok :: bool
  cv_verified_count :: nat
  cv_total_count :: nat
  cv_reason :: "string option"
  cv_broken_at_seq :: "int option"

definition chain_view_of :: "string \<Rightarrow> chain_result \<Rightarrow> chain_view" where
  "chain_view_of scope r =
     \<lparr>cv_scope = scope, cv_status = cr_status r, cv_ok = chain_result_ok r,
      cv_verified_count = cr_verified_count r, cv_total_count = cr_total_count r,
      cv_reason = cr_reason r, cv_broken_at_seq = cr_broken_at_seq r\<rparr>"

definition packet_verify :: "env \<Rightarrow> string option \<Rightarrow> world \<Rightarrow> chain_view" where
  "packet_verify E t w =
     (case t of
        Some tid \<Rightarrow> chain_view_of ''tenant_self_hash'' (verify_tenant_events E tid (audit_events w))
      | None \<Rightarrow> chain_view_of ''global_chain'' (verify_chain E (audit_events w)))"

section \<open>The entries of one graph\<close>

fun APPROVAL_STATUS_MAP :: "approval_status \<Rightarrow> string" where
  "APPROVAL_STATUS_MAP ApprovalPending = ''pending_approval''"
| "APPROVAL_STATUS_MAP ApprovalApproved = ''approved''"
| "APPROVAL_STATUS_MAP ApprovalRejected = ''rejected''"

definition effective_action_status :: "governed_action \<Rightarrow> approval option \<Rightarrow> string" where
  "effective_action_status action appr =
     (if ga_status action = ''override_recorded'' then ''override_recorded''
      else case appr of Some a \<Rightarrow> APPROVAL_STATUS_MAP (appr_status a) | None \<Rightarrow> ga_status action)"

record pkt_action =
  pa_id :: string
  pa_action_type :: string
  pa_status :: string

record pkt_approval =
  pp_action :: string
  pp_id :: string
  pp_status :: string

record pkt_decision =
  pd_action :: string
  pd_policy_version :: "string option"
  pd_policy_version_id :: "string option"
  pd_decision :: "string option"

record job_ref =
  jr_id :: string
  jr_status :: string

record pkt_execution =
  px_action :: string
  px_source_job :: "job_ref option"
  px_execution_job :: "job_ref option"

record pkt_event =
  pv_id :: string
  pv_seq :: "int option"
  pv_action :: string
  pv_resource_type :: string
  pv_resource_id :: string

record pkt_control =
  pc_action :: string
  pc_code :: "string option"
  pc_title :: "string option"
  pc_framework :: "string option"

record pkt_artifact =
  pf_action :: string
  pf_id :: string
  pf_type :: string
  pf_uri :: "string option"

record pkt_override =
  po_action :: string
  po_id :: string
  po_by :: "string option"
  po_reason :: string
  po_authority_basis :: string
  po_accepted_risk :: "string option"
  po_compensating_control :: string
  po_expiration :: "string option"
  po_status :: string

definition action_entry :: "graph \<Rightarrow> pkt_action" where
  "action_entry g =
     \<lparr>pa_id = ga_pk (g_action g), pa_action_type = ga_action_type (g_action g),
      pa_status = effective_action_status (g_action g) (g_approval g)\<rparr>"

definition approval_entries :: "graph \<Rightarrow> pkt_approval list" where
  "approval_entries g =
     (case g_approval g of
        None \<Rightarrow> []
      | Some a \<Rightarrow> [\<lparr>pp_action = ga_pk (g_action g), pp_id = appr_pk a,
                   pp_status = approval_status_value (appr_status a)\<rparr>])"

definition decision_entry :: "graph \<Rightarrow> pkt_decision" where
  "decision_entry g =
     \<lparr>pd_action = ga_pk (g_action g), pd_policy_version = g_policy_version g,
      pd_policy_version_id = ga_policy_version_id (g_action g), pd_decision = g_policy_decision g\<rparr>"

definition job_ref_of :: "job \<Rightarrow> job_ref" where
  "job_ref_of j = \<lparr>jr_id = job_pk j, jr_status = job_status_value (job_status j)\<rparr>"

definition execution_entry :: "graph \<Rightarrow> pkt_execution" where
  "execution_entry g =
     \<lparr>px_action = ga_pk (g_action g), px_source_job = map_option job_ref_of (g_source_job g),
      px_execution_job = map_option job_ref_of (g_execution_job g)\<rparr>"

definition event_entry :: "audit_event \<Rightarrow> pkt_event" where
  "event_entry e =
     \<lparr>pv_id = ae_pk e, pv_seq = ae_seq e, pv_action = ae_action e,
      pv_resource_type = ae_resource_type e, pv_resource_id = ae_resource_id e\<rparr>"

definition control_entry :: "graph \<Rightarrow> mapping_view \<Rightarrow> pkt_control" where
  "control_entry g m =
     \<lparr>pc_action = ga_pk (g_action g), pc_code = map_option ctl_code (mv_control m),
      pc_title = map_option ctl_title (mv_control m), pc_framework = map_option fw_name (mv_framework m)\<rparr>"

definition artifact_entry :: "graph \<Rightarrow> artifact \<Rightarrow> pkt_artifact" where
  "artifact_entry g a =
     \<lparr>pf_action = ga_pk (g_action g), pf_id = art_pk a, pf_type = art_type a, pf_uri = art_uri a\<rparr>"

definition override_entry :: "graph \<Rightarrow> override \<Rightarrow> pkt_override" where
  "override_entry g ov =
     \<lparr>po_action = ga_pk (g_action g), po_id = ov_pk ov, po_by = ov_by ov, po_reason = ov_reason ov,
      po_authority_basis = ov_authority_basis ov, po_accepted_risk = ov_accepted_risk ov,
      po_compensating_control = ov_compensating_control ov,
      po_expiration = map_option isoformat (ov_expiration ov), po_status = ov_status ov\<rparr>"

definition regulation_names :: "graph \<Rightarrow> string list" where
  "regulation_names g = List.map_filter (\<lambda>m. map_option reg_name (mv_regulation m)) (g_control_mappings g)"

definition graph_gaps :: "graph \<Rightarrow> string list" where
  "graph_gaps g =
     (if g_approval g = None then [''missing_approval''] else [])
     @ (if g_audit_events g = [] then [''missing_audit_records''] else [])
     @ (if g_control_mappings g = [] then [''missing_control_mappings''] else [])
     @ (if g_artifacts g = [] then [''missing_evidence_artifacts''] else [])"

section \<open>Assembly\<close>

record packet =
  p_type :: string
  p_scope_id :: "string option"
  p_tenant :: "string option"
  p_generated_at :: string
  p_workflow :: "(string \<times> string) option"
  p_time_range :: "(string option \<times> string option) option"
  p_actions :: "pkt_action list"
  p_approvals :: "pkt_approval list"
  p_decisions :: "pkt_decision list"
  p_executions :: "pkt_execution list"
  p_events :: "pkt_event list"
  p_chain :: chain_view
  p_controls :: "pkt_control list"
  p_regulations :: "string list"
  p_artifacts :: "pkt_artifact list"
  p_overrides :: "pkt_override list"
  p_gaps :: "string list"
  p_disclaimer :: string
  p_summary :: string

definition sorted_set :: "string list \<Rightarrow> string list" where
  "sorted_set xs = sort (remdups xs)"

definition packet_summary :: "packet \<Rightarrow> string" where
  "packet_summary p =
     ''Evidence packet ('' @ p_type p @ '') for tenant '' @ str_opt (p_tenant p) @ '': ''
     @ str_nat (length (p_actions p)) @ '' governed action(s), '' @ str_nat (length (p_approvals p)) @ '' approval(s), ''
     @ str_nat (length (p_events p)) @ '' audit event(s), '' @ str_nat (length (p_controls p)) @ '' mapped control(s), ''
     @ str_nat (length (p_artifacts p)) @ '' evidence artifact(s). Audit chain verification: '' @ cv_status (p_chain p) @ ''. ''
     @ str_nat (length (p_gaps p)) @ '' evidence gap(s) identified. This packet '' @ CATALOG_LANGUAGE @ ''.''"

definition assemble ::
  "env \<Rightarrow> string \<Rightarrow> string option \<Rightarrow> string option \<Rightarrow> graph list \<Rightarrow> workflow option
   \<Rightarrow> (string option \<times> string option) option \<Rightarrow> world \<Rightarrow> packet" where
  "assemble E packet_type scope_id t graphs flow time_range w =
     (let verification = packet_verify E t w;
          gaps = concat (map graph_gaps graphs)
                 @ (if cv_status verification = ''failed'' then [''broken_audit_chain''] else []);
          p = \<lparr>p_type = packet_type, p_scope_id = scope_id, p_tenant = t, p_generated_at = isoformat (clock w),
               p_workflow = map_option (\<lambda>f. (wf_pk f, wf_name f)) flow, p_time_range = time_range,
               p_actions = map action_entry graphs, p_approvals = concat (map approval_entries graphs),
               p_decisions = map decision_entry graphs, p_executions = map execution_entry graphs,
               p_events = concat (map (\<lambda>g. map event_entry (g_audit_events g)) graphs),
               p_chain = verification,
               p_controls = concat (map (\<lambda>g. map (control_entry g) (g_control_mappings g)) graphs),
               p_regulations = sorted_set (concat (map regulation_names graphs)),
               p_artifacts = concat (map (\<lambda>g. map (artifact_entry g) (g_artifacts g)) graphs),
               p_overrides = concat (map (\<lambda>g. map (override_entry g) (g_overrides g)) graphs),
               p_gaps = sorted_set gaps, p_disclaimer = DISCLAIMER, p_summary = []\<rparr>
      in p\<lparr>p_summary := packet_summary p\<rparr>)"

section \<open>Packet builders\<close>

definition build_action_packet :: "env \<Rightarrow> string \<Rightarrow> string option \<Rightarrow> world \<Rightarrow> packet option" where
  "build_action_packet E governed_action_id t w =
     (case get_evidence_graph governed_action_id t w of
        None \<Rightarrow> None
      | Some g \<Rightarrow> Some (assemble E ''governed_action'' (Some governed_action_id) t [g] (g_workflow g) None w))"

definition graphs_of :: "governed_action list \<Rightarrow> string option \<Rightarrow> world \<Rightarrow> graph list" where
  "graphs_of actions t w = List.map_filter (\<lambda>a. get_evidence_graph (ga_pk a) t w) actions"

definition build_workflow_packet :: "env \<Rightarrow> string \<Rightarrow> string option \<Rightarrow> world \<Rightarrow> packet option" where
  "build_workflow_packet E workflow_id t w =
     (case get_workflow workflow_id t w of
        None \<Rightarrow> None
      | Some flow \<Rightarrow>
          Some (assemble E ''workflow'' (Some workflow_id) t
            (graphs_of (list_governed_actions t (Some workflow_id) None None w) t w) (Some flow) None w))"

definition build_tenant_packet :: "env \<Rightarrow> string \<Rightarrow> time option \<Rightarrow> time option \<Rightarrow> world \<Rightarrow> packet" where
  "build_tenant_packet E t start_at end_at w =
     assemble E ''tenant'' (Some t) (Some t)
       (graphs_of (list_governed_actions (Some t) None start_at end_at w) (Some t) w) None
       (if start_at = None \<and> end_at = None then None
        else Some (map_option isoformat start_at, map_option isoformat end_at)) w"

section \<open>Exports\<close>

definition job_ref_json :: "job_ref option \<Rightarrow> json" where
  "job_ref_json j = (case j of None \<Rightarrow> JNull
     | Some r \<Rightarrow> JObj [(''id'', JStr (jr_id r)), (''status'', JStr (jr_status r))])"

definition opt_int_json :: "int option \<Rightarrow> json" where
  "opt_int_json x = (case x of None \<Rightarrow> JNull | Some i \<Rightarrow> JInt i)"

definition chain_view_json :: "chain_view \<Rightarrow> json" where
  "chain_view_json v =
     JObj [(''scope'', JStr (cv_scope v)), (''status'', JStr (cv_status v)), (''ok'', JBool (cv_ok v)),
       (''verified_count'', JInt (int (cv_verified_count v))), (''total_count'', JInt (int (cv_total_count v))),
       (''reason'', jopt (cv_reason v)), (''broken_at_seq'', opt_int_json (cv_broken_at_seq v))]"

definition override_json :: "pkt_override \<Rightarrow> json" where
  "override_json o' =
     JObj [(''governed_action_id'', JStr (po_action o')), (''id'', JStr (po_id o')),
       (''overridden_by_user_id'', jopt (po_by o')), (''reason'', JStr (po_reason o')),
       (''authority_basis'', JStr (po_authority_basis o')), (''accepted_risk'', jopt (po_accepted_risk o')),
       (''compensating_control'', JStr (po_compensating_control o')),
       (''expiration'', jopt (po_expiration o')), (''status'', JStr (po_status o'))]"

definition packet_json :: "packet \<Rightarrow> dict" where
  "packet_json p =
    [(''packet_type'', JStr (p_type p)), (''scope_id'', jopt (p_scope_id p)), (''tenant_id'', jopt (p_tenant p)),
     (''generated_at'', JStr (p_generated_at p)), (''tenant'', JObj [(''id'', jopt (p_tenant p))]),
     (''workflow'', case p_workflow p of None \<Rightarrow> JNull | Some (k, n) \<Rightarrow> JObj [(''id'', JStr k), (''name'', JStr n)]),
     (''time_range'', case p_time_range p of None \<Rightarrow> JNull
        | Some (s, e) \<Rightarrow> JObj [(''start_at'', jopt s), (''end_at'', jopt e)]),
     (''governed_actions'', JArr (map (\<lambda>a. JObj [(''id'', JStr (pa_id a)),
        (''action_type'', JStr (pa_action_type a)), (''status'', JStr (pa_status a))]) (p_actions p))),
     (''approvals'', JArr (map (\<lambda>a. JObj [(''governed_action_id'', JStr (pp_action a)),
        (''id'', JStr (pp_id a)), (''status'', JStr (pp_status a))]) (p_approvals p))),
     (''policy_decisions'', JArr (map (\<lambda>d. JObj [(''governed_action_id'', JStr (pd_action d)),
        (''policy_version'', jopt (pd_policy_version d)), (''policy_version_id'', jopt (pd_policy_version_id d)),
        (''decision'', jopt (pd_decision d))]) (p_decisions p))),
     (''execution_history'', JArr (map (\<lambda>x. JObj [(''governed_action_id'', JStr (px_action x)),
        (''source_job'', job_ref_json (px_source_job x)), (''execution_job'', job_ref_json (px_execution_job x))]) (p_executions p))),
     (''audit_events'', JArr (map (\<lambda>e. JObj [(''id'', JStr (pv_id e)), (''seq'', opt_int_json (pv_seq e)),
        (''action'', JStr (pv_action e)), (''resource_type'', JStr (pv_resource_type e)),
        (''resource_id'', JStr (pv_resource_id e))]) (p_events p))),
     (''audit_chain_verification'', chain_view_json (p_chain p)),
     (''mapped_controls'', JArr (map (\<lambda>c. JObj [(''governed_action_id'', JStr (pc_action c)),
        (''code'', jopt (pc_code c)), (''title'', jopt (pc_title c)), (''framework'', jopt (pc_framework c))]) (p_controls p))),
     (''mapped_regulations'', jstrs (p_regulations p)),
     (''evidence_artifacts'', JArr (map (\<lambda>a. JObj [(''governed_action_id'', JStr (pf_action a)),
        (''id'', JStr (pf_id a)), (''artifact_type'', JStr (pf_type a)), (''uri'', jopt (pf_uri a))]) (p_artifacts p))),
     (''overrides'', JArr (map override_json (p_overrides p))),
     (''evidence_gaps'', jstrs (p_gaps p)), (''disclaimer'', JStr (p_disclaimer p)),
     (''executive_summary'', JStr (p_summary p))]"

definition render_json :: "packet \<Rightarrow> string" where
  "render_json p = dumps_pretty (JObj (packet_json p)) 0"

definition code_span :: "string \<Rightarrow> string" where
  "code_span s = ''('' @ [chr 96] @ s @ [chr 96] @ '')''"

definition override_line :: "pkt_override \<Rightarrow> string" where
  "override_line o' =
     str_opt (po_accepted_risk o') @ '' risk accepted by '' @ str_opt (po_by o') @ '' '' @ EM_DASH @ '' ''
     @ ''authority: '' @ po_authority_basis o' @ ''; control: '' @ po_compensating_control o'
     @ (case po_expiration o' of None \<Rightarrow> [] | Some x \<Rightarrow> if x = [] then [] else ''; expires '' @ x)
     @ '' '' @ code_span (po_id o')"

definition render_markdown :: "packet \<Rightarrow> string" where
  "render_markdown p =
    (let v = p_chain p in join [chr 10]
      ([''# Evidence Packet '' @ EM_DASH @ '' '' @ p_type p, [], ''_Generated: '' @ p_generated_at p @ ''_'', [],
        ''## Executive summary'', p_summary p, [], ''**Tenant:** '' @ str_opt (p_tenant p),
        ''**Scope id:** '' @ str_opt (p_scope_id p)]
       @ (case p_workflow p of None \<Rightarrow> [] | Some (k, n) \<Rightarrow> [''**Workflow:** '' @ n @ '' '' @ code_span k])
       @ [[], ''## Audit chain verification'', ''- scope: '' @ cv_scope v,
          ''- status: **'' @ cv_status v @ ''** (verified '' @ str_nat (cv_verified_count v) @ ''/'' @ str_nat (cv_total_count v) @ '')'',
          (case cv_reason v of Some r \<Rightarrow> if r = [] then ''- reason: none'' else ''- reason: '' @ r | None \<Rightarrow> ''- reason: none''),
          [], ''## Governed actions'',
          md_list (map (\<lambda>a. pa_action_type a @ '' '' @ EM_DASH @ '' '' @ pa_status a @ '' '' @ code_span (pa_id a)) (p_actions p)),
          [], ''## Approvals'', md_list (map (\<lambda>a. pp_status a @ '' '' @ code_span (pp_id a)) (p_approvals p)),
          [], ''## Human overrides'', md_list (map override_line (p_overrides p)),
          [], ''## Policy decisions'',
          md_list (map (\<lambda>d. str_opt (pd_decision d) @ '' (version '' @ str_opt (pd_policy_version d) @ '')'') (p_decisions p)),
          [], ''## Execution history'',
          md_list (map (\<lambda>x. ''action '' @ px_action x @ '': source='' @ py_str (job_ref_json (px_source_job x))
            @ '' execution='' @ py_str (job_ref_json (px_execution_job x))) (p_executions p)),
          [], ''## Audit events'',
          md_list (map (\<lambda>e. ''#'' @ str_opt_int (pv_seq e) @ '' '' @ pv_action e @ '' '' @ ARROW @ '' ''
            @ pv_resource_type e @ '':'' @ pv_resource_id e) (p_events p)),
          [], ''## Mapped controls'',
          md_list (map (\<lambda>c. str_opt (pc_framework c) @ '' '' @ str_opt (pc_code c) @ '' '' @ EM_DASH @ '' '' @ str_opt (pc_title c)) (p_controls p)),
          [], ''## Mapped regulations'', md_list (p_regulations p),
          [], ''## Evidence artifacts'',
          md_list (map (\<lambda>a. pf_type a @ '' '' @ EM_DASH @ '' '' @ str_opt (pf_uri a)) (p_artifacts p)),
          [], ''## Evidence gaps'', md_list (p_gaps p),
          [], ''---'', ''_'' @ p_disclaimer p @ ''_'']))"

section \<open>What a packet reports\<close>

lemma tenant_verify_same:
  assumes "own ae_tenant t es = own ae_tenant t fs"
  shows "verify_tenant_events E t es = verify_tenant_events E t fs"
proof -
  have "filter (\<lambda>e. ae_tenant e = Some t \<and> hashed e) xs = filter hashed (own ae_tenant t xs)" for xs
    by (simp add: own_def conj_commute cong: conj_cong)
  then show ?thesis using assms by (simp add: verify_tenant_events_def)
qed

lemma graphs_same:
  assumes "same_for t w v" and "keyed_tables w" and "keyed_tables v"
  shows "graphs_of as (Some t) w = graphs_of as (Some t) v"
  by (simp add: graphs_of_def graph_same [OF assms])

lemma assemble_same:
  assumes "same_for t w v" and "clock w = clock v"
  shows "assemble E ty sid (Some t) gs f tr w = assemble E ty sid (Some t) gs f tr v"
proof -
  have "packet_verify E (Some t) w = packet_verify E (Some t) v"
    using tenant_verify_same [of t "audit_events w" "audit_events v" E] assms(1)
    by (simp add: packet_verify_def same_for_def)
  then show ?thesis using assms(2) by (simp add: assemble_def)
qed

text \<open>C31: a packet never mixes tenants: its three builders are functions of the tenant's own rows, the shared
  catalog and the time, so whatever other tenants hold, and whatever they add or break in the shared
  audit trail, the packet is the same.\<close>

theorem packet_isolated:
  assumes "same_for t w v" and "keyed_tables w" and "keyed_tables v" and "clock w = clock v"
  shows "build_action_packet E aid (Some t) w = build_action_packet E aid (Some t) v
    \<and> build_workflow_packet E wid (Some t) w = build_workflow_packet E wid (Some t) v
    \<and> build_tenant_packet E t s e w = build_tenant_packet E t s e v"
  by (simp add: build_action_packet_def build_workflow_packet_def build_tenant_packet_def
      assemble_same [OF assms(1,4)] graph_same [OF assms(1-3)] graphs_same [OF assms(1-3)]
      scoped_reads_same [OF assms(1-3)] cong: option.case_cong)

lemma gap_list:
  "sorted_set ((if a then [''missing_approval''] else []) @ (if b then [''missing_audit_records''] else [])
     @ (if c then [''missing_control_mappings''] else []) @ (if d then [''missing_evidence_artifacts''] else [])
     @ (if x then [''broken_audit_chain''] else []))
   = (if x then [''broken_audit_chain''] else []) @ (if a then [''missing_approval''] else [])
     @ (if b then [''missing_audit_records''] else []) @ (if c then [''missing_control_mappings''] else [])
     @ (if d then [''missing_evidence_artifacts''] else [])"
  by (cases a; cases b; cases c; cases d; cases x; simp only: if_True if_False append.simps; code_simp)

text \<open>The gaps a packet reports are the gaps there are. The packet of an action exists exactly when the
  caller can see the action; its sorted list of gaps names a missing approval, missing audit records,
  controls or artifacts exactly when the graph has none, and a broken trail exactly when the
  verification failed; and the status shown follows the approval unless an override was recorded.\<close>

theorem action_packet_gaps:
  "case build_action_packet E aid t w of
     None \<Rightarrow> get_governed_action aid t w = None
   | Some p \<Rightarrow> (case get_evidence_graph aid t w of None \<Rightarrow> False | Some g \<Rightarrow>
       p_gaps p = (if cv_status (packet_verify E t w) = ''failed'' then [''broken_audit_chain''] else [])
         @ (if g_approval g = None then [''missing_approval''] else [])
         @ (if g_audit_events g = [] then [''missing_audit_records''] else [])
         @ (if g_control_mappings g = [] then [''missing_control_mappings''] else [])
         @ (if g_artifacts g = [] then [''missing_evidence_artifacts''] else [])
       \<and> map pa_status (p_actions p) = [if ga_status (g_action g) = ''override_recorded'' then ''override_recorded''
           else case g_approval g of None \<Rightarrow> ga_status (g_action g)
             | Some a \<Rightarrow> (case appr_status a of ApprovalPending \<Rightarrow> ''pending_approval''
                 | ApprovalApproved \<Rightarrow> ''approved'' | ApprovalRejected \<Rightarrow> ''rejected'')])"
proof (cases "get_evidence_graph aid t w")
  case None
  then show ?thesis by (simp add: build_action_packet_def get_evidence_graph_def Let_def split: option.splits)
next
  case (Some g)
  have "APPROVAL_STATUS_MAP st = (case st of ApprovalPending \<Rightarrow> ''pending_approval''
      | ApprovalApproved \<Rightarrow> ''approved'' | ApprovalRejected \<Rightarrow> ''rejected'')" for st
    by (cases st) simp_all
  with Some show ?thesis
    by (simp add: build_action_packet_def assemble_def Let_def graph_gaps_def gap_list action_entry_def
        effective_action_status_def del: append.simps cong: option.case_cong)
qed

lemma graph_of_own:
  assumes "distinct (map ga_pk (governed_actions w))" and "a \<in> set (governed_actions w)" and "in_tenant ga_tenant t a"
  shows "\<exists>g. get_evidence_graph (ga_pk a) t w = Some g \<and> g_action g = a"
proof -
  have "get_row governed_actions ga_pk (ga_pk a) w = Some a"
    using assms(1,2) by (simp add: get_row_def tget_Some_iff)
  then show ?thesis
    using assms(3) by (simp add: get_evidence_graph_def get_governed_action_def scoped_row_def in_tenant_def Let_def)
qed

lemma graphs_of_actions:
  assumes "distinct (map ga_pk (governed_actions w))"
    and "list_all (\<lambda>a. a \<in> set (governed_actions w) \<and> in_tenant ga_tenant t a) as"
  shows "map g_action (graphs_of as t w) = as"
  using assms(2)
proof (induction as)
  case (Cons a as)
  obtain g where "get_evidence_graph (ga_pk a) t w = Some g" "g_action g = a"
    using graph_of_own [OF assms(1), of a t] Cons.prems by auto
  with Cons show ?case by (simp add: graphs_of_def List.map_filter_simps)
qed (simp add: graphs_of_def List.map_filter_simps)

text \<open>The packet of a tenant is complete and clean: it lists every action of the tenant in the time
  range, in order and once, each with the version it was bound to, and every audit event it shows is
  one of the tenant's own.\<close>

theorem tenant_packet_complete:
  assumes "distinct (map ga_pk (governed_actions w))"
  shows "(let p = build_tenant_packet E t s e w; as = list_governed_actions (Some t) None s e w in
      map pa_id (p_actions p) = map ga_pk as
    \<and> map pd_policy_version_id (p_decisions p) = map ga_policy_version_id as
    \<and> set (map pv_id (p_events p)) \<subseteq> set (map ae_pk (own ae_tenant t (audit_events w))))"
proof -
  let ?as = "list_governed_actions (Some t) None s e w"
  let ?gs = "graphs_of ?as (Some t) w"
  have "list_all (\<lambda>a. a \<in> set (governed_actions w) \<and> in_tenant ga_tenant (Some t) a) ?as"
    using action_query.query_owned [of _ "(None, s, e)" "Some t" w] by (auto simp: list_all_iff in_tenant_def)
  then have gs: "map g_action ?gs = ?as" by (rule graphs_of_actions [OF assms])
  have ev: "set (g_audit_events g) \<subseteq> set (own ae_tenant t (audit_events w))" if "g \<in> set ?gs" for g
  proof -
    from that obtain k where "get_evidence_graph k (Some t) w = Some g"
      by (auto simp: graphs_of_def List.map_filter_def)
    then have "g_audit_events g = action_events (g_action g) (Some t) w"
      by (auto simp: get_evidence_graph_def Let_def split: option.splits)
    then show ?thesis using event_query.query_owned [of _ "g_action g" "Some t" w] by (auto simp: own_def)
  qed
  have ids: "map ga_pk ?as = map (\<lambda>g. ga_pk (g_action g)) ?gs"
    "map ga_policy_version_id ?as = map (\<lambda>g. ga_policy_version_id (g_action g)) ?gs"
    using arg_cong [OF gs, of "map ga_pk"] arg_cong [OF gs, of "map ga_policy_version_id"]
    by (simp_all add: o_def)
  let ?p = "build_tenant_packet E t s e w"
  have "p_actions ?p = map action_entry ?gs" "p_decisions ?p = map decision_entry ?gs"
    and evs: "p_events ?p = concat (map (\<lambda>g. map event_entry (g_audit_events g)) ?gs)"
    by (simp_all add: build_tenant_packet_def assemble_def Let_def)
  then have "map pa_id (p_actions ?p) = map ga_pk ?as"
    and "map pd_policy_version_id (p_decisions ?p) = map ga_policy_version_id ?as"
    by (simp_all add: ids o_def action_entry_def decision_entry_def)
  moreover have "set (map pv_id (p_events ?p)) \<subseteq> set (map ae_pk (own ae_tenant t (audit_events w)))"
  proof
    fix k
    assume "k \<in> set (map pv_id (p_events ?p))"
    then obtain g x where "g \<in> set ?gs" "x \<in> set (g_audit_events g)" "k = ae_pk x"
      unfolding evs by (auto simp: event_entry_def)
    then show "k \<in> set (map ae_pk (own ae_tenant t (audit_events w)))" using ev by fastforce
  qed
  ultimately show ?thesis unfolding Let_def by blast
qed

text \<open>A tenant with an approved review, beside another tenant's rows.\<close>

definition sample_review_world :: world where
  "sample_review_world = empty_world\<lparr>
     governed_actions := [sample_action (uuid 2) ''t1'' ''pending'', sample_action (uuid 3) ''t2'' ''pending'']\<rparr>"

theorem packet_isolated_witness:
  "build_tenant_packet sample_env ''t1'' None None sample_review_world
     = build_tenant_packet sample_env ''t1'' None None
         (sample_review_world\<lparr>governed_actions := [sample_action (uuid 2) ''t1'' ''pending'']\<rparr>)"
proof -
  have "build_action_packet sample_env aid (Some ''t1'') sample_review_world
       = build_action_packet sample_env aid (Some ''t1'')
           (sample_review_world\<lparr>governed_actions := [sample_action (uuid 2) ''t1'' ''pending'']\<rparr>)
    \<and> build_workflow_packet sample_env wid (Some ''t1'') sample_review_world
       = build_workflow_packet sample_env wid (Some ''t1'')
           (sample_review_world\<lparr>governed_actions := [sample_action (uuid 2) ''t1'' ''pending'']\<rparr>)
    \<and> build_tenant_packet sample_env ''t1'' None None sample_review_world
       = build_tenant_packet sample_env ''t1'' None None
           (sample_review_world\<lparr>governed_actions := [sample_action (uuid 2) ''t1'' ''pending'']\<rparr>)" for aid wid
    by (rule packet_isolated)
      (simp_all add: same_for_def keyed_tables_def own_def sample_review_world_def sample_action_def empty_world_def)
  then show ?thesis by blast
qed

theorem tenant_packet_complete_witness:
  "map pa_id (p_actions (build_tenant_packet sample_env ''t1'' None None sample_review_world)) = [uuid 2]"
proof -
  have one: "list_governed_actions (Some ''t1'') None None None sample_review_world = [sample_action (uuid 2) ''t1'' ''pending'']"
    by (simp add: list_governed_actions_def sample_review_world_def sample_action_def empty_world_def in_tenant_def order_desc_def)
  have "distinct (map ga_pk (governed_actions sample_review_world))"
    by (simp add: sample_review_world_def sample_action_def)
  from tenant_packet_complete [OF this, of sample_env "''t1''" None None] show ?thesis
    by (simp add: Let_def one sample_action_def)
qed

end
