(* ===== verification/EvidenceStore.thy ===== *)
theory EvidenceStore
  imports EvidencePacket
begin

text \<open>
  services/evidence_store.py and services/evidence_signature_service.py: stored, versioned packets,
  their content hash and Ed25519 signature, revocation, and the verification report. Bytes are
  strings of characters below 256; \<open>hex_of\<close> and \<open>fromhex\<close> are Python's \<open>bytes.hex\<close> and
  \<open>bytes.fromhex\<close>; the Ed25519 primitives are the parameters \<open>ed_public\<close>, \<open>ed_sign\<close>, \<open>ed_verify\<close>.
\<close>

section \<open>Hexadecimal text\<close>

definition hex_byte :: "char \<Rightarrow> string" where
  "hex_byte c = [hexdigit (ord c div 16), hexdigit (ord c mod 16)]"

definition hex_of :: "string \<Rightarrow> string" where
  "hex_of bs = concat (map hex_byte bs)"

definition hex_value :: "char \<Rightarrow> nat option" where
  "hex_value c =
     (let n = ord c in
      if 48 \<le> n \<and> n \<le> 57 then Some (n - 48)
      else if 97 \<le> n \<and> n \<le> 102 then Some (n - 87)
      else if 65 \<le> n \<and> n \<le> 70 then Some (n - 55) else None)"

definition ascii_space :: "char \<Rightarrow> bool" where
  "ascii_space c \<longleftrightarrow> ord c = 32 \<or> (9 \<le> ord c \<and> ord c \<le> 13)"

fun fromhex :: "string \<Rightarrow> string option" where
  "fromhex [] = Some []"
| "fromhex (c # s) =
     (if ascii_space c then fromhex s
      else case s of
        [] \<Rightarrow> None
      | d # s' \<Rightarrow> (case (hex_value c, hex_value d) of
           (Some h, Some l) \<Rightarrow> map_option ((#) (chr (16 * h + l))) (fromhex s')
         | _ \<Rightarrow> None))"

section \<open>Keys\<close>

definition ALGORITHM :: string where
  "ALGORITHM = ''Ed25519''"

definition PILOT_SEED_HEX :: string where
  "PILOT_SEED_HEX = concat (replicate 31 ''00'') @ ''01''"

definition seed_bytes :: "env \<Rightarrow> exn + string" where
  "seed_bytes E =
     (let raw = strip (case evidence_signing_key (config E) of
                         None \<Rightarrow> PILOT_SEED_HEX | Some k \<Rightarrow> if k = [] then PILOT_SEED_HEX else k) in
      case fromhex raw of
        None \<Rightarrow> Inl (ValueError ''evidence_signing_key must be 64-char hex (32 bytes)'')
      | Some seed \<Rightarrow>
          if length seed \<noteq> 32 then Inl (ValueError ''evidence_signing_key must decode to exactly 32 bytes'')
          else Inr seed)"

definition public_key_hex :: "env \<Rightarrow> exn + string" where
  "public_key_hex E = map_sum id (\<lambda>seed. hex_of (ed_public E seed)) (seed_bytes E)"

definition signing_payload :: "string \<Rightarrow> int option \<Rightarrow> string option \<Rightarrow> string" where
  "signing_payload packet_id version packet_hash = packet_id @ '':'' @ str_opt_int version @ '':'' @ str_opt packet_hash"

section \<open>Content hash\<close>

definition compute_packet_hash :: "env \<Rightarrow> dict \<Rightarrow> string" where
  "compute_packet_hash E d = sha256 E (dumps_compact (JObj (filter (\<lambda>kv. fst kv \<noteq> ''generated_at'') d)))"

section \<open>Signing and revoking\<close>

definition DAY :: time where
  "DAY = 86400 * 1000000"

definition set_signature :: "string \<Rightarrow> time \<Rightarrow> time \<Rightarrow> packet_row \<Rightarrow> packet_row" where
  "set_signature sig now expires p =
     p\<lparr>pkt_signature := Some (hex_of sig), pkt_signature_algorithm := Some ALGORITHM,
       pkt_signed_at := Some now, pkt_expires_at := Some expires\<rparr>"

definition sign_packet :: "env \<Rightarrow> packet_row \<Rightarrow> string option \<Rightarrow> int option \<Rightarrow> bool \<Rightarrow> packet_row svc" where
  "sign_packet E p signed_by ttl_days record_audit =
     (let ttl = (case ttl_days of None \<Rightarrow> evidence_packet_ttl_days (config E) | Some n \<Rightarrow> n) in
      bindM (lift (seed_bytes E)) (\<lambda>seed.
      bindM (gets clock) (\<lambda>now.
        let sig = ed_sign E seed (signing_payload (pkt_pk p) (pkt_version p) (pkt_hash p));
            expires = now + ttl * DAY;
            p' = set_signature sig now expires p in
        bindM (update_row packets_update pkt_pk (pkt_pk p) (set_signature sig now expires)) (\<lambda>_.
        bindM (if record_audit
               then bindM (audit_record E ((audit_call ''evidence.packet.signed'' ''evidence_packet'' (pkt_pk p))
                      \<lparr>arg_tenant := pkt_tenant p, arg_actor := signed_by,
                       arg_metadata := [(''algorithm'', JStr ALGORITHM), (''version'', opt_int_json (pkt_version p)),
                         (''packet_hash'', jopt (pkt_hash p)), (''expires_at'', JStr (isoformat expires))]\<rparr>)) (\<lambda>_. ret ())
               else ret ()) (\<lambda>_.
        ret p')))))"

definition set_revoked :: "time \<Rightarrow> string \<Rightarrow> packet_row \<Rightarrow> packet_row" where
  "set_revoked now reason p = p\<lparr>pkt_revoked_at := Some now, pkt_revocation_reason := Some reason\<rparr>"

definition revoke_packet :: "env \<Rightarrow> packet_row \<Rightarrow> string \<Rightarrow> string option \<Rightarrow> packet_row svc" where
  "revoke_packet E p reason revoked_by =
     bindM (gets clock) (\<lambda>now.
     bindM (update_row packets_update pkt_pk (pkt_pk p) (set_revoked now reason)) (\<lambda>_.
     bindM (audit_record E ((audit_call ''evidence.packet.revoked'' ''evidence_packet'' (pkt_pk p))
              \<lparr>arg_tenant := pkt_tenant p, arg_actor := revoked_by,
               arg_metadata := [(''reason'', JStr reason), (''version'', opt_int_json (pkt_version p))]\<rparr>)) (\<lambda>_.
     ret (set_revoked now reason p))))"

section \<open>Verification\<close>

definition signature_ok :: "env \<Rightarrow> string \<Rightarrow> packet_row \<Rightarrow> bool" where
  "signature_ok E seed p =
     (case pkt_signature p of
        None \<Rightarrow> False
      | Some sig \<Rightarrow> sig \<noteq> [] \<and> (case fromhex sig of
          None \<Rightarrow> False
        | Some bs \<Rightarrow> ed_verify E (ed_public E seed) bs (signing_payload (pkt_pk p) (pkt_version p) (pkt_hash p))))"

definition content_intact :: "env \<Rightarrow> packet_row \<Rightarrow> bool" where
  "content_intact E p =
     (case (pkt_json_export p, pkt_hash p) of
        (Some d, Some h) \<Rightarrow> h \<noteq> [] \<and> compute_packet_hash E d = h
      | _ \<Rightarrow> False)"

record packet_report =
  vr_packet :: string
  vr_version :: "int option"
  vr_hash :: "string option"
  vr_algorithm :: "string option"
  vr_signed_at :: "string option"
  vr_expires_at :: "string option"
  vr_revoked_at :: "string option"
  vr_public_key :: string
  vr_status :: string
  vr_reasons :: "string list"

definition packet_verdict :: "env \<Rightarrow> string \<Rightarrow> packet_row \<Rightarrow> time \<Rightarrow> string \<times> string list" where
  "packet_verdict E seed p now =
     (if pkt_signature p = None \<or> pkt_signature p = Some []
      then (''unsigned'', [''packet has not been signed''])
      else
        let content_ok = content_intact E p; sig_ok = signature_ok E seed p in
        if \<not> (content_ok \<and> sig_ok)
        then (''tampered'',
              (if content_ok then [] else [''stored packet content does not match its recorded hash''])
              @ (if sig_ok then [] else [''signature does not verify against the published public key'']))
        else if pkt_revoked_at p \<noteq> None
        then (''revoked'', [''revoked: '' @ (case pkt_revocation_reason p of
                None \<Rightarrow> ''no reason recorded'' | Some r \<Rightarrow> if r = [] then ''no reason recorded'' else r)])
        else case pkt_expires_at p of
            Some x \<Rightarrow> if x < now then (''expired'', [''signature expired at '' @ isoformat x])
                      else (''valid'', [''signature verified and content intact''])
          | None \<Rightarrow> (''valid'', [''signature verified and content intact'']))"

definition verify_packet :: "env \<Rightarrow> packet_row \<Rightarrow> world \<Rightarrow> exn + packet_report" where
  "verify_packet E p w =
     map_sum id (\<lambda>seed.
       let v = packet_verdict E seed p (clock w) in
       \<lparr>vr_packet = pkt_pk p, vr_version = pkt_version p, vr_hash = pkt_hash p,
        vr_algorithm = pkt_signature_algorithm p, vr_signed_at = map_option isoformat (pkt_signed_at p),
        vr_expires_at = map_option isoformat (pkt_expires_at p), vr_revoked_at = map_option isoformat (pkt_revoked_at p),
        vr_public_key = hex_of (ed_public E seed), vr_status = fst v, vr_reasons = snd v\<rparr>) (seed_bytes E)"

section \<open>The store\<close>

definition packets_of :: "string option \<Rightarrow> string \<Rightarrow> string option \<Rightarrow> world \<Rightarrow> packet_row list" where
  "packets_of t scope_type scope_id w =
     filter (\<lambda>p. in_tenant pkt_tenant t p \<and> pkt_scope_type p = scope_type \<and> pkt_scope_id p = scope_id) (packets w)"

definition next_version :: "packet_row list \<Rightarrow> int" where
  "next_version existing =
     (case map (\<lambda>p. case pkt_version p of None \<Rightarrow> 0 | Some v \<Rightarrow> v) existing of
        [] \<Rightarrow> 1 | v # vs \<Rightarrow> fold max vs v + 1)"

definition supersede_packet :: "packet_row \<Rightarrow> packet_row" where
  "supersede_packet p = p\<lparr>pkt_retention_status := ''superseded''\<rparr>"

definition persist_packet :: "env \<Rightarrow> string option \<Rightarrow> packet \<Rightarrow> string option \<Rightarrow> packet_row svc" where
  "persist_packet E t p generated_by =
     bindM (gets (packets_of t (p_type p) (p_scope_id p))) (\<lambda>existing.
     bindM (foreach (filter (\<lambda>q. pkt_retention_status q = ''active'') existing)
              (\<lambda>q. update_row packets_update pkt_pk (pkt_pk q) supersede_packet)) (\<lambda>_.
     bindM new_id (\<lambda>pk. bindM (gets clock) (\<lambda>now.
       let row = \<lparr>pkt_pk = pk, pkt_tenant = t, pkt_scope_type = p_type p, pkt_scope_id = p_scope_id p,
                  pkt_start_at = None, pkt_end_at = None, pkt_summary = Some (packet_json p),
                  pkt_json_export = Some (packet_json p), pkt_markdown_export = Some (render_markdown p),
                  pkt_created_by = generated_by, pkt_hash = Some (compute_packet_hash E (packet_json p)),
                  pkt_version = Some (next_version existing), pkt_retention_status = ''active'',
                  pkt_signature = None, pkt_signature_algorithm = None, pkt_signed_at = None, pkt_expires_at = None,
                  pkt_revoked_at = None, pkt_revocation_reason = None, pkt_created_at = now\<rparr> in
       bindM (insert_row packets_update row) (\<lambda>_.
       bindM (audit_record E ((audit_call ''evidence.packet.generated'' ''evidence_packet'' pk)
                \<lparr>arg_tenant := t, arg_actor := generated_by,
                 arg_metadata := [(''scope_type'', JStr (p_type p)), (''scope_id'', jopt (p_scope_id p)),
                   (''version'', JInt (next_version existing)), (''packet_hash'', jopt (pkt_hash row))]\<rparr>)) (\<lambda>_.
       sign_packet E row generated_by None True))))))"

definition get_packet :: "string \<Rightarrow> string option \<Rightarrow> world \<Rightarrow> packet_row option" where
  "get_packet packet_id t w = scoped_row pkt_tenant t (get_row packets pkt_pk packet_id w)"

definition list_packets :: "string option \<Rightarrow> string option \<Rightarrow> world \<Rightarrow> packet_row list" where
  "list_packets t scope_id w =
     order_desc pkt_created_at (filter (\<lambda>p. in_tenant pkt_tenant t p
       \<and> (scope_id = None \<or> pkt_scope_id p = scope_id)) (packets w))"

definition record_download :: "env \<Rightarrow> packet_row \<Rightarrow> string \<Rightarrow> string option \<Rightarrow> string option \<Rightarrow> unit svc" where
  "record_download E p fmt t downloaded_by =
     bindM (audit_record E ((audit_call ''evidence.packet.downloaded'' ''evidence_packet'' (pkt_pk p))
              \<lparr>arg_tenant := t, arg_actor := downloaded_by,
               arg_metadata := [(''format'', JStr fmt), (''version'', opt_int_json (pkt_version p)),
                 (''packet_hash'', jopt (pkt_hash p))]\<rparr>)) (\<lambda>_. ret ())"

section \<open>Interfaces and footprints\<close>

interpretation packets_tbl: world_table packets packets_update pkt_pk
  by unfold_locales simp_all

interpretation packet_fetch: scoped_fetch packets pkt_pk pkt_tenant get_packet
  by unfold_locales (simp add: get_packet_def get_row_def)

interpretation packet_query: scoped_query packets pkt_tenant
  "\<lambda>k p. k = None \<or> pkt_scope_id p = k" "\<lambda>_. order_desc pkt_created_at" "\<lambda>k t w. list_packets t k w"
  by unfold_locales (auto simp: list_packets_def)

lemma store_evo [evo]:
  "{TPackets, TAudit} \<subseteq> S \<Longrightarrow> evolves (only S) (sign_packet E p sb ttl a)" "evolves (forward E) (sign_packet E p sb ttl a)"
  "{TPackets, TAudit} \<subseteq> S \<Longrightarrow> evolves (only S) (revoke_packet E p r rb)" "evolves (forward E) (revoke_packet E p r rb)"
  "TAudit \<in> S \<Longrightarrow> evolves (only S) (record_download E p fmt t db)" "evolves (forward E) (record_download E p fmt t db)"
  unfolding sign_packet_def revoke_packet_def record_download_def by (intro evo; simp?)+

lemma persist_evo [evo]:
  "{TPackets, TAudit} \<subseteq> S \<Longrightarrow> evolves (only S) (persist_packet E t p g)" "evolves (forward E) (persist_packet E t p g)"
  unfolding persist_packet_def by (intro evo; simp?)+

section \<open>What storing a packet does\<close>

lemma fromhex_hex_of: "fromhex (hex_of bs) = Some bs"
proof (induction bs)
  case (Cons c bs)
  have "ord c div 16 < 16" "ord c mod 16 < 16" by (simp_all add: less_mult_imp_div_less)
  moreover have "\<not> ascii_space (hexdigit n)" "hex_value (hexdigit n) = Some n" if "n < 16" for n
    using that by (auto simp: ascii_space_def hex_value_def hexdigit_def Let_def)
  ultimately show ?case using Cons by (simp add: hex_of_def hex_byte_def)
qed (simp add: hex_of_def)

lemma hex_of_nonempty: "bs \<noteq> [] \<Longrightarrow> hex_of bs \<noteq> []"
  by (cases bs) (simp_all add: hex_of_def hex_byte_def)

definition retire :: "string option \<Rightarrow> string \<Rightarrow> string option \<Rightarrow> packet_row \<Rightarrow> packet_row" where
  "retire t ty sid q =
     (if in_tenant pkt_tenant t q \<and> pkt_scope_type q = ty \<and> pkt_scope_id q = sid \<and> pkt_retention_status q = ''active''
      then supersede_packet q else q)"

lemma supersede_simps [simp]: "pkt_pk (supersede_packet q) = pkt_pk q" "supersede_packet (supersede_packet q) = supersede_packet q"
  by (simp_all add: supersede_packet_def)

lemma foreach_supersede:
  "foreach qs (\<lambda>q. update_row packets_update pkt_pk (pkt_pk q) supersede_packet) w
     = (Inr (), w\<lparr>packets := map (\<lambda>r. if pkt_pk r \<in> pkt_pk ` set qs then supersede_packet r else r) (packets w)\<rparr>)"
proof (induction qs arbitrary: w)
  case (Cons q qs)
  have "(\<lambda>r. if pkt_pk r \<in> pkt_pk ` set qs then supersede_packet r else r) \<circ> (\<lambda>r. if pkt_pk r = pkt_pk q then supersede_packet r else r)
      = (\<lambda>r. if pkt_pk r \<in> pkt_pk ` set (q # qs) then supersede_packet r else r)"
    by (auto simp: fun_eq_iff)
  then show ?case using Cons by (simp add: update_row_def tupd_def comp)
qed (simp add: comp)

lemma foreach_retire:
  assumes "distinct (map pkt_pk (packets w))"
  shows "foreach (filter (\<lambda>q. pkt_retention_status q = ''active'') (packets_of t ty sid w))
       (\<lambda>q. update_row packets_update pkt_pk (pkt_pk q) supersede_packet) w
     = (Inr (), w\<lparr>packets := map (retire t ty sid) (packets w)\<rparr>)"
proof -
  have "(if pkt_pk r \<in> pkt_pk ` set (filter (\<lambda>q. pkt_retention_status q = ''active'') (packets_of t ty sid w))
         then supersede_packet r else r) = retire t ty sid r" if "r \<in> set (packets w)" for r
    using that distinct_key_unique [OF assms that] by (auto simp: retire_def packets_of_def)
  then show ?thesis unfolding foreach_supersede by (simp cong: map_cong)
qed

text \<open>The row as inserted, and as signed.\<close>

definition stored_packet :: "env \<Rightarrow> string option \<Rightarrow> packet \<Rightarrow> string option \<Rightarrow> world \<Rightarrow> packet_row" where
  "stored_packet E t p g w =
     \<lparr>pkt_pk = uuid (uuids w), pkt_tenant = t, pkt_scope_type = p_type p, pkt_scope_id = p_scope_id p,
      pkt_start_at = None, pkt_end_at = None, pkt_summary = Some (packet_json p),
      pkt_json_export = Some (packet_json p), pkt_markdown_export = Some (render_markdown p),
      pkt_created_by = g, pkt_hash = Some (compute_packet_hash E (packet_json p)),
      pkt_version = Some (next_version (packets_of t (p_type p) (p_scope_id p) w)), pkt_retention_status = ''active'',
      pkt_signature = None, pkt_signature_algorithm = None, pkt_signed_at = None, pkt_expires_at = None,
      pkt_revoked_at = None, pkt_revocation_reason = None, pkt_created_at = clock w\<rparr>"

definition signed_packet :: "env \<Rightarrow> string \<Rightarrow> packet_row \<Rightarrow> time \<Rightarrow> packet_row" where
  "signed_packet E seed p now =
     set_signature (ed_sign E seed (signing_payload (pkt_pk p) (pkt_version p) (pkt_hash p))) now
       (now + evidence_packet_ttl_days (config E) * DAY) p"

definition stored_or_signed :: "env \<Rightarrow> packet_row \<Rightarrow> time \<Rightarrow> packet_row" where
  "stored_or_signed E p now = (case seed_bytes E of Inl e \<Rightarrow> p | Inr seed \<Rightarrow> signed_packet E seed p now)"

lemma update_packets: "packets_update (tupd pkt_pk k f) w = w\<lparr>packets := tupd pkt_pk k f (packets w)\<rparr>"
  by (cases w) simp

lemma sign_packet_run:
  assumes "seed_bytes E = Inr seed" and "chain_ok E (audit_events w)"
  shows "\<exists>a. sign_packet E p sb None True w = (Inr (signed_packet E seed p (clock w)),
     audited E a (w\<lparr>packets := tupd pkt_pk (pkt_pk p)
        (set_signature (ed_sign E seed (signing_payload (pkt_pk p) (pkt_version p) (pkt_hash p))) (clock w)
           (clock w + evidence_packet_ttl_days (config E) * DAY)) (packets w)\<rparr>))"
  using assms
  by (simp add: sign_packet_def Let_def bindM_def gets_def update_row_def modify_def audit_record_audited ret_def
      signed_packet_def update_packets) blast

lemma persist_packet_run:
  assumes chain: "chain_ok E (audit_events w)" and keys: "drawn packets pkt_pk w"
  shows "\<exists>v. persist_packet E t p g w
        = (map_sum id (\<lambda>seed. signed_packet E seed (stored_packet E t p g w) (clock w)) (seed_bytes E), v)
     \<and> packets v = map (retire t (p_type p) (p_scope_id p)) (packets w) @ [stored_or_signed E (stored_packet E t p g w) (clock w)]
     \<and> length (audit_events v) = length (audit_events w) + (case seed_bytes E of Inl _ \<Rightarrow> 1 | Inr _ \<Rightarrow> 2)
     \<and> chain_ok E (audit_events v) \<and> uuids w < uuids v \<and> clock v = clock w"
proof -
  let ?row = "stored_packet E t p g w"
  let ?w2 = "w\<lparr>uuids := Suc (uuids w), packets := map (retire t (p_type p) (p_scope_id p)) (packets w) @ [?row]\<rparr>"
  have d: "distinct (map pkt_pk (packets w))" using keys by (simp add: drawn_def)
  have fresh: "pkt_pk r \<noteq> uuid (uuids w)" if "r \<in> set (packets w)" for r
    using keys that by (auto simp: drawn_def)
  obtain a where run: "persist_packet E t p g w = sign_packet E ?row g None True (audited E a ?w2)"
    using chain
    by (simp add: persist_packet_def bindM_def gets_def foreach_retire [OF d] new_id_def insert_row_def modify_def Let_def
        audit_record_audited stored_packet_def)
  let ?w3 = "audited E a ?w2"
  have c3: "chain_ok E (audit_events ?w3)" by (rule chain_ok_audited) (simp add: chain)
  have c3': "clock ?w3 = clock w" "packets ?w3 = packets ?w2" "uuids ?w3 = Suc (Suc (uuids w))"
    "length (audit_events ?w3) = Suc (length (audit_events w))" by (simp_all add: audited_def)
  have map_keep: "tupd pkt_pk (uuid (uuids w)) f (map (retire t (p_type p) (p_scope_id p)) (packets w))
      = map (retire t (p_type p) (p_scope_id p)) (packets w)" for f
    by (rule tupd_other) (use fresh in \<open>auto simp: retire_def\<close>)
  show ?thesis
  proof (cases "seed_bytes E")
    case (Inl e)
    then have "persist_packet E t p g w = (Inl e, ?w3)"
      by (simp add: run sign_packet_def Let_def comp)
    then show ?thesis using Inl c3 c3' by (simp add: stored_or_signed_def)
  next
    case (Inr seed)
    obtain b where s: "sign_packet E ?row g None True ?w3 = (Inr (signed_packet E seed ?row (clock ?w3)),
        audited E b (?w3\<lparr>packets := tupd pkt_pk (pkt_pk ?row)
        (set_signature (ed_sign E seed (signing_payload (pkt_pk ?row) (pkt_version ?row) (pkt_hash ?row))) (clock ?w3)
           (clock ?w3 + evidence_packet_ttl_days (config E) * DAY)) (packets ?w3)\<rparr>))" (is "_ = (_, audited E b ?w4)")
      using sign_packet_run [OF Inr c3] by blast
    have pk: "pkt_pk ?row = uuid (uuids w)" by (simp add: stored_packet_def)
    have p4: "packets ?w4 = map (retire t (p_type p) (p_scope_id p)) (packets w) @ [signed_packet E seed ?row (clock w)]"
      by (simp add: c3' pk map_keep) (simp add: signed_packet_def pk)
    have c4: "chain_ok E (audit_events (audited E b ?w4))"
      by (rule chain_ok_audited) (use c3 in simp)
    have l4: "length (audit_events (audited E b ?w4)) = length (audit_events w) + 2" "uuids (audited E b ?w4) = Suc (Suc (Suc (uuids w)))"
      using c3' by (simp_all add: audited_def)
    show ?thesis
      unfolding run s using Inr p4 c4 l4 c3' by (simp add: stored_or_signed_def)
  qed
qed

section \<open>Properties\<close>

definition version_of :: "packet_row \<Rightarrow> int" where
  "version_of q = (case pkt_version q of None \<Rightarrow> 0 | Some v \<Rightarrow> v)"

lemma next_version_greater: "q \<in> set qs \<Longrightarrow> version_of q < next_version qs"
proof -
  assume q: "q \<in> set qs"
  have v: "(\<lambda>p. case pkt_version p of None \<Rightarrow> 0 | Some v \<Rightarrow> v) = version_of" by (simp add: fun_eq_iff version_of_def)
  from q obtain x xs where "map version_of qs = x # xs" by (cases qs) auto
  moreover from q have "version_of q \<in> set (map version_of qs)" by simp
  ultimately have "version_of q \<le> fold max xs x" and "next_version qs = fold max xs x + 1"
    by (auto simp: next_version_def v simp flip: Max.set_eq_fold)
  then show ?thesis by simp
qed

lemma stored_or_signed_frame [simp]:
  "pkt_pk (stored_or_signed E (stored_packet E t p g w) now) = uuid (uuids w)"
  "pkt_tenant (stored_or_signed E (stored_packet E t p g w) now) = t"
  "pkt_scope_type (stored_or_signed E (stored_packet E t p g w) now) = p_type p"
  "pkt_scope_id (stored_or_signed E (stored_packet E t p g w) now) = p_scope_id p"
  "pkt_version (stored_or_signed E (stored_packet E t p g w) now) = Some (next_version (packets_of t (p_type p) (p_scope_id p) w))"
  "pkt_retention_status (stored_or_signed E (stored_packet E t p g w) now) = ''active''"
  "pkt_json_export (stored_or_signed E (stored_packet E t p g w) now) = Some (packet_json p)"
  by (simp_all add: stored_or_signed_def signed_packet_def set_signature_def stored_packet_def split: sum.split)

lemma retired_inactive:
  "filter (\<lambda>q. pkt_retention_status q = ''active'')
     (filter (\<lambda>p. in_tenant pkt_tenant t p \<and> pkt_scope_type p = ty \<and> pkt_scope_id p = sid) (map (retire t ty sid) qs)) = []"
proof (induction qs)
  case (Cons q qs)
  have "(in_tenant pkt_tenant t (retire t ty sid q) \<and> pkt_scope_type (retire t ty sid q) = ty
      \<and> pkt_scope_id (retire t ty sid q) = sid \<and> pkt_retention_status (retire t ty sid q) = ''active'') = False"
    by (cases "in_tenant pkt_tenant t q \<and> pkt_scope_type q = ty \<and> pkt_scope_id q = sid \<and> pkt_retention_status q = ''active''")
      (auto simp: retire_def supersede_packet_def in_tenant_def)
  with Cons show ?case by auto
qed simp

text \<open>C26: a scope has one active packet, its newest. Storing a packet marks every earlier active packet of
  its scope superseded and changes nothing else of the earlier rows; the new row is the only active
  one and its version exceeds every earlier version of the scope; and when the signing key is not
  usable the call fails after the packet was stored unsigned and its generation recorded.\<close>

theorem persist_versions:
  assumes "chain_ok E (audit_events w)" and "drawn packets pkt_pk w"
  shows "\<exists>row v. persist_packet E t p g w = (map_sum id (\<lambda>_. row) (seed_bytes E), v)
     \<and> packets v = map (retire t (p_type p) (p_scope_id p)) (packets w) @ [row]
     \<and> filter (\<lambda>q. pkt_retention_status q = ''active'') (packets_of t (p_type p) (p_scope_id p) v) = [row]
     \<and> list_all (\<lambda>q. version_of q < version_of row) (packets_of t (p_type p) (p_scope_id p) w)
     \<and> pkt_json_export row = Some (packet_json p)
     \<and> (case seed_bytes E of
          Inl _ \<Rightarrow> pkt_signature row = None \<and> length (audit_events v) = length (audit_events w) + 1
        | Inr _ \<Rightarrow> pkt_signature row \<noteq> None \<and> length (audit_events v) = length (audit_events w) + 2)"
proof -
  let ?row = "stored_or_signed E (stored_packet E t p g w) (clock w)"
  obtain v where run: "persist_packet E t p g w
        = (map_sum id (\<lambda>seed. signed_packet E seed (stored_packet E t p g w) (clock w)) (seed_bytes E), v)"
    and pk: "packets v = map (retire t (p_type p) (p_scope_id p)) (packets w) @ [?row]"
    and len: "length (audit_events v) = length (audit_events w) + (case seed_bytes E of Inl _ \<Rightarrow> 1 | Inr _ \<Rightarrow> 2)"
    using persist_packet_run [OF assms, of t p g] by blast
  have res: "map_sum id (\<lambda>seed. signed_packet E seed (stored_packet E t p g w) (clock w)) (seed_bytes E)
      = map_sum id (\<lambda>_. ?row) (seed_bytes E)"
    by (cases "seed_bytes E") (simp_all add: stored_or_signed_def)
  have "filter (\<lambda>q. pkt_retention_status q = ''active'') (packets_of t (p_type p) (p_scope_id p) v) = [?row]"
    by (simp add: packets_of_def pk retired_inactive in_tenant_Some del: filter_filter) (simp add: in_tenant_def)
  moreover have "list_all (\<lambda>q. version_of q < version_of ?row) (packets_of t (p_type p) (p_scope_id p) w)"
    using next_version_greater by (simp add: list_all_iff version_of_def)
  moreover have "case seed_bytes E of
          Inl _ \<Rightarrow> pkt_signature ?row = None \<and> length (audit_events v) = length (audit_events w) + 1
        | Inr _ \<Rightarrow> pkt_signature ?row \<noteq> None \<and> length (audit_events v) = length (audit_events w) + 2"
    using len by (simp add: stored_or_signed_def stored_packet_def signed_packet_def set_signature_def split: sum.splits)
  ultimately show ?thesis using run res pk by (intro exI [of _ ?row] exI [of _ v]) simp
qed

lemma verdict_signed:
  assumes "\<And>m. ed_verify E (ed_public E seed) (ed_sign E seed m) m" and "ed_sign E seed (signing_payload (pkt_pk p) (pkt_version p) (pkt_hash p)) \<noteq> []"
    and "pkt_json_export p = Some d" and "pkt_hash p = Some (compute_packet_hash E d)" and "compute_packet_hash E d \<noteq> []"
  shows "content_intact E (signed_packet E seed p now) \<and> signature_ok E seed (signed_packet E seed p now)
    \<and> pkt_signature (signed_packet E seed p now) \<noteq> None \<and> pkt_signature (signed_packet E seed p now) \<noteq> Some []"
  using assms hex_of_nonempty [OF assms(2)]
  by (simp add: content_intact_def signature_ok_def signed_packet_def set_signature_def fromhex_hex_of)

text \<open>C12: a stored packet verifies. When verification accepts what signing produced, a packet that was
  stored and is read back by its tenant verifies as valid up to its expiry and as expired after it;
  once revoked it verifies as revoked at any time.\<close>

theorem signed_packet_lifecycle:
  assumes chain: "chain_ok E (audit_events w)" and keys: "drawn packets pkt_pk w" and seed: "seed_bytes E = Inr seed"
    and ed: "\<And>m. ed_verify E (ed_public E seed) (ed_sign E seed m) m" "\<And>m. ed_sign E seed m \<noteq> []"
    and sha: "\<And>s. sha256 E s \<noteq> []"
  shows "\<exists>row v. persist_packet E t p g w = (Inr row, v) \<and> get_packet (pkt_pk row) t v = Some row
     \<and> map_sum id vr_status (verify_packet E row (v\<lparr>clock := now\<rparr>))
         = Inr (if now \<le> clock w + evidence_packet_ttl_days (config E) * DAY then ''valid'' else ''expired'')
     \<and> (\<exists>row' u. revoke_packet E row reason rb v = (Inr row', u) \<and> get_packet (pkt_pk row) t u = Some row'
         \<and> map_sum id vr_status (verify_packet E row' (u\<lparr>clock := now\<rparr>)) = Inr ''revoked'')"
proof -
  let ?p = "stored_packet E t p g w"
  let ?row = "signed_packet E seed ?p (clock w)"
  obtain v where run: "persist_packet E t p g w = (Inr ?row, v)"
    and pk: "packets v = map (retire t (p_type p) (p_scope_id p)) (packets w) @ [?row]"
    and cv: "chain_ok E (audit_events v)"
    using persist_packet_run [OF chain keys, of t p g] seed by (auto simp: stored_or_signed_def)
  have id: "pkt_pk ?row = uuid (uuids w)" "pkt_tenant ?row = t"
    by (simp_all add: signed_packet_def set_signature_def stored_packet_def)
  have pre: "tget pkt_pk (uuid (uuids w)) (map (retire t (p_type p) (p_scope_id p)) (packets w)) = None"
    using keys by (auto simp: tget_None_iff drawn_def retire_def split: if_splits)
  then have get: "get_packet (pkt_pk ?row) t v = Some ?row"
    by (simp add: get_packet_def get_row_def pk tget_append id scoped_row_def)
  have ok: "content_intact E ?row \<and> signature_ok E seed ?row \<and> pkt_signature ?row \<noteq> None \<and> pkt_signature ?row \<noteq> Some []"
    by (rule verdict_signed [OF ed(1) ed(2)]) (simp_all add: stored_packet_def compute_packet_hash_def sha)
  have valid: "map_sum id vr_status (verify_packet E ?row (v\<lparr>clock := now\<rparr>))
         = Inr (if now \<le> clock w + evidence_packet_ttl_days (config E) * DAY then ''valid'' else ''expired'')"
    using ok by (simp add: verify_packet_def packet_verdict_def seed Let_def)
      (simp add: signed_packet_def set_signature_def stored_packet_def)
  let ?row' = "set_revoked (clock v) reason ?row"
  obtain u where rv: "revoke_packet E ?row reason rb v = (Inr ?row', u)"
    and pu: "packets u = tupd pkt_pk (uuid (uuids w)) (set_revoked (clock v) reason) (packets v)"
    using cv by (simp add: revoke_packet_def bindM_def gets_def update_row_def modify_def audit_record_audited ret_def
        update_packets id)
  have get': "get_packet (pkt_pk ?row) t u = Some ?row'"
    using pre id by (simp add: get_packet_def get_row_def pu pk tget_append tget_tupd scoped_row_def set_revoked_def)
  have "content_intact E ?row' = content_intact E ?row" "signature_ok E seed ?row' = signature_ok E seed ?row"
    "pkt_signature ?row' = pkt_signature ?row" "pkt_revoked_at ?row' \<noteq> None"
    by (simp_all add: set_revoked_def content_intact_def signature_ok_def cong: option.case_cong)
  then have "map_sum id vr_status (verify_packet E ?row' (u\<lparr>clock := now\<rparr>)) = Inr ''revoked''"
    using ok by (simp add: verify_packet_def packet_verdict_def seed Let_def)
  then show ?thesis using run get valid rv get' by blast
qed

text \<open>The verification does not cover the Markdown export. A stored packet whose Markdown (which the
  download route serves), summary or tenant was changed gets the same report, valid included: only the
  JSON export is hashed.\<close>

theorem markdown_not_bound:
  "verify_packet E (p\<lparr>pkt_markdown_export := m, pkt_summary := s, pkt_tenant := t, pkt_retention_status := r\<rparr>) w
     = verify_packet E p w"
  by (simp add: verify_packet_def packet_verdict_def content_intact_def signature_ok_def Let_def
      cong: option.case_cong if_cong)

text \<open>A stored packet of tenant t1, and parameters with a digest that is never empty.\<close>

definition sample_packet_row :: packet_row where
  "sample_packet_row = \<lparr>pkt_pk = uuid 2, pkt_tenant = Some ''t1'', pkt_scope_type = ''tenant'', pkt_scope_id = Some ''t1'',
     pkt_start_at = None, pkt_end_at = None, pkt_summary = None, pkt_json_export = None, pkt_markdown_export = None,
     pkt_created_by = None, pkt_hash = Some ''h'', pkt_version = Some 4, pkt_retention_status = ''active'',
     pkt_signature = None, pkt_signature_algorithm = None, pkt_signed_at = None, pkt_expires_at = None,
     pkt_revoked_at = None, pkt_revocation_reason = None, pkt_created_at = 0\<rparr>"

definition sample_store :: world where
  "sample_store = empty_world\<lparr>packets := [sample_packet_row], uuids := 5\<rparr>"

definition sample_store_env :: env where
  "sample_store_env = sample_env\<lparr>sha256 := (\<lambda>s. ''h'' @ s)\<rparr>"

lemma sample_store_ok: "chain_ok E (audit_events sample_store)" "drawn packets pkt_pk sample_store"
  by (simp add: sample_store_def empty_world_def)
    (auto simp: sample_store_def sample_packet_row_def drawn_def)

definition sample_tenant_packet :: packet where
  "sample_tenant_packet = build_tenant_packet sample_store_env ''t1'' None None sample_store"

lemma sample_tenant_packet_scope: "p_type sample_tenant_packet = ''tenant''" "p_scope_id sample_tenant_packet = Some ''t1''"
  by (simp_all add: sample_tenant_packet_def build_tenant_packet_def assemble_def Let_def)

theorem persist_versions_witness:
  "\<exists>row v. persist_packet sample_store_env (Some ''t1'') sample_tenant_packet None sample_store
       = (map_sum id (\<lambda>_. row) (seed_bytes sample_store_env), v)
     \<and> packets v = [sample_packet_row\<lparr>pkt_retention_status := ''superseded''\<rparr>, row] \<and> 4 < version_of row"
proof -
  have "map (retire (Some ''t1'') ''tenant'' (Some ''t1'')) (packets sample_store)
      = [sample_packet_row\<lparr>pkt_retention_status := ''superseded''\<rparr>]"
    by (simp add: sample_store_def retire_def supersede_packet_def sample_packet_row_def in_tenant_def)
  moreover have "packets_of (Some ''t1'') ''tenant'' (Some ''t1'') sample_store = [sample_packet_row]"
    by (simp add: packets_of_def sample_store_def sample_packet_row_def in_tenant_def)
  moreover have "version_of sample_packet_row = 4" by (simp add: version_of_def sample_packet_row_def)
  ultimately show ?thesis
    using persist_versions [OF sample_store_ok, of sample_store_env "Some ''t1''" sample_tenant_packet None]
    unfolding sample_tenant_packet_scope by auto
qed

theorem signed_packet_lifecycle_witness:
  "\<exists>row v. persist_packet sample_store_env (Some ''t1'') sample_tenant_packet None sample_store = (Inr row, v)
     \<and> map_sum id vr_status (verify_packet sample_store_env row (v\<lparr>clock := 0\<rparr>)) = Inr ''valid''"
proof -
  have "fromhex (strip PILOT_SEED_HEX) = Some (replicate 31 (chr 0) @ [chr 1])" by code_simp
  then have seed: "seed_bytes sample_store_env = Inr (replicate 31 (chr 0) @ [chr 1])"
    by (simp add: seed_bytes_def sample_store_env_def sample_defs Let_def)
  have "\<exists>row v. persist_packet sample_store_env (Some ''t1'') sample_tenant_packet None sample_store = (Inr row, v)
     \<and> get_packet (pkt_pk row) (Some ''t1'') v = Some row
     \<and> map_sum id vr_status (verify_packet sample_store_env row (v\<lparr>clock := 0\<rparr>))
         = Inr (if 0 \<le> clock sample_store + evidence_packet_ttl_days (config sample_store_env) * DAY then ''valid'' else ''expired'')
     \<and> (\<exists>row' u. revoke_packet sample_store_env row ''r'' None v = (Inr row', u) \<and> get_packet (pkt_pk row) (Some ''t1'') u = Some row'
         \<and> map_sum id vr_status (verify_packet sample_store_env row' (u\<lparr>clock := 0\<rparr>)) = Inr ''revoked'')"
    by (rule signed_packet_lifecycle [OF sample_store_ok seed]) (simp_all add: sample_store_env_def sample_defs)
  moreover have "0 \<le> clock sample_store + evidence_packet_ttl_days (config sample_store_env) * DAY"
    by (simp add: sample_store_def empty_world_def sample_store_env_def sample_defs DAY_def)
  ultimately show ?thesis by auto
qed

end
