(* ===== verification/OverrideService.thy ===== *)
theory OverrideService
  imports ControlCatalog
begin

text \<open>
  services/override_service.py: the recorded human override of a medium or high risk action. It
  writes the override and the action's status in one commit and audits it; it executes nothing.
\<close>

definition OVERRIDABLE_RISK :: "string list" where
  "OVERRIDABLE_RISK = [''medium'', ''high'']"

definition STATUS_RECORDED :: string where
  "STATUS_RECORDED = ''override_recorded''"

text \<open>\<open>(v or {}).get(k)\<close>; the metadata of an action is only ever written by the review workflow.\<close>

definition sub_get :: "json \<Rightarrow> string \<Rightarrow> json" where
  "sub_get v k = (case v of JObj d \<Rightarrow> dget d k | _ \<Rightarrow> JNull)"

definition action_risk_level :: "governed_action \<Rightarrow> json" where
  "action_risk_level action =
     (case ga_metadata action of None \<Rightarrow> JNull | Some meta \<Rightarrow> sub_get (dget meta ''risk'') ''level'')"

definition touch_action :: "time \<Rightarrow> (governed_action \<Rightarrow> governed_action) \<Rightarrow> governed_action \<Rightarrow> governed_action" where
  "touch_action now = touched (\<lambda>a. a\<lparr>ga_updated_at := now\<rparr>)"

record override_args =
  oa_tenant :: "string option"
  oa_action :: string
  oa_by :: "string option"
  oa_reason :: string
  oa_authority_basis :: string
  oa_compensating_control :: string
  oa_accepted_risk :: "string option"
  oa_expiration :: "time option"

definition overridable :: "governed_action \<Rightarrow> bool" where
  "overridable action \<longleftrightarrow>
     (case jstr (action_risk_level action) of None \<Rightarrow> False | Some level \<Rightarrow> level \<in> set OVERRIDABLE_RISK)"

definition create_override :: "env \<Rightarrow> override_args \<Rightarrow> override svc" where
  "create_override E a =
     bindM (gets (get_governed_action (oa_action a) (oa_tenant a))) (\<lambda>found.
     case found of
       None \<Rightarrow> raise (ValueError ''governed_action_not_found'')
     | Some action \<Rightarrow>
         let risk_level = (case oa_accepted_risk a of
                             None \<Rightarrow> jstr (action_risk_level action)
                           | Some r \<Rightarrow> if r = [] then jstr (action_risk_level action) else Some r) in
         if \<not> overridable action then raise (ValueError ''override_not_applicable'')
         else
           bindM new_id (\<lambda>pk. bindM (gets clock) (\<lambda>now.
           let row = \<lparr>ov_pk = pk, ov_tenant = oa_tenant a, ov_action = oa_action a, ov_by = oa_by a,
                      ov_reason = oa_reason a, ov_authority_basis = oa_authority_basis a,
                      ov_accepted_risk = risk_level, ov_compensating_control = oa_compensating_control a,
                      ov_expiration = oa_expiration a, ov_status = STATUS_RECORDED, ov_created_at = now\<rparr> in
           bindM (insert_row overrides_update row) (\<lambda>_.
           bindM (update_row governed_actions_update ga_pk (ga_pk action)
                    (touch_action now (\<lambda>x. x\<lparr>ga_status := STATUS_RECORDED\<rparr>))) (\<lambda>_.
           bindM (audit_record E ((audit_call ''governed_action.overridden'' ''governed_action'' (oa_action a))
                    \<lparr>arg_tenant := oa_tenant a, arg_actor := oa_by a,
                     arg_metadata := [(''override_id'', JStr pk), (''accepted_risk'', jopt risk_level),
                       (''authority_basis'', JStr (oa_authority_basis a)),
                       (''compensating_control'', JStr (oa_compensating_control a)),
                       (''expiration'', jopt (map_option isoformat (oa_expiration a))),
                       (''note'', JStr ''recorded authorization; does not execute the action'')]\<rparr>))
             (\<lambda>_. ret row))))))"

definition list_overrides_for_action :: "string \<Rightarrow> string option \<Rightarrow> world \<Rightarrow> override list" where
  "list_overrides_for_action governed_action_id t w =
     sort_key ov_created_at (filter (\<lambda>r. in_tenant ov_tenant t r \<and> ov_action r = governed_action_id) (overrides w))"

section \<open>Interfaces and footprints\<close>

interpretation override_query: scoped_query overrides ov_tenant
  "\<lambda>k r. ov_action r = k" "\<lambda>_. sort_key ov_created_at" list_overrides_for_action
  by unfold_locales (auto simp: list_overrides_for_action_def)

lemma create_override_evo [evo]:
  "{TOverrides, TActions, TAudit} \<subseteq> S \<Longrightarrow> evolves (only S) (create_override E a)"
  "evolves (forward E) (create_override E a)"
  unfolding create_override_def by (intro evo; simp?)+

lemma touch_action_simps [simp]:
  "ga_pk (touch_action now f a) = ga_pk (f a)" "ga_tenant (touch_action now f a) = ga_tenant (f a)"
  "ga_status (touch_action now f a) = ga_status (f a)" "ga_approval (touch_action now f a) = ga_approval (f a)"
  "ga_metadata (touch_action now f a) = ga_metadata (f a)" "ga_source_job (touch_action now f a) = ga_source_job (f a)"
  "ga_policy_version_id (touch_action now f a) = ga_policy_version_id (f a)"
  "ga_created_at (touch_action now f a) = ga_created_at (f a)" "ga_action_type (touch_action now f a) = ga_action_type (f a)"
  "ga_policy_decision (touch_action now f a) = ga_policy_decision (f a)"
  by (simp_all add: touch_action_def touched_def)

section \<open>Properties\<close>

text \<open>An override is refused for a missing or foreign action and for one without medium or high
  risk, and then nothing changes. Otherwise it records one override of that action, sets that
  action's status and adds one audit event; no job, approval or delivery changes and nothing is sent.\<close>

theorem override_records_only:
  assumes "chain_ok E (audit_events w)"
  shows "case create_override E a w of
      (Inl e, v) \<Rightarrow> v = w \<and> (case get_governed_action (oa_action a) (oa_tenant a) w of
          None \<Rightarrow> e = ValueError ''governed_action_not_found''
        | Some x \<Rightarrow> overridable x = False \<and> e = ValueError ''override_not_applicable'')
    | (Inr ov, v) \<Rightarrow> (\<exists>x. get_governed_action (oa_action a) (oa_tenant a) w = Some x \<and> overridable x
        \<and> overrides v = overrides w @ [ov] \<and> ov_action ov = ga_pk x \<and> ov_tenant ov = oa_tenant a
        \<and> governed_actions v = tupd ga_pk (ga_pk x)
            (touch_action (clock w) (\<lambda>x. x\<lparr>ga_status := ''override_recorded''\<rparr>)) (governed_actions w)
        \<and> length (audit_events v) = Suc (length (audit_events w))
        \<and> jobs v = jobs w \<and> approvals v = approvals w \<and> deliveries v = deliveries w \<and> sent_log v = sent_log w)"
proof (cases "get_governed_action (oa_action a) (oa_tenant a) w")
  case None
  then show ?thesis by (simp add: create_override_def raise_def)
next
  case (Some x)
  have pk: "ga_pk x = oa_action a" using action_fetch.fetch_SomeD [OF Some] by simp
  show ?thesis
  proof (cases "overridable x")
    case False
    then show ?thesis using Some by (simp add: create_override_def raise_def Let_def)
  next
    case True
    then show ?thesis
      using Some pk assms
      by (simp add: create_override_def Let_def bindM_def gets_def new_id_def insert_row_def update_row_def modify_def
          audit_record_audited ret_def STATUS_RECORDED_def)
        (simp add: audited_def)
  qed
qed

definition sample_high_risk :: governed_action where
  "sample_high_risk = (sample_action (uuid 2) ''t1'' ''pending_approval'')
     \<lparr>ga_metadata := Some [(''risk'', JObj [(''level'', JStr ''high'')])]\<rparr>"

definition sample_override_args :: override_args where
  "sample_override_args = \<lparr>oa_tenant = Some ''t1'', oa_action = uuid 2, oa_by = Some ''u1'', oa_reason = ''r'',
     oa_authority_basis = ''CISO'', oa_compensating_control = ''c'', oa_accepted_risk = None, oa_expiration = None\<rparr>"

theorem override_records_only_witness:
  "\<exists>ov v. create_override sample_env sample_override_args
        (empty_world\<lparr>uuids := 4, governed_actions := [sample_high_risk]\<rparr>) = (Inr ov, v)
     \<and> length (overrides v) = 1 \<and> jobs v = []"
proof -
  let ?w = "empty_world\<lparr>uuids := 4, governed_actions := [sample_high_risk]\<rparr>"
  have chain: "chain_ok sample_env (audit_events ?w)" by (simp add: chain_ok_def empty_world_def)
  have got: "get_governed_action (oa_action sample_override_args) (oa_tenant sample_override_args) ?w = Some sample_high_risk"
    by (simp add: get_governed_action_def get_row_def sample_override_args_def sample_high_risk_def sample_action_def
        scoped_row_def)
  have ok: "overridable sample_high_risk"
    by (simp add: overridable_def action_risk_level_def sample_high_risk_def sub_get_def dget_def OVERRIDABLE_RISK_def)
  show ?thesis
    using override_records_only [OF chain, of sample_override_args] got ok
    by (cases "create_override sample_env sample_override_args ?w")
      (auto simp: empty_world_def split: sum.splits)
qed

end
