(* ===== verification/RiskService.thy ===== *)
theory RiskService
  imports PolicyService
begin

text \<open>
  services/risk_service.py: the deterministic risk score of a review, its two thresholds and
  the reasons it lists. The levels are ordered, and the lemmas bound the score and show that a
  worse signal never lowers the level.
\<close>

datatype risk_level = Low | Medium | High

fun risk_level_value :: "risk_level \<Rightarrow> string" where
  "risk_level_value Low = ''low''"
| "risk_level_value Medium = ''medium''"
| "risk_level_value High = ''high''"

fun risk_rank :: "risk_level \<Rightarrow> nat" where
  "risk_rank Low = 0"
| "risk_rank Medium = 1"
| "risk_rank High = 2"

instantiation risk_level :: linorder
begin

definition less_eq_risk_level :: "risk_level \<Rightarrow> risk_level \<Rightarrow> bool" where
  "less_eq_risk_level a b \<longleftrightarrow> risk_rank a \<le> risk_rank b"

definition less_risk_level :: "risk_level \<Rightarrow> risk_level \<Rightarrow> bool" where
  "less_risk_level a b \<longleftrightarrow> risk_rank a < risk_rank b"

instance
proof
  fix a b :: risk_level
  show "a \<le> b \<Longrightarrow> b \<le> a \<Longrightarrow> a = b"
    by (cases a; cases b) (simp_all add: less_eq_risk_level_def)
qed (auto simp: less_eq_risk_level_def less_risk_level_def)

end

definition SENSITIVITY_SCORE :: "(string \<times> int) list" where
  "SENSITIVITY_SCORE =
     [(''none'', 0), (''public'', 0), (''internal'', 1), (''confidential'', 2),
      (''pii'', 2), (''phi'', 3), (''regulated'', 3)]"

definition AUTONOMY_SCORE :: "(string \<times> int) list" where
  "AUTONOMY_SCORE = [(''none'', 0), (''assisted'', 1), (''semi_autonomous'', 2), (''autonomous'', 3)]"

fun POLICY_SCORE :: "policy_category \<Rightarrow> int" where
  "POLICY_SCORE ReadOnly = 0"
| "POLICY_SCORE DraftOnly = 0"
| "POLICY_SCORE OutboundSend = 1"
| "POLICY_SCORE Publish = 1"
| "POLICY_SCORE Destructive = 3"

definition HIGH_THRESHOLD :: int where "HIGH_THRESHOLD = 6"
definition MEDIUM_THRESHOLD :: int where "MEDIUM_THRESHOLD = 3"

record risk_result =
  rr_level :: risk_level
  rr_score :: int
  rr_reasons :: "string list"

definition norm_text :: "string option \<Rightarrow> string" where
  "norm_text value =
     lower (strip (case value of None \<Rightarrow> ''none'' | Some v \<Rightarrow> if v = [] then ''none'' else v))"

definition score_get :: "(string \<times> int) list \<Rightarrow> string \<Rightarrow> int" where
  "score_get table k = (case map_of table k of None \<Rightarrow> 1 | Some n \<Rightarrow> n)"

definition level_of :: "int \<Rightarrow> risk_level" where
  "level_of score =
     (if HIGH_THRESHOLD \<le> score then High else if MEDIUM_THRESHOLD \<le> score then Medium else Low)"

definition classify_risk ::
  "string option \<Rightarrow> bool \<Rightarrow> string option \<Rightarrow> policy_category option \<Rightarrow> risk_result" where
  "classify_risk data_sensitivity external_exposure autonomy_level policy_category =
     (let sensitivity_key = norm_text data_sensitivity;
          sensitivity_points = score_get SENSITIVITY_SCORE sensitivity_key;
          autonomy_key = norm_text autonomy_level;
          autonomy_points = score_get AUTONOMY_SCORE autonomy_key;
          policy_points = (case policy_category of None \<Rightarrow> 0 | Some c \<Rightarrow> POLICY_SCORE c);
          score = sensitivity_points + (if external_exposure then 2 else 0) + autonomy_points + policy_points;
          reasons =
            (if 2 \<le> sensitivity_points then [''sensitive data ('' @ sensitivity_key @ '')''] else [])
            @ (if external_exposure then [''external exposure / outbound effect''] else [])
            @ (if 2 \<le> autonomy_points then [''high autonomy ('' @ autonomy_key @ '')''] else [])
            @ (case policy_category of None \<Rightarrow> []
               | Some c \<Rightarrow> if 1 \<le> policy_points then [''policy category '' @ policy_category_value c] else [])
      in \<lparr>rr_level = level_of score, rr_score = score,
          rr_reasons = (if reasons = [] then [''no elevated risk signals''] else reasons)\<rparr>)"

section \<open>Bounds and monotonicity\<close>

lemma sensitivity_bounds: "0 \<le> score_get SENSITIVITY_SCORE k \<and> score_get SENSITIVITY_SCORE k \<le> 3"
  by (simp add: score_get_def SENSITIVITY_SCORE_def)

lemma autonomy_bounds: "0 \<le> score_get AUTONOMY_SCORE k \<and> score_get AUTONOMY_SCORE k \<le> 3"
  by (simp add: score_get_def AUTONOMY_SCORE_def)

lemma policy_bounds: "0 \<le> POLICY_SCORE c \<and> POLICY_SCORE c \<le> 3"
  by (cases c) simp_all

lemma level_of_mono: "s \<le> t \<Longrightarrow> level_of s \<le> level_of t"
  by (auto simp: level_of_def less_eq_risk_level_def HIGH_THRESHOLD_def MEDIUM_THRESHOLD_def)

lemma rr_score_eq:
  "rr_score (classify_risk d x a c) = score_get SENSITIVITY_SCORE (norm_text d) + (if x then 2 else 0)
     + score_get AUTONOMY_SCORE (norm_text a) + (case c of None \<Rightarrow> 0 | Some c \<Rightarrow> POLICY_SCORE c)"
  by (simp add: classify_risk_def Let_def split: option.split)

lemma rr_level_eq: "rr_level (classify_risk d x a c) = level_of (rr_score (classify_risk d x a c))"
  by (simp add: classify_risk_def Let_def)

text \<open>The score of a review is between 0 and 11, its level is the band of the score (high
  from 6, medium from 3), and at least one reason is always given.\<close>

theorem classify_risk_bounds:
  "0 \<le> rr_score (classify_risk d x a c) \<and> rr_score (classify_risk d x a c) \<le> 11
   \<and> rr_level (classify_risk d x a c)
       = (if 6 \<le> rr_score (classify_risk d x a c) then High
          else if 3 \<le> rr_score (classify_risk d x a c) then Medium else Low)
   \<and> rr_reasons (classify_risk d x a c) \<noteq> []"
proof -
  have "0 \<le> rr_score (classify_risk d x a c) \<and> rr_score (classify_risk d x a c) \<le> 11"
    using sensitivity_bounds [of "norm_text d"] autonomy_bounds [of "norm_text a"] policy_bounds [of "the c"]
    unfolding rr_score_eq by (cases c) auto
  moreover have "rr_reasons (classify_risk d x a c) \<noteq> []"
    by (simp add: classify_risk_def Let_def)
  ultimately show ?thesis
    by (simp add: rr_level_eq level_of_def HIGH_THRESHOLD_def MEDIUM_THRESHOLD_def)
qed

text \<open>An external exposure or a policy category never lowers the level, and a destructive
  category alone already makes it medium.\<close>

theorem classify_risk_monotone:
  "rr_level (classify_risk d x a None) \<le> rr_level (classify_risk d x a c)
   \<and> rr_level (classify_risk d False a c) \<le> rr_level (classify_risk d x a c)
   \<and> Medium \<le> rr_level (classify_risk d x a (Some Destructive))"
proof (intro conjI)
  show "rr_level (classify_risk d x a None) \<le> rr_level (classify_risk d x a c)"
    using policy_bounds [of "the c"] unfolding rr_level_eq rr_score_eq
    by (intro level_of_mono) (auto split: option.split)
  show "rr_level (classify_risk d False a c) \<le> rr_level (classify_risk d x a c)"
    unfolding rr_level_eq rr_score_eq by (intro level_of_mono) auto
  have "level_of 3 \<le> rr_level (classify_risk d x a (Some Destructive))"
    using sensitivity_bounds [of "norm_text d"] autonomy_bounds [of "norm_text a"]
    unfolding rr_level_eq rr_score_eq by (intro level_of_mono) auto
  then show "Medium \<le> rr_level (classify_risk d x a (Some Destructive))"
    by (simp add: level_of_def HIGH_THRESHOLD_def MEDIUM_THRESHOLD_def)
qed

end
