(* ===== verification/GovernanceWorkflow.thy ===== *)
theory GovernanceWorkflow
  imports OverrideService RiskService
begin

text \<open>
  services/governance_workflow.py: one governance review end to end (policy, risk, governed action,
  risk assessment, audit of each step, approval gate, evidence artifact), and the views of a run.
\<close>

definition ACTION_TYPE :: string where "ACTION_TYPE = ''ai_vendor.governance_review''"
definition POLICY_VERSION :: string where "POLICY_VERSION = ''pilot-v1''"

definition A_SUBMITTED :: string where "A_SUBMITTED = ''governance_review.submitted''"
definition A_POLICY :: string where "A_POLICY = ''governance_review.policy_evaluated''"
definition A_RISK :: string where "A_RISK = ''governance_review.risk_classified''"
definition A_APPROVAL_REQUIRED :: string where "A_APPROVAL_REQUIRED = ''governance_review.approval_required''"
definition A_AUTO_CLEARED :: string where "A_AUTO_CLEARED = ''governance_review.auto_cleared''"
definition A_BLOCKED :: string where "A_BLOCKED = ''governance_review.blocked''"

definition policy_category_for :: "bool \<Rightarrow> string option \<Rightarrow> policy_category" where
  "policy_category_for external_exposure autonomy_level =
     (let autonomy = lower (strip (case autonomy_level of None \<Rightarrow> [] | Some a \<Rightarrow> a)) in
      if external_exposure \<or> autonomy \<in> set [''autonomous'', ''semi_autonomous''] then OutboundSend else DraftOnly)"

definition review_audit :: "env \<Rightarrow> string \<Rightarrow> string \<Rightarrow> string option \<Rightarrow> string option \<Rightarrow> dict \<Rightarrow> audit_args" where
  "review_audit E action ga_id t actor metadata =
     (audit_call action ''governed_action'' ga_id)
       \<lparr>arg_tenant := t, arg_actor := actor, arg_action_type := Some ACTION_TYPE, arg_metadata := metadata\<rparr>"

definition record_review_step ::
  "env \<Rightarrow> string \<Rightarrow> string \<Rightarrow> string option \<Rightarrow> string option \<Rightarrow> dict \<Rightarrow> unit svc" where
  "record_review_step E action ga_id t actor metadata =
     bindM (audit_record E (review_audit E action ga_id t actor metadata)) (\<lambda>_. ret ())"

text \<open>The intake of a review, as the route passes it.\<close>

record intake =
  in_tenant_id :: "string option"
  in_actor :: "string option"
  in_vendor_name :: string
  in_system_type :: string
  in_intended_use :: string
  in_data_sensitivity :: "string option"
  in_external_exposure :: bool
  in_autonomy_level :: "string option"

definition intake_json :: "intake \<Rightarrow> json" where
  "intake_json i = JObj [(''vendor_name'', JStr (in_vendor_name i)), (''system_type'', JStr (in_system_type i)),
     (''intended_use'', JStr (in_intended_use i)), (''data_sensitivity'', jopt (in_data_sensitivity i)),
     (''external_exposure'', JBool (in_external_exposure i)), (''autonomy_level'', jopt (in_autonomy_level i))]"

definition risk_json :: "risk_result \<Rightarrow> json" where
  "risk_json r = JObj [(''level'', JStr (risk_level_value (rr_level r))), (''score'', JInt (rr_score r)),
     (''reasons'', jstrs (rr_reasons r))]"

record review_run =
  rv_governed_action_id :: string
  rv_action_type :: string
  rv_status :: string
  rv_requires_approval :: bool
  rv_approval_id :: "string option"
  rv_policy :: policy_evaluation
  rv_risk :: risk_result

text \<open>The classification of an intake: policy, risk, whether an approval is needed, and the status.\<close>

definition review_policy :: "intake \<Rightarrow> policy_evaluation" where
  "review_policy i = evaluate_action (policy_category_for (in_external_exposure i) (in_autonomy_level i))"

definition review_risk :: "intake \<Rightarrow> risk_result" where
  "review_risk i = classify_risk (in_data_sensitivity i) (in_external_exposure i) (in_autonomy_level i)
     (Some (policy_category_for (in_external_exposure i) (in_autonomy_level i)))"

definition review_requires_approval :: "intake \<Rightarrow> bool" where
  "review_requires_approval i \<longleftrightarrow> pe_requires_approval (review_policy i)
     \<or> rr_level (review_risk i) = Medium \<or> rr_level (review_risk i) = High"

definition review_status :: "intake \<Rightarrow> string" where
  "review_status i =
     (if pe_blocked (review_policy i) then ''blocked''
      else if review_requires_approval i then ''pending_approval'' else ''cleared'')"

definition review_metadata :: "intake \<Rightarrow> string option \<Rightarrow> string \<Rightarrow> dict" where
  "review_metadata i policy_version_id policy_version_label =
     [(''intake'', intake_json i),
      (''policy'', JObj [(''category'', JStr (policy_category_value (pe_category (review_policy i)))),
         (''requires_approval'', JBool (pe_requires_approval (review_policy i))),
         (''blocked'', JBool (pe_blocked (review_policy i))), (''reason'', jopt (pe_reason (review_policy i))),
         (''policy_version_id'', jopt policy_version_id), (''policy_version'', JStr policy_version_label)]),
      (''risk'', risk_json (review_risk i))]"

text \<open>Step 5: the gate.\<close>

definition review_gate :: "env \<Rightarrow> intake \<Rightarrow> governed_action \<Rightarrow> string option svc" where
  "review_gate E i action =
     (let t = in_tenant_id i; actor = in_actor i; policy = review_policy i; risk = review_risk i;
          level = JStr (risk_level_value (rr_level risk)) in
      if pe_blocked policy then
        bindM (record_review_step E A_BLOCKED (ga_pk action) t actor [(''reason'', jopt (pe_reason policy))])
          (\<lambda>_. ret None)
      else if review_requires_approval i then
        bindM (create_request E ''governance.review'' t (ga_pk action)
                 [(''workflow'', JStr ACTION_TYPE), (''governed_action_id'', JStr (ga_pk action)),
                  (''risk_level'', level), (''policy_category'', JStr (policy_category_value (pe_category policy)))]) (\<lambda>approval.
        bindM (gets clock) (\<lambda>now.
        bindM (update_row governed_actions_update ga_pk (ga_pk action)
                 (touch_action now (\<lambda>a. a\<lparr>ga_approval := Some (appr_pk approval)\<rparr>))) (\<lambda>_.
        bindM (record_review_step E A_APPROVAL_REQUIRED (ga_pk action) t actor
                 [(''approval_id'', JStr (appr_pk approval)), (''risk_level'', level)])
          (\<lambda>_. ret (Some (appr_pk approval))))))
      else
        bindM (record_review_step E A_AUTO_CLEARED (ga_pk action) t actor [(''risk_level'', level)])
          (\<lambda>_. ret None))"

text \<open>Step 4: the risk assessment and the first three events of the trail.\<close>

definition review_trail :: "env \<Rightarrow> intake \<Rightarrow> governed_action \<Rightarrow> unit svc" where
  "review_trail E i action =
     (let t = in_tenant_id i; actor = in_actor i; policy = review_policy i; risk = review_risk i;
          level = risk_level_value (rr_level risk) in
      bindM (create_risk_assessment t level None None
               (Some (in_vendor_name i @ '': '' @ level @ '' risk (score '' @ str_int (rr_score risk) @ '')''))
               [(''reasons'', jstrs (rr_reasons risk)), (''governed_action_id'', JStr (ga_pk action))]) (\<lambda>_.
      bindM (record_review_step E A_SUBMITTED (ga_pk action) t actor
               [(''vendor_name'', JStr (in_vendor_name i)), (''system_type'', JStr (in_system_type i))]) (\<lambda>_.
      bindM (record_review_step E A_POLICY (ga_pk action) t actor
               [(''category'', JStr (policy_category_value (pe_category policy))),
                (''requires_approval'', JBool (pe_requires_approval policy)), (''blocked'', JBool (pe_blocked policy))]) (\<lambda>_.
      record_review_step E A_RISK (ga_pk action) t actor
               [(''level'', JStr level), (''score'', JInt (rr_score risk)), (''reasons'', jstrs (rr_reasons risk))]))))"

definition submit_vendor_governance_review :: "env \<Rightarrow> intake \<Rightarrow> review_run svc" where
  "submit_vendor_governance_review E i =
     (let t = in_tenant_id i; policy = review_policy i; risk = review_risk i in
      bindM (gets (get_active t DEFAULT_POLICY_NAME)) (\<lambda>active_policy.
      let policy_version_id = map_option policy_pk active_policy;
          policy_version_label = (case active_policy of None \<Rightarrow> POLICY_VERSION | Some p \<Rightarrow> policy_version p) in
      bindM (create_governed_action ((action_call t ACTION_TYPE)
               \<lparr>aa_policy_version := Some policy_version_label, aa_policy_version_id := policy_version_id,
                aa_policy_decision := Some (policy_category_value (pe_category policy)),
                aa_status := review_status i,
                aa_metadata := review_metadata i policy_version_id policy_version_label\<rparr>)) (\<lambda>action.
      bindM (review_trail E i action) (\<lambda>_.
      bindM (review_gate E i action) (\<lambda>approval_id.
      bindM (record_evidence_artifact t ''governance_review_intake'' (Some (ga_pk action)) None
               [(''intake'', intake_json i), (''risk_level'', JStr (risk_level_value (rr_level risk))),
                (''policy_category'', JStr (policy_category_value (pe_category policy)))]) (\<lambda>_.
      ret \<lparr>rv_governed_action_id = ga_pk action, rv_action_type = ACTION_TYPE, rv_status = review_status i,
           rv_requires_approval = review_requires_approval i, rv_approval_id = approval_id,
           rv_policy = policy, rv_risk = risk\<rparr>))))))"

section \<open>Views of a run\<close>

definition action_meta :: "governed_action \<Rightarrow> dict" where
  "action_meta action = (case ga_metadata action of None \<Rightarrow> [] | Some m \<Rightarrow> m)"

definition run_status :: "governed_action \<Rightarrow> approval option \<Rightarrow> string" where
  "run_status action approval =
     (if truthy (sub_get (dget (action_meta action) ''policy'') ''blocked'') then ''blocked''
      else if ga_approval action = None then ''cleared''
      else case approval of
          None \<Rightarrow> ga_status action
        | Some a \<Rightarrow> (case appr_status a of
              ApprovalPending \<Rightarrow> ''pending_approval'' | ApprovalApproved \<Rightarrow> ''approved'' | ApprovalRejected \<Rightarrow> ''rejected''))"

record run_view =
  run_governed_action_id :: string
  run_action_type :: string
  run_state :: string
  run_approval_id :: "string option"
  run_approval_status :: "string option"
  run_policy :: json
  run_risk :: json
  run_intake :: json
  run_audit_event_count :: nat
  run_evidence_artifact_count :: nat

definition get_run :: "string \<Rightarrow> string option \<Rightarrow> world \<Rightarrow> run_view option" where
  "get_run governed_action_id t w =
     (case get_evidence_graph governed_action_id t w of
        None \<Rightarrow> None
      | Some g \<Rightarrow>
          (let action = g_action g; approval = g_approval g; meta = action_meta action;
               action_events = list_for_resource ''governed_action'' (ga_pk action) t (audit_events w) in
           Some \<lparr>run_governed_action_id = ga_pk action, run_action_type = ga_action_type action,
             run_state = run_status action approval, run_approval_id = ga_approval action,
             run_approval_status = map_option (approval_status_value \<circ> appr_status) approval,
             run_policy = dget meta ''policy'', run_risk = dget meta ''risk'', run_intake = dget meta ''intake'',
             run_audit_event_count = length (remdups (map ae_pk action_events @ map ae_pk (g_audit_events g))),
             run_evidence_artifact_count = length (g_artifacts g)\<rparr>))"

record run_row =
  row_governed_action_id :: string
  row_status :: string
  row_approval_id :: "string option"
  row_risk :: json
  row_policy_decision :: "string option"

definition run_row_of :: "governed_action \<Rightarrow> run_row" where
  "run_row_of action =
     \<lparr>row_governed_action_id = ga_pk action, row_status = ga_status action, row_approval_id = ga_approval action,
      row_risk = dget (action_meta action) ''risk'', row_policy_decision = ga_policy_decision action\<rparr>"

definition list_runs :: "string option \<Rightarrow> world \<Rightarrow> run_row list" where
  "list_runs t w = map run_row_of
     (filter (\<lambda>a. ga_action_type a = ACTION_TYPE) (list_governed_actions t None None None w))"

section \<open>Footprints\<close>

lemma review_step_evo [evo]:
  "TAudit \<in> S \<Longrightarrow> evolves (only S) (record_review_step E a k t u m)"
  "evolves (forward E) (record_review_step E a k t u m)"
  unfolding record_review_step_def by (intro evo; assumption?)+

lemma review_gate_evo [evo]:
  "{TAudit, TApprovals, TActions} \<subseteq> S \<Longrightarrow> evolves (only S) (review_gate E i a)"
  "evolves (forward E) (review_gate E i a)"
  unfolding review_gate_def by (intro evo; simp?)+

lemma review_trail_evo [evo]:
  "{TAudit, TRisk} \<subseteq> S \<Longrightarrow> evolves (only S) (review_trail E i a)"
  "evolves (forward E) (review_trail E i a)"
  unfolding review_trail_def by (intro evo; simp?)+

lemma submit_evo [evo]:
  "{TAudit, TApprovals, TActions, TRisk, TArtifacts} \<subseteq> S \<Longrightarrow>
   evolves (only S) (submit_vendor_governance_review E i)"
  "evolves (forward E) (submit_vendor_governance_review E i)"
  unfolding submit_vendor_governance_review_def by (intro evo; simp?)+

section \<open>Classification of an intake\<close>

text \<open>No intake is blocked, and the approval requirement read off the intake.\<close>

lemma review_not_blocked [simp]: "pe_blocked (review_policy i) = False"
  by (simp add: review_policy_def policy_category_for_def Let_def)

lemma review_requires_approval_iff:
  "review_requires_approval i \<longleftrightarrow>
     in_external_exposure i \<or> policy_category_for False (in_autonomy_level i) = OutboundSend
     \<or> Medium \<le> rr_level (review_risk i)"
proof -
  have "rr_level (review_risk i) = Medium \<or> rr_level (review_risk i) = High \<longleftrightarrow> Medium \<le> rr_level (review_risk i)"
    by (cases "rr_level (review_risk i)") (simp_all add: less_eq_risk_level_def)
  then show ?thesis
    by (auto simp: review_requires_approval_def review_policy_def policy_category_for_def Let_def)
qed

lemma record_review_step_run:
  "chain_ok E (audit_events w) \<Longrightarrow>
   record_review_step E a k t u m w = (Inr (), audited E (review_audit E a k t u m) w)"
  by (simp add: record_review_step_def bindM_def audit_record_audited ret_def)

section \<open>A review, step by step\<close>

definition new_action :: "action_args \<Rightarrow> world \<Rightarrow> governed_action" where
  "new_action a w = \<lparr>ga_pk = uuid (uuids w), ga_tenant = aa_tenant a, ga_workflow = aa_workflow a,
     ga_source_job = aa_source_job a, ga_approval = aa_approval a, ga_execution_job = aa_execution_job a,
     ga_action_type = aa_action_type a, ga_policy_version = aa_policy_version a,
     ga_policy_version_id = aa_policy_version_id a, ga_policy_decision = aa_policy_decision a,
     ga_status = aa_status a, ga_metadata = metadata_json (aa_metadata a), ga_created_at = clock w,
     ga_updated_at = clock w\<rparr>"

lemma create_governed_action_run:
  "aa_source_job a = None \<Longrightarrow> create_governed_action a w
     = (Inr (new_action a w), w\<lparr>uuids := Suc (uuids w), governed_actions := governed_actions w @ [new_action a w]\<rparr>)"
  by (auto simp: create_governed_action_def new_action_def new_id_def comp Let_def insert_unique_def
      same_governed_action_def sql_eq_def list_ex_iff)

lemma create_governed_action_bind:
  "aa_source_job a = None \<Longrightarrow> bindM (create_governed_action a) f w
     = f (new_action a w) (w\<lparr>uuids := Suc (uuids w), governed_actions := governed_actions w @ [new_action a w]\<rparr>)"
  by (simp add: bindM_def create_governed_action_run)

text \<open>The governed action a submission creates.\<close>

definition review_action :: "intake \<Rightarrow> world \<Rightarrow> governed_action" where
  "review_action i w =
     (let active = get_active (in_tenant_id i) DEFAULT_POLICY_NAME w;
          vid = map_option policy_pk active;
          label = (case active of None \<Rightarrow> POLICY_VERSION | Some p \<Rightarrow> policy_version p) in
      new_action ((action_call (in_tenant_id i) ACTION_TYPE)
               \<lparr>aa_policy_version := Some label, aa_policy_version_id := vid,
                aa_policy_decision := Some (policy_category_value (pe_category (review_policy i))),
                aa_status := review_status i, aa_metadata := review_metadata i vid label\<rparr>) w)"

lemma review_action_fields:
  "ga_pk (review_action i w) = uuid (uuids w)" "ga_tenant (review_action i w) = in_tenant_id i"
  "ga_status (review_action i w) = review_status i" "ga_approval (review_action i w) = None"
  "ga_source_job (review_action i w) = None" "ga_action_type (review_action i w) = ACTION_TYPE"
  "ga_policy_version_id (review_action i w) = map_option policy_pk (get_active (in_tenant_id i) DEFAULT_POLICY_NAME w)"
  "ga_policy_version (review_action i w)
     = Some (case get_active (in_tenant_id i) DEFAULT_POLICY_NAME w of None \<Rightarrow> POLICY_VERSION | Some p \<Rightarrow> policy_version p)"
  by (simp_all add: review_action_def new_action_def action_call_def Let_def)

lemma create_risk_assessment_run:
  "\<exists>r. create_risk_assessment t l k wk s m w
     = (Inr r, w\<lparr>uuids := Suc (uuids w), risk_assessments := risk_assessments w @ [r]\<rparr>)"
  by (simp add: create_risk_assessment_def new_id_def comp Let_def insert_row_def)

lemma review_trail_run:
  assumes "chain_ok E (audit_events w)"
  shows "\<exists>r a1 a2 a3. review_trail E i a w = (Inr (), audited E a3 (audited E a2 (audited E a1
     (w\<lparr>uuids := Suc (uuids w), risk_assessments := risk_assessments w @ [r]\<rparr>))))"
  using assms
  by (simp add: review_trail_def create_risk_assessment_def new_id_def insert_row_def comp Let_def
      record_review_step_run chain_ok_audited) blast

lemma review_gate_cleared:
  assumes "chain_ok E (audit_events w)" and "review_requires_approval i = False"
  shows "\<exists>x. review_gate E i a w = (Inr None, audited E x w)"
  using assms by (simp add: review_gate_def Let_def bindM_def record_review_step_run ret_def) blast

lemma review_gate_pending:
  assumes "chain_ok E (audit_events w)" and "review_requires_approval i"
  shows "\<exists>ap x y. review_gate E i a w = (Inr (Some (uuid (uuids w))),
      audited E y (governed_actions_update (tupd ga_pk (ga_pk a)
          (touch_action (clock w) (\<lambda>a. a\<lparr>ga_approval := Some (uuid (uuids w))\<rparr>)))
        (audited E x (w\<lparr>uuids := Suc (uuids w), approvals := approvals w @ [ap]\<rparr>))))
     \<and> appr_pk ap = uuid (uuids w) \<and> appr_status ap = ApprovalPending \<and> appr_tenant ap = in_tenant_id i"
proof -
  obtain ap x where req: "create_request E ''governance.review'' (in_tenant_id i) (ga_pk a)
        [(''workflow'', JStr ACTION_TYPE), (''governed_action_id'', JStr (ga_pk a)),
         (''risk_level'', JStr (risk_level_value (rr_level (review_risk i)))),
         (''policy_category'', JStr (policy_category_value (pe_category (review_policy i))))] w
      = (Inr ap, audited E x (w\<lparr>uuids := Suc (uuids w), approvals := approvals w @ [ap]\<rparr>))"
    "appr_pk ap = uuid (uuids w)" "appr_status ap = ApprovalPending" "appr_tenant ap = in_tenant_id i"
    by (simp add: create_request_run [OF assms(1)] Let_def)
  have chain: "chain_ok E (audit_events (governed_actions_update f
      (audited E x (w\<lparr>uuids := Suc (uuids w), approvals := approvals w @ [ap]\<rparr>))))" for f
    using chain_ok_audited [of E "w\<lparr>uuids := Suc (uuids w), approvals := approvals w @ [ap]\<rparr>" x] assms(1) by simp
  show ?thesis
    using assms(2) req chain
    by (simp add: review_gate_def Let_def bindM_def gets_def update_row_def modify_def record_review_step_run ret_def)
      blast
qed

section \<open>Properties\<close>

lemma review_completes:
  assumes good: "good E w" and keys: "drawn governed_actions ga_pk w"
  shows "\<exists>run v a. submit_vendor_governance_review E i w = (Inr run, v) \<and> good E v
     \<and> governed_actions v = governed_actions w @ [a] \<and> ga_pk a = rv_governed_action_id run
     \<and> ga_tenant a = in_tenant_id i \<and> ga_action_type a = ACTION_TYPE \<and> ga_status a = rv_status run
     \<and> ga_policy_version_id a = map_option policy_pk (get_active (in_tenant_id i) DEFAULT_POLICY_NAME w)
     \<and> ga_approval a = rv_approval_id run
     \<and> length (artifacts v) = Suc (length (artifacts w)) \<and> jobs v = jobs w
     \<and> rv_requires_approval run = (in_external_exposure i
          \<or> policy_category_for False (in_autonomy_level i) = OutboundSend \<or> Medium \<le> rr_level (review_risk i))
     \<and> (if rv_requires_approval run
        then rv_status run = ''pending_approval'' \<and> length (audit_events v) = length (audit_events w) + 5
           \<and> (\<exists>ap. approvals v = approvals w @ [ap] \<and> rv_approval_id run = Some (appr_pk ap)
                \<and> appr_status ap = ApprovalPending \<and> appr_tenant ap = in_tenant_id i)
        else rv_status run = ''cleared'' \<and> length (audit_events v) = length (audit_events w) + 4
           \<and> approvals v = approvals w \<and> rv_approval_id run = None)"
proof -
  let ?a = "review_action i w"
  let ?w1 = "w\<lparr>uuids := Suc (uuids w), governed_actions := governed_actions w @ [?a]\<rparr>"
  have "chain_ok E (audit_events ?w1)" using goodD(1) [OF good] by simp
  from review_trail_run [OF this, of i ?a] obtain w2 where trail: "review_trail E i ?a ?w1 = (Inr (), w2)"
    and w2: "chain_ok E (audit_events w2)" "approvals w2 = approvals w" "artifacts w2 = artifacts w" "jobs w2 = jobs w"
    "governed_actions w2 = governed_actions w @ [?a]" "length (audit_events w2) = length (audit_events w) + 3"
    "clock w2 = clock w"
    using goodD(1) [OF good] by (auto simp: chain_ok_audited) (simp add: audited_def)
  have good_v: "good E v" if "submit_vendor_governance_review E i w = (r, v)" for r v
    using evolvesD [OF submit_evo(2), of E w i] good that by (simp add: forward_def)
  let ?ret = "\<lambda>aid. \<lparr>rv_governed_action_id = ga_pk ?a, rv_action_type = ACTION_TYPE, rv_status = review_status i,
           rv_requires_approval = review_requires_approval i, rv_approval_id = aid,
           rv_policy = review_policy i, rv_risk = review_risk i\<rparr>"
  have fresh: "ga_pk r \<noteq> ga_pk ?a" if "r \<in> set (governed_actions w)" for r
    using keys that by (auto simp: drawn_def review_action_fields)
  let ?art = "record_evidence_artifact (in_tenant_id i) ''governance_review_intake'' (Some (ga_pk ?a)) None
     [(''intake'', intake_json i), (''risk_level'', JStr (risk_level_value (rr_level (review_risk i)))),
      (''policy_category'', JStr (policy_category_value (pe_category (review_policy i))))]"
  have run: "submit_vendor_governance_review E i w
     = bindM (review_gate E i ?a) (\<lambda>aid. bindM ?art (\<lambda>_. ret (?ret aid))) w2"
  proof -
    have "submit_vendor_governance_review E i w = bindM (review_trail E i ?a)
        (\<lambda>_. bindM (review_gate E i ?a) (\<lambda>aid. bindM ?art (\<lambda>_. ret (?ret aid)))) ?w1"
      by (simp add: submit_vendor_governance_review_def Let_def create_governed_action_bind review_action_def
          action_call_def)
    then show ?thesis by (simp add: bindM_def trail)
  qed
  have art: "\<exists>r. bindM ?art (\<lambda>_. ret (?ret aid)) x
      = (Inr (?ret aid), x\<lparr>uuids := Suc (uuids x), artifacts := artifacts x @ [r]\<rparr>)" for aid x
    by (simp add: record_evidence_artifact_def new_id_def comp Let_def insert_row_def) (rule exI, rule refl)
  show ?thesis
  proof (cases "review_requires_approval i")
    case False
    obtain x where gate: "review_gate E i ?a w2 = (Inr None, audited E x w2)"
      using review_gate_cleared [OF w2(1)] False by blast
    obtain r where r: "submit_vendor_governance_review E i w = (Inr (?ret None),
        (audited E x w2)\<lparr>uuids := Suc (uuids (audited E x w2)), artifacts := artifacts (audited E x w2) @ [r]\<rparr>)"
      using art [of None "audited E x w2"] unfolding run bindM_def [of "review_gate E i ?a"] gate by auto
    show ?thesis
      using r good_v [OF r] w2 False review_requires_approval_iff [of i]
      by (simp add: review_action_fields review_status_def) (simp add: audited_def)
  next
    case True
    obtain ap x y where gate: "review_gate E i ?a w2 = (Inr (Some (uuid (uuids w2))),
      audited E y (governed_actions_update (tupd ga_pk (ga_pk ?a)
          (touch_action (clock w2) (\<lambda>a. a\<lparr>ga_approval := Some (uuid (uuids w2))\<rparr>)))
        (audited E x (w2\<lparr>uuids := Suc (uuids w2), approvals := approvals w2 @ [ap]\<rparr>))))" (is "_ = (_, ?w3)")
      and ap: "appr_pk ap = uuid (uuids w2)" "appr_status ap = ApprovalPending" "appr_tenant ap = in_tenant_id i"
      using review_gate_pending [OF w2(1) True] by blast
    obtain r where r: "submit_vendor_governance_review E i w = (Inr (?ret (Some (uuid (uuids w2)))),
        ?w3\<lparr>uuids := Suc (uuids ?w3), artifacts := artifacts ?w3 @ [r]\<rparr>)"
      using art [of "Some (uuid (uuids w2))" ?w3] unfolding run bindM_def [of "review_gate E i ?a"] gate by auto
    have ga: "governed_actions ?w3 = governed_actions w
        @ [touch_action (clock w2) (\<lambda>a. a\<lparr>ga_approval := Some (uuid (uuids w2))\<rparr>) ?a]"
      using tupd_other [of "governed_actions w" ga_pk, OF fresh] by (simp add: w2)
    show ?thesis
      using r good_v [OF r] w2 ap True review_requires_approval_iff [of i] ga
      by (simp add: review_action_fields review_status_def) (simp add: audited_def)
  qed
qed

text \<open>C16: a governance review always completes. It adds one governed action, bound to the version that
  is active for the tenant at that moment; its status is pending_approval exactly when the intake
  exposes something outside, acts autonomously, or is at least medium risk, and then a pending
  approval of the same tenant exists and the action points to it; otherwise it is cleared and no
  approval is created. It adds one evidence artifact, 4 audit events (5 with an approval) on a chain
  that still verifies, and no job.\<close>

theorem review_outcome:
  assumes good: "good E w" and keys: "drawn governed_actions ga_pk w"
  shows "\<exists>run v a. submit_vendor_governance_review E i w = (Inr run, v) \<and> good E v
     \<and> governed_actions v = governed_actions w @ [a] \<and> ga_pk a = rv_governed_action_id run
     \<and> ga_tenant a = in_tenant_id i \<and> ga_status a = rv_status run
     \<and> ga_policy_version_id a = map_option policy_pk (get_active (in_tenant_id i) DEFAULT_POLICY_NAME w)
     \<and> ga_approval a = rv_approval_id run
     \<and> length (artifacts v) = Suc (length (artifacts w)) \<and> jobs v = jobs w
     \<and> rv_requires_approval run = (in_external_exposure i
          \<or> policy_category_for False (in_autonomy_level i) = OutboundSend \<or> Medium \<le> rr_level (review_risk i))
     \<and> (if rv_requires_approval run
        then rv_status run = ''pending_approval'' \<and> length (audit_events v) = length (audit_events w) + 5
           \<and> (\<exists>ap. approvals v = approvals w @ [ap] \<and> rv_approval_id run = Some (appr_pk ap)
                \<and> appr_status ap = ApprovalPending \<and> appr_tenant ap = in_tenant_id i)
        else rv_status run = ''cleared'' \<and> length (audit_events v) = length (audit_events w) + 4
           \<and> approvals v = approvals w \<and> rv_approval_id run = None)"
  using review_completes [OF good keys, of i] by (elim exE conjE) (intro exI conjI; assumption)

definition sample_intake :: "string option \<Rightarrow> bool \<Rightarrow> intake" where
  "sample_intake autonomy exposure = \<lparr>in_tenant_id = Some ''t1'', in_actor = Some ''u1'', in_vendor_name = ''Acme'',
     in_system_type = ''chatbot'', in_intended_use = ''support'', in_data_sensitivity = Some ''public'',
     in_external_exposure = exposure, in_autonomy_level = autonomy\<rparr>"

theorem review_outcome_witness:
  "\<exists>run v. submit_vendor_governance_review sample_env (sample_intake None True) (sample_registry ''active'' ''draft'') = (Inr run, v)
     \<and> rv_status run = ''pending_approval'' \<and> length (approvals v) = 1
     \<and> map ga_policy_version_id (governed_actions v) = [Some (uuid 2)]"
proof -
  let ?w = "sample_registry ''active'' ''draft''"
  have keys: "drawn governed_actions ga_pk ?w" by (simp add: drawn_def sample_registry_def empty_world_def)
  have active: "get_active (Some ''t1'') DEFAULT_POLICY_NAME ?w = Some (sample_policy (uuid 2) ''v1'' ''active'')"
    by (simp add: get_active_def active_versions_def is_version_of_def sample_registry_def sample_policy_def first_row_def)
  have empty: "governed_actions ?w = []" "approvals ?w = []"
    by (simp_all add: sample_registry_def empty_world_def)
  show ?thesis
    using review_outcome [OF sample_registry_ok(1) keys, of sample_env "sample_intake None True"]
    by (auto simp: active empty sample_intake_def sample_policy_def)
qed

text \<open>The list of runs does not follow the decision. Approving or rejecting the approval of a review
  leaves every row of \<open>list_runs\<close> as it was, while the status of the same run in \<open>get_run\<close> is computed
  from the approval: an approved review stays listed as pending_approval.\<close>

theorem list_runs_stale:
  "list_runs t (after (approve E aid actor note t') w) = list_runs t w
   \<and> list_runs t (after (reject E aid actor reason t') w) = list_runs t w
   \<and> run_status (a\<lparr>ga_metadata := None, ga_approval := Some k\<rparr>) (Some p)
       = (if appr_status p = ApprovalPending then ''pending_approval'' else approval_status_value (appr_status p))"
proof -
  have "only {TApprovals, TAudit} w (after (approve E aid actor note t') w)"
    "only {TApprovals, TAudit} w (after (reject E aid actor reason t') w)"
    by (rule evolvesD, intro evo, simp_all)+
  then have "same TActions w (after (approve E aid actor note t') w)" "same TActions w (after (reject E aid actor reason t') w)"
    by (auto dest: onlyD simp del: same.simps)
  then show ?thesis
    by (cases "appr_status p") (simp_all add: list_runs_def list_governed_actions_def run_status_def action_meta_def sub_get_def dget_def)
qed

end
