(* ===== verification/TrustScore.thy ===== *)
theory TrustScore
  imports EvidencePacket GovernanceWorkflow
begin

text \<open>
  services/trust_score_service.py: the ten dimensions of the trust score of a packet, the bands, and
  the versioned rows the scores are stored in. Points are integers; Python's \<open>round\<close> of a quotient
  is rounding half to even (\<open>round_div\<close>; the quotients here are of lists shorter than \<open>2 ^ 48\<close>, on
  which the float division does not change the rounding).
\<close>

definition BANDS :: "(int \<times> string) list" where
  "BANDS = [(90, ''Verified''), (75, ''Strong''), (60, ''Moderate''), (40, ''Weak''), (0, ''High Risk'')]"

definition band_for :: "int \<Rightarrow> string" where
  "band_for score = (case List.find (\<lambda>b. fst b \<le> score) BANDS of Some b \<Rightarrow> snd b | None \<Rightarrow> ''High Risk'')"

record dimension =
  dim_key :: string
  dim_label :: string
  dim_max :: int
  dim_earned :: int
  dim_reasons :: "string list"

definition dimension_json :: "dimension \<Rightarrow> json" where
  "dimension_json d =
     JObj [(''dimension'', JStr (dim_key d)), (''label'', JStr (dim_label d)), (''points'', JInt (dim_earned d)),
       (''max_points'', JInt (dim_max d)), (''reasons'', jstrs (dim_reasons d))]"

definition round_div :: "int \<Rightarrow> int \<Rightarrow> int" where
  "round_div a b =
     (let q = a div b; r = a mod b in
      if 2 * r < b then q else if b < 2 * r then q + 1 else if even q then q else q + 1)"

text \<open>\<open>d.earned = n\<close> (when it is set) and \<open>d.reasons.append(r)\<close>.\<close>

definition earn :: "int \<Rightarrow> string \<Rightarrow> dimension \<Rightarrow> dimension" where
  "earn n reason d = d\<lparr>dim_earned := n, dim_reasons := dim_reasons d @ [reason]\<rparr>"

definition note_reason :: "string \<Rightarrow> dimension \<Rightarrow> dimension" where
  "note_reason reason d = d\<lparr>dim_reasons := dim_reasons d @ [reason]\<rparr>"

section \<open>The scorers\<close>

definition score_audit_integrity :: "dimension \<Rightarrow> packet \<Rightarrow> string \<Rightarrow> dimension" where
  "score_audit_integrity d p ae =
     (let v = p_chain p; status = cv_status v in
      if status = ''verified''
      then earn (dim_max d) (''audit chain verified ('' @ str_nat (cv_verified_count v) @ ''/'' @ str_nat (cv_total_count v) @ '')'') d
      else if status = ''empty'' then note_reason ''no audit events recorded yet'' d
      else note_reason (''audit chain not verified (status='' @ status @ '', reason='' @ str_opt (cv_reason v) @ '')'') d)"

definition score_approval_coverage :: "dimension \<Rightarrow> packet \<Rightarrow> string \<Rightarrow> dimension" where
  "score_approval_coverage d p ae =
     (let as = p_approvals p; n = length as;
          approved = length (filter (\<lambda>a. pp_status a = ''approved'') as) in
      if as = [] then note_reason ''no approvals recorded for this scope'' d
      else if approved = n then earn (dim_max d) (''all '' @ str_nat n @ '' approval(s) approved'') d
      else if approved \<noteq> 0
      then earn (round_div (dim_max d * int approved) (int n)) (str_nat approved @ ''/'' @ str_nat n @ '' approval(s) approved'') d
      else note_reason (str_nat n @ '' approval(s) pending/rejected, none approved'') d)"

definition score_control_coverage :: "dimension \<Rightarrow> packet \<Rightarrow> string \<Rightarrow> dimension" where
  "score_control_coverage d p ae =
     (if p_controls p \<noteq> [] then earn (dim_max d) (str_nat (length (p_controls p)) @ '' control(s) mapped'') d
      else note_reason ''no controls mapped (gap: missing_control_mappings)'' d)"

definition score_evidence_completeness :: "dimension \<Rightarrow> packet \<Rightarrow> string \<Rightarrow> dimension" where
  "score_evidence_completeness d p ae =
     (let gaps = p_gaps p in
      if gaps = [] then earn (dim_max d) ''no evidence gaps identified'' d
      else earn (dim_max d - min (dim_max d) (int (length gaps) * 4))
             (str_nat (length gaps) @ '' evidence gap(s): '' @ join '', '' gaps) d)"

definition score_regulatory_mapping :: "dimension \<Rightarrow> packet \<Rightarrow> string \<Rightarrow> dimension" where
  "score_regulatory_mapping d p ae =
     (if p_regulations p \<noteq> [] then earn (dim_max d) (''mapped to regulation(s): '' @ join '', '' (p_regulations p)) d
      else note_reason ''no regulations mapped'' d)"

definition score_rbac_enforcement :: "dimension \<Rightarrow> packet \<Rightarrow> string \<Rightarrow> dimension" where
  "score_rbac_enforcement d p ae =
     (if ae = ''production'' \<or> ae = ''staging''
      then earn (dim_max d) (''RBAC enforced (app_env='' @ ae @ '', no operator bypass)'') d
      else earn (round_div (dim_max d) 2) (''demo mode (app_env='' @ ae @ ''): operator bypass possible; harden for production'') d)"

definition score_tenant_isolation :: "dimension \<Rightarrow> packet \<Rightarrow> string \<Rightarrow> dimension" where
  "score_tenant_isolation d p ae =
     (case p_tenant p of
        Some t \<Rightarrow> if t = [] then note_reason ''scope is not tenant-bound (unscoped)'' d
                 else earn (dim_max d) (''scope bound to tenant '' @ t) d
      | None \<Rightarrow> note_reason ''scope is not tenant-bound (unscoped)'' d)"

definition score_incident_history :: "dimension \<Rightarrow> packet \<Rightarrow> string \<Rightarrow> dimension" where
  "score_incident_history d p ae =
     (if cv_status (p_chain p) = ''failed''
      then note_reason ''audit chain failure is an open integrity incident'' d
      else if p_overrides p = [] then earn (dim_max d) ''no overrides or integrity incidents on record'' d
      else earn (round_div (dim_max d) 2) (str_nat (length (p_overrides p)) @ '' documented human override(s) on record'') d)"

definition truthy_opt :: "string option \<Rightarrow> bool" where
  "truthy_opt x = (case x of None \<Rightarrow> False | Some s \<Rightarrow> s \<noteq> [])"

definition score_policy_enforcement :: "dimension \<Rightarrow> packet \<Rightarrow> string \<Rightarrow> dimension" where
  "score_policy_enforcement d p ae =
     (let ds = p_decisions p; n = length ds;
          bound = length (filter (\<lambda>x. truthy_opt (pd_policy_version_id x)) ds) in
      if ds \<noteq> [] \<and> bound = n then earn (dim_max d) (''all '' @ str_nat n @ '' decision(s) bound to a policy version'') d
      else if bound \<noteq> 0
      then earn (round_div (dim_max d * int bound) (int n)) (str_nat bound @ ''/'' @ str_nat n @ '' decision(s) bound to a policy version'') d
      else note_reason ''no policy version bound to the decision(s)'' d)"

definition score_execution_traceability :: "dimension \<Rightarrow> packet \<Rightarrow> string \<Rightarrow> dimension" where
  "score_execution_traceability d p ae =
     (let actions = map pv_action (p_events p);
          has_submit = list_ex (\<lambda>a. endswith a ''submitted'') actions;
          has_decision = list_ex (\<lambda>a. py_in ''approv'' a) actions;
          earned = (if has_submit then dim_max d div 2 else 0)
                   + (if has_decision then dim_max d - dim_max d div 2 else 0) in
      earn earned
        (if earned = dim_max d then ''lifecycle traceable end-to-end (submission through decision)''
         else if earned \<noteq> 0 then ''lifecycle partially traceable'' else ''no traceable lifecycle events'') d)"

definition DIMENSIONS :: "(string \<times> string \<times> int \<times> (dimension \<Rightarrow> packet \<Rightarrow> string \<Rightarrow> dimension)) list" where
  "DIMENSIONS =
    [(''audit_integrity'', ''Audit Integrity'', 15, score_audit_integrity),
     (''approval_coverage'', ''Approval Coverage'', 12, score_approval_coverage),
     (''control_coverage'', ''Control Coverage'', 12, score_control_coverage),
     (''evidence_completeness'', ''Evidence Completeness'', 12, score_evidence_completeness),
     (''regulatory_mapping'', ''Regulatory Mapping Coverage'', 10, score_regulatory_mapping),
     (''rbac_enforcement'', ''RBAC Enforcement'', 10, score_rbac_enforcement),
     (''tenant_isolation'', ''Tenant Isolation Status'', 8, score_tenant_isolation),
     (''incident_history'', ''Incident History'', 7, score_incident_history),
     (''policy_enforcement'', ''Policy Enforcement'', 7, score_policy_enforcement),
     (''execution_traceability'', ''Execution Traceability'', 7, score_execution_traceability)]"

definition TRUST_DISCLAIMER :: string where
  "TRUST_DISCLAIMER = ''Trust scores are derived from recorded governance evidence and support governance review and procurement validation. They are not a certification, attestation, or guarantee of compliance.''"

record score_result =
  sc_score :: int
  sc_band :: string
  sc_breakdown :: "dimension list"

definition score_dims :: "string \<Rightarrow> packet \<Rightarrow> dimension list" where
  "score_dims ae p =
     map (\<lambda>(k, label, mx, scorer).
            scorer \<lparr>dim_key = k, dim_label = label, dim_max = mx, dim_earned = 0, dim_reasons = []\<rparr> p ae) DIMENSIONS"

definition score_packet :: "env \<Rightarrow> string option \<Rightarrow> packet \<Rightarrow> score_result" where
  "score_packet E ae p =
     (let e = (case ae of Some x \<Rightarrow> if x = [] then app_env_value (app_env (config E)) else x
               | None \<Rightarrow> app_env_value (app_env (config E)));
          dims = score_dims e p;
          total = max 0 (min 100 (sum_list (map dim_earned dims)))
      in \<lparr>sc_score = total, sc_band = band_for total, sc_breakdown = dims\<rparr>)"

definition score_json :: "score_result \<Rightarrow> dict" where
  "score_json r =
     [(''score'', JInt (sc_score r)), (''score_band'', JStr (sc_band r)), (''max_score'', JInt 100),
      (''breakdown'', JArr (map dimension_json (sc_breakdown r))), (''disclaimer'', JStr TRUST_DISCLAIMER)]"

section \<open>Stored scores\<close>

text \<open>\<open>max(xs, default=d)\<close>.\<close>

definition max_default :: "int \<Rightarrow> int list \<Rightarrow> int" where
  "max_default d xs = (case xs of [] \<Rightarrow> d | x # ys \<Rightarrow> fold max ys x)"

definition scores_of :: "string option \<Rightarrow> string \<Rightarrow> string \<Rightarrow> world \<Rightarrow> trust_score list" where
  "scores_of t scope_type scope_id w =
     filter (\<lambda>r. in_tenant ts_tenant t r \<and> ts_scope_type r = scope_type \<and> ts_scope_id r = scope_id) (trust_scores w)"

definition persist_score :: "string option \<Rightarrow> string \<Rightarrow> string \<Rightarrow> score_result \<Rightarrow> trust_score svc" where
  "persist_score t scope_type scope_id r =
     bindM (gets (scores_of t scope_type scope_id)) (\<lambda>prior.
     bindM new_id (\<lambda>pk. bindM (gets clock) (\<lambda>now.
       let row = \<lparr>ts_pk = pk, ts_tenant = t, ts_scope_type = scope_type, ts_scope_id = scope_id,
                  ts_score = sc_score r, ts_band = sc_band r,
                  ts_breakdown = Some (JArr (map dimension_json (sc_breakdown r))),
                  ts_version = max_default 0 (map ts_version prior) + 1, ts_created_at = now\<rparr>
       in bindM (insert_row trust_scores_update row) (\<lambda>_. ret row))))"

definition result_with_row :: "score_result \<Rightarrow> trust_score \<Rightarrow> string \<Rightarrow> string \<Rightarrow> dict" where
  "result_with_row r row scope_type scope_id =
     [(''score_id'', JStr (ts_pk row)), (''tenant_id'', jopt (ts_tenant row)), (''scope_type'', JStr scope_type),
      (''scope_id'', JStr scope_id), (''version'', JInt (ts_version row))] @ score_json r"

text \<open>The common tail of \<open>score_action\<close>, \<open>score_workflow\<close> and \<open>score_tenant\<close>.\<close>

definition score_scope :: "env \<Rightarrow> string option \<Rightarrow> string \<Rightarrow> string \<Rightarrow> bool \<Rightarrow> packet \<Rightarrow> dict svc" where
  "score_scope E t scope_type scope_id persist p =
     (let r = score_packet E None p in
      if persist
      then bindM (persist_score t scope_type scope_id r) (\<lambda>row. ret (result_with_row r row scope_type scope_id))
      else ret ([(''scope_type'', JStr scope_type), (''scope_id'', JStr scope_id)] @ score_json r))"

definition score_action :: "env \<Rightarrow> string \<Rightarrow> string option \<Rightarrow> bool \<Rightarrow> dict option svc" where
  "score_action E governed_action_id t persist =
     bindM (gets (build_action_packet E governed_action_id t)) (\<lambda>p. case p of
       None \<Rightarrow> ret None
     | Some p \<Rightarrow> bindM (score_scope E t ''governed_action'' governed_action_id persist p) (\<lambda>d. ret (Some d)))"

definition score_workflow :: "env \<Rightarrow> string \<Rightarrow> string option \<Rightarrow> bool \<Rightarrow> dict option svc" where
  "score_workflow E workflow_id t persist =
     bindM (gets (build_workflow_packet E workflow_id t)) (\<lambda>p. case p of
       None \<Rightarrow> ret None
     | Some p \<Rightarrow> bindM (score_scope E t ''workflow'' workflow_id persist p) (\<lambda>d. ret (Some d)))"

definition score_tenant :: "env \<Rightarrow> string \<Rightarrow> bool \<Rightarrow> dict svc" where
  "score_tenant E t persist =
     bindM (gets (build_tenant_packet E t None None)) (\<lambda>p. score_scope E (Some t) ''tenant'' t persist p)"

definition get_latest :: "string \<Rightarrow> string \<Rightarrow> string option \<Rightarrow> world \<Rightarrow> trust_score option" where
  "get_latest scope_type scope_id t w = first_row (order_desc ts_version (scores_of t scope_type scope_id w))"

definition stored_to_dict :: "trust_score \<Rightarrow> dict" where
  "stored_to_dict row =
     [(''score_id'', JStr (ts_pk row)), (''tenant_id'', jopt (ts_tenant row)), (''scope_type'', JStr (ts_scope_type row)),
      (''scope_id'', JStr (ts_scope_id row)), (''version'', JInt (ts_version row)), (''score'', JInt (ts_score row)),
      (''score_band'', JStr (ts_band row)), (''max_score'', JInt 100),
      (''breakdown'', case ts_breakdown row of None \<Rightarrow> JArr [] | Some b \<Rightarrow> b),
      (''created_at'', JStr (isoformat (ts_created_at row))), (''disclaimer'', JStr TRUST_DISCLAIMER)]"

definition latest_result :: "string \<Rightarrow> string \<Rightarrow> string option \<Rightarrow> world \<Rightarrow> dict option" where
  "latest_result scope_type scope_id t w = map_option stored_to_dict (get_latest scope_type scope_id t w)"

section \<open>Footprints\<close>

lemma score_evo [evo]:
  "TScores \<in> S \<Longrightarrow> evolves (only S) (persist_score t st k r)" "evolves (forward E) (persist_score t st k r)"
  unfolding persist_score_def by (intro evo; assumption?)+

lemma score_ops_evo [evo]:
  "TScores \<in> S \<Longrightarrow> evolves (only S) (score_action E k t b)" "evolves (forward F) (score_action E k t b)"
  "TScores \<in> S \<Longrightarrow> evolves (only S) (score_workflow E k t b)" "evolves (forward F) (score_workflow E k t b)"
  "TScores \<in> S \<Longrightarrow> evolves (only S) (score_tenant E k' b)" "evolves (forward F) (score_tenant E k' b)"
  unfolding score_action_def score_workflow_def score_tenant_def score_scope_def
  by (intro evo; assumption?)+

section \<open>The contract of a scorer\<close>

text \<open>
  A scorer keeps the identity and the maximum of its dimension, earns between nothing and the
  maximum, and gives one reason.
\<close>

definition scored :: "dimension \<Rightarrow> dimension \<Rightarrow> bool" where
  "scored d d' \<longleftrightarrow> dim_key d' = dim_key d \<and> dim_label d' = dim_label d \<and> dim_max d' = dim_max d
     \<and> 0 \<le> dim_earned d' \<and> dim_earned d' \<le> dim_max d' \<and> length (dim_reasons d') = Suc (length (dim_reasons d))"

locale scorer =
  fixes score :: "dimension \<Rightarrow> packet \<Rightarrow> string \<Rightarrow> dimension"
  assumes fair: "0 \<le> dim_max d \<Longrightarrow> dim_earned d = 0 \<Longrightarrow> scored d (score d p ae)"
begin

lemma fresh_scored:
  fixes k l mx p ae
  defines "d \<equiv> score \<lparr>dim_key = k, dim_label = l, dim_max = mx, dim_earned = 0, dim_reasons = []\<rparr> p ae"
  assumes "0 \<le> mx"
  shows "dim_max d = mx" "0 \<le> dim_earned d" "dim_earned d \<le> mx" "length (dim_reasons d) = Suc 0"
  using fair [of "\<lparr>dim_key = k, dim_label = l, dim_max = mx, dim_earned = 0, dim_reasons = []\<rparr>" p ae] assms
  by (simp_all add: scored_def)

end

lemma round_div_bounds:
  assumes "0 \<le> m" and "0 \<le> x" and "x \<le> n" and "0 < n"
  shows "0 \<le> round_div (m * x) n \<and> round_div (m * x) n \<le> m"
proof -
  let ?q = "m * x div n" and ?r = "m * x mod n"
  have mx: "0 \<le> m * x" "m * x \<le> m * n" using assms by (auto intro: mult_left_mono)
  then have q: "0 \<le> ?q" "?q \<le> m"
    using assms(4) by (simp_all add: pos_imp_zdiv_nonneg_iff) (metis mult.commute nonzero_mult_div_cancel_right order_less_irrefl zdiv_mono1)
  have up: "?q + 1 \<le> m" if "n \<le> 2 * ?r"
  proof (rule ccontr)
    assume "\<not> ?q + 1 \<le> m"
    then have "?q = m" using q by simp
    then have "m * x = m * n + ?r" by (metis mult.commute div_mult_mod_eq)
    then show False using that mx assms(4) by simp
  qed
  show ?thesis using q up by (auto simp: round_div_def Let_def)
qed

lemma share_bounds:
  assumes "0 \<le> m" and "filter P xs \<noteq> []"
  shows "0 \<le> round_div (m * int (length (filter P xs))) (int (length xs))
    \<and> round_div (m * int (length (filter P xs))) (int (length xs)) \<le> m"
proof (rule round_div_bounds)
  show "0 < int (length xs)" using assms(2) by (cases xs) auto
qed (use assms in simp_all)

lemmas points = scored_def earn_def note_reason_def

interpretation audit_integrity: scorer score_audit_integrity
  by unfold_locales (simp add: score_audit_integrity_def points Let_def)

interpretation approval_coverage: scorer score_approval_coverage
  by unfold_locales (simp add: score_approval_coverage_def points Let_def share_bounds)

interpretation control_coverage: scorer score_control_coverage
  by unfold_locales (simp add: score_control_coverage_def points)

interpretation evidence_completeness: scorer score_evidence_completeness
  by unfold_locales (auto simp: score_evidence_completeness_def points Let_def)

interpretation regulatory_mapping: scorer score_regulatory_mapping
  by unfold_locales (simp add: score_regulatory_mapping_def points)

interpretation rbac_enforcement: scorer score_rbac_enforcement
  using round_div_bounds [of _ 1 2] by unfold_locales (simp add: score_rbac_enforcement_def points)

interpretation tenant_isolation: scorer score_tenant_isolation
  by unfold_locales (simp add: score_tenant_isolation_def points split: option.split)

interpretation incident_history: scorer score_incident_history
  using round_div_bounds [of _ 1 2] by unfold_locales (simp add: score_incident_history_def points)

interpretation policy_enforcement: scorer score_policy_enforcement
  by unfold_locales (simp add: score_policy_enforcement_def points Let_def share_bounds)

interpretation execution_traceability: scorer score_execution_traceability
  by unfold_locales (auto simp: score_execution_traceability_def points Let_def)

lemmas scorers_fair = audit_integrity.fresh_scored approval_coverage.fresh_scored control_coverage.fresh_scored
  evidence_completeness.fresh_scored regulatory_mapping.fresh_scored rbac_enforcement.fresh_scored
  tenant_isolation.fresh_scored incident_history.fresh_scored policy_enforcement.fresh_scored
  execution_traceability.fresh_scored

text \<open>C27: a score is what its breakdown says. For every packet and environment the ten dimensions have 100
  points in all, each earns between 0 and its maximum and gives exactly one reason, the score is
  their sum (the clamp never acts), lies between 0 and 100, and the band is the one whose threshold
  it reaches.\<close>

theorem score_bounds:
  "(let r = score_packet E ae p in
      sum_list (map dim_max (sc_breakdown r)) = 100
    \<and> list_all (\<lambda>d. 0 \<le> dim_earned d \<and> dim_earned d \<le> dim_max d \<and> length (dim_reasons d) = 1) (sc_breakdown r)
    \<and> sc_score r = sum_list (map dim_earned (sc_breakdown r)) \<and> 0 \<le> sc_score r \<and> sc_score r \<le> 100
    \<and> sc_band r = (if 90 \<le> sc_score r then ''Verified'' else if 75 \<le> sc_score r then ''Strong''
        else if 60 \<le> sc_score r then ''Moderate'' else if 40 \<le> sc_score r then ''Weak'' else ''High Risk''))"
proof -
  let ?r = "score_packet E ae p"
  obtain e where dims: "sc_breakdown ?r = score_dims e p"
    and total: "sc_score ?r = max 0 (min 100 (sum_list (map dim_earned (score_dims e p))))"
    and band: "sc_band ?r = band_for (sc_score ?r)"
    by (simp add: score_packet_def Let_def)
  have fair: "list_all (\<lambda>d. 0 \<le> dim_earned d \<and> dim_earned d \<le> dim_max d \<and> length (dim_reasons d) = 1) (score_dims e p)"
    and mx: "map dim_max (score_dims e p) = [15, 12, 12, 12, 10, 10, 8, 7, 7, 7]"
    by (simp_all add: score_dims_def DIMENSIONS_def scorers_fair)
  have le: "list_all (\<lambda>d. 0 \<le> dim_earned d \<and> dim_earned d \<le> dim_max d) ds
      \<Longrightarrow> 0 \<le> sum_list (map dim_earned ds) \<and> sum_list (map dim_earned ds) \<le> sum_list (map dim_max ds)" for ds
    by (induction ds) auto
  have "0 \<le> sum_list (map dim_earned (score_dims e p)) \<and> sum_list (map dim_earned (score_dims e p)) \<le> 100"
    using le [of "score_dims e p"] fair by (simp add: list_all_iff mx)
  moreover have "sum_list (map dim_max (score_dims e p)) = 100" by (simp add: mx)
  ultimately show ?thesis using fair total band by (simp add: Let_def dims band_for_def BANDS_def)
qed

text \<open>A review that is still waiting for its decision scores full traceability. With the events the
  submission records, none of them a decision, and every approval pending, the dimension earns all of its
  7 points "through decision": \<open>approval_required\<close> contains the text the scorer looks for.\<close>

theorem pending_review_traceable:
  "(let d = score_execution_traceability \<lparr>dim_key = k, dim_label = l, dim_max = 7, dim_earned = 0, dim_reasons = []\<rparr>
       (p\<lparr>p_events := map (\<lambda>a. \<lparr>pv_id = i, pv_seq = None, pv_action = a, pv_resource_type = rt, pv_resource_id = ri\<rparr>)
            [A_SUBMITTED, A_POLICY, A_RISK, A_APPROVAL_REQUIRED]\<rparr>) ae in
     dim_earned d = 7 \<and> dim_reasons d = [''lifecycle traceable end-to-end (submission through decision)''])"
proof -
  have "list_ex (\<lambda>a. endswith a ''submitted'') [A_SUBMITTED, A_POLICY, A_RISK, A_APPROVAL_REQUIRED]" by code_simp
  moreover have "list_ex (\<lambda>a. py_in ''approv'' a) [A_SUBMITTED, A_POLICY, A_RISK, A_APPROVAL_REQUIRED]" by code_simp
  ultimately show ?thesis by (simp add: score_execution_traceability_def earn_def Let_def o_def)
qed

section \<open>Versions of a stored score\<close>

lemma insort_greatest: "\<forall>r \<in> set ys. key r < key z \<Longrightarrow> insort_key key z ys = ys @ [z]"
  by (induction ys) auto

lemma latest_is_greatest:
  assumes "\<And>r. r \<in> set xs \<Longrightarrow> key r < key z"
  shows "first_row (order_desc key (xs @ [z])) = Some z"
proof -
  have "insort_key key z (sort_key key (rev xs)) = sort_key key (rev xs) @ [z]"
    by (rule insort_greatest) (use assms in simp)
  then show ?thesis by (simp add: order_desc_def first_row_def)
qed

lemma max_default_ge: "v \<in> set xs \<Longrightarrow> v \<le> max_default d xs"
  by (cases xs) (auto simp: max_default_def simp flip: Max.set_eq_fold)

definition score_row :: "string option \<Rightarrow> string \<Rightarrow> string \<Rightarrow> score_result \<Rightarrow> world \<Rightarrow> trust_score" where
  "score_row t st k r w =
     \<lparr>ts_pk = uuid (uuids w), ts_tenant = t, ts_scope_type = st, ts_scope_id = k,
      ts_score = sc_score r, ts_band = sc_band r, ts_breakdown = Some (JArr (map dimension_json (sc_breakdown r))),
      ts_version = max_default 0 (map ts_version (scores_of t st k w)) + 1, ts_created_at = clock w\<rparr>"

lemma persist_score_run:
  "persist_score t st k r w =
     (Inr (score_row t st k r w), w\<lparr>uuids := Suc (uuids w), trust_scores := trust_scores w @ [score_row t st k r w]\<rparr>)"
  by (simp add: persist_score_def comp new_id_def insert_row_def Let_def score_row_def)

lemma persisted_latest:
  "get_latest st k t (after (persist_score t st k r) w) = Some (score_row t st k r w)"
  "list_all (\<lambda>x. ts_version x < ts_version (score_row t st k r w)) (scores_of t st k w)"
proof -
  have new: "scores_of t st k (after (persist_score t st k r) w) = scores_of t st k w @ [score_row t st k r w]"
    by (simp add: persist_score_run scores_of_def) (simp add: score_row_def in_tenant_def)
  have less: "ts_version x < ts_version (score_row t st k r w)" if "x \<in> set (scores_of t st k w)" for x
    using max_default_ge [of "ts_version x" "map ts_version (scores_of t st k w)" 0] that by (simp add: score_row_def)
  show "get_latest st k t (after (persist_score t st k r) w) = Some (score_row t st k r w)"
    unfolding get_latest_def new by (rule latest_is_greatest) (rule less)
  show "list_all (\<lambda>x. ts_version x < ts_version (score_row t st k r w)) (scores_of t st k w)"
    using less by (simp add: list_all_iff)
qed

text \<open>A stored score is read back as it was computed. Scoring a visible action always succeeds, stores
  one row with a version above every earlier version of that scope, and from then on the latest score
  of the scope is that one: identity, version, score, band and breakdown are the computed ones. An
  action the caller cannot see gives no score and changes nothing.\<close>

theorem stored_score_latest:
  "case score_action E k t True w of
     (Inr (Some d), v) \<Rightarrow> (case latest_result ''governed_action'' k t v of None \<Rightarrow> False | Some d' \<Rightarrow>
        list_all (\<lambda>f. dget d' f = dget d f) [''score_id'', ''tenant_id'', ''scope_type'', ''scope_id'', ''version'',
          ''score'', ''score_band'', ''max_score'', ''breakdown'', ''disclaimer'']
      \<and> length (trust_scores v) = Suc (length (trust_scores w))
      \<and> (case dget d ''version'' of JInt n \<Rightarrow> list_all (\<lambda>x. ts_version x < n) (scores_of t ''governed_action'' k w) | _ \<Rightarrow> False))
   | (Inr None, v) \<Rightarrow> v = w \<and> get_governed_action k t w = None
   | (Inl _, v) \<Rightarrow> False"
proof (cases "build_action_packet E k t w")
  case None
  then show ?thesis
    by (simp add: score_action_def comp build_action_packet_def get_evidence_graph_def Let_def split: option.splits)
next
  case (Some p)
  let ?r = "score_packet E None p"
  let ?row = "score_row t ''governed_action'' k ?r w"
  have run: "score_action E k t True w =
      (Inr (Some (result_with_row ?r ?row ''governed_action'' k)), after (persist_score t ''governed_action'' k ?r) w)"
    using Some by (simp add: score_action_def score_scope_def comp persist_score_run Let_def)
  have latest: "latest_result ''governed_action'' k t (after (persist_score t ''governed_action'' k ?r) w)
      = Some (stored_to_dict ?row)"
    by (simp only: latest_result_def persisted_latest option.map)
  have version: "dget (result_with_row ?r ?row ''governed_action'' k) ''version'' = JInt (ts_version ?row)"
    by (simp add: result_with_row_def)
  have "length (trust_scores (after (persist_score t ''governed_action'' k ?r) w)) = Suc (length (trust_scores w))"
    by (simp add: persist_score_run)
  then show ?thesis
    unfolding run prod.case sum.case option.case latest version json.case
    using persisted_latest(2) [of t "''governed_action''" k ?r w]
    by (simp add: stored_to_dict_def result_with_row_def score_json_def score_row_def)
qed

end
