(* ===== verification/VerificationService.thy ===== *)
theory VerificationService
  imports EvidenceStore TrustScore
begin

text \<open>
  services/verification_service.py: the procurement verification of a governed action, which consumes
  its newest signed packet and its trust score. Each operation is the code's, and the abstract
  lifecycle at the end is what they refine.
\<close>

definition DEFAULT_MIN_SCORE :: int where "DEFAULT_MIN_SCORE = 60"
definition SUBJECT_GOVERNED_ACTION :: string where "SUBJECT_GOVERNED_ACTION = ''governed_action''"

definition verification_audit :: "string \<Rightarrow> verification \<Rightarrow> string option \<Rightarrow> dict \<Rightarrow> audit_args" where
  "verification_audit action row actor meta =
     (audit_call action ''trust_verification'' (ver_pk row))
       \<lparr>arg_tenant := ver_tenant row, arg_actor := actor,
        arg_metadata := [(''status'', JStr (ver_status row)), (''subject_id'', JStr (ver_subject_id row))] @ meta\<rparr>"

definition get_verification :: "string \<Rightarrow> string option \<Rightarrow> world \<Rightarrow> verification option" where
  "get_verification verification_id t w = scoped_row ver_tenant t (get_row verifications ver_pk verification_id w)"

definition latest_signed_packet :: "string option \<Rightarrow> string \<Rightarrow> world \<Rightarrow> packet_row option" where
  "latest_signed_packet t subject_id w =
     first_row (order_desc pkt_version (filter (\<lambda>p. in_tenant pkt_tenant t p \<and> pkt_scope_type p = SUBJECT_GOVERNED_ACTION
       \<and> pkt_scope_id p = Some subject_id \<and> pkt_signature p \<noteq> None) (packets w)))"

definition request_verification ::
  "env \<Rightarrow> string option \<Rightarrow> string \<Rightarrow> string option \<Rightarrow> string \<Rightarrow> int \<Rightarrow> verification svc" where
  "request_verification E t subject_id requested_by subject_type min_score_required =
     bindM (gets (get_evidence_graph subject_id t)) (\<lambda>g.
     if g = None then raise (ValueError ''subject_not_found'')
     else bindM (gets (latest_signed_packet t subject_id)) (\<lambda>found. case found of
       None \<Rightarrow> raise (ValueError ''no_signed_evidence'')
     | Some packet \<Rightarrow>
         bindM new_id (\<lambda>pk. bindM (gets clock) (\<lambda>now.
           let row = \<lparr>ver_pk = pk, ver_tenant = t, ver_subject_type = subject_type, ver_subject_id = subject_id,
                      ver_status = ''requested'', ver_packet = Some (pkt_pk packet), ver_trust_score_id = None,
                      ver_trust_score = None, ver_min_score = min_score_required, ver_requested_by = requested_by,
                      ver_reviewed_by = None, ver_decided_by = None, ver_review_notes = None,
                      ver_decision_reason = None, ver_reviewed_at = None, ver_decided_at = None,
                      ver_created_at = now\<rparr> in
           bindM (insert_row verifications_update row) (\<lambda>_.
           bindM (audit_record E (verification_audit ''verification.requested'' row requested_by
                    [(''evidence_packet_id'', JStr (pkt_pk packet)), (''min_score_required'', JInt min_score_required)]))
             (\<lambda>_. ret row))))))"

text \<open>\<open>_evidence_status\<close>: the report of the referenced packet, or that it is missing.\<close>

datatype evidence = EvidenceMissing | EvidenceReport packet_report

fun evidence_state :: "evidence \<Rightarrow> string" where
  "evidence_state EvidenceMissing = ''missing''"
| "evidence_state (EvidenceReport r) = vr_status r"

definition evidence_status :: "env \<Rightarrow> verification \<Rightarrow> world \<Rightarrow> exn + evidence" where
  "evidence_status E row w =
     (case via (ver_packet row) (\<lambda>k. get_packet k (ver_tenant row) w) of
        None \<Rightarrow> Inr EvidenceMissing
      | Some p \<Rightarrow> map_sum id EvidenceReport (verify_packet E p w))"

definition set_reviewed :: "time \<Rightarrow> string option \<Rightarrow> string option \<Rightarrow> string \<Rightarrow> verification \<Rightarrow> verification" where
  "set_reviewed now reviewed_by notes state row =
     row\<lparr>ver_reviewed_by := reviewed_by, ver_review_notes := notes, ver_reviewed_at := Some now,
         ver_status := (if state = ''valid'' then ''under_review'' else ''rejected''),
         ver_decision_reason := (if state = ''valid'' then None else Some (''evidence_'' @ state))\<rparr>"

definition review_verification ::
  "env \<Rightarrow> string \<Rightarrow> string option \<Rightarrow> string option \<Rightarrow> string option \<Rightarrow> (verification \<times> evidence) svc" where
  "review_verification E verification_id t reviewed_by notes =
     bindM (gets (get_verification verification_id t)) (\<lambda>found. case found of
       None \<Rightarrow> raise (ValueError ''verification_not_found'')
     | Some row \<Rightarrow>
         if ver_status row \<noteq> ''requested'' then raise (ValueError ''invalid_transition'')
         else bindM (gets (evidence_status E row)) (\<lambda>r. bindM (lift r) (\<lambda>ev. bindM (gets clock) (\<lambda>now.
           let change = set_reviewed now reviewed_by notes (evidence_state ev); row' = change row in
           bindM (update_row verifications_update ver_pk (ver_pk row) change) (\<lambda>_.
           bindM (audit_record E (verification_audit ''verification.reviewed'' row' reviewed_by
                    [(''evidence_status'', JStr (evidence_state ev))])) (\<lambda>_.
           ret (row', ev)))))))"

definition set_approved :: "time \<Rightarrow> string option \<Rightarrow> int \<Rightarrow> string option \<Rightarrow> verification \<Rightarrow> verification" where
  "set_approved now approved_by score score_id row =
     row\<lparr>ver_status := ''approved'', ver_decided_by := approved_by, ver_decided_at := Some now,
         ver_trust_score := Some score, ver_trust_score_id := score_id, ver_decision_reason := Some ''approved''\<rparr>"

definition score_points :: "dict \<Rightarrow> int" where
  "score_points d = (case dget d ''score'' of JInt n \<Rightarrow> n | _ \<Rightarrow> 0)"

definition approve_verification ::
  "env \<Rightarrow> string \<Rightarrow> string option \<Rightarrow> string option \<Rightarrow> (verification \<times> dict) svc" where
  "approve_verification E verification_id t approved_by =
     bindM (gets (get_verification verification_id t)) (\<lambda>found. case found of
       None \<Rightarrow> raise (ValueError ''verification_not_found'')
     | Some row \<Rightarrow>
         if ver_status row \<noteq> ''under_review'' then raise (ValueError ''invalid_transition'')
         else bindM (gets (evidence_status E row)) (\<lambda>r. bindM (lift r) (\<lambda>ev.
           if evidence_state ev \<noteq> ''valid'' then raise (ValueError (''evidence_not_valid:'' @ evidence_state ev))
           else bindM (score_action E (ver_subject_id row) t True) (\<lambda>scored. case scored of
             None \<Rightarrow> raise (ValueError ''subject_not_found'')
           | Some score \<Rightarrow>
               if score_points score < ver_min_score row then raise (ValueError ''insufficient_trust_score'')
               else bindM (gets clock) (\<lambda>now.
                 let change = set_approved now approved_by (score_points score) (jstr (dget score ''score_id''));
                     row' = change row in
                 bindM (update_row verifications_update ver_pk (ver_pk row) change) (\<lambda>_.
                 bindM (audit_record E (verification_audit ''verification.approved'' row' approved_by
                          [(''trust_score'', JInt (score_points score)), (''min_score_required'', JInt (ver_min_score row))]))
                   (\<lambda>_. ret (row', score))))))))"

definition set_ver_revoked :: "time \<Rightarrow> string option \<Rightarrow> string \<Rightarrow> verification \<Rightarrow> verification" where
  "set_ver_revoked now revoked_by reason row =
     row\<lparr>ver_status := ''revoked'', ver_decided_by := revoked_by, ver_decided_at := Some now, ver_decision_reason := Some reason\<rparr>"

definition revoke_verification ::
  "env \<Rightarrow> string \<Rightarrow> string option \<Rightarrow> string option \<Rightarrow> string \<Rightarrow> verification svc" where
  "revoke_verification E verification_id t revoked_by reason =
     bindM (gets (get_verification verification_id t)) (\<lambda>found. case found of
       None \<Rightarrow> raise (ValueError ''verification_not_found'')
     | Some row \<Rightarrow>
         if ver_status row \<noteq> ''approved'' then raise (ValueError ''invalid_transition'')
         else bindM (gets clock) (\<lambda>now.
           let change = set_ver_revoked now revoked_by reason; row' = change row in
           bindM (update_row verifications_update ver_pk (ver_pk row) change) (\<lambda>_.
           bindM (audit_record E (verification_audit ''verification.revoked'' row' revoked_by [(''reason'', JStr reason)]))
             (\<lambda>_. ret row'))))"

section \<open>Interfaces and footprints\<close>

interpretation verifications_tbl: world_table verifications verifications_update ver_pk
  by unfold_locales simp_all

interpretation verification_fetch: scoped_fetch verifications ver_pk ver_tenant get_verification
  by unfold_locales (simp add: get_verification_def get_row_def)

lemma verification_evo [evo]:
  "{TVerifications, TAudit} \<subseteq> S \<Longrightarrow> evolves (only S) (request_verification E t sid rb sty m)"
  "evolves (forward E) (request_verification E t sid rb sty m)"
  "{TVerifications, TAudit} \<subseteq> S \<Longrightarrow> evolves (only S) (review_verification E k t rb' n)"
  "evolves (forward E) (review_verification E k t rb' n)"
  "{TVerifications, TAudit, TScores} \<subseteq> S \<Longrightarrow> evolves (only S) (approve_verification E k t ab)"
  "evolves (forward E) (approve_verification E k t ab)"
  "{TVerifications, TAudit} \<subseteq> S \<Longrightarrow> evolves (only S) (revoke_verification E k t vb reason)"
  "evolves (forward E) (revoke_verification E k t vb reason)"
  unfolding request_verification_def review_verification_def approve_verification_def revoke_verification_def
  by (intro evo; simp?)+

section \<open>The abstract lifecycle\<close>

datatype stage = Requested | UnderReview | Approved | Rejected | Revoked

definition STAGES :: "(string \<times> stage) list" where
  "STAGES = [(''requested'', Requested), (''under_review'', UnderReview), (''approved'', Approved),
             (''rejected'', Rejected), (''revoked'', Revoked)]"

definition stage_of :: "verification \<Rightarrow> stage option" where
  "stage_of r = map_of STAGES (ver_status r)"

inductive moves :: "stage \<Rightarrow> stage \<Rightarrow> bool" where
  accept: "moves Requested UnderReview"
| refuse: "moves Requested Rejected"
| approve: "moves UnderReview Approved"
| revoke: "moves Approved Revoked"

code_pred moves .

inductive_cases moves_fromE: "moves Rejected b" "moves Revoked b" "moves Approved b" "moves a Approved" "moves a Revoked"

text \<open>What stays of a verification through its life, and one move of a row.\<close>

definition ver_identity ::
  "verification \<Rightarrow> string \<times> string option \<times> string \<times> string \<times> string option \<times> int \<times> string option \<times> time" where
  "ver_identity r = (ver_pk r, ver_tenant r, ver_subject_type r, ver_subject_id r, ver_packet r, ver_min_score r,
     ver_requested_by r, ver_created_at r)"

definition backed :: "verification \<Rightarrow> bool" where
  "backed r \<longleftrightarrow> (case stage_of r of
      None \<Rightarrow> False
    | Some s \<Rightarrow> s \<notin> {Approved, Revoked} \<or> (case ver_trust_score r of None \<Rightarrow> False | Some n \<Rightarrow> ver_min_score r \<le> n))"

definition ver_move :: "verification \<Rightarrow> verification \<Rightarrow> bool" where
  "ver_move r r' \<longleftrightarrow> ver_identity r' = ver_identity r
     \<and> (case (stage_of r, stage_of r') of (Some a, Some b) \<Rightarrow> moves a b | _ \<Rightarrow> False) \<and> (backed r \<longrightarrow> backed r')"

text \<open>One operation: nothing, a new request, or one move of one row.\<close>

definition ver_step :: "world \<Rightarrow> world \<Rightarrow> bool" where
  "ver_step w v \<longleftrightarrow> uuids w \<le> uuids v \<and>
     (verifications v = verifications w
    \<or> (\<exists>row. verifications v = verifications w @ [row] \<and> ver_pk row = uuid (uuids w) \<and> uuids w < uuids v
           \<and> stage_of row = Some Requested)
    \<or> (\<exists>row change. row \<in> set (verifications w) \<and> verifications v = tupd ver_pk (ver_pk row) change (verifications w)
           \<and> ver_move row (change row)))"

definition verified_ok :: "world \<Rightarrow> bool" where
  "verified_ok w \<longleftrightarrow> drawn verifications ver_pk w \<and> list_all backed (verifications w)"

lemma ver_step_table:
  assumes "ver_step w v" and ok: "verified_ok w"
  shows "verified_ok v" "list_all2 (\<lambda>r r'. r' = r \<or> ver_move r r') (verifications w) (take (length (verifications w)) (verifications v))"
    "list_all (\<lambda>r. stage_of r = Some Requested) (drop (length (verifications w)) (verifications v))"
proof -
  let ?n = "length (verifications w)"
  have d: "distinct (map ver_pk (verifications w))" and b: "list_all backed (verifications w)"
    using ok by (simp_all add: verified_ok_def drawn_def)
  have le: "uuids w \<le> uuids v" using assms(1) by (simp add: ver_step_def)
  from assms(1) consider "verifications v = verifications w"
    | row where "verifications v = verifications w @ [row]" "ver_pk row = uuid (uuids w)" "uuids w < uuids v" "stage_of row = Some Requested"
    | row change where "row \<in> set (verifications w)" "verifications v = tupd ver_pk (ver_pk row) change (verifications w)" "ver_move row (change row)"
    unfolding ver_step_def by blast
  then have "verified_ok v \<and> list_all2 (\<lambda>r r'. r' = r \<or> ver_move r r') (verifications w) (take ?n (verifications v))
    \<and> list_all (\<lambda>r. stage_of r = Some Requested) (drop ?n (verifications v))"
  proof cases
    case 1
    then show ?thesis using ok le drawn_mono [of verifications ver_pk w v]
      by (simp add: verified_ok_def list_all2_same)
  next
    case (2 row)
    have "drawn verifications ver_pk v"
    proof -
      have "uuid ` {..<uuids w} \<subseteq> uuid ` {..<uuids v}" using le by (intro image_mono) auto
      then show ?thesis using ok 2 by (auto simp: verified_ok_def drawn_def)
    qed
    moreover have "backed row" using 2 by (simp add: backed_def)
    ultimately show ?thesis using 2 b by (simp add: verified_ok_def list_all2_same)
  next
    case (3 row change)
    have upd: "(if ver_pk r = ver_pk row then change r else r) = (if r = row then change row else r)"
      if "r \<in> set (verifications w)" for r
      using distinct_key_unique [OF d that 3(1)] by auto
    then have v: "verifications v = map (\<lambda>r. if r = row then change row else r) (verifications w)"
      unfolding 3(2) tupd_def by (rule map_cong [OF refl])
    have pk: "ver_pk (change row) = ver_pk row" and bk: "backed row \<longrightarrow> backed (change row)"
      using 3(3) by (simp_all add: ver_move_def ver_identity_def)
    have keys: "map ver_pk (verifications v) = map ver_pk (verifications w)"
      unfolding v using pk by auto
    then have "ver_pk ` set (verifications v) = ver_pk ` set (verifications w)" by (metis set_map)
    moreover have "uuid ` {..<uuids w} \<subseteq> uuid ` {..<uuids v}" using le by (intro image_mono) auto
    ultimately have "drawn verifications ver_pk v"
      using ok keys unfolding verified_ok_def drawn_def by (metis subset_trans)
    then show ?thesis using b bk 3(3)
      by (auto simp: verified_ok_def v list_all_iff list_all2_map2 list_all2_same)
  qed
  then show "verified_ok v" "list_all2 (\<lambda>r r'. r' = r \<or> ver_move r r') (verifications w) (take ?n (verifications v))"
    "list_all (\<lambda>r. stage_of r = Some Requested) (drop ?n (verifications v))" by simp_all
qed

section \<open>The operations refine the lifecycle\<close>

lemma after_bind_ret: "after (bindM m (\<lambda>x. ret (f x))) w = after m w"
  by (auto simp: comp split: prod.split sum.split)

lemma audit_keeps [simp]: "verifications (after (audit_record E a) w) = verifications w"
  "uuids w \<le> uuids (after (audit_record E a) w)"
proof -
  have "only {TAudit} w (after (audit_record E a) w)" by (rule evolvesD) (intro evo, simp)
  then show "verifications (after (audit_record E a) w) = verifications w" "uuids w \<le> uuids (after (audit_record E a) w)"
    by (auto dest: onlyD [of _ _ _ TVerifications] simp: only_def)
qed

lemma score_keeps: "verifications (after (score_action E k t b) w) = verifications w"
  "uuids w \<le> uuids (after (score_action E k t b) w)"
proof -
  have "only {TScores} w (after (score_action E k t b) w)" by (rule evolvesD) (intro evo, simp)
  then show "verifications (after (score_action E k t b) w) = verifications w" "uuids w \<le> uuids (after (score_action E k t b) w)"
    by (auto dest: onlyD [of _ _ _ TVerifications] simp: only_def)
qed

lemma ver_step_same: "verifications v = verifications w \<Longrightarrow> uuids w \<le> uuids v \<Longrightarrow> ver_step w v"
  by (simp add: ver_step_def)

lemma ver_step_refl [simp]: "ver_step w w"
  by (simp add: ver_step_def)

text \<open>The common end of the operations on an existing row: its update, its audit event, the answer.\<close>

lemma move_step:
  assumes "verifications w' = verifications w" "uuids w \<le> uuids w'" "row \<in> set (verifications w)" "ver_move row (change row)"
  shows "ver_step w (after (bindM (update_row verifications_update ver_pk (ver_pk row) change)
     (\<lambda>_. bindM (audit_record E a) (\<lambda>_. ret x))) w')"
proof -
  have "verifications (after (bindM (update_row verifications_update ver_pk (ver_pk row) change)
     (\<lambda>_. bindM (audit_record E a) (\<lambda>_. ret x))) w') = tupd ver_pk (ver_pk row) change (verifications w)"
    and "uuids w' \<le> uuids (after (bindM (update_row verifications_update ver_pk (ver_pk row) change)
     (\<lambda>_. bindM (audit_record E a) (\<lambda>_. ret x))) w')"
    using audit_keeps(2) [of "verifications_update (tupd ver_pk (ver_pk row) change) w'" E a] assms(1)
    by (simp_all add: update_row_def after_bind_ret)
  then show ?thesis using assms unfolding ver_step_def by (meson order_trans)
qed

lemma stage_strings:
  "ver_status r = ''requested'' \<Longrightarrow> stage_of r = Some Requested"
  "ver_status r = ''under_review'' \<Longrightarrow> stage_of r = Some UnderReview"
  "ver_status r = ''approved'' \<Longrightarrow> stage_of r = Some Approved"
  "ver_status r = ''rejected'' \<Longrightarrow> stage_of r = Some Rejected"
  "ver_status r = ''revoked'' \<Longrightarrow> stage_of r = Some Revoked"
  by (simp_all add: stage_of_def STAGES_def)

lemma reviewed_move: "ver_status row = ''requested'' \<Longrightarrow> ver_move row (set_reviewed now rb n st row)"
  by (simp add: ver_move_def ver_identity_def backed_def stage_strings set_reviewed_def moves.simps)

lemma approved_move:
  "ver_status row = ''under_review'' \<Longrightarrow> ver_min_score row \<le> s \<Longrightarrow> ver_move row (set_approved now ab s sid row)"
  by (simp add: ver_move_def ver_identity_def backed_def stage_strings set_approved_def moves.simps)

lemma revoked_move: "ver_status row = ''approved'' \<Longrightarrow> ver_move row (set_ver_revoked now rb reason row)"
  by (simp add: ver_move_def ver_identity_def backed_def stage_strings set_ver_revoked_def moves.simps split: option.split)

lemma request_step: "ver_step w (after (request_verification E t sid rb sty m) w)"
proof -
  have "ver_step w (after (bindM (insert_row verifications_update row) (\<lambda>_. bindM (audit_record E a) (\<lambda>_. ret row)))
      (w\<lparr>uuids := Suc (uuids w)\<rparr>))" if "ver_pk row = uuid (uuids w)" "ver_status row = ''requested''" for row a
    using that audit_keeps(2) [of "w\<lparr>uuids := Suc (uuids w), verifications := verifications w @ [row]\<rparr>" E a]
    by (simp add: ver_step_def insert_row_def after_bind_ret stage_strings)
  then show ?thesis
    by (simp add: request_verification_def new_id_def bindM_def [of new_id] Let_def raise_def split: option.split)
qed

lemma review_step: "ver_step w (after (review_verification E k t rb n) w)"
  by (auto simp: review_verification_def raise_def lift_def bindM_def [of "lift _"] Let_def
      intro!: move_step reviewed_move dest: verification_fetch.fetch_SomeD split: option.split sum.split)

lemma approve_step: "ver_step w (after (approve_verification E k t ab) w)"
proof (cases "get_verification k t w")
  case None
  then show ?thesis by (simp add: approve_verification_def raise_def)
next
  case (Some row)
  let ?u = "after (score_action E (ver_subject_id row) t True) w"
  have same: "ver_step w ?u" by (rule ver_step_same) (simp_all add: score_keeps)
  have "ver_step w (after (bindM (update_row verifications_update ver_pk (ver_pk row) (set_approved now ab s sid))
     (\<lambda>_. bindM (audit_record E a) (\<lambda>_. ret x))) ?u)" if "ver_status row = ''under_review''" "ver_min_score row \<le> s" for now s sid a x
    using verification_fetch.fetch_SomeD [OF Some] that by (intro move_step approved_move) (simp_all add: score_keeps)
  then show ?thesis
    using Some same
    by (auto simp: approve_verification_def raise_def lift_def bindM_def [of "lift _"] bindM_def [of "score_action _ _ _ _"] Let_def not_less
        split: option.split sum.split prod.split)
qed

lemma revoke_step: "ver_step w (after (revoke_verification E k t rb reason) w)"
  by (auto simp: revoke_verification_def raise_def Let_def
      intro!: move_step revoked_move dest: verification_fetch.fetch_SomeD split: option.split)

lemmas verification_steps = request_step review_step approve_step revoke_step

text \<open>The four operations as one step of the service.\<close>

datatype verification_op =
    RequestOp "string option" string "string option" string int
  | ReviewOp string "string option" "string option" "string option"
  | ApproveOp string "string option" "string option"
  | RevokeOp string "string option" "string option" string

fun run_verification :: "env \<Rightarrow> verification_op \<Rightarrow> unit svc" where
  "run_verification E (RequestOp t sid rb sty m) = bindM (request_verification E t sid rb sty m) (\<lambda>_. ret ())"
| "run_verification E (ReviewOp k t rb n) = bindM (review_verification E k t rb n) (\<lambda>_. ret ())"
| "run_verification E (ApproveOp k t ab) = bindM (approve_verification E k t ab) (\<lambda>_. ret ())"
| "run_verification E (RevokeOp k t rb r) = bindM (revoke_verification E k t rb r) (\<lambda>_. ret ())"

lemma run_verification_step: "ver_step w (after (run_verification E op) w)"
  by (cases op) (simp_all add: after_bind_ret verification_steps)

text \<open>C15: the service refines the lifecycle requested, under review, approved, revoked (or rejected at review).
  Whatever operation runs and however it ends, each verification stays as it was or makes one move of the
  lifecycle, keeping its identity, subject, packet and required score; new ones start as requested; and
  every approved or revoked one has a recorded score that meets the required minimum.\<close>

theorem lifecycle_refined:
  assumes "verified_ok w"
  shows "(let v = after (run_verification E op) w; n = length (verifications w) in
      verified_ok v
    \<and> list_all2 (\<lambda>r r'. r' = r \<or> ver_move r r') (verifications w) (take n (verifications v))
    \<and> list_all (\<lambda>r. stage_of r = Some Requested) (drop n (verifications v)))"
  using ver_step_table [OF run_verification_step assms] by (simp add: Let_def)

definition sample_verification :: "string \<Rightarrow> verification" where
  "sample_verification status = \<lparr>ver_pk = uuid 2, ver_tenant = Some ''t1'', ver_subject_type = ''governed_action'',
     ver_subject_id = uuid 3, ver_status = status, ver_packet = Some (uuid 4), ver_trust_score_id = None,
     ver_trust_score = Some 80, ver_min_score = 60, ver_requested_by = None, ver_reviewed_by = None,
     ver_decided_by = None, ver_review_notes = None, ver_decision_reason = None, ver_reviewed_at = None,
     ver_decided_at = None, ver_created_at = 0\<rparr>"

definition sample_verifications :: "string \<Rightarrow> world" where
  "sample_verifications status = empty_world\<lparr>verifications := [sample_verification status], uuids := 5\<rparr>"

theorem lifecycle_refined_witness:
  "map stage_of (verifications (after (run_verification sample_env (RevokeOp (uuid 2) (Some ''t1'') None ''r''))
       (sample_verifications ''approved''))) = [Some Revoked]"
proof -
  let ?v = "after (run_verification sample_env (RevokeOp (uuid 2) (Some ''t1'') None ''r'')) (sample_verifications ''approved'')"
  have "verified_ok (sample_verifications ''approved'')"
    by (auto simp: verified_ok_def drawn_def sample_verifications_def sample_verification_def backed_def stage_of_def STAGES_def)
  from lifecycle_refined [OF this, of sample_env "RevokeOp (uuid 2) (Some ''t1'') None ''r''"]
  have "length (verifications ?v) \<ge> 1" by (auto simp: sample_verifications_def Let_def dest!: list_all2_lengthD)
  moreover have "verifications ?v = tupd ver_pk (uuid 2) (set_ver_revoked 0 None ''r'') [sample_verification ''approved'']"
    by (simp add: after_bind_ret revoke_verification_def get_verification_def get_row_def sample_verifications_def
        sample_verification_def scoped_row_def Let_def update_row_def raise_def empty_world_def)
  ultimately show ?thesis by (simp add: sample_verification_def set_ver_revoked_def stage_of_def STAGES_def)
qed

text \<open>C30: the approval gate. An approval succeeds only for a verification under review that the caller can
  see, whose stored packet verifies as valid at that moment and whose subject's score, computed and
  stored then, meets the required minimum; in every other case no verification changes.\<close>

theorem approve_gate:
  assumes "chain_ok E (audit_events w)"
  shows "case approve_verification E k t ab w of
      (Inl e, v) \<Rightarrow> verifications v = verifications w
    | (Inr (row', d), v) \<Rightarrow> (\<exists>row p. get_verification k t w = Some row \<and> ver_status row = ''under_review''
        \<and> via (ver_packet row) (\<lambda>k. get_packet k (ver_tenant row) w) = Some p
        \<and> map_sum id vr_status (verify_packet E p w) = Inr ''valid''
        \<and> fst (score_action E (ver_subject_id row) t True w) = Inr (Some d) \<and> ver_min_score row \<le> score_points d
        \<and> row' = set_approved (clock w) ab (score_points d) (jstr (dget d ''score_id'')) row
        \<and> verifications v = tupd ver_pk (ver_pk row)
            (set_approved (clock w) ab (score_points d) (jstr (dget d ''score_id''))) (verifications w))"
proof (cases "get_verification k t w")
  case None
  then show ?thesis by (simp add: approve_verification_def raise_def)
next
  case (Some row)
  obtain r u where sc: "score_action E (ver_subject_id row) t True w = (r, u)" by (cases "score_action E (ver_subject_id row) t True w")
  have "only {TScores} w u" using evolvesD [of "only {TScores}" "score_action E (ver_subject_id row) t True" w] sc
    by (simp add: score_ops_evo)
  then have u: "verifications u = verifications w" "audit_events u = audit_events w" "clock u = clock w"
    by (auto dest: onlyD [of _ _ _ TVerifications] onlyD [of _ _ _ TAudit] simp: only_def)
  have ver: "verifications_update (tupd ver_pk x f) u = u\<lparr>verifications := tupd ver_pk x f (verifications u)\<rparr>" for x f
    by (cases u) simp
  show ?thesis
  proof (cases "ver_status row = ''under_review''")
    case False
    then show ?thesis using Some by (simp add: approve_verification_def raise_def)
  next
    case True
    show ?thesis
    proof (cases "evidence_status E row w")
      case (Inl e)
      then show ?thesis using Some True by (simp add: approve_verification_def raise_def)
    next
      case (Inr ev)
      show ?thesis
      proof (cases "evidence_state ev = ''valid''")
        case False
        then show ?thesis using Some True Inr by (simp add: approve_verification_def raise_def)
      next
        case valid: True
        obtain p where p: "via (ver_packet row) (\<lambda>k. get_packet k (ver_tenant row) w) = Some p"
          "map_sum id EvidenceReport (verify_packet E p w) = Inr ev"
          using Inr valid by (auto simp: evidence_status_def split: option.splits)
        have "map_sum id vr_status (verify_packet E p w) = Inr ''valid''"
          using p(2) valid by (cases "verify_packet E p w") auto
        then show ?thesis
          using Some True Inr valid sc p(1) u assms
          by (auto simp: approve_verification_def raise_def bindM_def [of "score_action _ _ _ _"] bindM_def [of "update_row _ _ _ _"]
              bindM_def [of "audit_record _ _"] update_row_def modify_def audit_record_audited ret_def ver Let_def not_less
              split: sum.split option.split)
      qed
    qed
  qed
qed

theorem approve_gate_witness:
  "verifications (after (approve_verification sample_env (uuid 2) (Some ''t1'') None) (sample_verifications ''under_review''))
     = [sample_verification ''under_review'']"
proof -
  let ?w = "sample_verifications ''under_review''"
  have "fst (approve_verification sample_env (uuid 2) (Some ''t1'') None ?w) = Inl (ValueError ''evidence_not_valid:missing'')"
    by (simp add: approve_verification_def get_verification_def get_row_def sample_verifications_def sample_verification_def
        scoped_row_def evidence_status_def via_def get_packet_def empty_world_def raise_def)
  moreover have "chain_ok sample_env (audit_events ?w)" by (simp add: sample_verifications_def empty_world_def)
  ultimately show ?thesis
    using approve_gate [of sample_env ?w "uuid 2" "Some ''t1''" None]
    by (auto simp: sample_verifications_def split: prod.splits sum.splits)
qed

end
