(* ===== verification/IncidentReplay.thy ===== *)
theory IncidentReplay
  imports EvidencePacket GovernanceWorkflow
begin

text \<open>
  services/incident_replay.py: the read-only reconstruction of a governed action from its evidence
  graph and its packet, and its two exports. The sub-objects of the action's metadata are the ones
  the submission wrote; where one is absent the code uses the empty object.
\<close>

definition MODEL_VENDOR_TOOL_DEFERRED :: dict where
  "MODEL_VENDOR_TOOL_DEFERRED =
     [(''status'', JStr ''not_recorded''),
      (''note'', JStr ''deferred (sovereignty controls); vendor/model metadata is not captured in this pilot'')]"

text \<open>\<open>meta.get(k, {})\<close>.\<close>

definition sub_object :: "dict \<Rightarrow> string \<Rightarrow> dict" where
  "sub_object d k = (case dget d k of JObj x \<Rightarrow> x | _ \<Rightarrow> [])"

record timeline_entry =
  tl_seq :: "int option"
  tl_action :: string
  tl_resource_type :: string
  tl_resource_id :: string
  tl_actor :: "string option"
  tl_at :: "string option"

definition timeline_entry_of :: "audit_event \<Rightarrow> timeline_entry" where
  "timeline_entry_of e =
     \<lparr>tl_seq = ae_seq e, tl_action = ae_action e, tl_resource_type = ae_resource_type e,
      tl_resource_id = ae_resource_id e, tl_actor = ae_actor e, tl_at = map_option isoformat (ae_created_at e)\<rparr>"

definition seq_key :: "timeline_entry \<Rightarrow> int" where
  "seq_key x = (case tl_seq x of None \<Rightarrow> 0 | Some n \<Rightarrow> n)"

text \<open>The actor: of the first submission event that names one.\<close>

fun submitting_actor :: "audit_event list \<Rightarrow> string option" where
  "submitting_actor [] = None"
| "submitting_actor (e # es) =
     (if ae_action e = ''governance_review.submitted'' \<and> ae_actor e \<noteq> None then ae_actor e else submitting_actor es)"

record replay =
  rp_action_id :: string
  rp_action_type :: string
  rp_status :: string
  rp_generated_at :: string
  rp_tenant :: "string option"
  rp_request :: dict
  rp_actor :: "string option"
  rp_policy_version :: "string option"
  rp_policy_version_id :: "string option"
  rp_policy_decision :: "string option"
  rp_policy_category :: json
  rp_risk :: dict
  rp_approvals :: "pkt_approval list"
  rp_overrides :: "pkt_override list"
  rp_artifacts :: "pkt_artifact list"
  rp_execution_job :: "job_ref option"
  rp_timeline :: "timeline_entry list"
  rp_chain :: chain_view
  rp_gaps :: "string list"

definition build_incident_replay :: "env \<Rightarrow> string \<Rightarrow> string option \<Rightarrow> world \<Rightarrow> replay option" where
  "build_incident_replay E governed_action_id t w =
     (case (get_evidence_graph governed_action_id t w, build_action_packet E governed_action_id t w) of
        (Some g, Some p) \<Rightarrow>
          (let action = g_action g; meta = (case ga_metadata action of None \<Rightarrow> [] | Some m \<Rightarrow> m) in
           Some \<lparr>rp_action_id = ga_pk action, rp_action_type = ga_action_type action,
             rp_status = (case p_actions p of [] \<Rightarrow> ga_status action | a # _ \<Rightarrow> pa_status a),
             rp_generated_at = isoformat (clock w), rp_tenant = t, rp_request = sub_object meta ''intake'',
             rp_actor = submitting_actor (g_audit_events g),
             rp_policy_version = ga_policy_version action, rp_policy_version_id = ga_policy_version_id action,
             rp_policy_decision = ga_policy_decision action,
             rp_policy_category = dget (sub_object meta ''policy'') ''category'',
             rp_risk = sub_object meta ''risk'',
             rp_approvals = p_approvals p, rp_overrides = p_overrides p, rp_artifacts = p_artifacts p,
             rp_execution_job = map_option job_ref_of (g_execution_job g),
             rp_timeline = sort_key seq_key (map timeline_entry_of (g_audit_events g)),
             rp_chain = p_chain p, rp_gaps = p_gaps p\<rparr>)
      | _ \<Rightarrow> None)"

definition data_touched :: "replay \<Rightarrow> dict" where
  "data_touched r =
     map (\<lambda>k. (k, dget (rp_request r) k)) [''data_sensitivity'', ''external_exposure'', ''autonomy_level'']"

definition timeline_json :: "timeline_entry \<Rightarrow> json" where
  "timeline_json x =
     JObj [(''seq'', opt_int_json (tl_seq x)), (''action'', JStr (tl_action x)), (''resource_type'', JStr (tl_resource_type x)),
       (''resource_id'', JStr (tl_resource_id x)), (''actor'', jopt (tl_actor x)), (''at'', jopt (tl_at x))]"

definition replay_json :: "replay \<Rightarrow> dict" where
  "replay_json r =
    [(''incident'', JObj [(''governed_action_id'', JStr (rp_action_id r)), (''action_type'', JStr (rp_action_type r)),
        (''status'', JStr (rp_status r)), (''generated_at'', JStr (rp_generated_at r))]),
     (''tenant'', JObj [(''id'', jopt (rp_tenant r))]), (''original_request'', JObj (rp_request r)),
     (''actor'', jopt (rp_actor r)), (''model_vendor_tool'', JObj MODEL_VENDOR_TOOL_DEFERRED),
     (''policy'', JObj [(''version'', jopt (rp_policy_version r)), (''policy_version_id'', jopt (rp_policy_version_id r)),
        (''decision'', jopt (rp_policy_decision r)), (''category'', rp_policy_category r)]),
     (''risk'', JObj (rp_risk r)),
     (''approvals'', JArr (map (\<lambda>a. JObj [(''governed_action_id'', JStr (pp_action a)),
        (''id'', JStr (pp_id a)), (''status'', JStr (pp_status a))]) (rp_approvals r))),
     (''overrides'', JArr (map override_json (rp_overrides r))),
     (''data_touched'', JObj (data_touched r)),
     (''outputs'', JObj [(''evidence_artifacts'', JArr (map (\<lambda>a. JObj [(''governed_action_id'', JStr (pf_action a)),
        (''id'', JStr (pf_id a)), (''artifact_type'', JStr (pf_type a)), (''uri'', jopt (pf_uri a))]) (rp_artifacts r))),
        (''execution_job'', job_ref_json (rp_execution_job r))]),
     (''audit_timeline'', JArr (map timeline_json (rp_timeline r))),
     (''audit_chain_verification'', chain_view_json (rp_chain r)),
     (''evidence_gaps'', jstrs (rp_gaps r)), (''disclaimer'', JStr DISCLAIMER)]"

definition replay_render_json :: "replay \<Rightarrow> string" where
  "replay_render_json r = dumps_pretty (JObj (replay_json r)) 0"

definition MIDDOT :: string where "MIDDOT = [chr 183]"

definition code_text :: "string \<Rightarrow> string" where
  "code_text s = [chr 96] @ s @ [chr 96]"

definition json_items :: "json \<Rightarrow> json list" where
  "json_items v = (case v of JArr xs \<Rightarrow> xs | _ \<Rightarrow> [])"

definition pair_lines :: "dict \<Rightarrow> string list" where
  "pair_lines d = map (\<lambda>(k, v). k @ '': '' @ py_str v) d"

definition replay_render_markdown :: "replay \<Rightarrow> string" where
  "replay_render_markdown r =
    (let v = rp_chain r in join [chr 10]
      [''# Incident Replay '' @ EM_DASH @ '' '' @ rp_action_type r, [], ''_Generated: '' @ rp_generated_at r @ ''_'', [],
       ''**Governed action:** '' @ code_text (rp_action_id r) @ ''  '' @ MIDDOT @ ''  **Status:** '' @ rp_status r,
       ''**Tenant:** '' @ str_opt (rp_tenant r) @ ''  '' @ MIDDOT @ ''  **Actor:** '' @ str_opt (rp_actor r),
       [], ''## Original request'', md_list (pair_lines (rp_request r)),
       [], ''## Model / vendor / tool'',
       ''- '' @ py_str (dget MODEL_VENDOR_TOOL_DEFERRED ''status'') @ '' '' @ EM_DASH @ '' '' @ py_str (dget MODEL_VENDOR_TOOL_DEFERRED ''note''),
       [], ''## Policy'',
       ''- decision: '' @ str_opt (rp_policy_decision r) @ '' '' @ MIDDOT @ '' category: '' @ py_str (rp_policy_category r),
       ''- version: '' @ str_opt (rp_policy_version r) @ '' '' @ code_span (str_opt (rp_policy_version_id r)),
       [], ''## Risk classification'',
       ''- level: '' @ py_str (dget (rp_risk r) ''level'') @ '' '' @ MIDDOT @ '' score: '' @ py_str (dget (rp_risk r) ''score''),
       md_list (map py_str (json_items (dget (rp_risk r) ''reasons''))),
       [], ''## Approvals'', md_list (map (\<lambda>a. pp_status a @ '' '' @ code_span (pp_id a)) (rp_approvals r)),
       [], ''## Human overrides'',
       md_list (map (\<lambda>x. str_opt (po_accepted_risk x) @ '' risk accepted by '' @ str_opt (po_by x) @ '' '' @ EM_DASH
         @ '' authority: '' @ po_authority_basis x @ '' '' @ code_span (po_id x)) (rp_overrides r)),
       [], ''## Data touched'', md_list (pair_lines (data_touched r)),
       [], ''## Outputs'', md_list (map (\<lambda>a. pf_type a @ '' '' @ EM_DASH @ '' '' @ str_opt (pf_uri a)) (rp_artifacts r)),
       ''- execution job: '' @ py_str (job_ref_json (rp_execution_job r)),
       [], ''## Audit timeline'',
       md_list (map (\<lambda>x. ''#'' @ str_opt_int (tl_seq x) @ '' '' @ tl_action x @ '' '' @ ARROW @ '' '' @ tl_resource_type x
         @ '':'' @ tl_resource_id x @ '' @ '' @ str_opt (tl_at x)) (rp_timeline r)),
       [], ''## Audit chain verification'',
       ''- scope: '' @ cv_scope v @ '' '' @ MIDDOT @ '' status: **'' @ cv_status v @ ''** (verified ''
         @ str_nat (cv_verified_count v) @ ''/'' @ str_nat (cv_total_count v) @ '')'',
       [], ''## Evidence gaps'', md_list (rp_gaps r), [], ''---'', ''_'' @ DISCLAIMER @ ''_''])"

section \<open>What a replay reconstructs\<close>

text \<open>A replay is a faithful, ordered reconstruction. It exists exactly when the packet does and agrees with
  it on status, approvals, overrides, artifacts, verification and gaps; its timeline is in trail order
  and holds exactly the audit events the caller may see of the action and its approval and jobs, each
  once.\<close>

theorem replay_faithful:
  "case build_incident_replay E k t w of
     None \<Rightarrow> build_action_packet E k t w = None
   | Some r \<Rightarrow> (\<exists>a p. get_governed_action k t w = Some a \<and> build_action_packet E k t w = Some p
       \<and> rp_action_id r = ga_pk a \<and> map pa_status (p_actions p) = [rp_status r] \<and> rp_approvals r = p_approvals p
       \<and> rp_overrides r = p_overrides p \<and> rp_artifacts r = p_artifacts p \<and> rp_gaps r = p_gaps p \<and> rp_chain r = p_chain p
       \<and> sorted (map seq_key (rp_timeline r))
       \<and> mset (rp_timeline r) = mset (map timeline_entry_of (action_events a t w)))"
proof (cases "get_evidence_graph k t w")
  case None
  then show ?thesis by (simp add: build_incident_replay_def build_action_packet_def)
next
  case (Some g)
  then have "get_governed_action k t w = Some (g_action g)" "g_audit_events g = action_events (g_action g) t w"
    by (auto simp: get_evidence_graph_def Let_def split: option.splits)
  with Some show ?thesis
    by (simp add: build_incident_replay_def build_action_packet_def assemble_def Let_def)
qed

end
