(* ===== verification/Api.thy ===== *)
theory Api
  imports EmailPersistence VerificationService IncidentReplay
begin

text \<open>
  app/api/* and app/main.py: the HTTP routes, each with its dependencies in FastAPI's order (the key is
  resolved first, then the query and the body are validated), the tenant it passes on, and the mapping
  of service errors to HTTP answers. A route answers the row or view the service gives it; Schemas has the
  response models (app/schemas) it is projected to. \<open>request\<close> is the set of requests and \<open>dispatch\<close> the
  application: the operator key middleware in front of the routes.
\<close>

section \<open>Dependencies and answers\<close>

definition with_permission :: "env \<Rightarrow> string \<Rightarrow> string option \<Rightarrow> (principal \<Rightarrow> 'a svc) \<Rightarrow> 'a svc" where
  "with_permission E permission key f = bindM (require_permission E permission key) f"

definition with_tenant :: "env \<Rightarrow> string option \<Rightarrow> (string option \<Rightarrow> 'a svc) \<Rightarrow> 'a svc" where
  "with_tenant E key f = bindM (get_current_tenant_id E key) f"

text \<open>Query and body constraints: 422 when violated.\<close>

definition valid_input :: "bool \<Rightarrow> 'a svc \<Rightarrow> 'a svc" where
  "valid_input ok m = (if ok then m else raise (HTTPException 422 ''request_validation''))"

definition found_or :: "string \<Rightarrow> (world \<Rightarrow> 'a option) \<Rightarrow> 'a svc" where
  "found_or detail get = bindM (gets get) (\<lambda>r. case r of None \<Rightarrow> raise (HTTPException 404 detail) | Some x \<Rightarrow> ret x)"

definition value_error :: "(string \<Rightarrow> nat) \<Rightarrow> 'a svc \<Rightarrow> 'a svc" where
  "value_error status m = catch m (\<lambda>e. case e of ValueError s \<Rightarrow> raise (HTTPException (status s) s) | _ \<Rightarrow> raise e)"

definition or_key :: "string option \<Rightarrow> string \<Rightarrow> string" where
  "or_key x d = (case x of None \<Rightarrow> d | Some s \<Rightarrow> if s = [] then d else s)"

section \<open>Jobs, approvals, audit, email\<close>

definition route_list_jobs :: "env \<Rightarrow> string option \<Rightarrow> string option \<Rightarrow> string option \<Rightarrow> int \<Rightarrow> job list svc" where
  "route_list_jobs E key status type_filter limit =
     with_tenant E key (\<lambda>t. valid_input (1 \<le> limit \<and> limit \<le> 200) (gets (list_jobs status type_filter t limit)))"

definition route_retry_job :: "env \<Rightarrow> string option \<Rightarrow> string \<Rightarrow> job svc" where
  "route_retry_job E key job_id =
     with_permission E P_EXECUTE key (\<lambda>p.
       bindM (value_error (\<lambda>s. if s = ''job_not_found'' then 404 else 400) (retry_failed_job job_id (pr_tenant p))) (\<lambda>_.
       found_or ''job_not_found'' (get_job_by_id job_id (pr_tenant p))))"

definition route_get_job :: "env \<Rightarrow> string option \<Rightarrow> string \<Rightarrow> job svc" where
  "route_get_job E key job_id = with_tenant E key (\<lambda>t. found_or ''job_not_found'' (get_job_by_id job_id t))"

text \<open>\<open>approval_to_detail\<close> with the id of the send job, when one is enqueued.\<close>

record approval_detail =
  ad_row :: approval
  ad_payload :: dict
  ad_decision :: json
  ad_source_job :: json
  ad_gmail_message :: json
  ad_send_status :: json
  ad_execution_job :: "string option"

definition approval_to_detail :: "approval \<Rightarrow> approval_detail" where
  "approval_to_detail row =
     (let raw = loads (appr_payload row); data = filter (\<lambda>kv. fst kv \<noteq> ''decision'') raw in
      \<lparr>ad_row = row, ad_payload = data, ad_decision = dget raw ''decision'', ad_source_job = dget data ''job_id'',
       ad_gmail_message = dget data ''gmail_message_id'', ad_send_status = dget data ''send_status'',
       ad_execution_job = None\<rparr>)"

definition enrich_approval_detail :: "approval \<Rightarrow> world \<Rightarrow> approval_detail" where
  "enrich_approval_detail row w =
     (approval_to_detail row)\<lparr>ad_execution_job := map_option job_pk (get_job_by_idempotency_key (send_key (appr_pk row)) w)\<rparr>"

definition route_list_approvals :: "env \<Rightarrow> string option \<Rightarrow> string option \<Rightarrow> int \<Rightarrow> approval list svc" where
  "route_list_approvals E key status limit =
     with_tenant E key (\<lambda>t. valid_input (1 \<le> limit \<and> limit \<le> 200) (gets (list_approvals status t limit)))"

definition route_get_approval :: "env \<Rightarrow> string option \<Rightarrow> string \<Rightarrow> approval_detail svc" where
  "route_get_approval E key approval_id =
     with_tenant E key (\<lambda>t. bindM (found_or ''approval_not_found'' (get_request approval_id t)) (\<lambda>row.
       gets (enrich_approval_detail row)))"

definition decision_status :: "string \<Rightarrow> nat" where
  "decision_status s = (if s = ''approval_not_found'' then 404 else 400)"

definition route_approve :: "env \<Rightarrow> string option \<Rightarrow> string \<Rightarrow> string \<Rightarrow> string option \<Rightarrow> (approval_detail \<times> string option) svc" where
  "route_approve E key approval_id actor note =
     with_permission E P_APPROVE key (\<lambda>p. valid_input (actor \<noteq> []) (
       bindM (value_error decision_status (approve E approval_id actor note (pr_tenant p))) (\<lambda>row.
       bindM (if should_enqueue_email_send_after_approval row
              then bindM (value_error (\<lambda>_. 400) (enqueue_email_send_job E row)) (\<lambda>j. ret (Some (job_pk j)))
              else ret None) (\<lambda>execution_job_id.
       bindM (gets (enrich_approval_detail row)) (\<lambda>detail. ret (detail, execution_job_id))))))"

definition route_reject :: "env \<Rightarrow> string option \<Rightarrow> string \<Rightarrow> string \<Rightarrow> string \<Rightarrow> approval_detail svc" where
  "route_reject E key approval_id actor reason =
     with_permission E P_REJECT key (\<lambda>p. valid_input (actor \<noteq> [] \<and> reason \<noteq> []) (
       bindM (value_error decision_status (reject E approval_id actor reason (pr_tenant p))) (\<lambda>row.
       gets (enrich_approval_detail row))))"

definition route_list_audit :: "env \<Rightarrow> string option \<Rightarrow> string option \<Rightarrow> string option \<Rightarrow> int \<Rightarrow> audit_event list svc" where
  "route_list_audit E key resource_type resource_id limit =
     with_permission E P_VIEW_AUDIT key (\<lambda>p. valid_input (1 \<le> limit \<and> limit \<le> 500)
       (gets (\<lambda>w. list_audit_events resource_type resource_id (pr_tenant p) limit (audit_events w))))"

definition route_verify_audit_chain :: "env \<Rightarrow> string option \<Rightarrow> chain_result svc" where
  "route_verify_audit_chain E key =
     with_permission E P_VIEW_AUDIT key (\<lambda>p. gets (\<lambda>w. case pr_tenant p of
       Some t \<Rightarrow> verify_tenant_events E t (audit_events w) | None \<Rightarrow> verify_chain E (audit_events w)))"

definition route_list_deliveries :: "env \<Rightarrow> string option \<Rightarrow> string option \<Rightarrow> int \<Rightarrow> delivery list svc" where
  "route_list_deliveries E key status limit =
     with_tenant E key (\<lambda>t. valid_input (1 \<le> limit \<and> limit \<le> 200) (gets (list_deliveries status t limit)))"

definition route_delivery_by_approval :: "env \<Rightarrow> string option \<Rightarrow> string \<Rightarrow> delivery svc" where
  "route_delivery_by_approval E key approval_id =
     with_tenant E key (\<lambda>t. found_or ''delivery_not_found'' (get_delivery_by_approval_id approval_id t))"

definition route_delivery_by_job :: "env \<Rightarrow> string option \<Rightarrow> string \<Rightarrow> delivery svc" where
  "route_delivery_by_job E key job_id =
     with_tenant E key (\<lambda>t. found_or ''delivery_not_found'' (get_delivery_by_execution_job_id job_id t))"

definition route_thread_summary :: "env \<Rightarrow> string option \<Rightarrow> string \<Rightarrow> dict svc" where
  "route_thread_summary E key external_thread_id =
     with_tenant E key (\<lambda>t. get_thread_summary t external_thread_id)"

section \<open>Controls, evidence, incidents\<close>

definition route_list_frameworks :: "framework list svc" where
  "route_list_frameworks = gets list_frameworks"

definition route_list_framework_controls :: "string \<Rightarrow> control list svc" where
  "route_list_framework_controls framework_id =
     bindM (found_or ''framework_not_found'' (get_framework framework_id)) (\<lambda>_. gets (list_controls framework_id))"

definition route_list_regulations :: "regulation list svc" where
  "route_list_regulations = gets list_regulations"

definition route_list_ai_systems :: "env \<Rightarrow> string option \<Rightarrow> ai_system list svc" where
  "route_list_ai_systems E key = with_permission E P_VIEW_AUDIT key (\<lambda>p. gets (list_ai_systems (pr_tenant p)))"

definition route_list_actions :: "env \<Rightarrow> string option \<Rightarrow> governed_action list svc" where
  "route_list_actions E key =
     with_permission E P_VIEW_AUDIT key (\<lambda>p. gets (list_governed_actions (pr_tenant p) None None None))"

definition route_action_graph :: "env \<Rightarrow> string option \<Rightarrow> string \<Rightarrow> graph svc" where
  "route_action_graph E key aid =
     with_permission E P_VIEW_AUDIT key (\<lambda>p. found_or ''governed_action_not_found'' (get_evidence_graph aid (pr_tenant p)))"

definition route_action_packet :: "env \<Rightarrow> string option \<Rightarrow> string \<Rightarrow> packet svc" where
  "route_action_packet E key aid =
     with_permission E P_VIEW_AUDIT key (\<lambda>p. found_or ''governed_action_not_found'' (build_action_packet E aid (pr_tenant p)))"

definition route_workflow_packet :: "env \<Rightarrow> string option \<Rightarrow> string \<Rightarrow> packet svc" where
  "route_workflow_packet E key wid =
     with_permission E P_VIEW_AUDIT key (\<lambda>p. found_or ''workflow_not_found'' (build_workflow_packet E wid (pr_tenant p)))"

definition format_ok :: "string \<Rightarrow> bool" where
  "format_ok f \<longleftrightarrow> f = ''json'' \<or> f = ''md''"

definition route_export_packet :: "env \<Rightarrow> string option \<Rightarrow> string \<Rightarrow> string \<Rightarrow> string svc" where
  "route_export_packet E key aid fmt =
     with_permission E P_VIEW_AUDIT key (\<lambda>p. valid_input (format_ok fmt) (
       bindM (found_or ''governed_action_not_found'' (build_action_packet E aid (pr_tenant p))) (\<lambda>packet.
       ret (if fmt = ''md'' then render_markdown packet else render_json packet))))"

definition route_persist_action_packet :: "env \<Rightarrow> string option \<Rightarrow> string \<Rightarrow> packet_row svc" where
  "route_persist_action_packet E key aid =
     with_permission E P_EXPORT_EVIDENCE key (\<lambda>p.
       bindM (found_or ''governed_action_not_found'' (build_action_packet E aid (pr_tenant p))) (\<lambda>packet.
       persist_packet E (pr_tenant p) packet (pr_user p)))"

definition route_list_stored_packets :: "env \<Rightarrow> string option \<Rightarrow> packet_row list svc" where
  "route_list_stored_packets E key = with_permission E P_VIEW_AUDIT key (\<lambda>p. gets (list_packets (pr_tenant p) None))"

definition route_get_stored_packet :: "env \<Rightarrow> string option \<Rightarrow> string \<Rightarrow> packet_row svc" where
  "route_get_stored_packet E key pid =
     with_permission E P_VIEW_AUDIT key (\<lambda>p. found_or ''packet_not_found'' (get_packet pid (pr_tenant p)))"

definition route_verify_packet :: "env \<Rightarrow> string option \<Rightarrow> string \<Rightarrow> packet_report svc" where
  "route_verify_packet E key pid =
     with_permission E P_VIEW_AUDIT key (\<lambda>p. bindM (found_or ''not_found'' (get_packet pid (pr_tenant p))) (\<lambda>row.
       bindM (gets (verify_packet E row)) lift))"

definition route_revoke_packet :: "env \<Rightarrow> string option \<Rightarrow> string \<Rightarrow> string \<Rightarrow> packet_row svc" where
  "route_revoke_packet E key pid reason =
     with_permission E P_EXPORT_EVIDENCE key (\<lambda>p. bindM (found_or ''not_found'' (get_packet pid (pr_tenant p))) (\<lambda>row.
       revoke_packet E row reason (pr_user p)))"

definition route_download_stored_packet :: "env \<Rightarrow> string option \<Rightarrow> string \<Rightarrow> string \<Rightarrow> string svc" where
  "route_download_stored_packet E key pid fmt =
     with_permission E P_EXPORT_EVIDENCE key (\<lambda>p. valid_input (format_ok fmt) (
       bindM (found_or ''packet_not_found'' (get_packet pid (pr_tenant p))) (\<lambda>row.
       bindM (record_download E row fmt (pr_tenant p) (pr_user p)) (\<lambda>_.
       ret (if fmt = ''md'' then (case pkt_markdown_export row of None \<Rightarrow> [] | Some m \<Rightarrow> m)
            else case pkt_json_export row of None \<Rightarrow> ''{}'' | Some d \<Rightarrow> dumps_pretty (JObj d) 0)))))"

definition route_incident_replay :: "env \<Rightarrow> string option \<Rightarrow> string \<Rightarrow> string \<Rightarrow> string svc" where
  "route_incident_replay E key aid fmt =
     with_permission E P_VIEW_AUDIT key (\<lambda>p. valid_input (format_ok fmt) (
       bindM (found_or ''governed_action_not_found'' (build_incident_replay E aid (pr_tenant p))) (\<lambda>r.
       ret (if fmt = ''md'' then replay_render_markdown r else replay_render_json r))))"

section \<open>Policies, workflows, trust, verification, chat\<close>

definition route_list_policies :: "env \<Rightarrow> string option \<Rightarrow> string option \<Rightarrow> policy list svc" where
  "route_list_policies E key name = with_permission E P_VIEW_AUDIT key (\<lambda>p. gets (list_versions (pr_tenant p) name))"

definition route_create_policy ::
  "env \<Rightarrow> string option \<Rightarrow> string \<Rightarrow> string \<Rightarrow> dict option \<Rightarrow> string option \<Rightarrow> policy svc" where
  "route_create_policy E key name version rules change_reason =
     with_permission E P_MANAGE_POLICIES key (\<lambda>p. valid_input (version \<noteq> [])
       (create_version E (pr_tenant p) name version rules (pr_user p) change_reason))"

definition route_get_policy :: "env \<Rightarrow> string option \<Rightarrow> string \<Rightarrow> policy svc" where
  "route_get_policy E key vid =
     with_permission E P_VIEW_AUDIT key (\<lambda>p. found_or ''policy_version_not_found'' (get_version vid (pr_tenant p)))"

definition route_activate_policy :: "env \<Rightarrow> string option \<Rightarrow> string \<Rightarrow> policy svc" where
  "route_activate_policy E key vid =
     with_permission E P_MANAGE_POLICIES key (\<lambda>p. value_error (\<lambda>_. 404) (activate E vid (pr_user p) (pr_tenant p)))"

definition route_rollback_policy :: "env \<Rightarrow> string option \<Rightarrow> string \<Rightarrow> string option \<Rightarrow> policy svc" where
  "route_rollback_policy E key vid change_reason =
     with_permission E P_MANAGE_POLICIES key (\<lambda>p.
       value_error (\<lambda>_. 404) (rollback_to E vid (pr_user p) change_reason (pr_tenant p)))"

record review_body =
  rb_vendor_name :: string
  rb_system_type :: string
  rb_intended_use :: string
  rb_data_sensitivity :: "string option"
  rb_external_exposure :: bool
  rb_autonomy_level :: "string option"

definition review_body_ok :: "review_body \<Rightarrow> bool" where
  "review_body_ok b \<longleftrightarrow> rb_vendor_name b \<noteq> [] \<and> rb_system_type b \<noteq> [] \<and> rb_intended_use b \<noteq> []"

definition route_submit_review :: "env \<Rightarrow> string option \<Rightarrow> review_body \<Rightarrow> review_run svc" where
  "route_submit_review E key b =
     with_permission E P_CREATE key (\<lambda>p. valid_input (review_body_ok b)
       (submit_vendor_governance_review E
          \<lparr>in_tenant_id = pr_tenant p, in_actor = Some (or_key (pr_user p) ''operator''), in_vendor_name = rb_vendor_name b,
           in_system_type = rb_system_type b, in_intended_use = rb_intended_use b,
           in_data_sensitivity = rb_data_sensitivity b, in_external_exposure = rb_external_exposure b,
           in_autonomy_level = rb_autonomy_level b\<rparr>))"

definition route_list_runs :: "env \<Rightarrow> string option \<Rightarrow> run_row list svc" where
  "route_list_runs E key = with_permission E P_VIEW_AUDIT key (\<lambda>p. gets (list_runs (pr_tenant p)))"

definition route_get_run :: "env \<Rightarrow> string option \<Rightarrow> string \<Rightarrow> run_view svc" where
  "route_get_run E key aid = with_permission E P_VIEW_AUDIT key (\<lambda>p. found_or ''run_not_found'' (get_run aid (pr_tenant p)))"

record override_body =
  vb_reason :: string
  vb_authority_basis :: string
  vb_compensating_control :: string
  vb_accepted_risk :: "string option"
  vb_expiration :: "time option"

definition override_body_ok :: "override_body \<Rightarrow> bool" where
  "override_body_ok b \<longleftrightarrow> vb_reason b \<noteq> [] \<and> vb_authority_basis b \<noteq> [] \<and> vb_compensating_control b \<noteq> []"

definition route_override_run :: "env \<Rightarrow> string option \<Rightarrow> string \<Rightarrow> override_body \<Rightarrow> override svc" where
  "route_override_run E key aid b =
     with_permission E P_OVERRIDE key (\<lambda>p. valid_input (override_body_ok b)
       (value_error (\<lambda>s. if s = ''governed_action_not_found'' then 404 else 400)
         (create_override E \<lparr>oa_tenant = pr_tenant p, oa_action = aid, oa_by = pr_user p, oa_reason = vb_reason b,
            oa_authority_basis = vb_authority_basis b, oa_compensating_control = vb_compensating_control b,
            oa_accepted_risk = vb_accepted_risk b, oa_expiration = vb_expiration b\<rparr>)))"

definition route_action_score :: "env \<Rightarrow> string option \<Rightarrow> string \<Rightarrow> dict svc" where
  "route_action_score E key aid =
     with_permission E P_VIEW_AUDIT key (\<lambda>p. found_or ''trust_score_not_found'' (latest_result ''governed_action'' aid (pr_tenant p)))"

definition route_workflow_score :: "env \<Rightarrow> string option \<Rightarrow> string \<Rightarrow> dict svc" where
  "route_workflow_score E key wid =
     with_permission E P_VIEW_AUDIT key (\<lambda>p. found_or ''trust_score_not_found'' (latest_result ''workflow'' wid (pr_tenant p)))"

definition route_tenant_score :: "env \<Rightarrow> string option \<Rightarrow> string \<Rightarrow> dict svc" where
  "route_tenant_score E key tid =
     with_permission E P_VIEW_AUDIT key (\<lambda>p.
       if pr_tenant p \<noteq> None \<and> pr_tenant p \<noteq> Some tid then raise (HTTPException 404 ''trust_score_not_found'')
       else found_or ''trust_score_not_found'' (latest_result ''tenant'' (or_key (pr_tenant p) tid) (pr_tenant p)))"

definition route_compute_action_score :: "env \<Rightarrow> string option \<Rightarrow> string \<Rightarrow> dict svc" where
  "route_compute_action_score E key aid =
     with_permission E P_EXPORT_EVIDENCE key (\<lambda>p. bindM (score_action E aid (pr_tenant p) True) (\<lambda>r.
       case r of None \<Rightarrow> raise (HTTPException 404 ''governed_action_not_found'') | Some d \<Rightarrow> ret d))"

definition route_compute_workflow_score :: "env \<Rightarrow> string option \<Rightarrow> string \<Rightarrow> dict svc" where
  "route_compute_workflow_score E key wid =
     with_permission E P_EXPORT_EVIDENCE key (\<lambda>p. bindM (score_workflow E wid (pr_tenant p) True) (\<lambda>r.
       case r of None \<Rightarrow> raise (HTTPException 404 ''workflow_not_found'') | Some d \<Rightarrow> ret d))"

definition route_compute_tenant_score :: "env \<Rightarrow> string option \<Rightarrow> string \<Rightarrow> dict svc" where
  "route_compute_tenant_score E key tid =
     with_permission E P_EXPORT_EVIDENCE key (\<lambda>p.
       if pr_tenant p \<noteq> None \<and> pr_tenant p \<noteq> Some tid then raise (HTTPException 404 ''tenant_not_found'')
       else score_tenant E (or_key (pr_tenant p) tid) True)"

definition verification_status :: "string \<Rightarrow> nat" where
  "verification_status code =
     (if startswith code ''evidence_not_valid'' then 422
      else case map_of [(''subject_not_found'', 404), (''verification_not_found'', 404), (''no_signed_evidence'', 422),
             (''invalid_transition'', 409), (''insufficient_trust_score'', 422)] code of None \<Rightarrow> 400 | Some n \<Rightarrow> n)"

definition route_request_verification :: "env \<Rightarrow> string option \<Rightarrow> string \<Rightarrow> string \<Rightarrow> int \<Rightarrow> verification svc" where
  "route_request_verification E key subject_id subject_type min_score_required =
     with_permission E P_CREATE key (\<lambda>p. value_error verification_status
       (request_verification E (pr_tenant p) subject_id (pr_user p) subject_type min_score_required))"

definition route_review_verification :: "env \<Rightarrow> string option \<Rightarrow> string \<Rightarrow> string option \<Rightarrow> (verification \<times> evidence) svc" where
  "route_review_verification E key k notes =
     with_permission E P_APPROVE key (\<lambda>p. value_error verification_status
       (review_verification E k (pr_tenant p) (pr_user p) notes))"

definition route_approve_verification :: "env \<Rightarrow> string option \<Rightarrow> string \<Rightarrow> verification svc" where
  "route_approve_verification E key k =
     with_permission E P_APPROVE key (\<lambda>p. bindM (value_error verification_status
       (approve_verification E k (pr_tenant p) (pr_user p))) (\<lambda>(row, score). ret row))"

definition route_revoke_verification :: "env \<Rightarrow> string option \<Rightarrow> string \<Rightarrow> string \<Rightarrow> verification svc" where
  "route_revoke_verification E key k reason =
     with_permission E P_APPROVE key (\<lambda>p. value_error verification_status
       (revoke_verification E k (pr_tenant p) (pr_user p) reason))"

definition route_chat :: "env \<Rightarrow> string option \<Rightarrow> string \<Rightarrow> string \<Rightarrow> int \<Rightarrow> string svc" where
  "route_chat E key session_id message max_steps =
     with_tenant E key (\<lambda>t. valid_input (session_id \<noteq> [] \<and> message \<noteq> [] \<and> 1 \<le> max_steps \<and> max_steps \<le> 64) (
       bindM (create_job CHAT_ORCHESTRATE
         (Some [(''session_id'', JStr session_id), (''message'', JStr message), (''max_steps'', JInt max_steps)]) t None)
       (\<lambda>job. ret (job_pk job))))"

text \<open>\<open>lifespan\<close>: what every start of the application does.\<close>

definition startup :: "unit svc" where
  "startup = bindM seed_rbac (\<lambda>_. bindM seed_control_catalog (\<lambda>_. bindM seed_default_policy (\<lambda>_. ret ())))"

section \<open>The application\<close>

text \<open>The routers jobs, approvals, audit and email.\<close>

datatype inspection_request =
    ListJobs "string option" "string option" int
  | RetryJob string
  | GetJob string
  | ListApprovals "string option" int
  | GetApproval string
  | ApproveRequest string string "string option"
  | RejectRequest string string string
  | ListAudit "string option" "string option" int
  | VerifyAudit
  | ListDeliveries "string option" int
  | DeliveryByApproval string
  | DeliveryByJob string
  | ThreadSummary string

primrec inspection_path :: "inspection_request \<Rightarrow> string" where
  "inspection_path (ListJobs a b c) = ''/jobs''"
| "inspection_path (RetryJob a) = ''/jobs/'' @ a @ ''/retry''"
| "inspection_path (GetJob a) = ''/jobs/'' @ a"
| "inspection_path (ListApprovals a b) = ''/approvals''"
| "inspection_path (GetApproval a) = ''/approvals/'' @ a"
| "inspection_path (ApproveRequest a b c) = ''/approvals/'' @ a @ ''/approve''"
| "inspection_path (RejectRequest a b c) = ''/approvals/'' @ a @ ''/reject''"
| "inspection_path (ListAudit a b c) = ''/audit''"
| "inspection_path VerifyAudit = ''/audit/verify''"
| "inspection_path (ListDeliveries a b) = ''/email/deliveries''"
| "inspection_path (DeliveryByApproval a) = ''/email/deliveries/by-approval/'' @ a"
| "inspection_path (DeliveryByJob a) = ''/email/deliveries/by-job/'' @ a"
| "inspection_path (ThreadSummary a) = ''/email/threads/'' @ a @ ''/summary''"

primrec inspection_permission :: "inspection_request \<Rightarrow> string option" where
  "inspection_permission (ListJobs a b c) = None"
| "inspection_permission (RetryJob a) = Some P_EXECUTE"
| "inspection_permission (GetJob a) = None"
| "inspection_permission (ListApprovals a b) = None"
| "inspection_permission (GetApproval a) = None"
| "inspection_permission (ApproveRequest a b c) = Some P_APPROVE"
| "inspection_permission (RejectRequest a b c) = Some P_REJECT"
| "inspection_permission (ListAudit a b c) = Some P_VIEW_AUDIT"
| "inspection_permission VerifyAudit = Some P_VIEW_AUDIT"
| "inspection_permission (ListDeliveries a b) = None"
| "inspection_permission (DeliveryByApproval a) = None"
| "inspection_permission (DeliveryByJob a) = None"
| "inspection_permission (ThreadSummary a) = None"

text \<open>The routers controls, evidence and incidents.\<close>

datatype evidence_request =
    ListFrameworks
  | ListFrameworkControls string
  | ListRegulations
  | ListAiSystems
  | ListActions
  | ActionGraph string
  | ActionPacket string
  | WorkflowPacket string
  | ExportPacket string string
  | PersistPacket string
  | ListStoredPackets
  | GetStoredPacket string
  | VerifyStoredPacket string
  | RevokeStoredPacket string string
  | DownloadStoredPacket string string
  | IncidentReplay string string

primrec evidence_path :: "evidence_request \<Rightarrow> string" where
  "evidence_path ListFrameworks = ''/controls/frameworks''"
| "evidence_path (ListFrameworkControls a) = ''/controls/frameworks/'' @ a @ ''/controls''"
| "evidence_path ListRegulations = ''/controls/regulations''"
| "evidence_path ListAiSystems = ''/evidence/ai-systems''"
| "evidence_path ListActions = ''/evidence/actions''"
| "evidence_path (ActionGraph a) = ''/evidence/actions/'' @ a @ ''/graph''"
| "evidence_path (ActionPacket a) = ''/evidence/packets/action/'' @ a"
| "evidence_path (WorkflowPacket a) = ''/evidence/packets/workflow/'' @ a"
| "evidence_path (ExportPacket a b) = ''/evidence/packets/export/'' @ a"
| "evidence_path (PersistPacket a) = ''/evidence/packets/action/'' @ a @ ''/persist''"
| "evidence_path ListStoredPackets = ''/evidence/packets''"
| "evidence_path (GetStoredPacket a) = ''/evidence/packets/'' @ a"
| "evidence_path (VerifyStoredPacket a) = ''/evidence/verify/'' @ a"
| "evidence_path (RevokeStoredPacket a b) = ''/evidence/packets/'' @ a @ ''/revoke''"
| "evidence_path (DownloadStoredPacket a b) = ''/evidence/packets/'' @ a @ ''/download''"
| "evidence_path (IncidentReplay a b) = ''/incidents/'' @ a @ ''/replay''"

primrec evidence_permission :: "evidence_request \<Rightarrow> string option" where
  "evidence_permission ListFrameworks = None"
| "evidence_permission (ListFrameworkControls a) = None"
| "evidence_permission ListRegulations = None"
| "evidence_permission ListAiSystems = Some P_VIEW_AUDIT"
| "evidence_permission ListActions = Some P_VIEW_AUDIT"
| "evidence_permission (ActionGraph a) = Some P_VIEW_AUDIT"
| "evidence_permission (ActionPacket a) = Some P_VIEW_AUDIT"
| "evidence_permission (WorkflowPacket a) = Some P_VIEW_AUDIT"
| "evidence_permission (ExportPacket a b) = Some P_VIEW_AUDIT"
| "evidence_permission (PersistPacket a) = Some P_EXPORT_EVIDENCE"
| "evidence_permission ListStoredPackets = Some P_VIEW_AUDIT"
| "evidence_permission (GetStoredPacket a) = Some P_VIEW_AUDIT"
| "evidence_permission (VerifyStoredPacket a) = Some P_VIEW_AUDIT"
| "evidence_permission (RevokeStoredPacket a b) = Some P_EXPORT_EVIDENCE"
| "evidence_permission (DownloadStoredPacket a b) = Some P_EXPORT_EVIDENCE"
| "evidence_permission (IncidentReplay a b) = Some P_VIEW_AUDIT"

text \<open>The routers policies and workflows.\<close>

datatype governance_request =
    ListPolicies "string option"
  | CreatePolicy string string "dict option" "string option"
  | GetPolicy string
  | ActivatePolicy string
  | RollbackPolicy string "string option"
  | SubmitReview review_body
  | ListRuns
  | GetRun string
  | OverrideRun string override_body

primrec governance_path :: "governance_request \<Rightarrow> string" where
  "governance_path (ListPolicies a) = ''/policies''"
| "governance_path (CreatePolicy a b c d) = ''/policies''"
| "governance_path (GetPolicy a) = ''/policies/'' @ a"
| "governance_path (ActivatePolicy a) = ''/policies/'' @ a @ ''/activate''"
| "governance_path (RollbackPolicy a b) = ''/policies/'' @ a @ ''/rollback''"
| "governance_path (SubmitReview a) = ''/workflows/vendor-governance-review''"
| "governance_path ListRuns = ''/workflows/runs''"
| "governance_path (GetRun a) = ''/workflows/runs/'' @ a"
| "governance_path (OverrideRun a b) = ''/workflows/runs/'' @ a @ ''/override''"

primrec governance_permission :: "governance_request \<Rightarrow> string option" where
  "governance_permission (ListPolicies a) = Some P_VIEW_AUDIT"
| "governance_permission (CreatePolicy a b c d) = Some P_MANAGE_POLICIES"
| "governance_permission (GetPolicy a) = Some P_VIEW_AUDIT"
| "governance_permission (ActivatePolicy a) = Some P_MANAGE_POLICIES"
| "governance_permission (RollbackPolicy a b) = Some P_MANAGE_POLICIES"
| "governance_permission (SubmitReview a) = Some P_CREATE"
| "governance_permission ListRuns = Some P_VIEW_AUDIT"
| "governance_permission (GetRun a) = Some P_VIEW_AUDIT"
| "governance_permission (OverrideRun a b) = Some P_OVERRIDE"

text \<open>The routers trust and verification.\<close>

datatype trust_request =
    ActionScore string
  | WorkflowScore string
  | TenantScore string
  | ComputeActionScore string
  | ComputeWorkflowScore string
  | ComputeTenantScore string
  | RequestVerification string string int
  | ReviewVerification string "string option"
  | ApproveVerification string
  | RevokeVerification string string

primrec trust_path :: "trust_request \<Rightarrow> string" where
  "trust_path (ActionScore a) = ''/trust/score/'' @ a"
| "trust_path (WorkflowScore a) = ''/trust/workflow/'' @ a"
| "trust_path (TenantScore a) = ''/trust/tenant/'' @ a"
| "trust_path (ComputeActionScore a) = ''/trust/compute/'' @ a"
| "trust_path (ComputeWorkflowScore a) = ''/trust/compute/workflow/'' @ a"
| "trust_path (ComputeTenantScore a) = ''/trust/compute/tenant/'' @ a"
| "trust_path (RequestVerification a b c) = ''/verification/request''"
| "trust_path (ReviewVerification a b) = ''/verification/review''"
| "trust_path (ApproveVerification a) = ''/verification/approve''"
| "trust_path (RevokeVerification a b) = ''/verification/revoke''"

primrec trust_permission :: "trust_request \<Rightarrow> string option" where
  "trust_permission (ActionScore a) = Some P_VIEW_AUDIT"
| "trust_permission (WorkflowScore a) = Some P_VIEW_AUDIT"
| "trust_permission (TenantScore a) = Some P_VIEW_AUDIT"
| "trust_permission (ComputeActionScore a) = Some P_EXPORT_EVIDENCE"
| "trust_permission (ComputeWorkflowScore a) = Some P_EXPORT_EVIDENCE"
| "trust_permission (ComputeTenantScore a) = Some P_EXPORT_EVIDENCE"
| "trust_permission (RequestVerification a b c) = Some P_CREATE"
| "trust_permission (ReviewVerification a b) = Some P_APPROVE"
| "trust_permission (ApproveVerification a) = Some P_APPROVE"
| "trust_permission (RevokeVerification a b) = Some P_APPROVE"

definition answers :: "'a svc \<Rightarrow> unit svc" where
  "answers m = bindM m (\<lambda>_. ret ())"

primrec handle_inspection :: "env \<Rightarrow> string option \<Rightarrow> inspection_request \<Rightarrow> unit svc" where
  "handle_inspection E key (ListJobs a b c) = answers (route_list_jobs E key a b c)"
| "handle_inspection E key (RetryJob a) = answers (route_retry_job E key a)"
| "handle_inspection E key (GetJob a) = answers (route_get_job E key a)"
| "handle_inspection E key (ListApprovals a b) = answers (route_list_approvals E key a b)"
| "handle_inspection E key (GetApproval a) = answers (route_get_approval E key a)"
| "handle_inspection E key (ApproveRequest a b c) = answers (route_approve E key a b c)"
| "handle_inspection E key (RejectRequest a b c) = answers (route_reject E key a b c)"
| "handle_inspection E key (ListAudit a b c) = answers (route_list_audit E key a b c)"
| "handle_inspection E key VerifyAudit = answers (route_verify_audit_chain E key)"
| "handle_inspection E key (ListDeliveries a b) = answers (route_list_deliveries E key a b)"
| "handle_inspection E key (DeliveryByApproval a) = answers (route_delivery_by_approval E key a)"
| "handle_inspection E key (DeliveryByJob a) = answers (route_delivery_by_job E key a)"
| "handle_inspection E key (ThreadSummary a) = answers (route_thread_summary E key a)"

primrec handle_evidence :: "env \<Rightarrow> string option \<Rightarrow> evidence_request \<Rightarrow> unit svc" where
  "handle_evidence E key ListFrameworks = answers (route_list_frameworks)"
| "handle_evidence E key (ListFrameworkControls a) = answers (route_list_framework_controls a)"
| "handle_evidence E key ListRegulations = answers (route_list_regulations)"
| "handle_evidence E key ListAiSystems = answers (route_list_ai_systems E key)"
| "handle_evidence E key ListActions = answers (route_list_actions E key)"
| "handle_evidence E key (ActionGraph a) = answers (route_action_graph E key a)"
| "handle_evidence E key (ActionPacket a) = answers (route_action_packet E key a)"
| "handle_evidence E key (WorkflowPacket a) = answers (route_workflow_packet E key a)"
| "handle_evidence E key (ExportPacket a b) = answers (route_export_packet E key a b)"
| "handle_evidence E key (PersistPacket a) = answers (route_persist_action_packet E key a)"
| "handle_evidence E key ListStoredPackets = answers (route_list_stored_packets E key)"
| "handle_evidence E key (GetStoredPacket a) = answers (route_get_stored_packet E key a)"
| "handle_evidence E key (VerifyStoredPacket a) = answers (route_verify_packet E key a)"
| "handle_evidence E key (RevokeStoredPacket a b) = answers (route_revoke_packet E key a b)"
| "handle_evidence E key (DownloadStoredPacket a b) = answers (route_download_stored_packet E key a b)"
| "handle_evidence E key (IncidentReplay a b) = answers (route_incident_replay E key a b)"

primrec handle_governance :: "env \<Rightarrow> string option \<Rightarrow> governance_request \<Rightarrow> unit svc" where
  "handle_governance E key (ListPolicies a) = answers (route_list_policies E key a)"
| "handle_governance E key (CreatePolicy a b c d) = answers (route_create_policy E key a b c d)"
| "handle_governance E key (GetPolicy a) = answers (route_get_policy E key a)"
| "handle_governance E key (ActivatePolicy a) = answers (route_activate_policy E key a)"
| "handle_governance E key (RollbackPolicy a b) = answers (route_rollback_policy E key a b)"
| "handle_governance E key (SubmitReview a) = answers (route_submit_review E key a)"
| "handle_governance E key ListRuns = answers (route_list_runs E key)"
| "handle_governance E key (GetRun a) = answers (route_get_run E key a)"
| "handle_governance E key (OverrideRun a b) = answers (route_override_run E key a b)"

primrec handle_trust :: "env \<Rightarrow> string option \<Rightarrow> trust_request \<Rightarrow> unit svc" where
  "handle_trust E key (ActionScore a) = answers (route_action_score E key a)"
| "handle_trust E key (WorkflowScore a) = answers (route_workflow_score E key a)"
| "handle_trust E key (TenantScore a) = answers (route_tenant_score E key a)"
| "handle_trust E key (ComputeActionScore a) = answers (route_compute_action_score E key a)"
| "handle_trust E key (ComputeWorkflowScore a) = answers (route_compute_workflow_score E key a)"
| "handle_trust E key (ComputeTenantScore a) = answers (route_compute_tenant_score E key a)"
| "handle_trust E key (RequestVerification a b c) = answers (route_request_verification E key a b c)"
| "handle_trust E key (ReviewVerification a b) = answers (route_review_verification E key a b)"
| "handle_trust E key (ApproveVerification a) = answers (route_approve_verification E key a)"
| "handle_trust E key (RevokeVerification a b) = answers (route_revoke_verification E key a b)"

datatype request = InspectionReq inspection_request | EvidenceReq evidence_request | GovernanceReq governance_request | TrustReq trust_request | Chat string string int

primrec path_of :: "request \<Rightarrow> string" where
  "path_of (InspectionReq r) = inspection_path r"
| "path_of (EvidenceReq r) = evidence_path r"
| "path_of (GovernanceReq r) = governance_path r"
| "path_of (TrustReq r) = trust_path r"
| "path_of (Chat a b c) = ''/chat''"

text \<open>The permission a route requires; None for the routes that only resolve the tenant, or nothing.\<close>

primrec required_permission :: "request \<Rightarrow> string option" where
  "required_permission (InspectionReq r) = inspection_permission r"
| "required_permission (EvidenceReq r) = evidence_permission r"
| "required_permission (GovernanceReq r) = governance_permission r"
| "required_permission (TrustReq r) = trust_permission r"
| "required_permission (Chat a b c) = None"

primrec handle :: "env \<Rightarrow> string option \<Rightarrow> request \<Rightarrow> unit svc" where
  "handle E key (InspectionReq r) = handle_inspection E key r"
| "handle E key (EvidenceReq r) = handle_evidence E key r"
| "handle E key (GovernanceReq r) = handle_governance E key r"
| "handle E key (TrustReq r) = handle_trust E key r"
| "handle E key (Chat a b c) = answers (route_chat E key a b c)"

definition dispatch :: "env \<Rightarrow> string option \<Rightarrow> string option \<Rightarrow> request \<Rightarrow> unit svc" where
  "dispatch E operator_header key req =
     (if operator_gate (config E) (path_of req) operator_header then handle E key req
      else raise (HTTPException 401 ''operator_key_required''))"

end
