(* ===== verification/Confinement.thy ===== *)
theory Confinement
  imports Api
begin

text \<open>
  Write isolation of the HTTP interface: a request made with a key of tenant \<open>t\<close> leaves every row of
  another tenant, every shared table and the outside world as they were. Where the footprints of
  Evolution say which tables an operation writes, this theory says which rows: \<open>B\<close> holds the
  primary keys that belong to the tenant, those of its rows when the request starts and those that
  are still to be drawn.
\<close>

section \<open>Rows of a tenant\<close>

definition owns :: "string \<Rightarrow> string set \<Rightarrow> ('r \<Rightarrow> string) \<Rightarrow> ('r \<Rightarrow> string option) \<Rightarrow> 'r list \<Rightarrow> bool" where
  "owns t B key tenant_of rs \<longleftrightarrow> (\<forall>r \<in> set rs. key r \<in> B \<longleftrightarrow> tenant_of r = Some t)"

definition outside :: "string set \<Rightarrow> ('r \<Rightarrow> string) \<Rightarrow> 'r list \<Rightarrow> 'r list" where
  "outside B key rs = filter (\<lambda>r. key r \<notin> B) rs"

lemma owns_append [simp]: "owns t B key tn (rs @ [r]) \<longleftrightarrow> owns t B key tn rs \<and> (key r \<in> B \<longleftrightarrow> tn r = Some t)"
  by (auto simp: owns_def)

lemma outside_append [simp]: "outside B key (rs @ [r]) = outside B key rs @ (if key r \<in> B then [] else [r])"
  by (simp add: outside_def)

lemma owns_tupd [simp]:
  assumes "\<And>r. key (f r) = key r \<and> tn (f r) = tn r"
  shows "owns t B key tn (tupd key k f rs) = owns t B key tn rs"
  using assms by (induction rs) (auto simp: owns_def)

lemma outside_tupd [simp]:
  assumes "k \<in> B" and "\<And>r. key (f r) = key r"
  shows "outside B key (tupd key k f rs) = outside B key rs"
  using assms by (induction rs) (auto simp: outside_def)

lemma outside_owns: "owns t B key tn rs \<Longrightarrow> outside B key rs = filter (\<lambda>r. tn r \<noteq> Some t) rs"
  by (auto simp: outside_def owns_def intro: filter_cong)

text \<open>The world as the other tenants see it: without the tenant's rows and the supply of keys.\<close>

definition view :: "string set \<Rightarrow> world \<Rightarrow> world" where
  "view B w = w\<lparr>uuids := 0, api_keys := outside B key_pk (api_keys w), policies := outside B policy_pk (policies w),
     jobs := outside B job_pk (jobs w), approvals := outside B appr_pk (approvals w),
     audit_events := outside B ae_pk (audit_events w), governed_actions := outside B ga_pk (governed_actions w),
     risk_assessments := outside B ra_pk (risk_assessments w), artifacts := outside B art_pk (artifacts w),
     packets := outside B pkt_pk (packets w), overrides := outside B ov_pk (overrides w),
     trust_scores := outside B ts_pk (trust_scores w), verifications := outside B ver_pk (verifications w)\<rparr>"

definition mine :: "string \<Rightarrow> string set \<Rightarrow> world \<Rightarrow> bool" where
  "mine t B w \<longleftrightarrow> (\<forall>n \<ge> uuids w. uuid n \<in> B)
     \<and> owns t B key_pk key_tenant (api_keys w) \<and> owns t B policy_pk policy_tenant (policies w)
     \<and> owns t B job_pk job_tenant (jobs w) \<and> owns t B appr_pk appr_tenant (approvals w)
     \<and> owns t B ae_pk ae_tenant (audit_events w) \<and> owns t B ga_pk ga_tenant (governed_actions w)
     \<and> owns t B ra_pk ra_tenant (risk_assessments w) \<and> owns t B art_pk art_tenant (artifacts w)
     \<and> owns t B pkt_pk pkt_tenant (packets w) \<and> owns t B ov_pk ov_tenant (overrides w)
     \<and> owns t B ts_pk ts_tenant (trust_scores w) \<and> owns t B ver_pk ver_tenant (verifications w)"

definition confined :: "string \<Rightarrow> string set \<Rightarrow> world \<Rightarrow> world \<Rightarrow> bool" where
  "confined t B w v \<longleftrightarrow> (mine t B w \<longrightarrow> mine t B v \<and> view B v = view B w)"

interpretation confined_evo: evolution "confined t B" for t B
  by unfold_locales (auto simp: confined_def)

named_theorems conf \<open>rules that walk through an operation of one tenant\<close>

lemmas [conf] = confined_evo.evo_ret confined_evo.evo_raise confined_evo.evo_gets confined_evo.evo_lift
  confined_evo.evo_catch evolves_if evolves_option evolves_let evolves_prod evolves_list

text \<open>What an operation can answer in a world of the tenant; the continuation may rely on it.\<close>

definition yields :: "string \<Rightarrow> string set \<Rightarrow> 'a svc \<Rightarrow> 'a \<Rightarrow> bool" where
  "yields t B m x \<longleftrightarrow> (\<exists>w. mine t B w \<and> result m w = Inr x)"

lemma conf_bind [conf]:
  assumes "evolves (confined t B) m" and "\<And>x. yields t B m x \<Longrightarrow> evolves (confined t B) (f x)"
  shows "evolves (confined t B) (bindM m f)"
proof (rule evolvesI, unfold confined_def, rule impI)
  fix w assume w: "mine t B w"
  obtain r v where m: "m w = (r, v)" by fastforce
  have v: "mine t B v \<and> view B v = view B w" using evolvesD [OF assms(1), of w] w m by (simp add: confined_def)
  show "mine t B (after (bindM m f) w) \<and> view B (after (bindM m f) w) = view B w"
  proof (cases r)
    case (Inl e)
    then show ?thesis using m v by (simp add: bindM_def)
  next
    case (Inr x)
    then have "yields t B m x" using m w by (auto simp: yields_def)
    from evolvesD [OF assms(2) [OF this], of v] show ?thesis using m v Inr by (simp add: bindM_def confined_def)
  qed
qed

lemma yields_gets: "yields t B (gets g) x \<Longrightarrow> \<exists>w. mine t B w \<and> x = g w"
  by (auto simp: yields_def gets_def)

lemma yields_new_id: "yields t B new_id pk \<Longrightarrow> pk \<in> B"
  by (auto simp: yields_def new_id_def mine_def)

lemma conf_new_id [conf]: "evolves (confined t B) new_id"
  by (rule evolvesI) (simp add: new_id_def confined_def mine_def view_def)

section \<open>Writes\<close>

lemma conf_inserts:
  "job_pk j \<in> B \<Longrightarrow> job_tenant j = Some t \<Longrightarrow> evolves (confined t B) (insert_row jobs_update j)"
  "appr_pk a \<in> B \<Longrightarrow> appr_tenant a = Some t \<Longrightarrow> evolves (confined t B) (insert_row approvals_update a)"
  "policy_pk p \<in> B \<Longrightarrow> policy_tenant p = Some t \<Longrightarrow> evolves (confined t B) (insert_row policies_update p)"
  "ga_pk g \<in> B \<Longrightarrow> ga_tenant g = Some t \<Longrightarrow> evolves (confined t B) (insert_row governed_actions_update g)"
  "ra_pk ra \<in> B \<Longrightarrow> ra_tenant ra = Some t \<Longrightarrow> evolves (confined t B) (insert_row risk_assessments_update ra)"
  "art_pk at \<in> B \<Longrightarrow> art_tenant at = Some t \<Longrightarrow> evolves (confined t B) (insert_row artifacts_update at)"
  "pkt_pk k \<in> B \<Longrightarrow> pkt_tenant k = Some t \<Longrightarrow> evolves (confined t B) (insert_row packets_update k)"
  "ov_pk ov \<in> B \<Longrightarrow> ov_tenant ov = Some t \<Longrightarrow> evolves (confined t B) (insert_row overrides_update ov)"
  "ts_pk ts \<in> B \<Longrightarrow> ts_tenant ts = Some t \<Longrightarrow> evolves (confined t B) (insert_row trust_scores_update ts)"
  "ver_pk vr \<in> B \<Longrightarrow> ver_tenant vr = Some t \<Longrightarrow> evolves (confined t B) (insert_row verifications_update vr)"
  by (rule evolvesI, simp add: insert_row_def comp confined_def mine_def view_def)+

lemma conf_insert_unique: 
  "evolves (confined t B) (insert_row upd r) \<Longrightarrow> evolves (confined t B) (insert_unique rows upd clash n r)"
  by (auto simp: evolves_def insert_unique_def insert_row_def comp confined_def)

lemma conf_updates:
  "k \<in> B \<Longrightarrow> (\<And>r. job_pk (f1 r) = job_pk r \<and> job_tenant (f1 r) = job_tenant r) \<Longrightarrow>
     evolves (confined t B) (update_row jobs_update job_pk k f1)"
  "k \<in> B \<Longrightarrow> (\<And>r. appr_pk (f2 r) = appr_pk r \<and> appr_tenant (f2 r) = appr_tenant r) \<Longrightarrow>
     evolves (confined t B) (update_row approvals_update appr_pk k f2)"
  "k \<in> B \<Longrightarrow> (\<And>r. policy_pk (f3 r) = policy_pk r \<and> policy_tenant (f3 r) = policy_tenant r) \<Longrightarrow>
     evolves (confined t B) (update_row policies_update policy_pk k f3)"
  "k \<in> B \<Longrightarrow> (\<And>r. ga_pk (f4 r) = ga_pk r \<and> ga_tenant (f4 r) = ga_tenant r) \<Longrightarrow>
     evolves (confined t B) (update_row governed_actions_update ga_pk k f4)"
  "k \<in> B \<Longrightarrow> (\<And>r. pkt_pk (f5 r) = pkt_pk r \<and> pkt_tenant (f5 r) = pkt_tenant r) \<Longrightarrow>
     evolves (confined t B) (update_row packets_update pkt_pk k f5)"
  "k \<in> B \<Longrightarrow> (\<And>r. ver_pk (f6 r) = ver_pk r \<and> ver_tenant (f6 r) = ver_tenant r) \<Longrightarrow>
     evolves (confined t B) (update_row verifications_update ver_pk k f6)"
  "k \<in> B \<Longrightarrow> (\<And>r. key_pk (f7 r) = key_pk r \<and> key_tenant (f7 r) = key_tenant r) \<Longrightarrow>
     evolves (confined t B) (update_row api_keys_update key_pk k f7)"
  by (rule evolvesI, simp add: update_row_def comp confined_def mine_def view_def)+

lemma conf_audit [conf]:
  assumes "arg_tenant a = Some t"
  shows "evolves (confined t B) (audit_record E a)"
proof -
  have "confined t B w (after (record_attempts E (\<lambda>_ es. (es, False)) a k i) w)" for k i w
  proof (induction k arbitrary: i w)
    case 0
    then show ?case by (simp add: confined_def)
  next
    case (Suc k)
    let ?row = "audit_row E a (chain_head (audit_events w)) (uuid (uuids w)) (clock w)"
    let ?w1 = "w\<lparr>uuids := Suc (uuids w)\<rparr>"
    have row: "ae_tenant ?row = Some t" "ae_pk ?row = uuid (uuids w)" by (simp_all add: audit_row_def Let_def assms)
    have "confined t B w ?w1" by (simp add: confined_def mine_def view_def)
    moreover have "confined t B w (?w1\<lparr>audit_events := audit_events w @ [?row]\<rparr>)"
      by (simp add: confined_def mine_def view_def row)
    ultimately show ?case
      using Suc [of ?w1 "Suc i"] by (auto simp: Let_def intro: confined_evo.evo_trans)
  qed
  then show ?thesis by (simp add: evolves_def audit_record_def record_with_def)
qed

section \<open>Operations under a tenant\<close>

lemma mine_rows:
  assumes "mine t B w"
  shows "j \<in> set (jobs w) \<Longrightarrow> job_tenant j = Some t \<Longrightarrow> job_pk j \<in> B"
    "a \<in> set (approvals w) \<Longrightarrow> appr_tenant a = Some t \<Longrightarrow> appr_pk a \<in> B"
    "p \<in> set (policies w) \<Longrightarrow> policy_tenant p = Some t \<Longrightarrow> policy_pk p \<in> B"
    "g \<in> set (governed_actions w) \<Longrightarrow> ga_tenant g = Some t \<Longrightarrow> ga_pk g \<in> B"
    "k \<in> set (packets w) \<Longrightarrow> pkt_tenant k = Some t \<Longrightarrow> pkt_pk k \<in> B"
    "vr \<in> set (verifications w) \<Longrightarrow> ver_tenant vr = Some t \<Longrightarrow> ver_pk vr \<in> B"
    "key \<in> set (api_keys w) \<Longrightarrow> key_tenant key = Some t \<Longrightarrow> key_pk key \<in> B"
  using assms by (auto simp: mine_def owns_def)

lemma yields_fetches [dest!]:
  "yields t B (gets (get_job_by_id k1 (Some t))) (Some j) \<Longrightarrow> job_pk j \<in> B \<and> job_pk j = k1 \<and> job_tenant j = Some t"
  "yields t B (gets (get_request k2 (Some t))) (Some a) \<Longrightarrow> appr_pk a \<in> B \<and> appr_pk a = k2 \<and> appr_tenant a = Some t"
  "yields t B (gets (get_version k3 (Some t))) (Some p) \<Longrightarrow> policy_pk p \<in> B \<and> policy_pk p = k3 \<and> policy_tenant p = Some t"
  "yields t B (gets (get_governed_action k4 (Some t))) (Some g) \<Longrightarrow> ga_pk g \<in> B \<and> ga_pk g = k4 \<and> ga_tenant g = Some t"
  "yields t B (gets (get_packet k5 (Some t))) (Some k) \<Longrightarrow> pkt_pk k \<in> B \<and> pkt_pk k = k5 \<and> pkt_tenant k = Some t"
  "yields t B (gets (get_verification k6 (Some t))) (Some vr) \<Longrightarrow> ver_pk vr \<in> B \<and> ver_pk vr = k6 \<and> ver_tenant vr = Some t"
  by (auto simp: yields_def gets_def get_job_by_id_def get_request_def get_approval_def get_version_def
      get_governed_action_def get_packet_def get_verification_def get_row_def scoped_row_def get_job_def
      split: option.splits if_splits dest: tget_key tget_in mine_rows)

lemmas [dest] = yields_new_id

lemma conf_create_job [conf]: "evolves (confined t B) (create_job ty pl (Some t) ik)"
  unfolding create_job_def by (intro conf) (auto intro!: conf_inserts conf_insert_unique)

lemma conf_retry [conf]: "evolves (confined t B) (retry_failed_job jid (Some t))"
  unfolding retry_failed_job_def assert_email_send_retry_allowed_def update_job_def
  by (intro conf) (auto intro!: conf_updates conf simp: touch_job_def touched_def)


text \<open>A raise only handler answers what the operation answers.\<close>

lemma conf_value_error [conf]: "evolves (confined t B) m \<Longrightarrow> evolves (confined t B) (value_error s m)"
  unfolding value_error_def by (intro confined_evo.evo_catch evolves_exn) (auto intro: conf)

lemma yields_value_error [dest!]: "yields t B (value_error s m) x \<Longrightarrow> yields t B m x"
proof -
  assume "yields t B (value_error s m) x"
  then obtain w where w: "mine t B w" "result (value_error s m) w = Inr x" by (auto simp: yields_def)
  obtain r v where m: "m w = (r, v)" by fastforce
  have "r = Inr x" using w(2) m
    by (cases r) (auto simp: value_error_def catch_def raise_def split: exn.splits)
  then show "yields t B m x" using w(1) m by (auto simp: yields_def)
qed

lemma conf_gate [conf]:
  "evolves (confined t B) (validate_outbound_send_gate a)" "evolves (confined t B) (validate_send_enqueue_eligibility a)"
  unfolding validate_outbound_send_gate_def validate_send_enqueue_eligibility_def
  by (intro conf)+

lemma conf_decisions [conf]:
  "evolves (confined t B) (approve E aid actor note (Some t))" "evolves (confined t B) (reject E aid actor reason (Some t))"
  unfolding approve_def reject_def
  by (intro conf; auto intro!: conf_updates conf simp: decide_row_def)+

lemma yields_approve: "yields t B (approve E aid actor note (Some t)) a \<Longrightarrow> appr_tenant a = Some t"
  by (auto simp: yields_def approve_def bindM_eq_Inr_iff decide_row_def Let_def comp get_request_def scoped_row_def
      split: option.splits if_splits prod.splits sum.splits)

lemma conf_enqueue [conf]: "appr_tenant a = Some t \<Longrightarrow> evolves (confined t B) (enqueue_email_send_job E a)"
  unfolding enqueue_email_send_job_def by (intro conf) (auto intro: conf)

lemma conf_create_request [conf]: "evolves (confined t B) (create_request E kind (Some t) jid p)"
  unfolding create_request_def by (intro conf) (auto intro!: conf_inserts)

lemma conf_policies [conf]:
  "evolves (confined t B) (create_version E (Some t) nm vsn rls g cr)" 
  unfolding create_version_def by (intro conf) (auto intro!: conf_inserts conf_insert_unique simp: policy_audit_def)

lemma conf_packets [conf]:
  "pkt_pk p \<in> B \<Longrightarrow> pkt_tenant p = Some t \<Longrightarrow> evolves (confined t B) (sign_packet E p sb ttl ra)"
  "pkt_pk p \<in> B \<Longrightarrow> pkt_tenant p = Some t \<Longrightarrow> evolves (confined t B) (revoke_packet E p reason rb)"
  "evolves (confined t B) (record_download E p fmt (Some t) g)"
  unfolding sign_packet_def revoke_packet_def record_download_def
  by (intro conf; auto intro!: conf_updates conf simp: set_signature_def set_revoked_def)+

lemma conf_verifications [conf]:
  "evolves (confined t B) (request_verification E (Some t) sid rb sty m)"
  "evolves (confined t B) (review_verification E k (Some t) rb n)"
  "evolves (confined t B) (revoke_verification E k (Some t) rb reason)"
  unfolding request_verification_def review_verification_def revoke_verification_def
  by (intro conf; auto intro!: conf_updates conf_inserts simp: verification_audit_def set_reviewed_def set_ver_revoked_def)+

lemma conf_override [conf]: "oa_tenant a = Some t \<Longrightarrow> evolves (confined t B) (create_override E a)"
  unfolding create_override_def by (intro conf; auto intro!: conf_updates conf_inserts simp: touch_action_def touched_def)

lemma conf_parts [conf]:
  "evolves (confined t B) (create_risk_assessment (Some t) rl k k' s m)"
  "evolves (confined t B) (record_evidence_artifact (Some t) ty k u m)"
  "evolves (confined t B) (record_review_step E ac rid (Some t) actor m)"
  "evolves (confined t B) (persist_score (Some t) st sid r)"
  unfolding create_risk_assessment_def record_evidence_artifact_def record_review_step_def persist_score_def
  by (intro conf; auto intro!: conf_inserts simp: review_audit_def)+


lemma conf_foreach:
  "(\<And>x. x \<in> set xs \<Longrightarrow> evolves (confined t B) (f x)) \<Longrightarrow> evolves (confined t B) (foreach xs f)"
  by (induction xs) (auto intro: conf)

text \<open>What an operation answers, from what its last steps answer.\<close>

lemma yields_bind:
  assumes "evolves (confined t B) m" and "yields t B (bindM m f) y"
  obtains x where "yields t B m x" "yields t B (f x) y"
proof -
  obtain w where w: "mine t B w" "result (bindM m f) w = Inr y" using assms(2) by (auto simp: yields_def)
  obtain r v where m: "m w = (r, v)" by fastforce
  have v: "mine t B v" using evolvesD [OF assms(1), of w] w(1) m by (simp add: confined_def)
  show thesis
  proof (cases r)
    case (Inl e)
    then show thesis using w m by (simp add: bindM_def)
  next
    case (Inr x)
    show thesis
    proof (rule that [of x])
      show "yields t B m x" using w(1) m Inr by (auto simp: yields_def)
      show "yields t B (f x) y" using w(2) m v Inr by (auto simp: yields_def bindM_def)
    qed
  qed
qed

definition gives :: "string \<Rightarrow> string set \<Rightarrow> ('a \<Rightarrow> bool) \<Rightarrow> 'a svc \<Rightarrow> bool" where
  "gives t B P m \<longleftrightarrow> (\<forall>x. yields t B m x \<longrightarrow> P x)"

lemma gives_bind:
  "evolves (confined t B) m \<Longrightarrow> (\<And>x. yields t B m x \<Longrightarrow> gives t B P (f x)) \<Longrightarrow> gives t B P (bindM m f)"
  unfolding gives_def by (blast elim: yields_bind)

lemma gives_ret: "P x \<Longrightarrow> gives t B P (ret x)"
  by (simp add: gives_def yields_def ret_def)

lemma gives_raise: "gives t B P (raise e)"
  by (simp add: gives_def yields_def raise_def)

lemma gives_option:
  "(x = None \<Longrightarrow> gives t B P m) \<Longrightarrow> (\<And>y. x = Some y \<Longrightarrow> gives t B P (f y)) \<Longrightarrow>
   gives t B P (case x of None \<Rightarrow> m | Some y \<Rightarrow> f y)"
  by (cases x) auto

lemma gives_let: "(\<And>y. y = x \<Longrightarrow> gives t B P (f y)) \<Longrightarrow> gives t B P (let y = x in f y)"
  by simp

lemmas giving = gives_bind gives_ret gives_raise gives_option gives_let

lemma own_active:
  "yields t B (gets (active_versions (Some t) n)) qs \<Longrightarrow> q \<in> set qs \<Longrightarrow> policy_pk q \<in> B"
  by (auto simp: yields_def gets_def active_versions_def is_version_of_def dest: mine_rows)

lemma conf_activate [conf]: "evolves (confined t B) (activate E vid by (Some t))"
  unfolding activate_def
  by (intro conf conf_foreach; auto intro!: conf_updates conf dest: own_active
      simp: supersede_def make_active_def policy_audit_def)

lemma gives_activate: "gives t B (\<lambda>p. policy_tenant p = Some t) (activate E vid by (Some t))"
  unfolding activate_def
  by (intro giving conf conf_foreach; auto intro!: conf_updates conf dest: own_active
      simp: supersede_def make_active_def policy_audit_def)

lemma conf_rollback [conf]: "evolves (confined t B) (rollback_to E vid by reason (Some t))"
  unfolding rollback_to_def
  using gives_activate by (intro conf; simp add: policy_audit_def gives_def)

lemma own_packets:
  "yields t B (gets (packets_of (Some t) ty sid)) qs \<Longrightarrow> q \<in> set qs \<Longrightarrow> pkt_pk q \<in> B"
  by (auto simp: yields_def gets_def packets_of_def in_tenant_def dest: mine_rows)

lemma conf_persist_packet [conf]: "evolves (confined t B) (persist_packet E (Some t) p g)"
  unfolding persist_packet_def
  by (intro conf conf_foreach conf_updates conf_inserts;
      ((simp only: packet_row.simps audit_args.simps; erule yields_new_id) | (rule own_packets, assumption, simp)
       | simp (no_asm) add: supersede_packet_def))

lemma conf_create_action [conf]: "aa_tenant a = Some t \<Longrightarrow> evolves (confined t B) (create_governed_action a)"
  unfolding create_governed_action_def by (intro conf) (auto intro!: conf_inserts conf_insert_unique)

lemma yields_create_action: "yields t B (create_governed_action a) g \<Longrightarrow> ga_pk g \<in> B"
  by (auto simp: yields_def create_governed_action_def bindM_eq_Inr_iff Let_def comp new_id_def insert_unique_def mine_def
      split: if_splits)

lemma conf_at:
  "t' = Some t \<Longrightarrow> evolves (confined t B) (create_risk_assessment t' rl k k' s m)"
  "t' = Some t \<Longrightarrow> evolves (confined t B) (record_evidence_artifact t' ty k u m)"
  "t' = Some t \<Longrightarrow> evolves (confined t B) (record_review_step E ac rid t' actor m)"
  "t' = Some t \<Longrightarrow> evolves (confined t B) (create_request E kind t' jid p)"
  by (auto intro: conf)

lemma conf_review_trail: "in_tenant_id i = Some t \<Longrightarrow> evolves (confined t B) (review_trail E i g)"
  unfolding review_trail_def by (intro conf conf_at; simp only:)

lemma conf_review_gate: "in_tenant_id i = Some t \<Longrightarrow> ga_pk g \<in> B \<Longrightarrow> evolves (confined t B) (review_gate E i g)"
  unfolding review_gate_def
  by (intro conf conf_at conf_updates; simp only: touch_action_def touched_def split: if_split; simp)

lemma conf_submit [conf]:
  assumes "in_tenant_id i = Some t"
  shows "evolves (confined t B) (submit_vendor_governance_review E i)"
  unfolding submit_vendor_governance_review_def
  by (intro conf conf_at conf_review_trail conf_review_gate conf_create_action assms yields_create_action; (assumption | simp add: assms action_call_def)?)

lemma conf_scores [conf]:
  "evolves (confined t B) (score_action E k (Some t) b)" "evolves (confined t B) (score_workflow E k (Some t) b)"
  "evolves (confined t B) (score_tenant E t b)"
  unfolding score_action_def score_workflow_def score_tenant_def score_scope_def
  by (intro conf; auto intro!: conf)+

lemma conf_approve_verification [conf]: "evolves (confined t B) (approve_verification E k (Some t) ab)"
  unfolding approve_verification_def
  by (intro conf; auto intro!: conf_updates conf simp: verification_audit_def set_approved_def)

section \<open>Requests\<close>

text \<open>The key of a request resolves to the tenant.\<close>

definition keyed_by :: "env \<Rightarrow> string \<Rightarrow> string \<Rightarrow> world \<Rightarrow> bool" where
  "keyed_by E key t w \<longleftrightarrow> key \<noteq> [] \<and> (\<exists>k. active_keys E key w = [k] \<and> key_tenant k = Some t)"

definition serves :: "env \<Rightarrow> string \<Rightarrow> string \<Rightarrow> string set \<Rightarrow> 'a svc \<Rightarrow> bool" where
  "serves E key t B m \<longleftrightarrow> (\<forall>w. keyed_by E key t w \<longrightarrow> confined t B w (after m w))"

lemma serves_evolves: "evolves (confined t B) m \<Longrightarrow> serves E key t B m"
  by (simp add: serves_def evolves_def)

lemma serves_answers: "serves E key t B m \<Longrightarrow> serves E key t B (answers m)"
proof -
  have "after (answers m) w = after m w" for w
    by (cases "m w") (simp add: answers_def comp split: sum.split)
  then show "serves E key t B m \<Longrightarrow> serves E key t B (answers m)" by (simp add: serves_def)
qed

lemma serves_permission:
  assumes "\<And>p. pr_tenant p = Some t \<Longrightarrow> evolves (confined t B) (f p)"
  shows "serves E key t B (with_permission E perm (Some key) f)"
  unfolding serves_def
proof (intro allI impI)
  fix w assume "keyed_by E key t w"
  then obtain k where k: "active_keys E key w = [k]" "key_tenant k = Some t" "key \<noteq> []" by (auto simp: keyed_by_def)
  then have run: "require_permission E perm (Some key) w = (if has (principal_of_key k w) perm
      then (Inr (principal_of_key k w), w) else (Inl (HTTPException 403 ''permission_denied''), w))"
    by (simp add: require_permission_run get_principal_run no_key_def)
  have "pr_tenant (principal_of_key k w) = Some t" by (simp add: principal_of_key_def k)
  from evolvesD [OF assms [OF this], of w] show "confined t B w (after (with_permission E perm (Some key) f) w)"
    by (simp add: with_permission_def bindM_def run confined_evo.evo_refl)
qed

lemma serves_tenant:
  assumes "evolves (confined t B) (f (Some t))"
  shows "serves E key t B (with_tenant E (Some key) f)"
  unfolding serves_def
proof (intro allI impI)
  fix w assume "keyed_by E key t w"
  then obtain k where k: "active_keys E key w = [k]" "key_tenant k = Some t" "key \<noteq> []" by (auto simp: keyed_by_def)
  have "k \<in> set (active_keys E key w)" by (simp add: k(1))
  then have mem: "k \<in> set (api_keys w)" by (simp add: active_keys_def)
  let ?u = "update_row api_keys_update key_pk (key_pk k) (\<lambda>j. j\<lparr>key_last_used_at := Some (clock w)\<rparr>)"
  have run: "get_current_tenant_id E (Some key) w = (Inr (Some t), after ?u w)"
    using k by (simp add: get_current_tenant_id_def resolve_tenant_id_def no_key_def comp scalar_one_or_none_def update_row_def)
  have "confined t B w (after ?u w)"
  proof (cases "mine t B w")
    case True
    then have "key_pk k \<in> B" using mem k(2) by (rule mine_rows)
    then have "evolves (confined t B) ?u" by (rule conf_updates) simp
    then show ?thesis by (rule evolvesD)
  qed (simp add: confined_def)
  then show "confined t B w (after (with_tenant E (Some key) f) w)"
    using evolvesD [OF assms, of "after ?u w"]
    by (auto simp: with_tenant_def bindM_def run intro: confined_evo.evo_trans)
qed

lemma conf_valid_input [conf]: "evolves (confined t B) m \<Longrightarrow> evolves (confined t B) (valid_input ok m)"
  unfolding valid_input_def by (intro conf)

lemma conf_found_or [conf]: "evolves (confined t B) (found_or d g)"
  unfolding found_or_def by (intro conf)

lemma yields_found_or [dest!]: "yields t B (found_or d g) x \<Longrightarrow> yields t B (gets g) (Some x)"
  by (auto simp: yields_def found_or_def comp split: option.splits)

lemmas serving = serves_answers serves_permission serves_tenant conf

lemma serve_inspection: "serves E key t B (handle_inspection E (Some key) r)"
  by (cases r)
    (simp_all only: handle_inspection.simps route_list_jobs_def route_retry_job_def route_get_job_def
      route_list_approvals_def route_get_approval_def route_approve_def route_reject_def route_list_audit_def
      route_verify_audit_chain_def route_list_deliveries_def route_delivery_by_approval_def route_delivery_by_job_def
      route_thread_summary_def get_thread_summary_def,
     (intro serving; (assumption | auto intro: conf dest: yields_approve)?)+)

lemma serve_evidence: "serves E key t B (handle_evidence E (Some key) r)"
  by (cases r)
    (simp_all only: handle_evidence.simps route_list_frameworks_def route_list_framework_controls_def
      route_list_regulations_def route_list_ai_systems_def route_list_actions_def route_action_graph_def
      route_action_packet_def route_workflow_packet_def route_export_packet_def route_persist_action_packet_def
      route_list_stored_packets_def route_get_stored_packet_def route_verify_packet_def route_revoke_packet_def
      route_download_stored_packet_def route_incident_replay_def,
     (intro serving; (assumption | auto intro: conf serves_evolves)?)+)

lemma serve_governance: "serves E key t B (handle_governance E (Some key) r)"
  by (cases r)
    (simp_all only: handle_governance.simps route_list_policies_def route_create_policy_def route_get_policy_def
      route_activate_policy_def route_rollback_policy_def route_submit_review_def route_list_runs_def route_get_run_def
      route_override_run_def,
     (intro serving; (assumption | auto intro: conf)?)+)

lemma serve_trust: "serves E key t B (handle_trust E (Some key) r)"
  by (cases r)
    (simp_all only: handle_trust.simps route_action_score_def route_workflow_score_def route_tenant_score_def
      route_compute_action_score_def route_compute_workflow_score_def route_compute_tenant_score_def
      route_request_verification_def route_review_verification_def route_approve_verification_def
      route_revoke_verification_def,
     (intro serving; (assumption | auto intro: conf simp: or_key_def)?)+)

lemma serve_request: "serves E key t B (handle E (Some key) req)"
proof (cases req)
  case (Chat a b c)
  have "serves E key t B (route_chat E (Some key) a b c)"
    unfolding route_chat_def by (intro serving)
  then show ?thesis using Chat by (simp add: serves_answers)
qed (simp_all add: serve_inspection serve_evidence serve_governance serve_trust)

lemma dispatch_confined: "keyed_by E key t w \<Longrightarrow> confined t B w (after (dispatch E oh (Some key) req) w)"
  using serve_request by (simp add: dispatch_def serves_def raise_def confined_evo.evo_refl)

text \<open>The world without the rows of a tenant, and without the supply of keys.\<close>

definition world_of_others :: "string \<Rightarrow> world \<Rightarrow> world" where
  "world_of_others t w = w\<lparr>uuids := 0,
     api_keys := filter (\<lambda>r. key_tenant r \<noteq> Some t) (api_keys w),
     policies := filter (\<lambda>r. policy_tenant r \<noteq> Some t) (policies w),
     jobs := filter (\<lambda>r. job_tenant r \<noteq> Some t) (jobs w),
     approvals := filter (\<lambda>r. appr_tenant r \<noteq> Some t) (approvals w),
     audit_events := filter (\<lambda>r. ae_tenant r \<noteq> Some t) (audit_events w),
     governed_actions := filter (\<lambda>r. ga_tenant r \<noteq> Some t) (governed_actions w),
     risk_assessments := filter (\<lambda>r. ra_tenant r \<noteq> Some t) (risk_assessments w),
     artifacts := filter (\<lambda>r. art_tenant r \<noteq> Some t) (artifacts w),
     packets := filter (\<lambda>r. pkt_tenant r \<noteq> Some t) (packets w),
     overrides := filter (\<lambda>r. ov_tenant r \<noteq> Some t) (overrides w),
     trust_scores := filter (\<lambda>r. ts_tenant r \<noteq> Some t) (trust_scores w),
     verifications := filter (\<lambda>r. ver_tenant r \<noteq> Some t) (verifications w)\<rparr>"

lemma view_mine: "mine t B w \<Longrightarrow> view B w = world_of_others t w"
  by (simp add: view_def world_of_others_def mine_def outside_owns)

lemma dispatch_others:
  "mine t B w \<Longrightarrow> keyed_by E key t w \<Longrightarrow>
   world_of_others t (after (dispatch E oh (Some key) req) w) = world_of_others t w"
  using dispatch_confined [of E key t w B oh req]
  by (auto simp: confined_def view_mine [symmetric])

end
