(* ===== verification/RowKeys.thy ===== *)
theory RowKeys
  imports SendLedger Confinement
begin

text \<open>
  Primary keys: every row of the tables a request can write has a key that was drawn once, so the keys
  of different rows differ, in every table and across the tables. With it the write isolation of
  Confinement holds in every state the system reaches.
\<close>

section \<open>Row keys\<close>

text \<open>The key and the tenant of every row of the twelve tables a request can write.\<close>

definition row_keys :: "world \<Rightarrow> (string \<times> string option) list" where
  "row_keys w = map (\<lambda>r. (key_pk r, key_tenant r)) (api_keys w) @ map (\<lambda>r. (policy_pk r, policy_tenant r)) (policies w)
     @ map (\<lambda>r. (job_pk r, job_tenant r)) (jobs w) @ map (\<lambda>r. (appr_pk r, appr_tenant r)) (approvals w)
     @ map (\<lambda>r. (ae_pk r, ae_tenant r)) (audit_events w) @ map (\<lambda>r. (ga_pk r, ga_tenant r)) (governed_actions w)
     @ map (\<lambda>r. (ra_pk r, ra_tenant r)) (risk_assessments w) @ map (\<lambda>r. (art_pk r, art_tenant r)) (artifacts w)
     @ map (\<lambda>r. (pkt_pk r, pkt_tenant r)) (packets w) @ map (\<lambda>r. (ov_pk r, ov_tenant r)) (overrides w)
     @ map (\<lambda>r. (ts_pk r, ts_tenant r)) (trust_scores w) @ map (\<lambda>r. (ver_pk r, ver_tenant r)) (verifications w)"

definition unique_keys :: "world \<Rightarrow> bool" where
  "unique_keys w \<longleftrightarrow> distinct (map fst (row_keys w)) \<and> fst ` set (row_keys w) \<subseteq> uuid ` {..<uuids w}"

definition keys_of :: "string \<Rightarrow> world \<Rightarrow> string set" where
  "keys_of t w = {k. (k, Some t) \<in> set (row_keys w)} \<union> uuid ` {uuids w..}"

lemma keys_of_owned:
  assumes "unique_keys w" and "(k, tn) \<in> set (row_keys w)"
  shows "k \<in> keys_of t w \<longleftrightarrow> tn = Some t"
proof
  assume "k \<in> keys_of t w"
  moreover have "k \<notin> uuid ` {uuids w..}" using assms by (force simp: unique_keys_def)
  ultimately have "(k, Some t) \<in> set (row_keys w)" by (simp add: keys_of_def)
  then show "tn = Some t" using assms by (metis Some_eq_map_of_iff option.inject unique_keys_def)
qed (use assms(2) in \<open>simp add: keys_of_def\<close>)

lemma unique_keys_mine:
  assumes "unique_keys w"
  shows "mine t (keys_of t w) w"
  unfolding mine_def owns_def
  by (intro conjI ballI keys_of_owned [OF assms]) (auto simp: keys_of_def row_keys_def)

text \<open>\<open>draws w v\<close>: the rows of \<open>w\<close> are still there under their keys, the new ones have keys drawn since.\<close>

definition draws :: "world \<Rightarrow> world \<Rightarrow> bool" where
  "draws w v \<longleftrightarrow> uuids w \<le> uuids v \<and> (\<exists>ns. distinct ns \<and> set ns \<subseteq> {uuids w..<uuids v}
     \<and> mset (map fst (row_keys v)) = mset (map fst (row_keys w)) + mset (map uuid ns))"

lemma draws_trans: "draws a b \<Longrightarrow> draws b c \<Longrightarrow> draws a c"
proof -
  assume "draws a b" "draws b c"
  then obtain ms ns where "uuids a \<le> uuids b" "uuids b \<le> uuids c"
    and ms: "distinct ms" "set ms \<subseteq> {uuids a..<uuids b}"
      "mset (map fst (row_keys b)) = mset (map fst (row_keys a)) + mset (map uuid ms)"
    and ns: "distinct ns" "set ns \<subseteq> {uuids b..<uuids c}"
      "mset (map fst (row_keys c)) = mset (map fst (row_keys b)) + mset (map uuid ns)"
    by (auto simp: draws_def)
  moreover have "distinct (ms @ ns)" "set (ms @ ns) \<subseteq> {uuids a..<uuids c}"
    using ms ns calculation(1,2) by auto force+
  moreover have "mset (map fst (row_keys c)) = mset (map fst (row_keys a)) + mset (map uuid (ms @ ns))"
    using ms ns by simp
  ultimately show "draws a c" unfolding draws_def by (meson le_trans)
qed

lemma draws_same: "map fst (row_keys v) = map fst (row_keys w) \<Longrightarrow> uuids w \<le> uuids v \<Longrightarrow> draws w v"
  unfolding draws_def by (intro conjI exI [of _ "[]"]) simp_all

interpretation draws_evo: evolution draws
  by unfold_locales (auto intro: draws_same draws_trans)

lemma draws_unique:
  assumes "draws w v" and "unique_keys w"
  shows "unique_keys v"
proof -
  obtain ns where ns: "uuids w \<le> uuids v" "distinct ns" "set ns \<subseteq> {uuids w..<uuids v}"
    "mset (map fst (row_keys v)) = mset (map fst (row_keys w) @ map uuid ns)"
    using assms(1) by (auto simp: draws_def)
  have old: "distinct (map fst (row_keys w))" "set (map fst (row_keys w)) \<subseteq> uuid ` {..<uuids w}"
    using assms(2) by (simp_all add: unique_keys_def)
  have new: "set (map uuid ns) \<subseteq> uuid ` {uuids w..<uuids v}" using ns(3) by (simp add: image_mono)
  have "uuid ` {..<uuids w} \<inter> uuid ` {uuids w..<uuids v} = {}" by auto
  then have "set (map fst (row_keys w)) \<inter> set (map uuid ns) = {}" using old(2) new by blast
  then have "distinct (map fst (row_keys w) @ map uuid ns)"
    using old(1) ns(2) by (simp add: distinct_map inj_on_def)
  then have "distinct (map fst (row_keys v))" using ns(4) by (metis mset_eq_imp_distinct_iff)
  moreover have "set (map fst (row_keys v)) = set (map fst (row_keys w) @ map uuid ns)"
    using ns(4) by (metis mset_eq_setD)
  moreover have "uuid ` {..<uuids w} \<subseteq> uuid ` {..<uuids v}" "uuid ` {uuids w..<uuids v} \<subseteq> uuid ` {..<uuids v}"
    using ns(1) by auto
  then have "set (map fst (row_keys w) @ map uuid ns) \<subseteq> uuid ` {..<uuids v}"
    unfolding set_append using order_trans [OF old(2)] order_trans [OF new] by (intro Un_least)
  ultimately show ?thesis unfolding unique_keys_def by (simp only: set_map [symmetric])
qed

lemmas [evo] = draws_evo.evo_ret draws_evo.evo_raise draws_evo.evo_gets draws_evo.evo_lift
  draws_evo.evo_bind draws_evo.evo_catch draws_evo.evo_foreach

text \<open>Operations that do not write the twelve tables.\<close>

abbreviation pooled :: "table set" where
  "pooled \<equiv> {TApiKeys, TPolicies, TJobs, TApprovals, TAudit, TActions, TRisk, TArtifacts, TPackets, TOverrides, TScores, TVerifications}"

lemma only_draws:
  assumes "only S w v" and "S \<inter> pooled = {}"
  shows "draws w v"
proof (rule draws_same)
  have "same x w v" if "x \<in> pooled" for x using assms that by (auto simp: only_def)
  from this [of TApiKeys] this [of TPolicies] this [of TJobs] this [of TApprovals] this [of TAudit] this [of TActions]
    this [of TRisk] this [of TArtifacts] this [of TPackets] this [of TOverrides] this [of TScores] this [of TVerifications]
  show "map fst (row_keys v) = map fst (row_keys w)" by (simp add: row_keys_def)
qed (use assms in \<open>simp add: only_def\<close>)

lemma evolves_only_draws: "evolves (only S) m \<Longrightarrow> S \<inter> pooled = {} \<Longrightarrow> evolves draws m"
  by (auto simp: evolves_def intro: only_draws)

lemma new_id_draws [evo]: "evolves draws new_id"
  by (rule evolvesI, rule draws_same) (simp_all add: new_id_def row_keys_def)

text \<open>Updates keep the keys.\<close>

lemma update_draws:
  "(\<And>r. job_pk (f1 r) = job_pk r) \<Longrightarrow> evolves draws (update_row jobs_update job_pk k f1)"
  "(\<And>r. appr_pk (f2 r) = appr_pk r) \<Longrightarrow> evolves draws (update_row approvals_update appr_pk k f2)"
  "(\<And>r. policy_pk (f3 r) = policy_pk r) \<Longrightarrow> evolves draws (update_row policies_update policy_pk k f3)"
  "(\<And>r. ga_pk (f4 r) = ga_pk r) \<Longrightarrow> evolves draws (update_row governed_actions_update ga_pk k f4)"
  "(\<And>r. pkt_pk (f5 r) = pkt_pk r) \<Longrightarrow> evolves draws (update_row packets_update pkt_pk k f5)"
  "(\<And>r. ver_pk (f6 r) = ver_pk r) \<Longrightarrow> evolves draws (update_row verifications_update ver_pk k f6)"
  "(\<And>r. key_pk (f7 r) = key_pk r) \<Longrightarrow> evolves draws (update_row api_keys_update key_pk k f7)"
  by (rule evolvesI, rule draws_same, simp add: update_row_def comp row_keys_def comp_def map_tupd_same, simp add: update_row_def comp)+

text \<open>An insert right after its key was drawn.\<close>

definition inserts :: "(string \<Rightarrow> time \<Rightarrow> unit svc) \<Rightarrow> bool" where
  "inserts ins \<longleftrightarrow> (\<forall>pk now w. after (ins pk now) w = w
     \<or> uuids (after (ins pk now) w) = uuids w
       \<and> mset (map fst (row_keys (after (ins pk now) w))) = add_mset pk (mset (map fst (row_keys w))))"

lemma draw_and_insert:
  assumes "inserts ins" and "\<And>pk now. evolves draws (k pk now)"
  shows "evolves draws (bindM new_id (\<lambda>pk. bindM (gets clock) (\<lambda>now. bindM (ins pk now) (\<lambda>_. k pk now))))"
proof (rule evolvesI)
  fix w :: world
  let ?pk = "uuid (uuids w)" and ?w1 = "w\<lparr>uuids := Suc (uuids w)\<rparr>"
  let ?w2 = "after (ins ?pk (clock w)) ?w1"
  have keys: "map fst (row_keys ?w1) = map fst (row_keys w)" by (simp add: row_keys_def)
  have "draws w ?w2"
  proof (cases "?w2 = ?w1")
    case True
    show ?thesis unfolding True by (rule draws_same) (simp_all add: keys)
  next
    case False
    then have "uuids ?w2 = uuids ?w1" "mset (map fst (row_keys ?w2)) = add_mset ?pk (mset (map fst (row_keys ?w1)))"
      using assms(1) unfolding inserts_def by blast+
    then show ?thesis
      unfolding draws_def keys by (intro conjI exI [of _ "[uuids w]"]) simp_all
  qed
  moreover have "bindM new_id (\<lambda>pk. bindM (gets clock) (\<lambda>now. bindM (ins pk now) (\<lambda>_. k pk now))) w
      = bindM (ins ?pk (clock w)) (\<lambda>_. k ?pk (clock w)) ?w1"
    by (simp add: bindM_def [of new_id] new_id_def)
  ultimately show "draws w (after (bindM new_id (\<lambda>pk. bindM (gets clock) (\<lambda>now. bindM (ins pk now) (\<lambda>_. k pk now)))) w)"
    using evolvesD [OF assms(2), of ?w2 ?pk "clock w"]
    by (cases "ins ?pk (clock w) ?w1") (auto simp: bindM_def split: sum.split intro: draws_trans)
qed

lemma insert_rows:
  "(\<And>pk now. job_pk (r1 pk now) = pk) \<Longrightarrow> inserts (\<lambda>pk now. insert_row jobs_update (r1 pk now))"
  "(\<And>pk now. appr_pk (r2 pk now) = pk) \<Longrightarrow> inserts (\<lambda>pk now. insert_row approvals_update (r2 pk now))"
  "(\<And>pk now. policy_pk (r3 pk now) = pk) \<Longrightarrow> inserts (\<lambda>pk now. insert_row policies_update (r3 pk now))"
  "(\<And>pk now. ga_pk (r4 pk now) = pk) \<Longrightarrow> inserts (\<lambda>pk now. insert_row governed_actions_update (r4 pk now))"
  "(\<And>pk now. ra_pk (r5 pk now) = pk) \<Longrightarrow> inserts (\<lambda>pk now. insert_row risk_assessments_update (r5 pk now))"
  "(\<And>pk now. art_pk (r6 pk now) = pk) \<Longrightarrow> inserts (\<lambda>pk now. insert_row artifacts_update (r6 pk now))"
  "(\<And>pk now. pkt_pk (r7 pk now) = pk) \<Longrightarrow> inserts (\<lambda>pk now. insert_row packets_update (r7 pk now))"
  "(\<And>pk now. ov_pk (r8 pk now) = pk) \<Longrightarrow> inserts (\<lambda>pk now. insert_row overrides_update (r8 pk now))"
  "(\<And>pk now. ts_pk (r9 pk now) = pk) \<Longrightarrow> inserts (\<lambda>pk now. insert_row trust_scores_update (r9 pk now))"
  "(\<And>pk now. ver_pk (r10 pk now) = pk) \<Longrightarrow> inserts (\<lambda>pk now. insert_row verifications_update (r10 pk now))"
  "(\<And>pk now. key_pk (r11 pk now) = pk) \<Longrightarrow> inserts (\<lambda>pk now. insert_row api_keys_update (r11 pk now))"
  by (simp add: inserts_def insert_row_def comp row_keys_def)+

lemma insert_unique_rows:
  "inserts (\<lambda>pk now. insert_row upd (r pk now)) \<Longrightarrow> inserts (\<lambda>pk now. insert_unique rows upd clash n (r pk now))"
  unfolding inserts_def insert_unique_def insert_row_def by (auto simp: comp)

lemma audit_draws [evo]: "evolves draws (audit_record E a)"
proof -
  have "draws w (after (record_attempts E (\<lambda>_ es. (es, False)) a k i) w)" for k i w
  proof (induction k arbitrary: i w)
    case 0
    then show ?case by (simp add: draws_evo.evo_refl)
  next
    case (Suc k)
    let ?row = "audit_row E a (chain_head (audit_events w)) (uuid (uuids w)) (clock w)"
    let ?w1 = "w\<lparr>uuids := Suc (uuids w)\<rparr>"
    have row: "ae_pk ?row = uuid (uuids w)" by (simp add: audit_row_def Let_def)
    have "draws w ?w1" by (rule draws_same) (simp_all add: row_keys_def)
    moreover have "draws w (?w1\<lparr>audit_events := audit_events w @ [?row]\<rparr>)"
      unfolding draws_def by (intro conjI exI [of _ "[uuids w]"]) (simp_all add: row_keys_def row)
    ultimately show ?case
      using Suc [of ?w1 "Suc i"] by (auto simp: Let_def intro: draws_trans)
  qed
  then show ?thesis by (simp add: evolves_def audit_record_def record_with_def)
qed

lemma create_draws [evo]:
  "evolves draws (create_job ty pl t ik)" "evolves draws (create_version E t nm vsn rls g cr)"
  "evolves draws (create_governed_action aa)" "evolves draws (provision_api_key E tid kn rk uid)"
  unfolding create_job_def create_version_def create_governed_action_def provision_api_key_def Let_def
  by (rule draw_and_insert, rule insert_unique_rows, rule insert_rows, simp, intro evo)+

lemma record_draws [evo]:
  "evolves draws (create_request E kind t jid p)" "evolves draws (create_risk_assessment t rl k k' sm m)"
  "evolves draws (record_evidence_artifact t ty k u m)" 
  unfolding create_request_def create_risk_assessment_def record_evidence_artifact_def Let_def
  by (rule draw_and_insert, rule insert_rows, simp, intro evo)+

lemma touch_pk [simp]:
  "(\<And>j. job_pk (f j) = job_pk j) \<Longrightarrow> job_pk (touch_job now f j) = job_pk j"
  "(\<And>a. ga_pk (g a) = ga_pk a) \<Longrightarrow> ga_pk (touch_action now g a) = ga_pk a"
  by (simp_all add: touch_job_def touch_action_def touched_def)

lemma update_draws_row [evo]:
  "(\<And>j. job_pk (f j) = job_pk j) \<Longrightarrow> evolves draws (update_job jid f)"
  unfolding update_job_def by (intro evo update_draws) simp

lemma persist_score_draws [evo]: "evolves draws (persist_score t st sid r)"
  unfolding persist_score_def Let_def
  by (rule draws_evo.evo_bind, rule evo, rule draw_and_insert, rule insert_rows, simp, intro evo)

lemma score_draws [evo]:
  "evolves draws (score_action E k t b)" "evolves draws (score_workflow E k t b)" "evolves draws (score_tenant E tid b)"
  unfolding score_action_def score_workflow_def score_tenant_def score_scope_def by (intro evo)+

lemma packet_draws [evo]:
  "evolves draws (sign_packet E p sb ttl ra)" "evolves draws (revoke_packet E p reason rb)"
  "evolves draws (record_download E p fmt t g)"
  unfolding sign_packet_def revoke_packet_def record_download_def
  by (intro evo update_draws; simp add: set_signature_def set_revoked_def)+

lemma persist_packet_draws [evo]: "evolves draws (persist_packet E t p g)"
  unfolding persist_packet_def Let_def
  by (rule draws_evo.evo_bind, rule evo, rule draws_evo.evo_bind, intro evo update_draws, simp add: supersede_packet_def,
      rule draw_and_insert, rule insert_rows, simp, intro evo)

lemma policy_draws [evo]:
  "evolves draws (activate E vid by t)" "evolves draws (rollback_to E vid by reason t)"
proof -
  show act: "evolves draws (activate E vid by t)"
    unfolding activate_def by (intro evo update_draws) (simp_all add: supersede_def make_active_def)
  show "evolves draws (rollback_to E vid by reason t)"
    unfolding rollback_to_def by (intro evo act)
qed

lemma decision_draws [evo]:
  "evolves draws (approve E aid actor note t)" "evolves draws (reject E aid actor reason t)"
  "evolves draws (merge_execution_context aid fs)"
  unfolding approve_def reject_def merge_execution_context_def validate_outbound_send_gate_def
  by (intro evo update_draws; simp add: decide_row_def merge_row_def)+

lemma enqueue_draws [evo]: "evolves draws (enqueue_email_send_job E a)"
  unfolding enqueue_email_send_job_def validate_send_enqueue_eligibility_def validate_outbound_send_gate_def by (intro evo)

lemma override_draws [evo]: "evolves draws (create_override E a)"
  unfolding create_override_def Let_def
  by (intro draws_evo.evo_bind evolves_option evolves_if draw_and_insert insert_rows evo update_draws touch_pk; simp)

lemma request_verification_draws [evo]: "evolves draws (request_verification E t sid rb sty m)"
  unfolding request_verification_def Let_def
  by (rule draws_evo.evo_bind, rule evo, rule evolves_if, rule evo, rule draws_evo.evo_bind, rule evo, rule evolves_option,
      rule evo, rule draw_and_insert, rule insert_rows, simp, intro evo)

lemma verification_draws [evo]:
  "evolves draws (review_verification E k t rb n)" "evolves draws (approve_verification E k t ab)"
  "evolves draws (revoke_verification E k t rb reason)"
  unfolding review_verification_def approve_verification_def revoke_verification_def
  by (intro evo update_draws; simp add: set_reviewed_def set_approved_def set_ver_revoked_def)+

lemma review_step_draws [evo]: "evolves draws (record_review_step E ac rid t actor m)"
  unfolding record_review_step_def by (intro evo)

lemma review_draws [evo]: "evolves draws (submit_vendor_governance_review E i)"
  unfolding submit_vendor_governance_review_def review_trail_def review_gate_def
  by (intro evo update_draws touch_pk; simp)

lemma retry_draws [evo]: "evolves draws (retry_failed_job jid t)"
  unfolding retry_failed_job_def assert_email_send_retry_allowed_def by (intro evo; simp)

lemma seed_default_draws [evo]: "evolves draws seed_default_policy"
proof -
  have ins: "evolves draws (bindM new_id (\<lambda>pk. bindM (insert_unique policies policies_update same_policy n (row pk))
      (\<lambda>_. ret (row pk))))" if "\<And>pk. policy_pk (row pk) = pk" for n row
  proof -
    have "evolves draws (bindM new_id (\<lambda>pk. bindM (gets clock) (\<lambda>now.
        bindM (insert_unique policies policies_update same_policy n (row pk)) (\<lambda>_. ret (row pk)))))"
      by (rule draw_and_insert, rule insert_unique_rows, rule insert_rows(3), rule that, rule evo)
    then show ?thesis by (auto simp: evolves_def bindM_def new_id_def gets_def split: prod.splits sum.splits)
  qed
  show ?thesis
    unfolding seed_default_policy_def Let_def
    by (rule draws_evo.evo_bind, rule evo, rule draws_evo.evo_bind, rule evo, rule draws_evo.evo_bind, rule evo,
        rule evolves_option, rule ins, simp, intro evo update_draws, simp add: reactivate_def)
qed

lemma dependency_draws [evo]:
  "evolves draws (get_current_tenant_id F k)" "evolves draws (require_permission F p k)"
  unfolding get_current_tenant_id_def resolve_tenant_id_def require_permission_def get_principal_def resolve_principal_def
    unauthorized_def
  by (intro evo update_draws; simp)+

lemma read_draws [evo]: "evolves draws (get_thread_summary t x)"
  unfolding get_thread_summary_def by (intro evo)

section \<open>The worker\<close>

lemma worker_parts_draws [evo]:
  "evolves draws (count_attempt jid)" "evolves draws (mark_job_failed jid m)" "evolves draws (mark_job_succeeded jid r)"
  "evolves draws claim_next_pending" "evolves draws (record_send_completed aid m)"
  unfolding count_attempt_def mark_job_failed_def mark_job_succeeded_def claim_next_pending_def record_send_completed_def
  by (intro evo; simp split: option.split)+

lemma outside_draws [evo]:
  "evolves draws (create_draft E (get_gmail_connector E) t s b)" "evolves draws (workflow_read_thread E th t j i)"
  "evolves draws (upsert_thread_record t x j0 sn i0 e)" "evolves draws (upsert_outbound_delivery t x d a j st)"
  "evolves draws (mark_delivery_sent a j m)" "evolves draws (mark_delivery_failed a j m)"
  "evolves draws (send_approved_draft E (get_gmail_connector E) d)"
  by (rule evolves_only_draws [of "{TCalls, TSent, TThreads, TDeliveries}"], (intro evo; simp), simp)+

lemma poll_draws [evo]: "evolves draws (poll_once E)"
  unfolding poll_once_def process_job_def run_task_def handle_chat_orchestrate_def handle_email_send_approved_def
    attempt_def audit_send_job_failed_def execute_chat_orchestrate_def enrich_orchestrate_result_def run_send_approved_job_def
    validate_send_execution_invariants_def validate_send_enqueue_eligibility_def validate_outbound_send_gate_def
  by (intro evo)

section \<open>Start and administration\<close>

lemma seeding_draws [evo]: "evolves draws seed_rbac" "evolves draws seed_control_catalog"
  by (rule evolves_only_draws [of "{TPermissions, TRoles, TRolePermissions}"], (intro evo; simp), simp,
      rule evolves_only_draws [of "{TFrameworks, TControls, TRegulations, TRequirements, TPacks}"], (intro evo; simp), simp)

lemma startup_draws [evo]: "evolves draws startup"
  unfolding startup_def by (intro evo)

lemma admin_draws [evo]:
  "evolves draws (provision_user t e n)" "evolves draws (assign_role k n' u)" "evolves draws (create_ai_system u n' d ow)"
  "evolves draws (create_data_source u n' st m)" "evolves draws (create_workflow u n' ow d)"
  "evolves draws (create_action_control_mapping u k n' d ow)"
  by (rule evolves_only_draws [of "{TUsers, TUserRoles, TAiSystems, TDataSources, TWorkflows, TActionControls}"], (intro evo; simp), simp)+

end
