(* ===== verification/JsonParse.thy ===== *)
theory JsonParse
  imports Json
begin

text \<open>
  \<open>json.loads\<close>, on the texts the program reads back: white space, strict strings with their
  escapes, integers without leading zeros, arrays, and objects, where a repeated key keeps its
  first place and takes its last value. A code point above 255 and a floating-point number are
  outside the model and answer like a text that is not JSON. The parser recurses on fuel;
  \<open>2 * length text + 1\<close> is always enough (\<open>parse_value_fuel\<close>).

  The point of the theory is \<open>loads_dumps\<close>: what \<open>json.dumps\<close> made of a value of the model is read
  back as that value (with the keys of every object in order, when the encoder sorted them). It is
  why the model can store a payload column as the dictionary it encodes. An association list with a
  repeated key is not a Python dictionary; its text is read back with the repetitions collapsed
  (\<open>collapse\<close>), so no text the encoder makes is rejected (\<open>loads_dumps_any\<close>).
\<close>

section \<open>The parser\<close>

definition json_space :: "char \<Rightarrow> bool" where
  "json_space c = (let n = ord c in n = 32 \<or> n = 9 \<or> n = 10 \<or> n = 13)"

definition skip_ws :: "string \<Rightarrow> string" where
  "skip_ws s = dropWhile json_space s"

definition is_digit :: "char \<Rightarrow> bool" where
  "is_digit c = (48 \<le> ord c \<and> ord c \<le> 57)"

definition hex_value :: "char \<Rightarrow> nat option" where
  "hex_value c =
     (let n = ord c in
      if 48 \<le> n \<and> n \<le> 57 then Some (n - 48)
      else if 97 \<le> n \<and> n \<le> 102 then Some (n - 87)
      else if 65 \<le> n \<and> n \<le> 70 then Some (n - 55)
      else None)"

definition hex4 :: "char \<Rightarrow> char \<Rightarrow> char \<Rightarrow> char \<Rightarrow> char option" where
  "hex4 a b c d =
     (case (hex_value a, hex_value b, hex_value c, hex_value d) of
        (Some w, Some x, Some y, Some z) \<Rightarrow>
          (let n = 4096 * w + 256 * x + 16 * y + z in if n < 256 then Some (chr n) else None)
      | _ \<Rightarrow> None)"

definition backslash :: "char \<Rightarrow> char option" where
  "backslash e =
     (let n = ord e in
      if n = 34 \<or> n = 92 \<or> n = 47 then Some e
      else if n = 98 then Some (chr 8)
      else if n = 102 then Some (chr 12)
      else if n = 110 then Some (chr 10)
      else if n = 114 then Some (chr 13)
      else if n = 116 then Some (chr 9)
      else None)"

text \<open>The rest of a string after its opening quote; control characters must be escaped.\<close>

fun parse_string :: "string \<Rightarrow> (string \<times> string) option" where
  "parse_string [] = None"
| "parse_string (c # s) =
     (if ord c = 34 then Some ([], s)
      else if ord c = 92 then
        (case s of
           [] \<Rightarrow> None
         | e # s' \<Rightarrow>
             (if ord e = 117 then
                (case s' of
                   p # q # h # l # s'' \<Rightarrow>
                     (case hex4 p q h l of
                        None \<Rightarrow> None
                      | Some d \<Rightarrow> map_option (map_prod ((#) d) id) (parse_string s''))
                 | _ \<Rightarrow> None)
              else
                (case backslash e of
                   None \<Rightarrow> None
                 | Some d \<Rightarrow> map_option (map_prod ((#) d) id) (parse_string s'))))
      else if ord c < 32 then None
      else map_option (map_prod ((#) c) id) (parse_string s))"

fun parse_nat :: "string \<Rightarrow> (nat \<times> string) option" where
  "parse_nat [] = None"
| "parse_nat (c # s) =
     (if ord c = 48 then Some (0, s)
      else if is_digit c then
        Some (digits_value (takeWhile is_digit (c # s)), dropWhile is_digit (c # s))
      else None)"

fun parse_int :: "string \<Rightarrow> (int \<times> string) option" where
  "parse_int [] = None"
| "parse_int (c # s) =
     (if ord c = 45 then map_option (map_prod (\<lambda>n. - int n) id) (parse_nat s)
      else map_option (map_prod int id) (parse_nat (c # s)))"

definition literal :: "string \<Rightarrow> json \<Rightarrow> string \<Rightarrow> (json \<times> string) option" where
  "literal word v s = (if prefix word s then Some (v, drop (length word) s) else None)"

text \<open>
  \<open>parse_value\<close> reads a value at the front of the text, \<open>parse_items\<close> the items of a list up to its
  bracket, \<open>parse_members\<close> the members of an object up to its brace.
\<close>

fun parse_value :: "nat \<Rightarrow> string \<Rightarrow> (json \<times> string) option"
  and parse_items :: "nat \<Rightarrow> string \<Rightarrow> (json list \<times> string) option"
  and parse_members :: "nat \<Rightarrow> string \<Rightarrow> (dict \<times> string) option" where
  "parse_value 0 s = None"
| "parse_value (Suc n) s =
     (case s of
        [] \<Rightarrow> None
      | c # r \<Rightarrow>
          (if ord c = 34 then map_option (map_prod JStr id) (parse_string r)
           else if ord c = 123 then
             (case skip_ws r of
                [] \<Rightarrow> None
              | d # r' \<Rightarrow>
                  (if ord d = 125 then Some (JObj [], r')
                   else map_option (map_prod (\<lambda>kvs. JObj (dupdate [] kvs)) id) (parse_members n (d # r'))))
           else if ord c = 91 then
             (case skip_ws r of
                [] \<Rightarrow> None
              | d # r' \<Rightarrow>
                  (if ord d = 93 then Some (JArr [], r')
                   else map_option (map_prod JArr id) (parse_items n (d # r'))))
           else if ord c = 110 then literal ''null'' JNull s
           else if ord c = 116 then literal ''true'' (JBool True) s
           else if ord c = 102 then literal ''false'' (JBool False) s
           else map_option (map_prod JInt id) (parse_int s)))"
| "parse_items 0 s = None"
| "parse_items (Suc n) s =
     (case parse_value n s of
        None \<Rightarrow> None
      | Some (v, r) \<Rightarrow>
          (case skip_ws r of
             [] \<Rightarrow> None
           | d # r' \<Rightarrow>
               (if ord d = 93 then Some ([v], r')
                else if ord d = 44 then map_option (map_prod ((#) v) id) (parse_items n (skip_ws r'))
                else None)))"
| "parse_members 0 s = None"
| "parse_members (Suc n) s =
     (case s of
        [] \<Rightarrow> None
      | c # r \<Rightarrow>
          (if ord c = 34 then
             (case parse_string r of
                None \<Rightarrow> None
              | Some (k, r1) \<Rightarrow>
                  (case skip_ws r1 of
                     [] \<Rightarrow> None
                   | d # r2 \<Rightarrow>
                       (if ord d = 58 then
                          (case parse_value n (skip_ws r2) of
                             None \<Rightarrow> None
                           | Some (v, r3) \<Rightarrow>
                               (case skip_ws r3 of
                                  [] \<Rightarrow> None
                                | e # r4 \<Rightarrow>
                                    (if ord e = 125 then Some ([(k, v)], r4)
                                     else if ord e = 44 then
                                       map_option (map_prod ((#) (k, v)) id) (parse_members n (skip_ws r4))
                                     else None)))
                        else None)))
           else None))"

definition json_loads :: "string \<Rightarrow> json option" where
  "json_loads s =
     (case parse_value (2 * length s + 1) (skip_ws s) of
        None \<Rightarrow> None
      | Some (v, r) \<Rightarrow> (if skip_ws r = [] then Some v else None))"

lemmas parse_defs = parse_value.simps(2) parse_items.simps(2) parse_members.simps(2)

section \<open>The fuel is enough\<close>

lemma length_skip_ws: "length (skip_ws s) \<le> length s"
  by (simp add: skip_ws_def length_dropWhile_le)

lemma skip_ws_shorter: "skip_ws s = d # r \<Longrightarrow> length r < length s"
  using length_skip_ws [of s] by simp

lemma parse_string_shorter: "parse_string s = Some (x, r) \<Longrightarrow> length r < length s"
  by (induction s arbitrary: x rule: parse_string.induct)
    (auto split: if_splits list.splits option.splits simp: less_Suc_eq, (fastforce simp: less_Suc_eq)+)

lemma parse_nat_shorter: "parse_nat s = Some (x, r) \<Longrightarrow> length r < length s"
  by (induction s rule: parse_nat.induct)
    (auto split: if_splits simp: le_imp_less_Suc length_dropWhile_le)

lemma parse_int_shorter: "parse_int s = Some (x, r) \<Longrightarrow> length r < length s"
  by (induction s rule: parse_int.induct) (auto split: if_splits dest: parse_nat_shorter simp del: parse_nat.simps)

lemma literal_shorter: "literal (c # w) v s = Some (x, r) \<Longrightarrow> length r < length s"
  by (auto simp: literal_def prefix_def split: if_splits)


text \<open>What a successful step consists of.\<close>

lemma parse_items_step:
  assumes "parse_items (Suc n) s = Some (vs, r)"
  obtains v r1 d r2 where "parse_value n s = Some (v, r1)" and "skip_ws r1 = d # r2"
    and "r = r2 \<or> (\<exists>vs'. parse_items n (skip_ws r2) = Some (vs', r))"
  using assms by (auto simp: parse_defs split: list.splits if_splits option.splits)

lemma parse_members_step:
  assumes "parse_members (Suc n) s = Some (kvs, r)"
  obtains c k r0 r1 d r2 v r3 e r4 where "s = c # r0" and "parse_string r0 = Some (k, r1)" and "skip_ws r1 = d # r2"
    and "parse_value n (skip_ws r2) = Some (v, r3)" and "skip_ws r3 = e # r4"
    and "r = r4 \<or> (\<exists>kvs'. parse_members n (skip_ws r4) = Some (kvs', r))"
  using assms by (auto simp: parse_defs split: list.splits if_splits option.splits)

lemma parse_shorter:
  "parse_value n s = Some (v, r) \<Longrightarrow> length r < length s"
  "parse_items n s = Some (vs, r) \<Longrightarrow> length r < length s"
  "parse_members n s = Some (kvs, r) \<Longrightarrow> length r < length s"
proof (induction n arbitrary: s v vs kvs r)
  case 0
  { case 1 then show ?case by simp }
  { case 2 then show ?case by simp }
  { case 3 then show ?case by simp }
next
  case (Suc n)
  { case 1
    then show ?case
      by (auto simp: parse_defs split: list.splits if_splits simp del: parse_int.simps
          dest!: Suc.IH parse_string_shorter parse_int_shorter literal_shorter skip_ws_shorter) }
  { case 2
    then show ?case
    proof (cases rule: parse_items_step)
      case (1 v r1 d r2)
      have "length r \<le> length r2" using 1(3) Suc.IH(2) [of "skip_ws r2"] length_skip_ws [of r2] by fastforce
      then show ?thesis using Suc.IH(1) [OF 1(1)] skip_ws_shorter [OF 1(2)] by simp
    qed }
  { case 3
    then show ?case
    proof (cases rule: parse_members_step)
      case (1 c k r0 r1 d r2 v r3 e r4)
      have "length r \<le> length r4" using 1(6) Suc.IH(3) [of "skip_ws r4"] length_skip_ws [of r4] by fastforce
      then show ?thesis
        using 1(1) parse_string_shorter [OF 1(2)] skip_ws_shorter [OF 1(3)] length_skip_ws [of r2]
          Suc.IH(1) [OF 1(4)] skip_ws_shorter [OF 1(5)] by simp
    qed }
qed

text \<open>Any two amounts of fuel above the measure of a text give the same answer.\<close>

lemma fuel_independent:
  "2 * length s < n \<Longrightarrow> 2 * length s < m \<Longrightarrow> parse_value n s = parse_value m s"
  "2 * length s + 1 < n \<Longrightarrow> 2 * length s + 1 < m \<Longrightarrow> parse_items n s = parse_items m s"
  "2 * length s + 1 < n \<Longrightarrow> 2 * length s + 1 < m \<Longrightarrow> parse_members n s = parse_members m s"
proof (induction n arbitrary: s m)
  case 0
  { case 1 then show ?case by simp }
  { case 2 then show ?case by simp }
  { case 3 then show ?case by simp }
next
  case (Suc n)
  { case 1
    then obtain m' where m: "m = Suc m'" by (cases m) auto
    have "parse_items n (d # r') = parse_items m' (d # r')" "parse_members n (d # r') = parse_members m' (d # r')"
      if "s = c # r" "skip_ws r = d # r'" for c d r r'
      using 1 m that length_skip_ws [of r] by (auto intro!: Suc.IH(2,3))
    then show ?case unfolding m parse_defs by (auto split: list.split) }
  { case 2
    then obtain m' where m: "m = Suc m'" by (cases m) auto
    have v: "parse_value n s = parse_value m' s" using 2 m by (intro Suc.IH(1)) auto
    have "parse_items n (skip_ws r') = parse_items m' (skip_ws r')"
      if "parse_value m' s = Some (x, r)" "skip_ws r = d # r'" for x d r r'
      using 2 m parse_shorter(1) [OF that(1)] skip_ws_shorter [OF that(2)] length_skip_ws [of r']
      by (intro Suc.IH(2)) auto
    then show ?case unfolding m parse_defs v by (auto split: list.split option.split) }
  { case 3
    then obtain m' where m: "m = Suc m'" by (cases m) auto
    have v: "parse_value n (skip_ws r2) = parse_value m' (skip_ws r2)"
      if "s = c # r" "parse_string r = Some (k, r1)" "skip_ws r1 = d # r2" for c k d r r1 r2
      using 3 m that parse_string_shorter [OF that(2)] skip_ws_shorter [OF that(3)] length_skip_ws [of r2]
      by (intro Suc.IH(1)) auto
    have "parse_members n (skip_ws r4) = parse_members m' (skip_ws r4)"
      if "s = c # r" "parse_string r = Some (k, r1)" "skip_ws r1 = d # r2"
        "parse_value m' (skip_ws r2) = Some (x, r3)" "skip_ws r3 = e # r4" for c k d r r1 r2 x r3 e r4
      using 3 m that(1) parse_string_shorter [OF that(2)] skip_ws_shorter [OF that(3)] length_skip_ws [of r2]
        parse_shorter(1) [OF that(4)] skip_ws_shorter [OF that(5)] length_skip_ws [of r4]
      by (intro Suc.IH(3)) auto
    with v show ?case unfolding m parse_defs by (auto split: list.split option.split) }
qed

section \<open>Reading back what was written\<close>

text \<open>
  A Python dictionary has distinct keys, at every depth; \<open>dict_keys\<close> says so of a value.
  \<open>sort_json\<close> is the value a sorting encoder writes.
\<close>

primrec dict_keys :: "json \<Rightarrow> bool" where
  "dict_keys JNull = True"
| "dict_keys (JBool b) = True"
| "dict_keys (JInt i) = True"
| "dict_keys (JStr s) = True"
| "dict_keys (JArr xs) = list_all id (map dict_keys xs)"
| "dict_keys (JObj kvs) = (distinct (map fst kvs) \<and> list_all snd (map (map_prod id dict_keys) kvs))"

primrec sort_json :: "json \<Rightarrow> json" where
  "sort_json JNull = JNull"
| "sort_json (JBool b) = JBool b"
| "sort_json (JInt i) = JInt i"
| "sort_json (JStr s) = JStr s"
| "sort_json (JArr xs) = JArr (map sort_json xs)"
| "sort_json (JObj kvs) = JObj (sort_key fst (map (map_prod id sort_json) kvs))"

lemma dict_keys_simps [simp]:
  "dict_keys (JArr xs) \<longleftrightarrow> list_all dict_keys xs"
  "dict_keys (JObj kvs) \<longleftrightarrow> distinct (map fst kvs) \<and> list_all (dict_keys \<circ> snd) kvs"
  by (auto simp: list_all_iff)

declare dict_keys.simps(5,6) [simp del]

primrec collapse :: "json \<Rightarrow> json" where
  "collapse JNull = JNull"
| "collapse (JBool b) = JBool b"
| "collapse (JInt i) = JInt i"
| "collapse (JStr s) = JStr s"
| "collapse (JArr xs) = JArr (map collapse xs)"
| "collapse (JObj kvs) = JObj (dupdate [] (map (map_prod id collapse) kvs))"

lemma dupdate_distinct: "distinct (map fst (d @ kvs)) \<Longrightarrow> dupdate d kvs = d @ kvs"
proof (induction kvs arbitrary: d)
  case (Cons kv kvs)
  have "AList.update k v d = d @ [(k, v)]" if "k \<notin> fst ` set d" for k v
    using that by (induction d) auto
  then have "dset (fst kv) (snd kv) d = d @ [kv]" using Cons.prems by (auto simp: dset_def)
  then show ?case using Cons.IH [of "d @ [kv]"] Cons.prems by (cases kv) simp
qed simp

lemma collapse_dict_keys: "dict_keys v \<Longrightarrow> collapse v = v"
proof (induction v)
  case (JObj kvs)
  have "map (map_prod id collapse) kvs = kvs" using JObj by (fastforce simp: list_all_iff intro: map_idI)
  then show ?case using JObj.prems dupdate_distinct [of "[]" kvs] by simp
qed (auto simp: list_all_iff intro: map_idI)

lemma dict_keys_sort_json: "dict_keys v \<Longrightarrow> dict_keys (sort_json v)"
proof (induction v)
  case (JObj kvs)
  have "distinct (map fst (sort_key fst (map (map_prod id sort_json) kvs)))"
    using JObj.prems by (simp add: map_sort_key comp_def)
  then show ?case using JObj by (fastforce simp: list_all_iff)
qed (auto simp: list_all_iff)

lemma dumps_sorts: "dumps_with True isep ksep v = dumps_with False isep ksep (sort_json v)"
proof (induction v)
  case (JObj kvs)
  let ?D = "dumps_with True isep ksep" and ?D' = "dumps_with False isep ksep"
  have "map (map_prod id ?D) (sort_key fst kvs) = map (map_prod id ?D') (map (map_prod id sort_json) (sort_key fst kvs))"
    using JObj by (auto simp: comp_def)
  then show ?case by (simp add: sort_key_map_prod Let_def del: map_map)
next
  case (JArr xs)
  then show ?case by (simp add: comp_def cong: map_cong)
qed simp_all

lemma hex4_esc: "hex4 CHR ''0'' CHR ''0'' (hexdigit (ord c div 16)) (hexdigit (ord c mod 16)) = Some c"
proof -
  have "hex_value CHR ''0'' = Some 0" by (simp add: hex_value_def ord_def)
  moreover have "hex_value (hexdigit n) = Some n" if "n < 16" for n
    using that by (auto simp: hex_value_def hexdigit_def)
  moreover have "ord c div 16 < 16" "ord c mod 16 < 16" using ord_less [of c] by (simp_all add: less_mult_imp_div_less)
  moreover have "16 * (ord c div 16) + ord c mod 16 = ord c" by simp
  ultimately show ?thesis by (simp add: hex4_def)
qed

lemma parse_string_esc:
  "parse_string (esc_char c @ t) = map_option (map_prod ((#) c) id) (parse_string t)"
proof -
  have [simp]: "ord CHR ''u'' = 117" "ord CHR ''n'' = 110" "ord CHR ''r'' = 114" "ord CHR ''t'' = 116"
    "ord CHR ''f'' = 102" "ord CHR ''b'' = 98" by (simp_all add: ord_def)
  have chr_eq: "chr n = c" if "ord c = n" for n using that by auto
  show ?thesis
    by (auto simp: esc_char_def Let_def backslash_def hex4_esc chr_eq)
qed

lemma parse_string_quote: "parse_string (concat (map esc_char s) @ chr 34 # t) = Some (s, t)"
  by (induction s) (auto simp: parse_string_esc)

definition stops :: "string \<Rightarrow> bool" where
  "stops t \<longleftrightarrow> t = [] \<or> \<not> is_digit (hd t)"

lemma str_nat_all_digits: "list_all is_digit (str_nat n)"
  using str_nat_digits by (auto simp: list_all_iff is_digit_def)

lemma str_nat_head:
  "ord (hd (str_nat n)) = 48 \<longleftrightarrow> n = 0"
proof (induction n rule: str_nat.induct)
  case (1 n)
  then show ?case by (subst str_nat.simps) auto
qed

lemma parse_nat_str_nat:
  assumes "stops t"
  shows "parse_nat (str_nat n @ t) = Some (n, t)"
proof -
  obtain c r where cr: "str_nat n = c # r" by (cases "str_nat n") auto
  have digits: "list_all is_digit (c # r)" using str_nat_all_digits [of n] cr by simp
  show ?thesis
  proof (cases "n = 0")
    case True
    then show ?thesis using str_nat_head [of n] by (subst str_nat.simps) simp
  next
    case False
    have "takeWhile is_digit (c # r @ t) = c # r" "dropWhile is_digit (c # r @ t) = t"
      using digits assms by (cases t; auto simp: stops_def list_all_iff takeWhile_append dropWhile_append)+
    then show ?thesis
      using False str_nat_head [of n] digits digits_value_str_nat [of n] unfolding cr by simp
  qed
qed

lemma parse_int_str_int:
  assumes "stops t"
  shows "parse_int (str_int i @ t) = Some (i, t)"
proof -
  obtain c r where cr: "str_nat (nat i) = c # r" by (cases "str_nat (nat i)") auto
  then have "ord c \<noteq> 45" using str_nat_digits [of c "nat i"] by simp
  moreover have "ord CHR ''-'' = 45" by (simp add: ord_def)
  ultimately show ?thesis
    using parse_nat_str_nat [OF assms, of "nat (- i)"] parse_nat_str_nat [OF assms, of "nat i"] cr
    by (auto simp: str_int_def simp del: parse_nat.simps)
qed

lemma delimiters:
  "ord CHR '']'' = 93" "ord CHR '','' = 44" "ord CHR ''}'' = 125" "ord CHR '':'' = 58"
  "ord CHR ''['' = 91" "ord CHR ''{'' = 123" "ord CHR ''n'' = 110" "ord CHR ''t'' = 116" "ord CHR ''f'' = 102"
  by (simp_all add: ord_def)

lemma skip_ws_nonspace: "\<not> json_space c \<Longrightarrow> skip_ws (c # s) = c # s"
  by (simp add: skip_ws_def)

lemma skip_ws_append: "list_all json_space ws \<Longrightarrow> skip_ws (ws @ s) = skip_ws s"
  by (induction ws) (auto simp: skip_ws_def)

lemma skip_ws_Nil [simp]: "skip_ws [] = []"
  by (simp add: skip_ws_def)

text \<open>The first character of an encoded value is neither white space nor a closing bracket.\<close>

definition opens :: "char \<Rightarrow> bool" where
  "opens c \<longleftrightarrow> json_space c = False \<and> ord c \<noteq> 93 \<and> ord c \<noteq> 125"

lemma dumps_opens:
  obtains c r where "dumps_with srt isep ksep v = c # r" and "opens c"
proof (cases v)
  case (JInt i)
  obtain c r where cr: "str_int i = c # r" by (cases "str_int i") auto
  then have "int_char c" using str_int_chars [of c i] by simp
  then have "opens c" by (auto simp: opens_def json_space_def int_char_def Let_def)
  then show ?thesis using that JInt cr by simp
next
  case (JBool b)
  then show ?thesis using that by (cases b) (auto simp: opens_def json_space_def Let_def delimiters)
qed (use that in \<open>auto simp: opens_def json_space_def quote_def Let_def delimiters\<close>)

lemma skip_ws_dumps: "skip_ws (dumps_with srt isep ksep v @ t) = dumps_with srt isep ksep v @ t"
  by (rule dumps_opens [of srt isep ksep v]) (simp add: opens_def skip_ws_nonspace)

text \<open>One value read back, and what follows it left alone.\<close>

definition read_back :: "string \<Rightarrow> string \<Rightarrow> json \<Rightarrow> bool" where
  "read_back isep ksep v \<longleftrightarrow>
     (\<forall>n t. size v < n \<longrightarrow> stops t \<longrightarrow> parse_value n (dumps_with False isep ksep v @ t) = Some (collapse v, t))"

lemma read_backD:
  "read_back isep ksep v \<Longrightarrow> size v < n \<Longrightarrow> stops t \<Longrightarrow> parse_value n (dumps_with False isep ksep v @ t) = Some (collapse v, t)"
  by (simp add: read_back_def)

lemma stops_delimiter: "ord c \<in> {93, 44, 125} \<Longrightarrow> stops (c # t)"
  by (auto simp: stops_def is_digit_def)

lemma skip_ws_delimiter: "ord c \<in> {93, 44, 125, 58, 34} \<Longrightarrow> skip_ws (c # t) = c # t"
  by (auto simp: json_space_def Let_def intro: skip_ws_nonspace)

lemma parse_items_dumps:
  assumes ws: "list_all json_space ws"
  shows "xs \<noteq> [] \<Longrightarrow> list_all (read_back ('','' @ ws) ksep) xs \<Longrightarrow> size_list size xs < n \<Longrightarrow>
     parse_items n (join ('','' @ ws) (map (dumps_with False ('','' @ ws) ksep) xs) @ CHR '']'' # t) = Some (map collapse xs, t)"
proof (induction xs arbitrary: n)
  case (Cons x xs)
  obtain m where n: "n = Suc m" using Cons.prems by (cases n) auto
  have x: "parse_value m (dumps_with False ('','' @ ws) ksep x @ c # s) = Some (collapse x, c # s)" if "ord c \<in> {93, 44, 125}" for c s
    using Cons.prems that n by (auto intro!: read_backD stops_delimiter)
  show ?case
  proof (cases xs)
    case Nil
    then show ?thesis using x [of "CHR '']''" t] by (simp add: n parse_defs delimiters skip_ws_delimiter)
  next
    case (Cons y ys)
    let ?rest = "join ('','' @ ws) (map (dumps_with False ('','' @ ws) ksep) xs) @ CHR '']'' # t"
    have "skip_ws (ws @ ?rest) = ?rest"
    proof -
      obtain r where "?rest = dumps_with False ('','' @ ws) ksep y @ r" using Cons by (cases ys) auto
      then show ?thesis using skip_ws_dumps [of False "'','' @ ws" ksep y r] by (simp add: skip_ws_append ws)
    qed
    moreover have "parse_items m ?rest = Some (map collapse xs, t)"
      using Cons.IH Cons.prems Cons n by simp
    ultimately show ?thesis
      using x [of "CHR '',''" "ws @ ?rest"] Cons by (simp add: n parse_defs delimiters skip_ws_delimiter)
  qed
qed simp

text \<open>The text of the members of an object.\<close>

definition members_text :: "string \<Rightarrow> string \<Rightarrow> dict \<Rightarrow> string" where
  "members_text isep ksep kvs = join isep (map (\<lambda>(k, v). quote k @ ksep @ dumps_with False isep ksep v) kvs)"

lemma dumps_obj: "dumps_with False isep ksep (JObj kvs) = ''{'' @ members_text isep ksep kvs @ ''}''"
  by (simp add: members_text_def comp_def split_def Let_def)

lemma members_text_quote:
  "kvs \<noteq> [] \<Longrightarrow> \<exists>r. members_text isep ksep kvs @ s = chr 34 # r"
  by (cases kvs; cases "tl kvs") (auto simp: members_text_def quote_def)

lemma parse_members_dumps:
  assumes ws: "list_all json_space ws" "list_all json_space ws'"
  shows "kvs \<noteq> [] \<Longrightarrow> list_all (read_back ('','' @ ws) ('':'' @ ws') \<circ> snd) kvs \<Longrightarrow>
     size_list (size_prod (\<lambda>_. 0) size) kvs < n \<Longrightarrow>
     parse_members n (members_text ('','' @ ws) ('':'' @ ws') kvs @ CHR ''}'' # t) = Some (map (map_prod id collapse) kvs, t)"
proof (induction kvs arbitrary: n)
  case (Cons kv kvs)
  let ?text = "members_text ('','' @ ws) ('':'' @ ws')"
  obtain m where n: "n = Suc m" using Cons.prems by (cases n) auto
  obtain k v where kv: "kv = (k, v)" by (cases kv)
  let ?v = "dumps_with False ('','' @ ws) ('':'' @ ws') v"
  have val: "parse_value m (skip_ws (ws' @ ?v @ c # s)) = Some (collapse v, c # s)" if "ord c \<in> {93, 44, 125}" for c s
    using Cons.prems that n kv by (auto simp: skip_ws_append ws skip_ws_dumps intro!: read_backD stops_delimiter)
  have key: "parse_string (concat (map esc_char k) @ chr 34 # s) = Some (k, s)" for s
    by (rule parse_string_quote)
  show ?case
  proof (cases kvs)
    case Nil
    then have "?text [kv] @ CHR ''}'' # t = chr 34 # concat (map esc_char k) @ chr 34 # CHR '':'' # ws' @ ?v @ CHR ''}'' # t"
      by (simp add: members_text_def kv quote_def)
    then show ?thesis using val [of "CHR ''}''" t] Nil
      by (simp add: n kv parse_defs delimiters skip_ws_delimiter key)
  next
    case (Cons y ys)
    let ?rest = "?text kvs @ CHR ''}'' # t"
    have split_text: "?text (kv # kvs) @ CHR ''}'' # t
        = chr 34 # concat (map esc_char k) @ chr 34 # CHR '':'' # ws' @ ?v @ CHR '','' # ws @ ?rest"
      by (simp add: members_text_def kv quote_def Cons)
    have "skip_ws (ws @ ?rest) = ?rest"
      using members_text_quote [of kvs "'','' @ ws" "'':'' @ ws'" "CHR ''}'' # t"] Cons
      by (auto simp: skip_ws_append ws skip_ws_delimiter)
    moreover have "parse_members m ?rest = Some (map (map_prod id collapse) kvs, t)"
      using Cons.IH Cons.prems Cons n by (simp add: id_def)
    ultimately show ?thesis
      unfolding split_text using val [of "CHR '',''" "ws @ ?rest"]
      by (simp add: n kv parse_defs delimiters skip_ws_delimiter key id_def)
  qed
qed simp

lemma parse_dumps:
  assumes ws: "list_all json_space ws" "list_all json_space ws'"
  shows "read_back ('','' @ ws) ('':'' @ ws') v"
proof (induction v)
  case (JInt i)
  obtain c r where cr: "str_int i = c # r" by (cases "str_int i") auto
  then have c: "int_char c" using str_int_chars [of c i] by simp
  have "parse_value n (c # r @ t) = Some (JInt i, t)" if "stops t" "0 < n" for n t
    using parse_int_str_int [OF that(1), of i] that(2) c cr
    by (cases n) (auto simp: parse_defs int_char_def simp del: parse_int.simps)
  then show ?case by (auto simp: read_back_def cr)
next
  case (JStr s)
  show ?case unfolding read_back_def
  proof (intro allI impI)
    fix n t assume "size (JStr s) < n"
    then show "parse_value n (dumps_with False ('','' @ ws) ('':'' @ ws') (JStr s) @ t) = Some (collapse (JStr s), t)"
      by (cases n) (simp_all add: parse_defs quote_def parse_string_quote)
  qed
next
  case (JArr xs)
  show ?case unfolding read_back_def
  proof (intro allI impI)
    fix n t assume n: "size (JArr xs) < n"
    then obtain m where m: "n = Suc m" by (cases n) auto
    have all: "list_all (read_back ('','' @ ws) ('':'' @ ws')) xs" using JArr by (simp add: list_all_iff)
    show "parse_value n (dumps_with False ('','' @ ws) ('':'' @ ws') (JArr xs) @ t) = Some (collapse (JArr xs), t)"
    proof (cases xs)
      case Nil
      then show ?thesis by (simp add: m parse_defs delimiters skip_ws_delimiter)
    next
      case (Cons y ys)
      let ?items = "join ('','' @ ws) (map (dumps_with False ('','' @ ws) ('':'' @ ws')) xs) @ CHR '']'' # t"
      obtain c r where cr: "dumps_with False ('','' @ ws) ('':'' @ ws') y = c # r" "opens c" by (rule dumps_opens)
      then obtain r' where r': "?items = c # r'" using Cons by (cases ys) auto
      have "parse_items m ?items = Some (map collapse xs, t)"
        using n m Cons by (intro parse_items_dumps ws all) auto
      then have "parse_items m (c # r') = Some (map collapse xs, t)" unfolding r' .
      then show ?thesis using r' cr(2) by (simp add: m parse_defs delimiters skip_ws_nonspace opens_def)
    qed
  qed
next
  case (JObj kvs)
  show ?case unfolding read_back_def
  proof (intro allI impI)
    fix n t assume n: "size (JObj kvs) < n"
    then obtain m where m: "n = Suc m" by (cases n) auto
    have all: "list_all (read_back ('','' @ ws) ('':'' @ ws') \<circ> snd) kvs"
      using JObj by (fastforce simp: list_all_iff)
    show "parse_value n (dumps_with False ('','' @ ws) ('':'' @ ws') (JObj kvs) @ t) = Some (collapse (JObj kvs), t)"
    proof (cases "kvs = []")
      case True
      then show ?thesis by (simp add: m parse_defs delimiters skip_ws_delimiter)
    next
      case False
      let ?members = "members_text ('','' @ ws) ('':'' @ ws') kvs @ CHR ''}'' # t"
      obtain r where r: "?members = chr 34 # r" using members_text_quote [OF False] by blast
      have "size_list (size_prod (\<lambda>_. 0) size) kvs < m" using n m by simp
      then have "parse_members m ?members = Some (map (map_prod id collapse) kvs, t)" by (intro parse_members_dumps ws False all)
      then show ?thesis unfolding dumps_obj using r
        by (simp add: m parse_defs delimiters skip_ws_delimiter)
    qed
  qed
qed (auto simp: read_back_def literal_def parse_defs delimiters gr0_conv_Suc prefix_def split: if_splits)

text \<open>The default separators and the compact ones, with and without sorting.\<close>

lemma loads_text:
  assumes "list_all json_space ws" and "list_all json_space ws'"
  shows "json_loads (dumps_with False ('','' @ ws) ('':'' @ ws') v) = Some (collapse v)"
proof -
  let ?s = "dumps_with False ('','' @ ws) ('':'' @ ws') v"
  have "parse_value (size v + 2 * length ?s + 1) ?s = Some (collapse v, [])"
    using read_backD [OF parse_dumps [OF assms], of v "size v + 2 * length ?s + 1" "[]"] by (simp add: stops_def)
  moreover have "parse_value (2 * length ?s + 1) ?s = parse_value (size v + 2 * length ?s + 1) ?s"
    by (rule fuel_independent) auto
  ultimately show ?thesis using skip_ws_dumps [of False "'','' @ ws" "'':'' @ ws'" v "[]"] by (simp add: json_loads_def)
qed

lemma json_space_blank [simp]: "json_space CHR '' ''"
  by (simp add: json_space_def ord_def)

definition json_dumps :: "json \<Rightarrow> string" where
  "json_dumps v = dumps_with False '', '' '': '' v"

lemma loads_dumps_any:
  "json_loads (json_dumps v) = Some (collapse v)"
  "json_loads (dumps_sorted v) = Some (collapse (sort_json v))"
  "json_loads (dumps_compact v) = Some (collapse (sort_json v))"
  using loads_text [of "'' ''" "'' ''"] loads_text [of "[]" "[]"]
  by (simp_all add: json_dumps_def dumps_sorted_def dumps_compact_def dumps_sorts)

lemma loads_dumps:
  assumes "dict_keys v"
  shows "json_loads (json_dumps v) = Some v" "json_loads (dumps_sorted v) = Some (sort_json v)"
    "json_loads (dumps_compact v) = Some (sort_json v)"
  using assms by (simp_all add: loads_dumps_any collapse_dict_keys dict_keys_sort_json)

text \<open>What a lookup finds is not affected by the sorting of the keys.\<close>

lemma map_of_sort_key: "distinct (map fst d) \<Longrightarrow> map_of (sort_key fst d) = map_of d"
  by (rule map_of_inject_set [THEN iffD2]) (simp_all add: map_sort_key)

lemma dget_sort_json:
  "distinct (map fst d) \<Longrightarrow> sort_json (JObj d) = JObj d' \<Longrightarrow> dget d' k = sort_json (dget d k)"
proof -
  assume "distinct (map fst d)" and "sort_json (JObj d) = JObj d'"
  then have "map_of d' = map_of (map (\<lambda>(k, v). (k, sort_json v)) d)"
    using map_of_sort_key [of "map (map_prod id sort_json) d"] by (auto simp: comp_def map_prod_def split_def)
  then show ?thesis by (simp add: dget_def map_of_map split: option.split)
qed

end
