(* ===== verification/Schemas.thy ===== *)
theory Schemas
  imports Api JsonParse
begin

text \<open>
  app/schemas: the response models of the HTTP interface as records, one field per field of the
  pydantic class, and the functions that project rows to them. A response holds what leaves the
  program; columns that no field names stay inside. Fields declared as dictionaries are checked by
  pydantic when the response is built: a stored value of another shape is an error, not an answer.
\<close>

section \<open>Jobs\<close>

record job_detail_response =
  jd_id :: string
  jd_tenant_id :: "string option"
  jd_type :: string
  jd_status :: string
  jd_attempts :: int
  jd_last_error :: "string option"
  jd_created_at :: time
  jd_updated_at :: time
  jd_payload :: dict
  jd_result :: "dict option"

text \<open>
  \<open>split_stored_payload\<close>: the value under \<open>result\<close> is taken out of the payload; one that is neither
  null nor an object is put back under another key.
\<close>

definition split_stored_payload :: "dict option \<Rightarrow> dict \<times> dict option" where
  "split_stored_payload payload_json =
     (case payload_json of
        None \<Rightarrow> ([], None)
      | Some stored \<Rightarrow>
          (let data = filter (\<lambda>kv. fst kv \<noteq> ''result'') stored in
           case dget stored ''result'' of
             JNull \<Rightarrow> (data, None)
           | JObj r \<Rightarrow> (data, Some r)
           | other \<Rightarrow> (dset ''_result_non_object'' other data, None)))"

definition job_to_detail :: "job \<Rightarrow> job_detail_response" where
  "job_to_detail job =
     (let (payload, outcome) = split_stored_payload (job_payload job) in
      \<lparr>jd_id = job_pk job, jd_tenant_id = job_tenant job, jd_type = job_type job,
       jd_status = job_status_value (job_status job), jd_attempts = job_attempts job,
       jd_last_error = job_last_error job, jd_created_at = job_created_at job, jd_updated_at = job_updated_at job,
       jd_payload = payload, jd_result = outcome\<rparr>)"

record job_summary_response =
  js_id :: string
  js_type :: string
  js_status :: string
  js_tenant_id :: "string option"
  js_created_at :: time

definition job_to_summary :: "job \<Rightarrow> job_summary_response" where
  "job_to_summary job =
     \<lparr>js_id = job_pk job, js_type = job_type job, js_status = job_status_value (job_status job),
      js_tenant_id = job_tenant job, js_created_at = job_created_at job\<rparr>"

section \<open>Approvals and audit events\<close>

record approval_summary_response =
  as_id :: string
  as_kind :: string
  as_status :: string
  as_tenant_id :: "string option"
  as_created_at :: time

definition approval_to_summary :: "approval \<Rightarrow> approval_summary_response" where
  "approval_to_summary row =
     \<lparr>as_id = appr_pk row, as_kind = appr_kind row, as_status = approval_status_value (appr_status row),
      as_tenant_id = appr_tenant row, as_created_at = appr_created_at row\<rparr>"

record audit_event_response =
  aer_id :: string
  aer_action :: string
  aer_resource_type :: string
  aer_resource_id :: string
  aer_tenant_id :: "string option"
  aer_actor :: "string option"
  aer_metadata :: dict
  aer_seq :: "int option"
  aer_previous_hash :: "string option"
  aer_event_hash :: "string option"
  aer_created_at :: "time option"

text \<open>The metadata text is parsed; what is not JSON raises \<open>JSONDecodeError\<close>, a \<open>ValueError\<close>.\<close>

definition event_metadata :: "string option \<Rightarrow> exn + dict" where
  "event_metadata stored =
     (case stored of
        None \<Rightarrow> Inr []
      | Some s \<Rightarrow>
          (if s = [] then Inr []
           else case json_loads s of
               None \<Rightarrow> Inl (ValueError ''json_decode_error'')
             | Some (JObj d) \<Rightarrow> Inr d
             | Some _ \<Rightarrow> Inr []))"

definition audit_event_to_response :: "audit_event \<Rightarrow> exn + audit_event_response" where
  "audit_event_to_response row =
     map_sum id (\<lambda>meta.
       \<lparr>aer_id = ae_pk row, aer_action = ae_action row, aer_resource_type = ae_resource_type row,
        aer_resource_id = ae_resource_id row, aer_tenant_id = ae_tenant row, aer_actor = ae_actor row,
        aer_metadata = meta, aer_seq = ae_seq row, aer_previous_hash = ae_previous_hash row,
        aer_event_hash = ae_event_hash row, aer_created_at = ae_created_at row\<rparr>)
       (event_metadata (ae_metadata row))"

text \<open>A list comprehension over a projection that may raise.\<close>

fun each :: "('r \<Rightarrow> exn + 'a) \<Rightarrow> 'r list \<Rightarrow> exn + 'a list" where
  "each f [] = Inr []"
| "each f (r # rs) = (case f r of Inl e \<Rightarrow> Inl e | Inr x \<Rightarrow> map_sum id ((#) x) (each f rs))"

definition audit_list_response :: "audit_event list \<Rightarrow> exn + audit_event_response list" where
  "audit_list_response rows = each audit_event_to_response rows"

record chain_verification_response =
  acv_status :: string
  acv_ok :: bool
  acv_verified_count :: nat
  acv_total_count :: nat
  acv_broken_at_seq :: "int option"
  acv_reason :: "string option"

definition chain_verification :: "chain_result \<Rightarrow> chain_verification_response" where
  "chain_verification r =
     \<lparr>acv_status = cr_status r, acv_ok = chain_result_ok r, acv_verified_count = cr_verified_count r,
      acv_total_count = cr_total_count r, acv_broken_at_seq = cr_broken_at_seq r, acv_reason = cr_reason r\<rparr>"

section \<open>Email deliveries\<close>

record delivery_detail_response =
  dd_id :: string
  dd_tenant_id :: "string option"
  dd_thread_external_id :: string
  dd_gmail_draft_id :: "string option"
  dd_gmail_message_id :: "string option"
  dd_approval_id :: "string option"
  dd_source_job_id :: "string option"
  dd_execution_job_id :: "string option"
  dd_status :: string
  dd_last_error :: "string option"
  dd_updated_at :: time

definition delivery_to_detail :: "delivery \<Rightarrow> delivery_detail_response" where
  "delivery_to_detail row =
     \<lparr>dd_id = dlv_pk row, dd_tenant_id = dlv_tenant row, dd_thread_external_id = dlv_thread row,
      dd_gmail_draft_id = dlv_draft row, dd_gmail_message_id = dlv_message row, dd_approval_id = dlv_approval row,
      dd_source_job_id = dlv_source_job row, dd_execution_job_id = dlv_execution_job row,
      dd_status = dlv_status row, dd_last_error = dlv_last_error row, dd_updated_at = dlv_updated_at row\<rparr>"

section \<open>The control catalog\<close>

record framework_response =
  fr_id :: string
  fr_name :: string
  fr_version :: string
  fr_description :: "string option"

definition framework_to_response :: "framework \<Rightarrow> framework_response" where
  "framework_to_response row =
     \<lparr>fr_id = fw_pk row, fr_name = fw_name row, fr_version = fw_version row, fr_description = fw_description row\<rparr>"

record control_response =
  cl_id :: string
  cl_framework_id :: string
  cl_code :: string
  cl_title :: string
  cl_description :: "string option"

definition control_to_response :: "control \<Rightarrow> control_response" where
  "control_to_response row =
     \<lparr>cl_id = ctl_pk row, cl_framework_id = ctl_framework row, cl_code = ctl_code row, cl_title = ctl_title row,
      cl_description = ctl_description row\<rparr>"

record regulation_response =
  rg_id :: string
  rg_name :: string
  rg_jurisdiction :: "string option"
  rg_description :: "string option"

definition regulation_to_response :: "regulation \<Rightarrow> regulation_response" where
  "regulation_to_response row =
     \<lparr>rg_id = reg_pk row, rg_name = reg_name row, rg_jurisdiction = reg_jurisdiction row,
      rg_description = reg_description row\<rparr>"

section \<open>Evidence\<close>

record stored_packet_response =
  sp_id :: string
  sp_tenant_id :: "string option"
  sp_scope_type :: string
  sp_scope_id :: "string option"
  sp_version :: "int option"
  sp_packet_hash :: "string option"
  sp_retention_status :: string
  sp_created_by_user_id :: "string option"
  sp_created_at :: time
  sp_signature_algorithm :: "string option"
  sp_signed_at :: "time option"
  sp_expires_at :: "time option"
  sp_revoked_at :: "time option"

definition stored_packet_to_response :: "packet_row \<Rightarrow> stored_packet_response" where
  "stored_packet_to_response row =
     \<lparr>sp_id = pkt_pk row, sp_tenant_id = pkt_tenant row, sp_scope_type = pkt_scope_type row,
      sp_scope_id = pkt_scope_id row, sp_version = pkt_version row, sp_packet_hash = pkt_hash row,
      sp_retention_status = pkt_retention_status row, sp_created_by_user_id = pkt_created_by row,
      sp_created_at = pkt_created_at row, sp_signature_algorithm = pkt_signature_algorithm row,
      sp_signed_at = pkt_signed_at row, sp_expires_at = pkt_expires_at row, sp_revoked_at = pkt_revoked_at row\<rparr>"

record graph_ref =
  gr_id :: string
  gr_label :: string

record audit_event_node =
  en_id :: string
  en_seq :: "int option"
  en_action :: string
  en_resource_type :: string
  en_resource_id :: string

record control_mapping_node =
  mn_control_id :: "string option"
  mn_code :: "string option"
  mn_title :: "string option"
  mn_framework :: "string option"
  mn_regulation :: "string option"
  mn_rationale :: "string option"

record evidence_artifact_node =
  an_id :: string
  an_artifact_type :: string
  an_uri :: "string option"

record evidence_graph_response =
  eg_governed_action_id :: string
  eg_action_type :: string
  eg_status :: string
  eg_policy_version :: "string option"
  eg_policy_decision :: "string option"
  eg_ai_system :: "graph_ref option"
  eg_workflow :: "graph_ref option"
  eg_approval :: "graph_ref option"
  eg_source_job_id :: "string option"
  eg_execution_job_id :: "string option"
  eg_audit_events :: "audit_event_node list"
  eg_control_mappings :: "control_mapping_node list"
  eg_evidence_artifacts :: "evidence_artifact_node list"

definition event_node :: "audit_event \<Rightarrow> audit_event_node" where
  "event_node e =
     \<lparr>en_id = ae_pk e, en_seq = ae_seq e, en_action = ae_action e, en_resource_type = ae_resource_type e,
      en_resource_id = ae_resource_id e\<rparr>"

definition mapping_node :: "mapping_view \<Rightarrow> control_mapping_node" where
  "mapping_node m =
     \<lparr>mn_control_id = map_option ctl_pk (mv_control m), mn_code = map_option ctl_code (mv_control m),
      mn_title = map_option ctl_title (mv_control m), mn_framework = map_option fw_name (mv_framework m),
      mn_regulation = map_option reg_name (mv_regulation m), mn_rationale = mv_rationale m\<rparr>"

definition artifact_node :: "artifact \<Rightarrow> evidence_artifact_node" where
  "artifact_node a = \<lparr>an_id = art_pk a, an_artifact_type = art_type a, an_uri = art_uri a\<rparr>"

definition graph_to_response :: "graph \<Rightarrow> evidence_graph_response" where
  "graph_to_response g =
     (let action = g_action g in
      \<lparr>eg_governed_action_id = ga_pk action, eg_action_type = ga_action_type action, eg_status = ga_status action,
       eg_policy_version = g_policy_version g, eg_policy_decision = g_policy_decision g,
       eg_ai_system = map_option (\<lambda>a. \<lparr>gr_id = ais_pk a, gr_label = ais_name a\<rparr>) (g_ai_system g),
       eg_workflow = map_option (\<lambda>f. \<lparr>gr_id = wf_pk f, gr_label = wf_name f\<rparr>) (g_workflow g),
       eg_approval = map_option (\<lambda>a. \<lparr>gr_id = appr_pk a, gr_label = approval_status_value (appr_status a)\<rparr>) (g_approval g),
       eg_source_job_id = map_option job_pk (g_source_job g),
       eg_execution_job_id = map_option job_pk (g_execution_job g),
       eg_audit_events = map event_node (g_audit_events g),
       eg_control_mappings = map mapping_node (g_control_mappings g),
       eg_evidence_artifacts = map artifact_node (g_artifacts g)\<rparr>)"

record governed_action_summary =
  gs_id :: string
  gs_action_type :: string
  gs_status :: string
  gs_workflow_id :: "string option"
  gs_approval_id :: "string option"
  gs_execution_job_id :: "string option"

definition governed_action_to_summary :: "governed_action \<Rightarrow> governed_action_summary" where
  "governed_action_to_summary row =
     \<lparr>gs_id = ga_pk row, gs_action_type = ga_action_type row, gs_status = ga_status row,
      gs_workflow_id = ga_workflow row, gs_approval_id = ga_approval row, gs_execution_job_id = ga_execution_job row\<rparr>"

record ai_system_summary =
  ss_id :: string
  ss_name :: string
  ss_description :: "string option"

definition ai_system_to_summary :: "ai_system \<Rightarrow> ai_system_summary" where
  "ai_system_to_summary row = \<lparr>ss_id = ais_pk row, ss_name = ais_name row, ss_description = ais_description row\<rparr>"

section \<open>Policies and verifications\<close>

record policy_version_response =
  pv_id :: string
  pv_tenant_id :: "string option"
  pv_name :: string
  pv_version :: string
  pv_status :: string
  pv_effective_from :: "time option"
  pv_effective_to :: "time option"
  pv_created_by_user_id :: "string option"
  pv_approved_by_user_id :: "string option"
  pv_change_reason :: "string option"
  pv_created_at :: time

definition policy_to_response :: "policy \<Rightarrow> policy_version_response" where
  "policy_to_response row =
     \<lparr>pv_id = policy_pk row, pv_tenant_id = policy_tenant row, pv_name = policy_name row,
      pv_version = policy_version row, pv_status = policy_status row,
      pv_effective_from = policy_effective_from row, pv_effective_to = policy_effective_to row,
      pv_created_by_user_id = policy_created_by row, pv_approved_by_user_id = policy_approved_by row,
      pv_change_reason = policy_change_reason row, pv_created_at = policy_created_at row\<rparr>"

record verification_response =
  vf_id :: string
  vf_tenant_id :: "string option"
  vf_subject_type :: string
  vf_subject_id :: string
  vf_status :: string
  vf_evidence_packet_id :: "string option"
  vf_trust_score :: "int option"
  vf_trust_score_id :: "string option"
  vf_min_score_required :: int
  vf_decision_reason :: "string option"
  vf_review_notes :: "string option"
  vf_reviewed_at :: "time option"
  vf_decided_at :: "time option"
  vf_created_at :: time
  vf_evidence_status :: "string option"
  vf_evidence_reasons :: "string list"

text \<open>The report of \<open>_evidence_status\<close> for a packet that is gone has a reason of its own.\<close>

definition evidence_reasons :: "evidence \<Rightarrow> string list" where
  "evidence_reasons ev =
     (case ev of EvidenceMissing \<Rightarrow> [''referenced evidence packet not found''] | EvidenceReport r \<Rightarrow> vr_reasons r)"

definition verification_to_response :: "verification \<Rightarrow> evidence option \<Rightarrow> verification_response" where
  "verification_to_response row ev =
     \<lparr>vf_id = ver_pk row, vf_tenant_id = ver_tenant row, vf_subject_type = ver_subject_type row,
      vf_subject_id = ver_subject_id row, vf_status = ver_status row, vf_evidence_packet_id = ver_packet row,
      vf_trust_score = ver_trust_score row, vf_trust_score_id = ver_trust_score_id row,
      vf_min_score_required = ver_min_score row, vf_decision_reason = ver_decision_reason row,
      vf_review_notes = ver_review_notes row, vf_reviewed_at = ver_reviewed_at row,
      vf_decided_at = ver_decided_at row, vf_created_at = ver_created_at row,
      vf_evidence_status = map_option evidence_state ev,
      vf_evidence_reasons = (case ev of None \<Rightarrow> [] | Some e \<Rightarrow> evidence_reasons e)\<rparr>"

section \<open>Workflow runs\<close>

record override_response =
  vo_id :: string
  vo_governed_action_id :: string
  vo_overridden_by_user_id :: "string option"
  vo_reason :: string
  vo_authority_basis :: string
  vo_accepted_risk :: "string option"
  vo_compensating_control :: string
  vo_expiration :: "time option"
  vo_status :: string
  vo_created_at :: time

definition override_to_response :: "override \<Rightarrow> override_response" where
  "override_to_response row =
     \<lparr>vo_id = ov_pk row, vo_governed_action_id = ov_action row, vo_overridden_by_user_id = ov_by row,
      vo_reason = ov_reason row, vo_authority_basis = ov_authority_basis row,
      vo_accepted_risk = ov_accepted_risk row, vo_compensating_control = ov_compensating_control row,
      vo_expiration = ov_expiration row, vo_status = ov_status row, vo_created_at = ov_created_at row\<rparr>"

text \<open>A field of type \<open>dict | None\<close>: another value is a validation error.\<close>

definition dict_field :: "json \<Rightarrow> exn + dict option" where
  "dict_field v =
     (case v of
        JNull \<Rightarrow> Inr None
      | JObj d \<Rightarrow> Inr (Some d)
      | _ \<Rightarrow> Inl (ValueError ''validation_error''))"

record policy_view =
  pw_category :: string
  pw_requires_approval :: bool
  pw_blocked :: bool
  pw_reason :: "string option"

record risk_view =
  rw_level :: string
  rw_score :: int
  rw_reasons :: "string list"

record workflow_run_response =
  wr_governed_action_id :: string
  wr_action_type :: string
  wr_status :: string
  wr_requires_approval :: bool
  wr_approval_id :: "string option"
  wr_policy :: policy_view
  wr_risk :: risk_view

definition run_response :: "review_run \<Rightarrow> workflow_run_response" where
  "run_response r =
     (let p = rv_policy r; k = rv_risk r in
      \<lparr>wr_governed_action_id = rv_governed_action_id r, wr_action_type = rv_action_type r, wr_status = rv_status r,
       wr_requires_approval = rv_requires_approval r, wr_approval_id = rv_approval_id r,
       wr_policy = \<lparr>pw_category = policy_category_value (pe_category p), pw_requires_approval = pe_requires_approval p,
         pw_blocked = pe_blocked p, pw_reason = pe_reason p\<rparr>,
       wr_risk = \<lparr>rw_level = risk_level_value (rr_level k), rw_score = rr_score k, rw_reasons = rr_reasons k\<rparr>\<rparr>)"

record workflow_run_detail =
  wd_governed_action_id :: string
  wd_action_type :: string
  wd_status :: string
  wd_approval_id :: "string option"
  wd_approval_status :: "string option"
  wd_policy :: "dict option"
  wd_risk :: "dict option"
  wd_intake :: "dict option"
  wd_audit_event_count :: nat
  wd_evidence_artifact_count :: nat

definition run_detail :: "run_view \<Rightarrow> exn + workflow_run_detail" where
  "run_detail r =
     (case dict_field (run_policy r) of Inl e \<Rightarrow> Inl e | Inr policy \<Rightarrow>
      case dict_field (run_risk r) of Inl e \<Rightarrow> Inl e | Inr risk \<Rightarrow>
      case dict_field (run_intake r) of Inl e \<Rightarrow> Inl e | Inr intake \<Rightarrow>
      Inr \<lparr>wd_governed_action_id = run_governed_action_id r, wd_action_type = run_action_type r,
        wd_status = run_state r, wd_approval_id = run_approval_id r, wd_approval_status = run_approval_status r,
        wd_policy = policy, wd_risk = risk, wd_intake = intake,
        wd_audit_event_count = run_audit_event_count r, wd_evidence_artifact_count = run_evidence_artifact_count r\<rparr>)"

record workflow_run_summary =
  ws_governed_action_id :: string
  ws_status :: string
  ws_approval_id :: "string option"
  ws_risk :: "dict option"
  ws_policy_decision :: "string option"

definition run_summary :: "run_row \<Rightarrow> exn + workflow_run_summary" where
  "run_summary r =
     map_sum id (\<lambda>risk. \<lparr>ws_governed_action_id = row_governed_action_id r, ws_status = row_status r,
       ws_approval_id = row_approval_id r, ws_risk = risk, ws_policy_decision = row_policy_decision r\<rparr>)
       (dict_field (row_risk r))"

definition run_list :: "run_row list \<Rightarrow> exn + workflow_run_summary list" where
  "run_list rows = each run_summary rows"

section \<open>Answers\<close>

text \<open>The routes whose projection can fail, with it: the audit trail and the review runs.\<close>

definition answer_list_audit ::
  "env \<Rightarrow> string option \<Rightarrow> string option \<Rightarrow> string option \<Rightarrow> int \<Rightarrow> audit_event_response list svc" where
  "answer_list_audit E key resource_type resource_id limit =
     bindM (route_list_audit E key resource_type resource_id limit) (\<lambda>rows. lift (audit_list_response rows))"

definition answer_list_runs :: "env \<Rightarrow> string option \<Rightarrow> workflow_run_summary list svc" where
  "answer_list_runs E key = bindM (route_list_runs E key) (\<lambda>rows. lift (run_list rows))"

definition answer_get_run :: "env \<Rightarrow> string option \<Rightarrow> string \<Rightarrow> workflow_run_detail svc" where
  "answer_get_run E key aid = bindM (route_get_run E key aid) (\<lambda>r. lift (run_detail r))"

section \<open>What was recorded is what is answered\<close>

lemma each_total: "list_all (\<lambda>r. f r = Inr (g r)) rs \<Longrightarrow> each f rs = Inr (map g rs)"
  by (induction rs) auto

lemma event_metadata_written:
  "event_metadata (metadata_text m) =
     Inr (if m = [] then [] else case collapse (sort_json (JObj m)) of JObj d \<Rightarrow> d | _ \<Rightarrow> [])"
proof -
  have "dumps_sorted (JObj m) \<noteq> []" by (simp add: dumps_sorted_def Let_def)
  then show ?thesis by (simp add: event_metadata_def metadata_text_def loads_dumps_any)
qed

lemma event_metadata_dict:
  assumes "dict_keys (JObj m)" and "sort_json (JObj m) = JObj d"
  shows "event_metadata (metadata_text m) = Inr d"
proof -
  have "collapse (JObj d) = JObj d"
    using collapse_dict_keys [OF dict_keys_sort_json [OF assms(1)]] assms(2) by simp
  then show ?thesis using assms(2) by (auto simp: event_metadata_written simp del: collapse.simps)
qed

text \<open>The answer for a row whose metadata can be read.\<close>

definition audit_answer :: "audit_event \<Rightarrow> audit_event_response" where
  "audit_answer row = (case audit_event_to_response row of Inr a \<Rightarrow> a)"

lemma audit_list_written:
  "metadata_written rows \<Longrightarrow> audit_list_response rows = Inr (map audit_answer rows)"
  unfolding audit_list_response_def
  by (rule each_total) (auto simp: metadata_written_def list_all_iff audit_answer_def audit_event_to_response_def
      dest: bspec simp: event_metadata_written)

text \<open>C13: what a service records with an audit event is what the audit API answers. The metadata dictionary
  goes through \<open>json.dumps\<close> with sorted keys into the row that is hashed, and through \<open>json.loads\<close> into the
  answer: the answer has the same keys with the same values (the keys of nested objects in order), together
  with the row's action, actor, tenant and place in the chain.\<close>

theorem audit_metadata_roundtrip:
  assumes "dict_keys (JObj (arg_metadata a))"
  shows "\<exists>d. audit_event_to_response (audit_row E a head pk now) = Inr
       \<lparr>aer_id = pk, aer_action = arg_action a, aer_resource_type = arg_resource_type a,
        aer_resource_id = arg_resource_id a, aer_tenant_id = arg_tenant a, aer_actor = arg_actor a,
        aer_metadata = d, aer_seq = ae_seq (audit_row E a head pk now),
        aer_previous_hash = ae_previous_hash (audit_row E a head pk now),
        aer_event_hash = ae_event_hash (audit_row E a head pk now), aer_created_at = Some now\<rparr>
     \<and> map fst d = sort (map fst (arg_metadata a)) \<and> (\<forall>k. dget d k = sort_json (dget (arg_metadata a) k))"
proof -
  obtain d where d: "sort_json (JObj (arg_metadata a)) = JObj d" by simp
  have "event_metadata (metadata_text (arg_metadata a)) = Inr d"
    by (rule event_metadata_dict [OF assms d])
  moreover have "map fst d = sort (map fst (arg_metadata a))"
    using d by (auto simp: map_sort_key comp_def)
  moreover have "dget d k = sort_json (dget (arg_metadata a) k)" for k
    using assms by (intro dget_sort_json [OF _ d]) simp
  ultimately show ?thesis by (simp add: audit_event_to_response_def audit_row_def Let_def)
qed

definition sample_metadata_call :: audit_args where
  "sample_metadata_call = sample_call
     \<lparr>arg_metadata := [(''trust_score'', JInt 71), (''reasons'', jstrs [''line'' @ [chr 10], [chr 34]]),
        (''note'', JObj [(''b'', JNull), (''a'', JBool True)])]\<rparr>"

theorem audit_metadata_roundtrip_witness:
  "dict_keys (JObj (arg_metadata sample_metadata_call))
   \<and> map_sum id aer_metadata (audit_event_to_response (audit_row sample_env sample_metadata_call None ''e1'' 7))
     = Inr [(''note'', JObj [(''a'', JBool True), (''b'', JNull)]), (''reasons'', jstrs [''line'' @ [chr 10], [chr 34]]),
            (''trust_score'', JInt 71)]"
proof -
  have keys: "dict_keys (JObj (arg_metadata sample_metadata_call))"
    by (simp add: sample_metadata_call_def jstrs_def)
  obtain d where d: "map_sum id aer_metadata (audit_event_to_response (audit_row sample_env sample_metadata_call None ''e1'' 7)) = Inr d"
    "map fst d = sort (map fst (arg_metadata sample_metadata_call))"
    "\<forall>k. dget d k = sort_json (dget (arg_metadata sample_metadata_call) k)"
    using audit_metadata_roundtrip [OF keys, of sample_env None "''e1''" 7] by auto
  have names: "map fst d = [''note'', ''reasons'', ''trust_score'']"
    unfolding d(2) by (simp add: sample_metadata_call_def)
  have "distinct (map fst d)" unfolding names by simp
  then have "d = map (\<lambda>k. (k, dget d k)) (map fst d)"
    by (auto simp: dget_def intro!: map_idI [symmetric])
  also have "\<dots> = map (\<lambda>k. (k, sort_json (dget (arg_metadata sample_metadata_call) k))) [''note'', ''reasons'', ''trust_score'']"
    unfolding names d(3) [rule_format] ..
  also have "\<dots> = [(''note'', JObj [(''a'', JBool True), (''b'', JNull)]), (''reasons'', jstrs [''line'' @ [chr 10], [chr 34]]),
      (''trust_score'', JInt 71)]"
    by (simp add: sample_metadata_call_def jstrs_def)
  finally show ?thesis using keys d(1) by simp
qed

text \<open>C33: the job API answers what the worker recorded. When a running job succeeds with a result, its detail
  shows the status, the result, and the payload the job was created with (less an earlier result), and
  nothing else of it changed but the time stamp.\<close>

theorem job_result_answered:
  assumes "get_job_by_id jid t w = Some j" and "job_status j = JobRunning"
  shows "map_option job_to_detail (get_job_by_id jid t (after (mark_job_succeeded jid (Some r)) w))
     = Some ((job_to_detail j)\<lparr>jd_status := ''succeeded'', jd_updated_at := clock w,
         jd_payload := filter (\<lambda>kv. fst kv \<noteq> ''result'') (loads (job_payload j)), jd_result := Some r\<rparr>)"
proof -
  have drop: "filter (\<lambda>kv. fst kv \<noteq> k) (dset k v d) = filter (\<lambda>kv. fst kv \<noteq> k) d" for k v d
    by (induction d) (auto simp: dset_def)
  have row: "tget job_pk jid (jobs w) = Some j" "job_pk j = jid"
    using assms(1) by (auto simp: get_job_by_id_def get_job_def get_row_def scoped_row_def split: option.splits if_splits dest: tget_key)
  let ?f = "\<lambda>j. j\<lparr>job_payload := Some (dset ''result'' (JObj r) (loads (job_payload j))), job_status := JobSucceeded\<rparr>"
  have "tget job_pk jid (tupd job_pk jid (touch_job (clock w) ?f) (jobs w)) = Some (touch_job (clock w) ?f j)"
    by (subst tget_tupd) (simp_all add: row touch_job_def touched_def)
  then have "get_job_by_id jid t (after (mark_job_succeeded jid (Some r)) w) = Some (touch_job (clock w) ?f j)"
    using assms(1) row by (simp add: mark_job_succeeded_def update_job_run get_job_by_id_def get_job_def get_row_def
        scoped_row_def touch_job_def touched_def split: if_splits)
  moreover have "?f j \<noteq> j"
  proof
    assume "?f j = j"
    then have "job_status (?f j) = job_status j" by (rule arg_cong)
    then show False using assms(2) by simp
  qed
  ultimately show ?thesis
    by (simp add: touch_job_def touched_def job_to_detail_def split_stored_payload_def drop Let_def split: prod.split)
qed

definition sample_running_job :: job where
  "sample_running_job = \<lparr>job_pk = ''j1'', job_tenant = Some ''t1'', job_type = ''chat.orchestrate'', job_status = JobRunning,
     job_idempotency_key = None, job_payload = Some [(''message'', JStr ''hi'')], job_attempts = 1, job_last_error = None,
     job_run_after = None, job_created_at = 3, job_updated_at = 4\<rparr>"

theorem job_result_answered_witness:
  "map_option jd_result (map_option job_to_detail (get_job_by_id ''j1'' (Some ''t1'')
     (after (mark_job_succeeded ''j1'' (Some [(''summary'', JStr ''ok'')])) (empty_world\<lparr>clock := 9, jobs := [sample_running_job]\<rparr>))))
   = Some (Some [(''summary'', JStr ''ok'')])"
proof -
  let ?w = "empty_world\<lparr>clock := 9, jobs := [sample_running_job]\<rparr>"
  have "get_job_by_id ''j1'' (Some ''t1'') ?w = Some sample_running_job" "job_status sample_running_job = JobRunning"
    by (simp_all add: get_job_by_id_def get_job_def get_row_def scoped_row_def sample_running_job_def)
  from job_result_answered [OF this, of "[(''summary'', JStr ''ok'')]"] show ?thesis by (simp only:) simp
qed

end
