(* ===== verification/System.thy ===== *)
theory System
  imports RowKeys Schemas
begin

text \<open>
  The whole program as a transition system: HTTP requests through the middleware and the routes, polls of
  the worker, application starts, the operations that scripts and tests call directly, and time. The
  invariants of the components hold in every state it can reach.
\<close>

section \<open>What every step does\<close>

text \<open>
  \<open>progress\<close> collects what the components show of their operations: history only moves forward, the
  send ledger stays balanced, verifications stay backed, and row keys are drawn once.
\<close>

definition progress :: "env \<Rightarrow> world \<Rightarrow> world \<Rightarrow> bool" where
  "progress E w v \<longleftrightarrow> forward E w v \<and> keeps ledger w v \<and> keeps verified_ok w v \<and> draws w v"

interpretation progress_evo: evolution "progress E" for E
  by unfold_locales (auto simp: progress_def keeps_evo.evo_refl forward_evo.evo_refl draws_evo.evo_refl
      intro: forward_evo.evo_trans keeps_evo.evo_trans draws_trans)

lemmas [evo] = progress_evo.evo_ret progress_evo.evo_raise progress_evo.evo_gets progress_evo.evo_lift
  progress_evo.evo_bind progress_evo.evo_catch progress_evo.evo_foreach

lemma progressI:
  "evolves (forward E) m \<Longrightarrow> evolves (keeps ledger) m \<Longrightarrow> evolves (keeps verified_ok) m \<Longrightarrow> evolves draws m \<Longrightarrow>
   evolves (progress E) m"
  by (simp add: evolves_def progress_def)

lemma only_verified_ok:
  assumes "only S w v" and "TVerifications \<notin> S"
  shows "keeps verified_ok w v"
proof -
  have "same TVerifications w v" "uuids w \<le> uuids v"
    using assms by (auto dest: onlyD simp: only_def simp del: same.simps)
  then show ?thesis by (auto simp: keeps_def verified_ok_def intro: drawn_mono)
qed

lemma evolves_only_verified_ok: "evolves (only S) m \<Longrightarrow> TVerifications \<notin> S \<Longrightarrow> evolves (keeps verified_ok) m"
  by (auto simp: evolves_def intro: only_verified_ok)

lemma ver_step_keeps: "(\<And>w. ver_step w (after m w)) \<Longrightarrow> evolves (keeps verified_ok) m"
  by (auto simp: evolves_def keeps_def dest: ver_step_table(1))

abbreviation plain :: "table set" where
  "plain \<equiv> - {TApprovals, TSent, TVerifications}"

lemma plain_progress:
  "evolves (forward E) m \<Longrightarrow> evolves (only plain) m \<Longrightarrow> evolves draws m \<Longrightarrow> evolves (progress E) m"
  by (rule progressI, assumption) (auto intro: evolves_only_ledger evolves_only_verified_ok)

text \<open>Operations that write neither approvals nor verifications, and send nothing.\<close>

lemma plain_operations [evo]:
  "evolves (progress E) (create_job ty pl t ik)" "evolves (progress E) (retry_failed_job jid t)"
  "evolves (progress E) (enqueue_email_send_job E row)"
  "evolves (progress E) (persist_packet E t p g)" "evolves (progress E) (revoke_packet E q r g)"
  "evolves (progress E) (record_download E q fmt t g)"
  "evolves (progress E) (create_version E t nm v rls g cr)" "evolves (progress E) (activate E vid g t)"
  "evolves (progress E) (rollback_to E vid g cr t)" "evolves (progress E) (create_override E oargs)"
  "evolves (progress E) (score_action E k t b)" "evolves (progress E) (score_workflow E k t b)"
  "evolves (progress E) (score_tenant E tid b)"
  by (rule plain_progress, (intro evo; simp?), (intro evo; simp?), (intro evo; simp?))+

text \<open>Operations that only read, or only stamp a key.\<close>

lemma dependencies_progress [evo]:
  "evolves (progress E) (get_current_tenant_id F k)" "evolves (progress E) (require_permission F p k)"
  by (rule plain_progress, rule evolves_only_forward [of "{TApiKeys}"], (intro evo; simp?), simp, simp, simp, (intro evo; simp?), intro evo)+

lemma thread_summary_progress [evo]: "evolves (progress E) (get_thread_summary t x)"
  unfolding get_thread_summary_def by (intro evo)

text \<open>Decisions on approvals.\<close>

lemma decisions_progress [evo]:
  "evolves (progress E) (approve E aid actor note t)" "evolves (progress E) (reject E aid actor reason t)"
  "''gmail_message_id'' \<notin> fst ` set p \<Longrightarrow> evolves (progress E) (create_request E kind t jid p)"
proof -
  have ver: "evolves (keeps verified_ok) m" if "evolves (only {TApprovals, TAudit}) m" for m :: "approval svc"
    using that by (rule evolves_only_verified_ok) simp
  show "evolves (progress E) (approve E aid actor note t)" "evolves (progress E) (reject E aid actor reason t)"
    by (rule progressI, rule evo, rule evo, rule ver, (intro evo; simp), rule evo)+
  show "evolves (progress E) (create_request E kind t jid p)" if "''gmail_message_id'' \<notin> fst ` set p"
    by (rule progressI, rule evo, rule create_request_ledger [OF that], rule ver, (intro evo; simp), rule evo)
qed

text \<open>A review: its own rows, its trail, and a request for approval.\<close>

lemma review_parts_progress [evo]:
  "evolves (progress E) (create_governed_action aa)" "evolves (progress E) (create_risk_assessment t rl k k' s m)"
  "evolves (progress E) (record_evidence_artifact t at k u m)" "evolves (progress E) (record_review_step E ac rid t actor m)"
  "(\<And>r. ga_pk (f r) = ga_pk r) \<Longrightarrow> evolves (progress E) (update_row governed_actions_update ga_pk rid f)"
  by (rule plain_progress, (intro evo; simp?), (intro evo; simp?), (intro evo update_draws; simp?))+

lemma submit_progress [evo]: "evolves (progress E) (submit_vendor_governance_review E i)"
  unfolding submit_vendor_governance_review_def review_trail_def review_gate_def by (intro evo; simp?)

text \<open>Verifications.\<close>

lemma verification_ops_progress [evo]:
  "evolves (progress E) (request_verification E t sid rb sty m)" "evolves (progress E) (review_verification E k t rb n)"
  "evolves (progress E) (approve_verification E k t ab)" "evolves (progress E) (revoke_verification E k t rb reason)"
proof -
  have led: "evolves (keeps ledger) m" if "evolves (only {TVerifications, TAudit, TScores}) m" for m :: "'a svc"
    using that by (rule evolves_only_ledger) simp_all
  show "evolves (progress E) (request_verification E t sid rb sty m)" "evolves (progress E) (review_verification E k t rb n)"
    "evolves (progress E) (approve_verification E k t ab)" "evolves (progress E) (revoke_verification E k t rb reason)"
    by (rule progressI, rule evo, rule led, (intro evo; simp), rule ver_step_keeps, rule verification_steps, rule evo)+
qed

text \<open>Application start.\<close>

lemma startup_progress [evo]: "evolves (progress E) startup"
proof (rule plain_progress)
  have "evolves (only {TPermissions, TRoles, TRolePermissions, TFrameworks, TControls, TRegulations, TRequirements, TPacks, TPolicies}) startup"
    unfolding startup_def by (intro evo; simp)
  then show "evolves (forward E) startup" "evolves (only plain) startup"
    by (rule evolves_only_forward, simp_all) (erule only_weaken, auto)
  show "evolves draws startup" by (rule startup_draws)
qed

section \<open>Requests\<close>

lemmas route_parts = with_permission_def with_tenant_def valid_input_def found_or_def value_error_def answers_def

lemma handle_inspection_progress: "evolves (progress E) (handle_inspection E key r)"
  by (cases r) (simp_all only: handle_inspection.simps route_list_jobs_def route_retry_job_def route_get_job_def
      route_list_approvals_def route_get_approval_def route_approve_def route_reject_def route_list_audit_def
      route_verify_audit_chain_def route_list_deliveries_def route_delivery_by_approval_def route_delivery_by_job_def
      route_thread_summary_def route_parts, (intro evo)+)

lemma handle_evidence_progress: "evolves (progress E) (handle_evidence E key r)"
  by (cases r) (simp_all only: handle_evidence.simps route_list_frameworks_def route_list_framework_controls_def
      route_list_regulations_def route_list_ai_systems_def route_list_actions_def route_action_graph_def
      route_action_packet_def route_workflow_packet_def route_export_packet_def route_persist_action_packet_def
      route_list_stored_packets_def route_get_stored_packet_def route_verify_packet_def route_revoke_packet_def
      route_download_stored_packet_def route_incident_replay_def route_parts, (intro evo)+)

lemma handle_governance_progress: "evolves (progress E) (handle_governance E key r)"
  by (cases r) (simp_all only: handle_governance.simps route_list_policies_def route_create_policy_def route_get_policy_def
      route_activate_policy_def route_rollback_policy_def route_submit_review_def route_list_runs_def route_get_run_def
      route_override_run_def route_parts, (intro evo)+)

lemma handle_trust_progress: "evolves (progress E) (handle_trust E key r)"
  by (cases r) (simp_all only: handle_trust.simps route_action_score_def route_workflow_score_def route_tenant_score_def
      route_compute_action_score_def route_compute_workflow_score_def route_compute_tenant_score_def
      route_request_verification_def route_review_verification_def route_approve_verification_def
      route_revoke_verification_def route_parts, (intro evo)+)

lemma dispatch_progress [evo]: "evolves (progress E) (dispatch E oh key req)"
proof -
  have "evolves (progress E) (handle E key req)"
    by (cases req) (simp_all add: handle_inspection_progress handle_evidence_progress handle_governance_progress
        handle_trust_progress answers_def, simp only: route_chat_def route_parts, intro evo)
  then show ?thesis unfolding dispatch_def by (intro evo)
qed

section \<open>The transition system\<close>

text \<open>Operations of the services that no route calls: scripts and tests call them.\<close>

datatype admin_op =
    ProvisionKey string string string "string option"
  | ProvisionUser string string "string option"
  | AssignRole string string "string option"
  | NewAiSystem "string option" string "string option" "string option"
  | NewDataSource "string option" string string dict
  | NewWorkflow "string option" string "string option" "string option"
  | NewAction action_args
  | NewRiskAssessment "string option" string "string option" "string option" "string option" dict
  | NewArtifact "string option" string "string option" "string option" dict
  | NewMapping "string option" string string "string option" "string option"

primrec admin :: "env \<Rightarrow> admin_op \<Rightarrow> unit svc" where
  "admin E (ProvisionKey t n k u) = answers (provision_api_key E t n k u)"
| "admin E (ProvisionUser t e n) = answers (provision_user t e n)"
| "admin E (AssignRole u r t) = answers (assign_role u r t)"
| "admin E (NewAiSystem t n d ow) = answers (create_ai_system t n d ow)"
| "admin E (NewDataSource t n st m) = answers (create_data_source t n st m)"
| "admin E (NewWorkflow t n k d) = answers (create_workflow t n k d)"
| "admin E (NewAction a) = answers (create_governed_action a)"
| "admin E (NewRiskAssessment t l k wk s m) = answers (create_risk_assessment t l k wk s m)"
| "admin E (NewArtifact t ty k u m) = answers (record_evidence_artifact t ty k u m)"
| "admin E (NewMapping t k c r ra) = answers (create_action_control_mapping t k c r ra)"

lemma admin_operations [evo]:
  "evolves (progress E) (provision_api_key F t n' k u)" "evolves (progress E) (provision_user t e n)"
  "evolves (progress E) (assign_role k n' u)" "evolves (progress E) (create_ai_system u n' d ow)"
  "evolves (progress E) (create_data_source u n' st m)" "evolves (progress E) (create_workflow u n' ow d)"
  "evolves (progress E) (create_action_control_mapping u k n' d ow)"
  by (rule plain_progress,
      rule evolves_only_forward [of "{TApiKeys, TUsers, TUserRoles, TAiSystems, TDataSources, TWorkflows, TActionControls}"],
      (intro evo; simp), simp, simp, simp, (intro evo; simp), intro evo)+

lemma admin_progress [evo]: "evolves (progress E) (admin E op)"
  by (cases op) (simp_all only: admin.simps answers_def, (intro evo)+)

datatype label =
    Request "string option" "string option" request
  | Poll
  | Start
  | Admin admin_op
  | Tick time

inductive step :: "env \<Rightarrow> world \<Rightarrow> label \<Rightarrow> world \<Rightarrow> bool" for E where
  request: "step E w (Request key oh req) (after (dispatch E oh key req) w)"
| poll: "step E w Poll (after (poll_once E) w)"
| start: "step E w Start (after startup w)"
| admin: "step E w (Admin op) (after (admin E op) w)"
| tick: "clock w \<le> now \<Longrightarrow> step E w (Tick now) (w\<lparr>clock := now\<rparr>)"

inductive run :: "env \<Rightarrow> world \<Rightarrow> label list \<Rightarrow> world \<Rightarrow> bool" for E where
  run_Nil: "run E w [] w"
| run_Cons: "step E w l u \<Longrightarrow> run E u ls v \<Longrightarrow> run E w (l # ls) v"

inductive_cases stepE: "step E w l v"
inductive_simps run_simps: "run E w [] v" "run E w (l # ls) v"

lemma run_append: "run E w (ls @ ms) v \<longleftrightarrow> (\<exists>u. run E w ls u \<and> run E u ms v)"
  by (induction ls arbitrary: w) (auto simp: run_simps)

section \<open>Invariants of a run\<close>

text \<open>Time may pass at any moment: it touches no table.\<close>

lemma tick_progress: "progress E w (w\<lparr>clock := now\<rparr>)"
proof -
  have "forward E w (w\<lparr>clock := now\<rparr>)"
    by (auto simp: forward_def good_def drawn_def keys_unique_def appr_order.le_refl job_order.le_refl)
  moreover have "keeps ledger w (w\<lparr>clock := now\<rparr>)" "keeps verified_ok w (w\<lparr>clock := now\<rparr>)"
    by (simp_all add: keeps_def ledger_def verified_ok_def drawn_def)
  moreover have "draws w (w\<lparr>clock := now\<rparr>)" by (rule draws_same) (simp_all add: row_keys_def)
  ultimately show ?thesis by (simp add: progress_def)
qed

lemma poll_verified: "evolves (keeps verified_ok) (poll_once E)"
  by (rule evolves_only_verified_ok [OF poll_once_evo(1)]) (simp add: worker_tables_def)

text \<open>Every step moves the history forward and keeps verifications backed; with a provider that answers
  with message ids it also keeps the ledger.\<close>

lemma step_forward:
  assumes "step E w l v"
  shows "forward E w v \<and> keeps verified_ok w v \<and> draws w v"
  using assms
proof cases
  case poll
  then show ?thesis using evolvesD [OF poll_once_evo(2)] evolvesD [OF poll_verified] evolvesD [OF poll_draws] by simp
next
  case (request key oh req)
  then show ?thesis using evolvesD [OF dispatch_progress] by (simp add: progress_def)
next
  case start
  then show ?thesis using evolvesD [OF startup_progress] by (simp add: progress_def)
next
  case (admin op)
  then show ?thesis using evolvesD [OF admin_progress] by (simp add: progress_def)
next
  case (tick now)
  then show ?thesis using tick_progress by (simp add: progress_def)
qed

lemma step_ledger:
  assumes "send_answers_id E" and "step E w l v"
  shows "keeps ledger w v"
  using assms(2)
proof cases
  case poll
  then show ?thesis using evolvesD [OF poll_once_ledger [OF assms(1)]] by simp
next
  case (request key oh req)
  then show ?thesis using evolvesD [OF dispatch_progress] by (simp add: progress_def)
next
  case start
  then show ?thesis using evolvesD [OF startup_progress] by (simp add: progress_def)
next
  case (admin op)
  then show ?thesis using evolvesD [OF admin_progress] by (simp add: progress_def)
next
  case (tick now)
  then show ?thesis using tick_progress by (simp add: progress_def)
qed

lemma run_forward: "run E w ls v \<Longrightarrow> forward E w v \<and> keeps verified_ok w v \<and> draws w v"
  by (induction rule: run.induct)
    (auto simp: forward_evo.evo_refl keeps_evo.evo_refl draws_evo.evo_refl dest!: step_forward
      intro: forward_evo.evo_trans keeps_evo.evo_trans draws_trans)

lemma run_ledger: "run E w ls v \<Longrightarrow> send_answers_id E \<Longrightarrow> keeps ledger w v"
  by (induction rule: run.induct) (auto simp: keeps_evo.evo_refl dest!: step_ledger intro: keeps_evo.evo_trans)

lemma empty_world_good: "good E empty_world" "ledger empty_world" "verified_ok empty_world" "unique_keys empty_world"
  by (simp_all add: good_def ledger_def verified_ok_def drawn_def keys_unique_def empty_world_def chain_ok_def
      unique_keys_def row_keys_def)

lemma reached_good: "run E empty_world ls v \<Longrightarrow> good E v \<and> verified_ok v \<and> unique_keys v"
  using run_forward [of E empty_world ls v] empty_world_good draws_unique [of empty_world v]
  by (simp add: forward_def keeps_def)

text \<open>A run that answers one chat message.\<close>

definition chat_request :: label where
  "chat_request = Request None None (Chat ''s'' ''hi'' 4)"

lemma run_single: "\<exists>v. run E w [Request k oh r] v"
  by (auto simp: run_simps intro: step.intros)

section \<open>What a denied request can do\<close>

lemma require_permission_silent: "after (require_permission E perm key) w = w"
  by (simp add: require_permission_run get_principal_run split: prod.split sum.split list.split if_split)

lemma denied_bind:
  "result (require_permission E perm key) w = Inl e \<Longrightarrow> bindM (require_permission E perm key) f w = (Inl e, w)"
  using require_permission_silent [of E perm key w]
  by (cases "require_permission E perm key w") (simp add: bindM_def)


lemma denied_handle:
  assumes "required_permission req = Some perm" and "result (require_permission E perm key) w = Inl e"
  shows "handle E key req w = (Inl e, w)"
proof (cases req)
  case (InspectionReq r)
  then show ?thesis using assms
    by (cases r) (simp_all add: route_list_jobs_def route_retry_job_def route_get_job_def
      route_approve_def route_reject_def route_list_audit_def
      route_verify_audit_chain_def with_permission_def answers_def bindM_assoc denied_bind)
next
  case (EvidenceReq r)
  then show ?thesis using assms
    by (cases r) (simp_all add: route_list_ai_systems_def route_list_actions_def route_action_graph_def
      route_action_packet_def route_workflow_packet_def route_export_packet_def route_persist_action_packet_def
      route_list_stored_packets_def route_get_stored_packet_def route_verify_packet_def route_revoke_packet_def
      route_download_stored_packet_def route_incident_replay_def with_permission_def answers_def bindM_assoc denied_bind)
next
  case (GovernanceReq r)
  then show ?thesis using assms
    by (cases r) (simp_all add: route_list_policies_def route_create_policy_def route_get_policy_def
      route_activate_policy_def route_rollback_policy_def route_submit_review_def route_list_runs_def route_get_run_def
      route_override_run_def with_permission_def answers_def bindM_assoc denied_bind)
next
  case (TrustReq r)
  then show ?thesis using assms
    by (cases r) (simp_all add: route_action_score_def route_workflow_score_def route_tenant_score_def
      route_compute_action_score_def route_compute_workflow_score_def route_compute_tenant_score_def
      route_request_verification_def route_review_verification_def route_approve_verification_def
      route_revoke_verification_def with_permission_def answers_def bindM_assoc denied_bind)
next
  case (Chat a b c)
  then show ?thesis using assms by simp
qed

text \<open>The routes with no permission: a read, or a queued chat job, and the stamp on the key that was used.\<close>

lemma open_handle:
  assumes "required_permission req = None"
  shows "evolves (only {TJobs, TApiKeys}) (handle E key req)"
proof (cases req)
  case (InspectionReq r)
  then show ?thesis using assms
    by (cases r) (simp_all only: handle.simps handle_inspection.simps required_permission.simps inspection_permission.simps
      route_list_jobs_def route_get_job_def route_list_approvals_def route_get_approval_def route_list_deliveries_def
      route_delivery_by_approval_def route_delivery_by_job_def route_thread_summary_def get_thread_summary_def
      route_parts option.distinct, (intro evo; simp)+)
next
  case (EvidenceReq r)
  then show ?thesis using assms
    by (cases r) (simp_all only: handle.simps handle_evidence.simps required_permission.simps evidence_permission.simps
      route_list_frameworks_def route_list_framework_controls_def route_list_regulations_def
      route_parts option.distinct, (intro evo; simp)+)
next
  case (GovernanceReq r)
  then show ?thesis using assms by (cases r) simp_all
next
  case (TrustReq r)
  then show ?thesis using assms by (cases r) simp_all
next
  case (Chat a b c)
  then show ?thesis by (simp only: handle.simps route_chat_def route_parts) (intro evo; simp)
qed

section \<open>Properties\<close>

text \<open>C5: history is permanent. Take any run of the system from an empty database, whoever sends the
  requests and however they end, and any continuation of it: the audit trail then is a prefix of the
  trail later, the later trail verifies, and every approval is still there with its tenant and kind, with
  the status and decision time it had if it was decided.\<close>

theorem history_is_permanent:
  assumes "run E empty_world ls u" and "run E u ms v"
  shows "prefix (audit_events u) (audit_events v)
    \<and> chain_result_ok (verify_chain E (audit_events v))
    \<and> list_all (\<lambda>a. list_ex (\<lambda>b. appr_pk b = appr_pk a \<and> appr_tenant b = appr_tenant a \<and> appr_kind b = appr_kind a
          \<and> (appr_status a = ApprovalPending
             \<or> appr_status b = appr_status a \<and> appr_decided_at b = appr_decided_at a)) (approvals v)) (approvals u)"
proof -
  have "good E u" using reached_good [OF assms(1)] by simp
  then have later: "good E v" "prefix (audit_events u) (audit_events v)" "table_le appr_le (approvals u) (approvals v)"
    using run_forward [OF assms(2)] by (simp_all add: forward_def)
  have "chain_result_ok (verify_chain E (audit_events v))"
    using chain_ok_verified [OF goodD(1) [OF later(1)]]
    by (simp add: chain_result_ok_def chain_empty_def chain_verified_def)
  moreover have "\<exists>b \<in> set (approvals v). appr_le a b" if "a \<in> set (approvals u)" for a
    using appr_order.le_in [OF later(3) that] .
  ultimately show ?thesis
    using later(2) by (simp add: list_all_iff list_ex_iff appr_le_def) blast
qed

theorem history_is_permanent_witness:
  "\<exists>u v. run sample_env empty_world [chat_request] u \<and> run sample_env u [Poll] v
     \<and> prefix (audit_events u) (audit_events v) \<and> chain_result_ok (verify_chain sample_env (audit_events v))"
proof -
  obtain u where u: "run sample_env empty_world [chat_request] u"
    using run_single unfolding chat_request_def by blast
  have v: "run sample_env u [Poll] (after (poll_once sample_env) u)"
    by (simp add: run_simps step.poll)
  from history_is_permanent [OF u v] u v show ?thesis by blast
qed



text \<open>C32: procurement verifications can be trusted. In every state the system reaches, each verification
  is in a state of the lifecycle, and each one that is or ever was approved carries a trust score that
  reaches the minimum its request asked for.\<close>

theorem verifications_backed:
  assumes "run E empty_world ls v"
  shows "list_all (\<lambda>r. case stage_of r of None \<Rightarrow> False
      | Some s \<Rightarrow> s \<in> {Requested, UnderReview, Rejected}
           \<or> (case ver_trust_score r of None \<Rightarrow> False | Some n \<Rightarrow> ver_min_score r \<le> n)) (verifications v)"
proof -
  have "list_all backed (verifications v)" using reached_good [OF assms] by (simp add: verified_ok_def)
  then show ?thesis
    unfolding backed_def
  proof (rule list.pred_mono_strong)
    fix r assume "case stage_of r of None \<Rightarrow> False
      | Some s \<Rightarrow> s \<notin> {Approved, Revoked} \<or> (case ver_trust_score r of None \<Rightarrow> False | Some n \<Rightarrow> ver_min_score r \<le> n)"
    then show "case stage_of r of None \<Rightarrow> False
      | Some s \<Rightarrow> s \<in> {Requested, UnderReview, Rejected}
           \<or> (case ver_trust_score r of None \<Rightarrow> False | Some n \<Rightarrow> ver_min_score r \<le> n)"
      by (cases "stage_of r") (simp, cases "the (stage_of r)", simp_all)
  qed
qed

theorem verifications_backed_witness:
  "\<exists>v. run sample_env empty_world [chat_request, Poll] v \<and> list_all (\<lambda>r. (stage_of r = None) = False) (verifications v)"
proof -
  obtain u where u: "run sample_env empty_world [chat_request] u"
    using run_single unfolding chat_request_def by blast
  then have v: "run sample_env empty_world [chat_request, Poll] (after (poll_once sample_env) u)"
    by (auto simp: run_simps intro: step.poll)
  have "list_all (\<lambda>r. (stage_of r = None) = False) (verifications (after (poll_once sample_env) u))"
    using verifications_backed [OF v] by (rule list.pred_mono_strong) (auto split: option.splits)
  with v show ?thesis by blast
qed


text \<open>The approvals are readable with no key in every mode. The route that lists approvals, for a
  caller with no key, answers the approvals of all tenants, whatever \<open>app_env\<close> and the RBAC switch say:
  the demo bypass rule of the permission dependency does not reach the routes that only resolve a tenant.\<close>

theorem unscoped_reads:
  "route_list_approvals E None status limit w =
     (if 1 \<le> limit \<and> limit \<le> 200 then Inr (list_approvals status None limit w)
      else Inl (HTTPException 422 ''request_validation''), w)"
  by (simp add: route_list_approvals_def with_tenant_def get_current_tenant_id_def resolve_tenant_id_def
      no_key_def catch_def ret_def bindM_def valid_input_def gets_def raise_def)

text \<open>C2: a tenant cannot touch another. In every state the system reaches, whatever a caller whose key
  belongs to tenant \<open>t\<close> requests, with whatever arguments, the world without the rows of \<open>t\<close> is the same
  before and after: no row of another tenant or of no tenant is changed, added or removed in any table,
  no shared row (roles, permissions, catalog), no message is sent, and every audit event that is added
  carries the tenant. Only the supply of keys moves.\<close>

theorem tenant_confined:
  assumes "run E empty_world ls w" and "keyed_by E key t w"
  shows "world_of_others t (after (dispatch E oh (Some key) req) w) = world_of_others t w"
  using reached_good [OF assms(1)] unique_keys_mine dispatch_others assms(2) by blast

theorem tenant_confined_witness:
  "\<exists>w. run sample_env empty_world [Admin (ProvisionKey ''t1'' ''main'' ''k'' None)] w
     \<and> keyed_by sample_env ''k'' ''t1'' w
     \<and> world_of_others ''t1'' (after (dispatch sample_env None (Some ''k'') (Chat ''s'' ''hi'' 4)) w) = world_of_others ''t1'' w"
proof -
  let ?w = "after (admin sample_env (ProvisionKey ''t1'' ''main'' ''k'' None)) empty_world"
  have run: "run sample_env empty_world [Admin (ProvisionKey ''t1'' ''main'' ''k'' None)] ?w"
    unfolding run_simps using step.admin by blast
  have "api_keys ?w = [\<lparr>key_pk = uuid 0, key_tenant = Some ''t1'', key_user = None, key_name = ''main'',
      key_hash = hash_api_key sample_env ''k'', key_is_active = True, key_created_at = 0, key_last_used_at = None\<rparr>]"
    by (simp add: answers_def provision_api_key_def bindM_def new_id_def insert_unique_def ret_def gets_def empty_world_def Let_def)
  then have key: "keyed_by sample_env ''k'' ''t1'' ?w" by (simp add: keyed_by_def active_keys_def)
  from tenant_confined [OF run key] run key show ?thesis by blast
qed

lemma route_list_audit_rows:
  assumes "route_list_audit E key resource_type resource_id limit w = (Inr rows, v)"
  shows "set rows \<subseteq> set (audit_events w)"
proof -
  have "same TAudit w (after (require_permission E P_VIEW_AUDIT key) w)"
    by (rule evolves_onlyD [of "{TApiKeys}"]) ((intro evo; simp), simp)
  moreover have "set (list_audit_events resource_type resource_id t limit es) \<subseteq> set es" for t es
    using set_sql_limit [of "min limit 500" "order_desc ae_created_at (filter (\<lambda>e. in_tenant ae_tenant t e
        \<and> opt_filter ae_resource_type resource_type e \<and> opt_filter ae_resource_id resource_id e) es)"]
    by (auto simp: list_audit_events_def)
  ultimately show ?thesis
    using assms by (cases "require_permission E P_VIEW_AUDIT key w")
      (fastforce simp: route_list_audit_def with_permission_def bindM_def valid_input_def gets_def raise_def
        split: sum.splits if_splits)
qed

text \<open>C20: every audit event can be read. In every state the system reaches, the audit route answers one entry for
  each row its query selects: no stored metadata fails to decode, whoever wrote it, so the only errors
  are those of the key, the permission and the query.\<close>

theorem audit_always_readable:
  assumes "run E empty_world ls w"
  shows "result (answer_list_audit E key resource_type resource_id limit) w
     = map_sum id (map audit_answer) (result (route_list_audit E key resource_type resource_id limit) w)"
proof -
  have written: "metadata_written (audit_events w)" using reached_good [OF assms] goodD by blast
  obtain r v where rv: "route_list_audit E key resource_type resource_id limit w = (r, v)" by fastforce
  show ?thesis
  proof (cases r)
    case (Inr rows)
    have "set rows \<subseteq> set (audit_events w)" using rv Inr by (simp add: route_list_audit_rows)
    then have "metadata_written rows" using written by (auto simp: metadata_written_def list_all_iff)
    then show ?thesis using rv Inr by (simp add: answer_list_audit_def bindM_def lift_def audit_list_written)
  qed (use rv in \<open>simp add: answer_list_audit_def bindM_def\<close>)
qed

theorem audit_always_readable_witness:
  "\<exists>v. run sample_env empty_world [chat_request, Poll] v
     \<and> result (answer_list_audit sample_env None None None 10) v
       = map_sum id (map audit_answer) (result (route_list_audit sample_env None None None 10) v)"
proof -
  obtain u where "run sample_env empty_world [chat_request] u"
    using run_single unfolding chat_request_def by blast
  then have v: "run sample_env empty_world [chat_request, Poll] (after (poll_once sample_env) u)"
    by (auto simp: run_simps intro: step.poll)
  from audit_always_readable [OF v] v show ?thesis by blast
qed

end
