(* ===== verification/SeedPilot.thy ===== *)
theory SeedPilot
  imports System
begin

text \<open>
  scripts/seed_pilot.py: the pilot tenant with a user and an API key for each of four roles, and a sample
  governance review, on top of the reference rows (roles, permissions, catalog) every start seeds. The
  script is composed of the service operations and runs on any database the system reaches.
\<close>

section \<open>Reference rows\<close>

text \<open>
  \<open>reference\<close>: the rows that only the seeders write have single natural keys, the role matrix is the
  program's, frameworks are of the current version, and user keys are drawn once. Every state the
  system reaches has them in order.
\<close>

definition current :: "world \<Rightarrow> bool" where
  "current w \<longleftrightarrow> list_all (\<lambda>f. fw_version f = FRAMEWORK_VERSION) (frameworks w)"

definition reference :: "world \<Rightarrow> bool" where
  "reference w \<longleftrightarrow> singles w \<and> rbac_ok w \<and> drawn users user_pk w \<and> current w"

abbreviation reference_tables :: "table set" where
  "reference_tables \<equiv> {TRoles, TPermissions, TRolePermissions, TFrameworks, TControls, TRegulations, TRequirements, TPacks}"

lemma only_stocked:
  assumes "only S w v" and "S \<inter> reference_tables = {}"
  shows "stocked w v" and "singles w \<Longrightarrow> singles v" and "rbac_ok w \<Longrightarrow> rbac_ok v"
    and "current w \<Longrightarrow> current v"
proof -
  have same: "same TRoles w v" "same TPermissions w v" "same TRolePermissions w v" "same TFrameworks w v"
    "same TControls w v" "same TRegulations w v" "same TRequirements w v" "same TPacks w v"
    using assms by (auto intro!: onlyD [OF assms(1)] simp del: same.simps)
  have ids: "uuids w \<le> uuids v" using assms(1) by (simp add: only_def)
  show "stocked w v" "singles w \<Longrightarrow> singles v" "current w \<Longrightarrow> current v"
    using same by (simp_all add: stocked_def singles_def current_def)
  show "rbac_ok v" if "rbac_ok w"
    using that same ids by (auto simp: rbac_ok_def intro: drawn_mono in_matrix_mono)
qed

lemma only_reference:
  assumes "only S w v" and "S \<inter> reference_tables = {}" and "TUsers \<notin> S"
  shows "keeps reference w v"
proof -
  have "same TUsers w v" "uuids w \<le> uuids v" using assms(1,3) by (auto dest: onlyD simp: only_def simp del: same.simps)
  then show ?thesis
    using only_stocked(2,3,4) [OF assms(1,2)] by (auto simp: keeps_def reference_def intro: drawn_mono)
qed

lemma evolves_only_reference:
  "evolves (only S) m \<Longrightarrow> S \<inter> reference_tables = {} \<Longrightarrow> TUsers \<notin> S \<Longrightarrow> evolves (keeps reference) m"
  by (auto simp: evolves_def intro: only_reference)

lemma reference_empty: "reference empty_world"
  by (simp add: reference_def drawn_def empty_world_def singles_def single_def rbac_ok_def
      current_def)

text \<open>No request writes them.\<close>

abbreviation served_tables :: "table set" where
  "served_tables \<equiv> - (insert TUsers (insert TWorkflows (insert TAiSystems reference_tables)))"

lemma inspection_only: "evolves (only served_tables) (handle_inspection E key r)"
  by (cases r) (simp_all only: handle_inspection.simps route_list_jobs_def route_retry_job_def route_get_job_def
      route_list_approvals_def route_get_approval_def route_approve_def route_reject_def route_list_audit_def
      route_verify_audit_chain_def route_list_deliveries_def route_delivery_by_approval_def route_delivery_by_job_def
      route_thread_summary_def get_thread_summary_def route_parts, (intro evo; simp)+)

lemma evidence_only: "evolves (only served_tables) (handle_evidence E key r)"
  by (cases r) (simp_all only: handle_evidence.simps route_list_frameworks_def route_list_framework_controls_def
      route_list_regulations_def route_list_ai_systems_def route_list_actions_def route_action_graph_def
      route_action_packet_def route_workflow_packet_def route_export_packet_def route_persist_action_packet_def
      route_list_stored_packets_def route_get_stored_packet_def route_verify_packet_def route_revoke_packet_def
      route_download_stored_packet_def route_incident_replay_def route_parts, (intro evo; simp)+)

lemma governance_only: "evolves (only served_tables) (handle_governance E key r)"
  by (cases r) (simp_all only: handle_governance.simps route_list_policies_def route_create_policy_def route_get_policy_def
      route_activate_policy_def route_rollback_policy_def route_submit_review_def route_list_runs_def route_get_run_def
      route_override_run_def route_parts, (intro evo; simp)+)

lemma trust_only: "evolves (only served_tables) (handle_trust E key r)"
  by (cases r) (simp_all only: handle_trust.simps route_action_score_def route_workflow_score_def route_tenant_score_def
      route_compute_action_score_def route_compute_workflow_score_def route_compute_tenant_score_def
      route_request_verification_def route_review_verification_def route_approve_verification_def
      route_revoke_verification_def route_parts, (intro evo; simp)+)

lemma dispatch_served: "evolves (only served_tables) (dispatch E oh key req)"
proof -
  have "evolves (only served_tables) (handle E key req)"
  proof (cases req)
    case (Chat a b c)
    then show ?thesis by (simp only: handle.simps route_chat_def route_parts) (intro evo; simp)
  qed (simp_all add: inspection_only evidence_only governance_only trust_only)
  then show ?thesis unfolding dispatch_def by (intro evo)
qed

lemma dispatch_reference: "evolves (keeps reference) (dispatch E oh key req)"
  by (rule evolves_only_reference [OF dispatch_served]) auto

lemma poll_reference: "evolves (keeps reference) (poll_once E)"
  by (rule evolves_only_reference [OF poll_once_evo(1)]) (auto simp: worker_tables_def)

text \<open>A new user gets a key of its own; the other administrative steps write neither table.\<close>

interpretation users_tbl: world_table users users_update user_pk
  by unfold_locales simp_all

lemma provision_user_reference: "evolves (keeps reference) (provision_user t e n)"
proof (rule evolvesI)
  fix w :: world
  let ?r = "\<lparr>user_pk = uuid (uuids w), user_tenant = Some t, user_email = e, user_display_name = n,
     user_is_active = True, user_created_at = clock w\<rparr>"
  have "evolves (only {TUsers}) (provision_user t e n)" by (intro evo) simp
  then have "only {TUsers} w (after (provision_user t e n) w)" by (rule evolvesD)
  note frame = only_stocked [OF this, simplified]
  have "drawn users user_pk (after (provision_user t e n) w)" if d: "drawn users user_pk w"
  proof (cases "list_ex (\<lambda>r'. same_user r' ?r) (users w)")
    case True
    then have "users (after (provision_user t e n) w) = users w"
      by (simp add: provision_user_def comp new_id_def insert_unique_def Let_def)
    then show ?thesis using d evolvesD [OF \<open>evolves (only {TUsers}) _\<close>, of w] by (auto simp: only_def intro: drawn_mono)
  next
    case False
    then have "after (provision_user t e n) w = after (insert_row users_update ?r) (w\<lparr>uuids := Suc (uuids w)\<rparr>)"
      by (simp add: provision_user_def comp new_id_def insert_unique_def insert_row_def Let_def)
    then show ?thesis using users_tbl.drawn_insert [OF d, of ?r] by simp
  qed
  then show "keeps reference w (after (provision_user t e n) w)"
    using frame by (simp add: keeps_def reference_def)
qed

lemma admin_reference: "evolves (keeps reference) (admin E op)"
proof (cases op)
  case (ProvisionUser t e n)
  then show ?thesis
    by (simp only: admin.simps answers_def) (intro keeps_evo.evo_bind keeps_evo.evo_ret provision_user_reference)
qed (simp_all only: admin.simps answers_def,
     (rule evolves_only_reference [of "- (insert TUsers reference_tables)"], (intro evo; simp), simp, simp)+)

text \<open>The catalog adds frameworks of the current version only.\<close>

lemma keeps_atomic:
  assumes "evolves (keeps J) m" and "\<And>w n. J (w\<lparr>uuids := n\<rparr>) = J w"
  shows "evolves (keeps J) (atomic m)"
proof (rule evolvesI)
  fix w
  have "keeps J w (after m w)" using assms(1) by (rule evolvesD)
  then show "keeps J w (after (atomic m) w)"
    by (auto simp: atomic_def keeps_def assms(2) split: prod.split sum.split)
qed

lemma keeps_gather: "(\<And>x. evolves (keeps J) (f x)) \<Longrightarrow> evolves (keeps J) (gather xs f)"
  by (induction xs) (simp_all add: keeps_evo.evo_bind keeps_evo.evo_ret)

lemma only_current:
  assumes "evolves (only S) m" and "TFrameworks \<notin> S"
  shows "evolves (keeps current) m"
proof (rule evolvesI)
  fix w
  have "same TFrameworks w (after m w)" by (rule evolves_onlyD [OF assms])
  then show "keeps current w (after m w)" by (simp add: keeps_def current_def)
qed

lemma framework_current: "evolves (keeps current) (get_or_create_framework n)"
proof (rule evolvesI)
  fix w
  show "keeps current w (after (get_or_create_framework n) w)"
    by (auto simp: get_or_create_framework_def ensure_def comp scalar_one_or_none_def new_id_def insert_unique_def
        keeps_def current_def split: list.split)
qed

lemma catalog_current: "evolves (keeps current) seed_control_catalog"
  unfolding seed_control_catalog_def
proof (rule keeps_atomic)
  have entry: "evolves (keeps current) (seed_framework e)" for e
    unfolding seed_framework_def
    by (intro keeps_evo.evo_bind framework_current, rule only_current [of "{TControls}"], (intro evo; simp), simp)
  have rest: "evolves (keeps current) (foreach REGULATIONS seed_regulation)"
    "evolves (keeps current) (foreach SAMPLE_REQUIREMENTS (seed_requirement m))" "evolves (keeps current) (seed_pack m)" for m
    by (rule only_current [of "{TRegulations, TRequirements, TPacks}"], (intro evo; simp), simp)+
  show "evolves (keeps current) (bindM (gather FRAMEWORK_CONTROLS seed_framework) (\<lambda>entries.
      let controls_by_key = concat entries in
      bindM (foreach REGULATIONS seed_regulation) (\<lambda>_.
      bindM (foreach SAMPLE_REQUIREMENTS (seed_requirement controls_by_key)) (\<lambda>_.
      seed_pack controls_by_key))))"
    unfolding Let_def by (intro keeps_evo.evo_bind keeps_gather entry rest)
qed (simp add: current_def)

text \<open>The seeders succeed on rows in order, keep them so, and change nothing the second time.\<close>

lemma seeding_run:
  assumes "reference w"
  obtains v1 v where "seed_rbac w = (Inr (), v1)" "seed_control_catalog v1 = (Inr (), v)" "reference v"
    "only reference_tables w v"
    "\<And>u. stocked v u \<Longrightarrow> seed_rbac u = (Inr (), u) \<and> seed_control_catalog u = (Inr (), u)"
    "\<And>u :: world. stocked v u \<Longrightarrow> \<forall>entry \<in> set ROLE_PERMISSIONS. granted entry u"
    "\<And>u :: world. stocked v u \<Longrightarrow> catalog_there u"
proof -
  have w: "singles w" "rbac_ok w" "drawn users user_pk w" "current w" using assms by (simp_all add: reference_def)
  obtain v1 where v1: "seed_rbac w = (Inr (), v1)" "singles v1" "rbac_ok v1"
    and again1: "\<And>u. stocked v1 u \<Longrightarrow> seed_rbac u = (Inr (), u)"
    and matrix: "\<And>u :: world. stocked v1 u \<Longrightarrow> \<forall>entry \<in> set ROLE_PERMISSIONS. granted entry u"
    by (rule seedsE [OF seed_rbac_seeds w(1,2) TrueI]) (rule that; simp)
  obtain v where v: "seed_control_catalog v1 = (Inr (), v)" "singles v" "stocked v1 v"
    and again2: "\<And>u. stocked v u \<Longrightarrow> seed_control_catalog u = (Inr (), u)"
    and cat: "\<And>u :: world. stocked v u \<Longrightarrow> catalog_there u"
    by (rule seedsE [OF seed_catalog_seeds v1(2) TrueI TrueI]) (rule that; simp)
  have o1: "only {TPermissions, TRoles, TRolePermissions} w v1"
    using evolvesD [of "only {TPermissions, TRoles, TRolePermissions}" seed_rbac w] v1(1) by (simp add: seed_rbac_only)
  have o2: "only {TFrameworks, TControls, TRegulations, TRequirements, TPacks} v1 v"
    using evolvesD [of "only {TFrameworks, TControls, TRegulations, TRequirements, TPacks}" seed_control_catalog v1] v(1)
    by (simp add: catalog_evo)
  have o: "only reference_tables w v"
    by (rule only_evo.evo_trans [OF only_mono [OF _ o1] only_mono [OF _ o2]]) auto
  have "same TRoles v1 v" "same TPermissions v1 v" "same TRolePermissions v1 v" "uuids v1 \<le> uuids v"
    using o2 by (auto dest: onlyD simp: only_def simp del: same.simps)
  then have "rbac_ok v" using v1(3) by (auto simp: rbac_ok_def intro: drawn_mono in_matrix_mono)
  moreover have "same TUsers w v" "uuids w \<le> uuids v" using o by (auto dest: onlyD simp: only_def simp del: same.simps)
  then have "drawn users user_pk v" using w(3) by (auto intro: drawn_mono)
  moreover have "current v1" using o1 w(4) by (auto simp: current_def dest: onlyD)
  then have "current v" using evolvesD [OF catalog_current, of v1] v(1) by (simp add: keeps_def)
  ultimately have "reference v" using v(2) by (simp add: reference_def)
  then show thesis using that v1(1) v(1) o again1 again2 matrix cat stocked_trans [OF v(3)] by blast
qed

lemma startup_reference: "evolves (keeps reference) startup"
proof (rule evolvesI)
  fix w show "keeps reference w (after startup w)"
  proof (cases "reference w")
    case True
    then obtain v1 v where v: "seed_rbac w = (Inr (), v1)" "seed_control_catalog v1 = (Inr (), v)" "reference v"
      by (rule seeding_run)
    have "evolves (keeps reference) seed_default_policy"
      by (rule evolves_only_reference [of "{TPolicies}"], (intro evo; simp), simp_all)
    then have "reference (after seed_default_policy v)" using v(3) by (auto simp: evolves_def keeps_def)
    then show ?thesis using v(1,2)
      by (cases "seed_default_policy v") (auto simp: startup_def bindM_def keeps_def ret_def split: sum.split)
  qed (simp add: keeps_def)
qed

lemma tick_reference: "keeps reference w (w\<lparr>clock := now\<rparr>)"
  by (simp add: keeps_def reference_def singles_def rbac_ok_def drawn_def in_matrix_def current_def)

lemma step_reference: "step E w l v \<Longrightarrow> keeps reference w v"
  by (erule stepE) (simp_all add: tick_reference evolvesD [OF dispatch_reference] evolvesD [OF poll_reference]
      evolvesD [OF startup_reference] evolvesD [OF admin_reference])

lemma reached_reference: "run E empty_world ls v \<Longrightarrow> reference v"
proof -
  have "run E w ls v \<Longrightarrow> keeps reference w v" for w
    by (induction rule: run.induct) (auto simp: keeps_evo.evo_refl dest!: step_reference intro: keeps_evo.evo_trans)
  then show "run E empty_world ls v \<Longrightarrow> reference v" using reference_empty by (auto simp: keeps_def)
qed

section \<open>The script\<close>

definition DEMO_TENANT_ID :: string where "DEMO_TENANT_ID = ''pilot-tenant''"
definition DEMO_TENANT_NAME :: string where "DEMO_TENANT_NAME = ''CodexDominion Pilot Tenant''"

text \<open>Role, raw key and email of each pilot user.\<close>

definition ROLE_KEYS :: "(string \<times> string \<times> string) list" where
  "ROLE_KEYS =
     [(''Admin'', ''pilot-admin-key'', ''admin@pilot.test''),
      (''Operator'', ''pilot-operator-key'', ''operator@pilot.test''),
      (''Reviewer'', ''pilot-reviewer-key'', ''reviewer@pilot.test''),
      (''Auditor'', ''pilot-auditor-key'', ''auditor@pilot.test'')]"

text \<open>\<open>session.get(Tenant, id)\<close>, and the tenant added and committed when there is none.\<close>

definition ensure_tenant :: "string \<Rightarrow> string \<Rightarrow> unit svc" where
  "ensure_tenant tenant_id name =
     bindM (gets (get_tenant tenant_id)) (\<lambda>row.
     case row of
       Some _ \<Rightarrow> ret ()
     | None \<Rightarrow> bindM (gets clock) (\<lambda>now.
         insert_row tenants_update \<lparr>tenant_pk = tenant_id, tenant_name = name, tenant_created_at = now\<rparr>))"

record credential =
  cred_role :: string
  cred_email :: string
  cred_api_key :: string

definition pilot_users :: "string \<Rightarrow> world \<Rightarrow> user list" where
  "pilot_users email w = filter (\<lambda>u. user_tenant u = Some DEMO_TENANT_ID \<and> user_email u = email) (users w)"

definition keys_with :: "env \<Rightarrow> string \<Rightarrow> world \<Rightarrow> api_key list" where
  "keys_with E raw_key w = filter (\<lambda>k. key_hash k = hash_api_key E raw_key) (api_keys w)"

text \<open>The body of the loop over \<open>ROLE_KEYS\<close>: user, role and key, each only when it is missing.\<close>

definition seed_credential :: "env \<Rightarrow> string \<times> string \<times> string \<Rightarrow> credential svc" where
  "seed_credential E entry =
     (let (role_name, raw_key, email) = entry in
      bindM (gets (pilot_users email)) (\<lambda>us.
      bindM (lift (scalar_one_or_none us)) (\<lambda>existing_user.
      bindM (case existing_user of None \<Rightarrow> provision_user DEMO_TENANT_ID email None | Some u \<Rightarrow> ret u) (\<lambda>user.
      bindM (gets (\<lambda>w. filter (\<lambda>r. role_tenant r = None \<and> Model.role_name r = role_name) (roles w))) (\<lambda>rs.
      bindM (lift (scalar_one rs)) (\<lambda>role_row.
      bindM (gets (\<lambda>w. filter (\<lambda>l. ur_user l = user_pk user \<and> ur_role l = role_pk role_row) (user_roles w))) (\<lambda>ls.
      bindM (lift (scalar_one_or_none ls)) (\<lambda>has_role.
      bindM (if has_role = None then bindM (assign_role (user_pk user) role_name (Some DEMO_TENANT_ID)) (\<lambda>_. ret ())
             else ret ()) (\<lambda>_.
      bindM (gets (keys_with E raw_key)) (\<lambda>ks.
      bindM (lift (scalar_one_or_none ks)) (\<lambda>existing_key.
      bindM (if existing_key = None
             then bindM (provision_api_key E DEMO_TENANT_ID role_name raw_key (Some (user_pk user))) (\<lambda>_. ret ())
             else ret ()) (\<lambda>_.
      ret \<lparr>cred_role = role_name, cred_email = email, cred_api_key = raw_key\<rparr>))))))))))))"

definition sample_review :: intake where
  "sample_review = \<lparr>in_tenant_id = Some DEMO_TENANT_ID, in_actor = Some ''seed'', in_vendor_name = ''Acme Pharmacy AI'',
     in_system_type = ''documentation assistant'', in_intended_use = ''clinical note drafting'',
     in_data_sensitivity = Some ''phi'', in_external_exposure = True, in_autonomy_level = Some ''assisted''\<rparr>"

definition seed_sample_run :: "env \<Rightarrow> string svc" where
  "seed_sample_run E =
     bindM (gets (list_runs (Some DEMO_TENANT_ID))) (\<lambda>runs.
     case runs of
       r # _ \<Rightarrow> ret (row_governed_action_id r)
     | [] \<Rightarrow> bindM (submit_vendor_governance_review E sample_review) (\<lambda>r. ret (rv_governed_action_id r)))"

record pilot_summary =
  ps_tenant_id :: string
  ps_credentials :: "credential list"
  ps_sample_run_id :: string

definition seed_pilot :: "env \<Rightarrow> pilot_summary svc" where
  "seed_pilot E =
     bindM seed_rbac (\<lambda>_.
     bindM seed_control_catalog (\<lambda>_.
     bindM (ensure_tenant DEMO_TENANT_ID DEMO_TENANT_NAME) (\<lambda>_.
     bindM (gather ROLE_KEYS (seed_credential E)) (\<lambda>credentials.
     bindM (seed_sample_run E) (\<lambda>sample_run_id.
     ret \<lparr>ps_tenant_id = DEMO_TENANT_ID, ps_credentials = credentials, ps_sample_run_id = sample_run_id\<rparr>)))))"

section \<open>One credential\<close>

definition credential_of :: "string \<times> string \<times> string \<Rightarrow> credential" where
  "credential_of entry = \<lparr>cred_role = fst entry, cred_email = snd (snd entry), cred_api_key = fst (snd entry)\<rparr>"

text \<open>Neither the email of the entry nor its key is in use; and every role assignment is of a user.\<close>

definition vacant :: "env \<Rightarrow> string \<times> string \<times> string \<Rightarrow> world \<Rightarrow> bool" where
  "vacant E entry w \<longleftrightarrow> pilot_users (snd (snd entry)) w = [] \<and> keys_with E (fst (snd entry)) w = []"

definition assigned_to_users :: "world \<Rightarrow> bool" where
  "assigned_to_users w \<longleftrightarrow> list_all (\<lambda>l. list_ex (\<lambda>u. user_pk u = ur_user l) (users w)) (user_roles w)"

text \<open>The entry has its user, whose one role is the entry's, and an active key bound to that user.\<close>

definition provisioned :: "env \<Rightarrow> string \<times> string \<times> string \<Rightarrow> user \<Rightarrow> world \<Rightarrow> bool" where
  "provisioned E entry u w \<longleftrightarrow> pilot_users (snd (snd entry)) w = [u] \<and> u \<in> set (users w)
     \<and> (\<exists>r l k. found roles role_ident (fst entry) r w
          \<and> filter (\<lambda>l. ur_user l = user_pk u) (user_roles w) = [l] \<and> ur_role l = role_pk r
          \<and> keys_with E (fst (snd entry)) w = [k] \<and> key_is_active k
          \<and> key_tenant k = Some DEMO_TENANT_ID \<and> key_user k = Some (user_pk u))"

lemma filter_both: "filter (\<lambda>x. P x \<and> Q x) xs = filter Q (filter P xs)"
  by (simp add: conj_commute)

lemma seed_credential_again:
  assumes "provisioned E entry u w"
  shows "seed_credential E entry w = (Inr (credential_of entry), w)"
proof -
  obtain r l k where r: "found roles role_ident (fst entry) r w"
    and l: "filter (\<lambda>l. ur_user l = user_pk u) (user_roles w) = [l]" "ur_role l = role_pk r"
    and k: "keys_with E (fst (snd entry)) w = [k]" and u: "pilot_users (snd (snd entry)) w = [u]"
    using assms by (auto simp: provisioned_def)
  have "filter (\<lambda>l. ur_user l = user_pk u \<and> ur_role l = role_pk r) (user_roles w) = [l]"
    unfolding filter_both using l by simp
  then show ?thesis
    by (simp add: seed_credential_def split_beta comp u scalar_one_or_none_def system_role_query [OF r] scalar_one_def k
        credential_of_def)
qed

text \<open>The three rows of a new credential.\<close>

definition new_user :: "string \<times> string \<times> string \<Rightarrow> world \<Rightarrow> user" where
  "new_user entry w = \<lparr>user_pk = uuid (uuids w), user_tenant = Some DEMO_TENANT_ID, user_email = snd (snd entry),
     user_display_name = None, user_is_active = True, user_created_at = clock w\<rparr>"

definition new_assignment :: "role \<Rightarrow> world \<Rightarrow> user_role" where
  "new_assignment r w = \<lparr>ur_pk = uuid (Suc (uuids w)), ur_tenant = Some DEMO_TENANT_ID, ur_user = uuid (uuids w),
     ur_role = role_pk r, ur_created_at = clock w\<rparr>"

definition new_key :: "env \<Rightarrow> string \<times> string \<times> string \<Rightarrow> world \<Rightarrow> api_key" where
  "new_key E entry w = \<lparr>key_pk = uuid (Suc (Suc (uuids w))), key_tenant = Some DEMO_TENANT_ID, key_user = Some (uuid (uuids w)),
     key_name = fst entry, key_hash = hash_api_key E (fst (snd entry)), key_is_active = True, key_created_at = clock w,
     key_last_used_at = None\<rparr>"

definition credited :: "env \<Rightarrow> string \<times> string \<times> string \<Rightarrow> role \<Rightarrow> world \<Rightarrow> world" where
  "credited E entry r w = w\<lparr>uuids := Suc (Suc (Suc (uuids w))), users := users w @ [new_user entry w],
     user_roles := user_roles w @ [new_assignment r w], api_keys := api_keys w @ [new_key E entry w]\<rparr>"

lemma unassigned:
  assumes "drawn users user_pk w" and "assigned_to_users w"
  shows "filter (\<lambda>l. ur_user l = uuid (uuids w)) (user_roles w) = []"
proof -
  have "ur_user l \<noteq> uuid (uuids w)" if "l \<in> set (user_roles w)" for l
    using assms that by (fastforce simp: assigned_to_users_def list_all_iff list_ex_iff drawn_def)
  then show ?thesis by (simp add: filter_empty_conv)
qed

lemma seed_credential_new:
  assumes "vacant E entry w" and "found roles role_ident (fst entry) r w"
    and "drawn users user_pk w" and "assigned_to_users w"
  shows "seed_credential E entry w = (Inr (credential_of entry), credited E entry r w)"
proof -
  have u: "pilot_users (snd (snd entry)) w = []" and k: "keys_with E (fst (snd entry)) w = []"
    using assms(1) by (simp_all add: vacant_def)
  have no_user: "\<not> list_ex (\<lambda>r'. same_user r' (new_user entry w)) (users w)"
    using u by (auto simp: pilot_users_def filter_empty_conv list_ex_iff same_user_def sql_eq_def new_user_def)
  have no_role: "filter (\<lambda>l. ur_user l = uuid (uuids w) \<and> ur_role l = k) (user_roles w) = []" for k
    unfolding filter_both by (simp add: unassigned [OF assms(3,4)])
  then have free: "\<not> list_ex (\<lambda>l. ur_user l = uuid (uuids w) \<and> ur_role l = k) (user_roles w)" for k
    by (simp add: filter_empty_conv list_ex_iff)
  have no_key: "\<not> list_ex (\<lambda>k. key_hash k = hash_api_key E (fst (snd entry))) (api_keys w)"
    using k by (auto simp: keys_with_def filter_empty_conv list_ex_iff)
  define w1 where "w1 = w\<lparr>uuids := Suc (uuids w), users := users w @ [new_user entry w]\<rparr>"
  define w2 where "w2 = w1\<lparr>uuids := Suc (Suc (uuids w)), user_roles := user_roles w @ [new_assignment r w]\<rparr>"
  have user: "provision_user DEMO_TENANT_ID (snd (snd entry)) None w = (Inr (new_user entry w), w1)"
    using no_user by (simp add: provision_user_def comp new_id_def Let_def insert_unique_def new_user_def w1_def)
  have q: "filter (\<lambda>r. role_tenant r = None \<and> role_name r = fst entry) (roles w) = [r]"
    by (rule system_role_query [OF assms(2)])
  have w1: "roles w1 = roles w" "user_roles w1 = user_roles w" by (simp_all add: w1_def)
  have role: "assign_role (uuid (uuids w)) (fst entry) (Some DEMO_TENANT_ID) w1 = (Inr (new_assignment r w), w2)"
    using free by (simp add: assign_role_def comp w1 q scalar_one_def)
      (simp add: w1_def w2_def new_id_def comp Let_def insert_unique_def same_user_role_def new_assignment_def)
  have w2: "api_keys w2 = api_keys w" by (simp add: w1_def w2_def)
  have key: "provision_api_key E DEMO_TENANT_ID (fst entry) (fst (snd entry)) (Some (uuid (uuids w))) w2
     = (Inr (new_key E entry w), credited E entry r w)"
    using no_key by (simp add: w1_def w2_def provision_api_key_def comp new_id_def Let_def insert_unique_def same_key_hash_def
        new_key_def credited_def)
  have pk: "user_pk (new_user entry w) = uuid (uuids w)" by (simp add: new_user_def)
  have k2: "keys_with E (fst (snd entry)) w2 = []" using k by (simp add: keys_with_def w2)
  show ?thesis
    by (simp add: seed_credential_def split_beta comp u scalar_one_or_none_def user pk w1 q scalar_one_def no_role role
        k2 key credential_of_def)
qed

section \<open>All credentials\<close>

abbreviation email_of :: "string \<times> string \<times> string \<Rightarrow> string" where "email_of entry \<equiv> snd (snd entry)"
abbreviation hash_of :: "env \<Rightarrow> string \<times> string \<times> string \<Rightarrow> string" where "hash_of E entry \<equiv> hash_api_key E (fst (snd entry))"

lemma pilot_users_credited:
  "pilot_users e (credited E entry r w) = pilot_users e w @ (if email_of entry = e then [new_user entry w] else [])"
  by (simp add: pilot_users_def credited_def new_user_def)

lemma keys_with_credited:
  "keys_with E k (credited E entry r w) = keys_with E k w @ (if hash_of E entry = hash_api_key E k then [new_key E entry w] else [])"
  by (simp add: keys_with_def credited_def new_key_def)

lemma credited_frame [simp]:
  "roles (credited E entry r w) = roles w" "found roles role_ident n r' (credited E entry r w) = found roles role_ident n r' w"
  by (simp_all add: credited_def found_def)

lemma credited_order:
  assumes "drawn users user_pk w" and "assigned_to_users w"
  shows "drawn users user_pk (credited E entry r w)" "assigned_to_users (credited E entry r w)"
proof -
  have "uuid (uuids w) \<notin> user_pk ` set (users w)" using assms(1) by (auto simp: drawn_def)
  moreover have "uuid ` {..<uuids w} \<subseteq> uuid ` {..<Suc (Suc (Suc (uuids w)))}" by auto
  ultimately show "drawn users user_pk (credited E entry r w)"
    using assms(1) by (auto simp: drawn_def credited_def new_user_def)
  show "assigned_to_users (credited E entry r w)"
    using assms(2) by (auto simp: assigned_to_users_def credited_def new_user_def new_assignment_def list_all_iff list_ex_iff)
qed

lemma provisioned_new:
  assumes "vacant E entry w" and "found roles role_ident (fst entry) r w"
    and "drawn users user_pk w" and "assigned_to_users w"
  shows "provisioned E entry (new_user entry w) (credited E entry r w)"
proof -
  have "filter (\<lambda>l. ur_user l = user_pk (new_user entry w)) (user_roles (credited E entry r w)) = [new_assignment r w]"
    using unassigned [OF assms(3,4)] by (simp add: credited_def new_user_def new_assignment_def)
  moreover have "new_user entry w \<in> set (users (credited E entry r w))" by (simp add: credited_def)
  ultimately show ?thesis
    using assms(1,2) by (simp add: provisioned_def vacant_def pilot_users_credited keys_with_credited)
      (auto simp: new_assignment_def new_key_def new_user_def)
qed

lemma provisioned_credited:
  assumes "provisioned E e u w" and "email_of entry \<noteq> email_of e" and "hash_of E entry \<noteq> hash_of E e"
    and "drawn users user_pk w"
  shows "provisioned E e u (credited E entry r w)"
proof -
  have "u \<in> set (users w)" using assms(1) by (simp add: provisioned_def)
  then have "user_pk u \<noteq> uuid (uuids w)" using assms(4) by (force simp: drawn_def)
  then have "filter (\<lambda>l. ur_user l = user_pk u) (user_roles (credited E entry r w))
      = filter (\<lambda>l. ur_user l = user_pk u) (user_roles w)"
    by (simp add: credited_def new_assignment_def)
  then show ?thesis
    using assms(1,2,3) by (simp add: provisioned_def pilot_users_credited keys_with_credited) (simp add: credited_def)
qed

lemma vacant_credited:
  "vacant E e w \<Longrightarrow> email_of entry \<noteq> email_of e \<Longrightarrow> hash_of E entry \<noteq> hash_of E e \<Longrightarrow> vacant E e (credited E entry r w)"
  by (simp add: vacant_def pilot_users_credited keys_with_credited)

lemma not_in_image: "f x \<notin> f ` A \<Longrightarrow> y \<in> A \<Longrightarrow> f x \<noteq> f y"
  by (metis imageI)

lemma credentials_run:
  assumes "list_all (\<lambda>e. vacant E e w) es" and "list_all (\<lambda>e. \<exists>r. found roles role_ident (fst e) r w) es"
    and "list_all (\<lambda>e. \<exists>u. provisioned E e u w) ds"
    and "distinct (map email_of (ds @ es))" and "distinct (map (hash_of E) (ds @ es))"
    and "drawn users user_pk w" and "assigned_to_users w"
  shows "\<exists>v. gather es (seed_credential E) w = (Inr (map credential_of es), v)
     \<and> list_all (\<lambda>e. \<exists>u. provisioned E e u v) (ds @ es)"
  using assms
proof (induction es arbitrary: w ds)
  case (Cons e es)
  obtain r where r: "found roles role_ident (fst e) r w" using Cons.prems(2) by auto
  let ?w = "credited E e r w"
  have here: "seed_credential E e w = (Inr (credential_of e), ?w)"
    using seed_credential_new [OF _ r Cons.prems(6,7)] Cons.prems(1) by simp
  have fresh: "email_of e \<notin> email_of ` (set ds \<union> set es)" "hash_of E e \<notin> hash_of E ` (set ds \<union> set es)"
    using Cons.prems(4,5) by auto
  have other: "email_of e \<noteq> email_of d \<and> hash_of E e \<noteq> hash_of E d" if "d \<in> set ds \<union> set es" for d
    using not_in_image [of email_of, OF fresh(1) that] not_in_image [of "hash_of E", OF fresh(2) that] by (rule conjI)
  have new: "provisioned E e (new_user e w) ?w"
    using provisioned_new [OF _ r Cons.prems(6,7)] Cons.prems(1) by simp
  note other1 = other [THEN conjunct1] and other2 = other [THEN conjunct2]
  have "\<exists>u. provisioned E d u ?w" if d: "d \<in> set ds" for d
  proof -
    obtain u where u: "provisioned E d u w" using Cons.prems(3) d unfolding list_all_iff by blast
    show ?thesis
      by (rule exI, rule provisioned_credited [OF u other1 other2 Cons.prems(6)]) (simp_all add: d)
  qed
  then have old: "list_all (\<lambda>d. \<exists>u. provisioned E d u ?w) ds" by (simp add: list_all_iff)
  have "vacant E d ?w" if d: "d \<in> set es" for d
  proof -
    have "vacant E d w" using Cons.prems(1) d unfolding list_all_iff by simp
    then show ?thesis by (rule vacant_credited [OF _ other1 other2]) (simp_all add: d)
  qed
  then have "list_all (\<lambda>d. vacant E d ?w) es" by (simp add: list_all_iff)
  moreover have "list_all (\<lambda>d. \<exists>r. found roles role_ident (fst d) r ?w) es" using Cons.prems(2) by simp
  moreover have "list_all (\<lambda>d. \<exists>u. provisioned E d u ?w) (ds @ [e])" using old new by auto
  ultimately obtain v where "gather es (seed_credential E) ?w = (Inr (map credential_of es), v)"
    "list_all (\<lambda>e. \<exists>u. provisioned E e u v) ((ds @ [e]) @ es)"
    using Cons.IH [of ?w "ds @ [e]"] Cons.prems(4,5) credited_order [OF Cons.prems(6,7)] by auto
  then show ?case using here by (auto simp: bindM_def ret_def)
qed (simp add: ret_def)

lemma credentials_again:
  "list_all (\<lambda>e. \<exists>u. provisioned E e u w) es \<Longrightarrow> gather es (seed_credential E) w = (Inr (map credential_of es), w)"
proof (induction es)
  case (Cons e es)
  then obtain u where "provisioned E e u w" by auto
  then have "seed_credential E e w = (Inr (credential_of e), w)" by (rule seed_credential_again)
  then show ?case using Cons by (simp add: bindM_def ret_def)
qed (simp add: ret_def)

lemma seed_credential_only [evo]:
  "TUsers \<in> S \<Longrightarrow> TUserRoles \<in> S \<Longrightarrow> TApiKeys \<in> S \<Longrightarrow> evolves (only S) (seed_credential E entry)"
  unfolding seed_credential_def split_beta Let_def by (intro evo; assumption?)

text \<open>Who the key of a provisioned entry is.\<close>

lemma provisioned_principal:
  assumes "provisioned E entry u w" and "fst (snd entry) \<noteq> []" and "singles w" and "rbac_ok w"
    and "granted (fst entry, ps) w" and "(fst entry, ps) \<in> set ROLE_PERMISSIONS"
  shows "get_principal E (Some (fst (snd entry))) w
     = (Inr \<lparr>pr_tenant = Some DEMO_TENANT_ID, pr_user = Some (user_pk u), pr_permissions = set ps, pr_is_operator = False\<rparr>, w)"
proof -
  obtain r l k where r: "found roles role_ident (fst entry) r w"
    and l: "filter (\<lambda>l. ur_user l = user_pk u) (user_roles w) = [l]" "ur_role l = role_pk r"
    and k: "keys_with E (fst (snd entry)) w = [k]" "key_is_active k" "key_tenant k = Some DEMO_TENANT_ID"
      "key_user k = Some (user_pk u)"
    using assms(1) by (auto simp: provisioned_def)
  have "filter key_is_active (keys_with E (fst (snd entry)) w) = [k]" using k(1,2) by simp
  then have active: "active_keys E (fst (snd entry)) w = [k]"
    by (simp add: active_keys_def keys_with_def conj_commute)
  have "set (filter (\<lambda>l. ur_user l = user_pk u) (user_roles w)) = {l}" using l(1) by simp
  then have "{l \<in> set (user_roles w). ur_user l = user_pk u} = {l}" by auto
  then have "permissions_for_user (user_pk u) w = role_grants (role_pk r) w"
    by (simp add: permissions_for_user_grants l(2))
  also have "\<dots> = set ps"
    using role_grants_exact [OF assms(4,5,6) _ _ assms(3), of r] found_in [OF r] by simp
  finally show ?thesis using active k(3,4) assms(2) by (simp add: get_principal_run no_key_def principal_of_key_def)
qed

section \<open>The tenant and the sample run\<close>

lemma ensure_tenant_only [evo]: "TTenants \<in> S \<Longrightarrow> evolves (only S) (ensure_tenant k n)"
  unfolding ensure_tenant_def by (intro evo; assumption?)

lemma ensure_tenant_run:
  "\<exists>v. ensure_tenant k n w = (Inr (), v) \<and> only {TTenants} w v \<and> get_tenant k v \<noteq> None"
proof (cases "get_tenant k w")
  case None
  let ?t = "\<lparr>tenant_pk = k, tenant_name = n, tenant_created_at = clock w\<rparr>"
  have "ensure_tenant k n w = (Inr (), w\<lparr>tenants := tenants w @ [?t]\<rparr>)"
    using None by (simp add: ensure_tenant_def comp insert_row_def)
  moreover have "only {TTenants} w (after (ensure_tenant k n) w)" by (rule evolvesD) (intro evo, simp)
  moreover have "get_tenant k (w\<lparr>tenants := tenants w @ [?t]\<rparr>) \<noteq> None"
    using None by (simp add: get_tenant_def get_row_def tget_append)
  ultimately show ?thesis by simp
qed (auto simp: ensure_tenant_def comp)

lemma ensure_tenant_again: "get_tenant k w \<noteq> None \<Longrightarrow> ensure_tenant k n w = (Inr (), w)"
  by (auto simp: ensure_tenant_def comp)

text \<open>Rows and tenant as both scripts begin with them: once there they stay, and the steps change nothing.\<close>

definition prepared :: "string \<Rightarrow> world \<Rightarrow> bool" where
  "prepared t w \<longleftrightarrow> (\<forall>u. stocked w u \<longrightarrow> seed_rbac u = (Inr (), u) \<and> seed_control_catalog u = (Inr (), u)
       \<and> (\<forall>entry \<in> set ROLE_PERMISSIONS. granted entry u) \<and> catalog_there u)
     \<and> singles w \<and> rbac_ok w \<and> current w \<and> get_tenant t w \<noteq> None"

lemma stocked_self: "stocked w w"
  by (simp add: stocked_def)

lemma preparedD:
  assumes "prepared t w"
  shows "\<forall>entry \<in> set ROLE_PERMISSIONS. granted entry w" "catalog_there w" "singles w" "rbac_ok w" "current w"
  using assms stocked_self [of w] by (simp_all add: prepared_def)

lemma prepared_stays:
  assumes "prepared t w" and "only S w v" and "S \<inter> insert TTenants reference_tables = {}"
  shows "prepared t v"
proof -
  have "TTenants \<notin> S" using assms(3) by auto
  then have tn: "get_tenant t v = get_tenant t w" using onlyD [OF assms(2), of TTenants] by (simp add: get_tenant_def get_row_def)
  have disj: "S \<inter> reference_tables = {}" using assms(3) by auto
  have st: "stocked w v" using only_stocked(1) [OF assms(2) disj] .
  have "stocked w u" if "stocked v u" for u using stocked_trans [OF st that] .
  moreover have "singles v" "rbac_ok v" "current v"
    using only_stocked(2-4) [OF assms(2) disj] preparedD(3-5) [OF assms(1)] by simp_all
  ultimately show ?thesis using assms(1) unfolding prepared_def tn by blast
qed

lemma prepare_run:
  assumes "reference w"
  obtains v1 v2 v where "seed_rbac w = (Inr (), v1)" "seed_control_catalog v1 = (Inr (), v2)"
    "ensure_tenant t n v2 = (Inr (), v)" "prepared t v" "only (insert TTenants reference_tables) w v"
proof -
  obtain v1 v2 where seeded: "seed_rbac w = (Inr (), v1)" "seed_control_catalog v1 = (Inr (), v2)" "reference v2"
    and o2: "only reference_tables w v2"
    and again: "\<And>u. stocked v2 u \<Longrightarrow> seed_rbac u = (Inr (), u) \<and> seed_control_catalog u = (Inr (), u)"
    and matrix: "\<And>u :: world. stocked v2 u \<Longrightarrow> \<forall>entry \<in> set ROLE_PERMISSIONS. granted entry u"
    and catalog: "\<And>u :: world. stocked v2 u \<Longrightarrow> catalog_there u"
    by (rule seeding_run [OF assms]) (rule that; simp)
  obtain v where v: "ensure_tenant t n v2 = (Inr (), v)" "only {TTenants} v2 v" "get_tenant t v \<noteq> None"
    using ensure_tenant_run by blast
  have s: "stocked v2 v" "singles v" "rbac_ok v" "current v"
    using only_stocked [OF v(2)] seeded(3) by (simp_all add: reference_def)
  then have "prepared t v"
    using again matrix catalog stocked_trans [OF s(1)] v(3) unfolding prepared_def by blast
  moreover have "only (insert TTenants reference_tables) w v"
    by (rule only_evo.evo_trans [OF only_mono [OF _ o2] only_mono [OF _ v(2)]]) auto
  ultimately show ?thesis using that [OF seeded(1,2) v(1)] by simp
qed

lemma prepare_again:
  assumes "prepared t w"
  shows "seed_rbac w = (Inr (), w)" "seed_control_catalog w = (Inr (), w)" "ensure_tenant t n w = (Inr (), w)"
  using assms stocked_self [of w] by (simp_all add: prepared_def ensure_tenant_again)

lemma filter_order_desc: "filter P (order_desc key rs) = order_desc key (filter P rs)"
  by (simp add: order_desc_def filter_sort [symmetric] rev_filter)

lemma list_runs_rows:
  "list_runs (Some t) w = map run_row_of (order_desc ga_created_at
     (filter (\<lambda>a. ga_tenant a = Some t \<and> ga_action_type a = ACTION_TYPE) (governed_actions w)))"
  by (simp add: list_runs_def list_governed_actions_def filter_order_desc in_tenant_def)

lemma seed_sample_run_run:
  assumes "good E w" and "drawn governed_actions ga_pk w"
  shows "\<exists>k v. seed_sample_run E w = (Inr k, v) \<and> seed_sample_run E v = (Inr k, v)
     \<and> k \<in> set (map row_governed_action_id (list_runs (Some DEMO_TENANT_ID) v))
     \<and> only {TAudit, TApprovals, TActions, TRisk, TArtifacts} w v"
proof (cases "list_runs (Some DEMO_TENANT_ID) w")
  case Nil
  obtain run v a where v: "submit_vendor_governance_review E sample_review w = (Inr run, v)"
    and a: "governed_actions v = governed_actions w @ [a]" "ga_pk a = rv_governed_action_id run"
      "ga_tenant a = Some DEMO_TENANT_ID" "ga_action_type a = ACTION_TYPE"
    using review_completes [OF assms, of sample_review] by (auto simp: sample_review_def)
  have "filter (\<lambda>a. ga_tenant a = Some DEMO_TENANT_ID \<and> ga_action_type a = ACTION_TYPE) (governed_actions w) = []"
    using arg_cong [OF Nil, of length] by (simp add: list_runs_rows)
  then have runs: "list_runs (Some DEMO_TENANT_ID) v = [run_row_of a]"
    using a(3,4) by (simp add: list_runs_rows a(1) order_desc_def)
  have "evolves (only {TAudit, TApprovals, TActions, TRisk, TArtifacts}) (submit_vendor_governance_review E sample_review)"
    by (intro evo) simp
  then have "only {TAudit, TApprovals, TActions, TRisk, TArtifacts} w v" using v by (metis evolvesD snd_conv)
  then show ?thesis
    using v runs Nil a(2) by (simp add: seed_sample_run_def comp run_row_of_def)
qed (auto simp: seed_sample_run_def comp)

section \<open>The pilot\<close>

lemma unique_actions:
  assumes "unique_keys w"
  shows "drawn governed_actions ga_pk w"
proof -
  have "distinct (map ga_pk (governed_actions w))"
    using assms by (simp add: unique_keys_def row_keys_def comp_def)
  moreover have "ga_pk ` set (governed_actions w) \<subseteq> fst ` set (row_keys w)"
    by (simp add: row_keys_def image_Un image_image le_supI1 le_supI2)
  ultimately show ?thesis using assms by (auto simp: unique_keys_def drawn_def simp del: set_map)
qed

lemma granted_found: "granted (n, ps) w \<Longrightarrow> \<exists>r. found roles role_ident n r w"
  by (auto simp: granted_def)

lemma provisioned_frame:
  assumes "only S w v" and "S \<inter> {TUsers, TUserRoles, TApiKeys, TRoles} = {}"
  shows "provisioned E e u w \<Longrightarrow> provisioned E e u v"
proof -
  have "users v = users w" "user_roles v = user_roles w" "api_keys v = api_keys w" "roles v = roles w"
    using assms onlyD [OF assms(1), of TUsers] onlyD [OF assms(1), of TUserRoles] onlyD [OF assms(1), of TApiKeys]
      onlyD [OF assms(1), of TRoles] by auto
  then show "provisioned E e u w \<Longrightarrow> provisioned E e u v"
    by (simp add: provisioned_def pilot_users_def keys_with_def found_def)
qed

lemma pilot_roles:
  "(''Admin'', filter (\<lambda>p. p \<noteq> P_MANAGE_USERS) PERMISSION_NAMES) \<in> set ROLE_PERMISSIONS"
  "(''Operator'', [P_CREATE, P_EXECUTE, P_VIEW_AUDIT]) \<in> set ROLE_PERMISSIONS"
  "(''Reviewer'', [P_APPROVE, P_REJECT, P_VIEW_AUDIT]) \<in> set ROLE_PERMISSIONS"
  "(''Auditor'', [P_VIEW_AUDIT, P_EXPORT_EVIDENCE]) \<in> set ROLE_PERMISSIONS"
  by (simp_all add: ROLE_PERMISSIONS_def)

lemma pilot_credentials:
  assumes "prepared t w" and "list_all (\<lambda>e. vacant E e w) ROLE_KEYS" and "distinct (map (hash_of E) ROLE_KEYS)"
    and "drawn users user_pk w" and "assigned_to_users w"
  shows "\<exists>v. gather ROLE_KEYS (seed_credential E) w = (Inr (map credential_of ROLE_KEYS), v)
     \<and> list_all (\<lambda>e. \<exists>u. provisioned E e u v) ROLE_KEYS \<and> only {TUsers, TUserRoles, TApiKeys} w v"
proof -
  have roles: "list_all (\<lambda>e. \<exists>r. found roles role_ident (fst e) r w) ROLE_KEYS"
    using pilot_roles preparedD(1) [OF assms(1)] granted_found by (fastforce simp: ROLE_KEYS_def)
  have "distinct (map email_of ROLE_KEYS)" by (simp add: ROLE_KEYS_def)
  then obtain v where v: "gather ROLE_KEYS (seed_credential E) w = (Inr (map credential_of ROLE_KEYS), v)"
    "list_all (\<lambda>e. \<exists>u. provisioned E e u v) ROLE_KEYS"
    using credentials_run [OF assms(2) roles, of "[]"] assms(3-5) by auto
  moreover have "only {TUsers, TUserRoles, TApiKeys} w v"
    using evolvesD [of "only {TUsers, TUserRoles, TApiKeys}" "gather ROLE_KEYS (seed_credential E)" w] v(1)
    by (simp add: gather_only seed_credential_only)
  ultimately show ?thesis by blast
qed

lemma pilot_principals:
  assumes "prepared t w" and "list_all (\<lambda>e. \<exists>u. provisioned E e u w) ROLE_KEYS"
  shows "list_all2 (\<lambda>(role, key, email) ps. \<exists>u. get_principal E (Some key) w = (Inr \<lparr>pr_tenant = Some DEMO_TENANT_ID,
           pr_user = Some u, pr_permissions = set ps, pr_is_operator = False\<rparr>, w))
         ROLE_KEYS [filter (\<lambda>p. p \<noteq> P_MANAGE_USERS) PERMISSION_NAMES, [P_CREATE, P_EXECUTE, P_VIEW_AUDIT],
           [P_APPROVE, P_REJECT, P_VIEW_AUDIT], [P_VIEW_AUDIT, P_EXPORT_EVIDENCE]]"
proof -
  have who: "\<exists>u. get_principal E (Some key) w = (Inr \<lparr>pr_tenant = Some DEMO_TENANT_ID,
         pr_user = Some u, pr_permissions = set ps, pr_is_operator = False\<rparr>, w)"
    if n: "(n, ps) \<in> set ROLE_PERMISSIONS" and key: "(n, key, email) \<in> set ROLE_KEYS" for n key email ps
  proof -
    obtain u where "provisioned E (n, key, email) u w" using assms(2) key unfolding list_all_iff by blast
    moreover have "key \<noteq> []" using key by (auto simp: ROLE_KEYS_def)
    moreover have "granted (n, ps) w" using preparedD(1) [OF assms(1)] n by blast
    ultimately show ?thesis
      using provisioned_principal [of E "(n, key, email)" u w ps] preparedD(3,4) [OF assms(1)] n by auto
  qed
  show ?thesis
    unfolding ROLE_KEYS_def list.rel_inject prod.case
    by (intro conjI list.rel_intros(1) who [OF pilot_roles(1)] who [OF pilot_roles(2)] who [OF pilot_roles(3)]
        who [OF pilot_roles(4)]) (simp_all add: ROLE_KEYS_def)
qed

text \<open>C21: the pilot is what it says. From any state the system reaches in which none of the four emails and
  none of the four keys is in use, the script succeeds; run a second time it changes nothing at all and
  gives the same answer; and each of its keys then identifies a user of the pilot tenant with exactly
  the permissions the role matrix gives the role. (The four keys must have different hashes, and role
  assignments must be of existing users, as the foreign key says.)\<close>

theorem pilot_seeded:
  assumes "run E empty_world ls w" and "list_all (\<lambda>e. vacant E e w) ROLE_KEYS"
    and "distinct (map (\<lambda>e. hash_api_key E (fst (snd e))) ROLE_KEYS)" and "assigned_to_users w"
  shows "\<exists>s v. seed_pilot E w = (Inr s, v) \<and> seed_pilot E v = (Inr s, v)
     \<and> ps_tenant_id s = DEMO_TENANT_ID
     \<and> ps_sample_run_id s \<in> set (map row_governed_action_id (list_runs (Some DEMO_TENANT_ID) v))
     \<and> list_all2 (\<lambda>(role, key, email) ps. \<exists>u. get_principal E (Some key) v = (Inr \<lparr>pr_tenant = Some DEMO_TENANT_ID,
           pr_user = Some u, pr_permissions = set ps, pr_is_operator = False\<rparr>, v))
         ROLE_KEYS [filter (\<lambda>p. p \<noteq> P_MANAGE_USERS) PERMISSION_NAMES, [P_CREATE, P_EXECUTE, P_VIEW_AUDIT],
           [P_APPROVE, P_REJECT, P_VIEW_AUDIT], [P_VIEW_AUDIT, P_EXPORT_EVIDENCE]]"
proof -
  have w: "good E w" "reference w" "unique_keys w"
    using reached_good [OF assms(1)] reached_reference [OF assms(1)] by simp_all
  obtain v1 v2 v3 where seeded: "seed_rbac w = (Inr (), v1)" "seed_control_catalog v1 = (Inr (), v2)"
      "ensure_tenant DEMO_TENANT_ID DEMO_TENANT_NAME v2 = (Inr (), v3)"
    and v3: "prepared DEMO_TENANT_ID v3" "only (insert TTenants reference_tables) w v3"
    using prepare_run [OF w(2), of DEMO_TENANT_ID DEMO_TENANT_NAME] .
  have same3: "users v3 = users w" "user_roles v3 = user_roles w" "api_keys v3 = api_keys w" "uuids w \<le> uuids v3"
    using onlyD [OF v3(2), of TUsers] onlyD [OF v3(2), of TUserRoles] onlyD [OF v3(2), of TApiKeys] v3(2)
    by (simp_all add: only_def)
  have "list_all (\<lambda>e. vacant E e v3) ROLE_KEYS" "assigned_to_users v3" "drawn users user_pk v3"
    using assms(2,4) same3 w(2)
    by (auto simp: vacant_def pilot_users_def keys_with_def assigned_to_users_def reference_def intro: drawn_mono)
  then obtain v4 where v4: "gather ROLE_KEYS (seed_credential E) v3 = (Inr (map credential_of ROLE_KEYS), v4)"
    "list_all (\<lambda>e. \<exists>u. provisioned E e u v4) ROLE_KEYS" "only {TUsers, TUserRoles, TApiKeys} v3 v4"
    using pilot_credentials [OF v3(1)] assms(3) by blast
  let ?T = "insert TTenants (reference_tables \<union> {TUsers, TUserRoles, TApiKeys})"
  have o4: "only ?T w v4" by (rule only_evo.evo_trans [OF only_mono [OF _ v3(2)] only_mono [OF _ v4(3)]]) auto
  have "good E v4" using only_forward [OF o4] w(1) by (simp add: forward_def)
  moreover have "drawn governed_actions ga_pk v4"
    using drawn_mono [OF unique_actions [OF w(3)]] onlyD [OF o4, of TActions] o4 by (simp add: only_def)
  ultimately obtain k v where v: "seed_sample_run E v4 = (Inr k, v)" "seed_sample_run E v = (Inr k, v)"
    "k \<in> set (map row_governed_action_id (list_runs (Some DEMO_TENANT_ID) v))"
    "only {TAudit, TApprovals, TActions, TRisk, TArtifacts} v4 v"
    using seed_sample_run_run by blast
  have ready: "prepared DEMO_TENANT_ID v" by (rule prepared_stays [OF prepared_stays [OF v3(1) v4(3)] v(4)]) auto
  have prov: "list_all (\<lambda>e. \<exists>u. provisioned E e u v) ROLE_KEYS"
    using v4(2) provisioned_frame [OF v(4)] by (fastforce simp: list_all_iff)
  let ?s = "\<lparr>ps_tenant_id = DEMO_TENANT_ID, ps_credentials = map credential_of ROLE_KEYS, ps_sample_run_id = k\<rparr>"
  have first: "seed_pilot E w = (Inr ?s, v)"
    by (simp add: seed_pilot_def bindM_def seeded v4(1) v(1) ret_def)
  have second: "seed_pilot E v = (Inr ?s, v)"
    by (simp add: seed_pilot_def bindM_def prepare_again [OF ready] credentials_again [OF prov] v(2) ret_def)
  show ?thesis
    using v(3) pilot_principals [OF ready prov] by (intro exI [of _ ?s] exI [of _ v] conjI first second) simp_all
qed

theorem pilot_seeded_witness:
  "\<exists>s v. seed_pilot sample_env empty_world = (Inr s, v) \<and> seed_pilot sample_env v = (Inr s, v)
     \<and> ps_tenant_id s = ''pilot-tenant''"
proof -
  have run: "run sample_env empty_world [] empty_world" by (simp add: run_simps)
  have empty: "list_all (\<lambda>e. vacant sample_env e empty_world) ROLE_KEYS" "assigned_to_users empty_world"
    by (simp_all add: vacant_def pilot_users_def keys_with_def assigned_to_users_def empty_world_def list_all_iff)
  have hashes: "distinct (map (\<lambda>e. hash_api_key sample_env (fst (snd e))) ROLE_KEYS)" by code_simp
  from pilot_seeded [OF run empty(1) hashes empty(2)] show ?thesis by (auto simp: DEMO_TENANT_ID_def)
qed

end
