(* ===== verification/DemoPacket.thy ===== *)
theory DemoPacket
  imports SeedPilot
begin

text \<open>
  scripts/demo_evidence_packet.py: one governed action with everything around it (system, workflow, job,
  approved approval, execution job, control mapping, artifact), made by the services alone, and its
  evidence packet. The script writes to a throwaway database and touches no mail provider.
\<close>

definition PACKET_TENANT_ID :: string where "PACKET_TENANT_ID = ''demo-tenant''"
definition PACKET_TENANT_NAME :: string where "PACKET_TENANT_NAME = ''Demo Tenant''"

text \<open>\<open>next(x for x in xs if ...)\<close> without a default, and \<open>xs[0]\<close>.\<close>

definition next_of :: "'r list \<Rightarrow> exn + 'r" where
  "next_of xs = (case xs of [] \<Rightarrow> Inl StopIteration | x # _ \<Rightarrow> Inr x)"

definition index_0 :: "'r list \<Rightarrow> exn + 'r" where
  "index_0 xs = (case xs of [] \<Rightarrow> Inl (IndexError ''list index out of range'') | x # _ \<Rightarrow> Inr x)"

definition demo_action :: "workflow \<Rightarrow> job \<Rightarrow> approval \<Rightarrow> job \<Rightarrow> action_args" where
  "demo_action flow source_job approval exec_job =
     (action_call (Some PACKET_TENANT_ID) ''email.send'')
       \<lparr>aa_workflow := Some (wf_pk flow), aa_source_job := Some (job_pk source_job), aa_approval := Some (appr_pk approval),
        aa_execution_job := Some (job_pk exec_job), aa_policy_version := Some ''v1'',
        aa_policy_decision := Some ''requires_approval'', aa_status := ''executed''\<rparr>"

text \<open>The first half: system, workflow, job and approved approval, execution job, governed action.\<close>

definition seed_demo_action :: "env \<Rightarrow> governed_action svc" where
  "seed_demo_action E =
     bindM (create_ai_system (Some PACKET_TENANT_ID) ''Pharmacy AI Documentation Assistant'' (Some ''Demo AI system'') None) (\<lambda>ai.
     bindM (create_workflow (Some PACKET_TENANT_ID) ''Outbound email workflow'' (Some (ais_pk ai)) None) (\<lambda>flow.
     bindM (create_job CHAT_ORCHESTRATE (Some [(''demo'', JBool True)]) (Some PACKET_TENANT_ID) None) (\<lambda>source_job.
     bindM (create_request E ''job.gate'' (Some PACKET_TENANT_ID) (job_pk source_job) []) (\<lambda>approval.
     bindM (approve E (appr_pk approval) ''compliance.officer'' (Some ''approved for demo'') (Some PACKET_TENANT_ID)) (\<lambda>_.
     bindM (create_job EMAIL_SEND_APPROVED (Some [(''approval_id'', JStr (appr_pk approval))]) (Some PACKET_TENANT_ID) None) (\<lambda>exec_job.
     create_governed_action (demo_action flow source_job approval exec_job)))))))"

text \<open>The second half: a control of the first framework with that name, a regulation, and an artifact.\<close>

definition seed_demo_evidence :: "governed_action \<Rightarrow> string svc" where
  "seed_demo_evidence action =
     bindM (gets (\<lambda>w. filter (\<lambda>f. fw_name f = ''NIST AI RMF'') (list_frameworks w))) (\<lambda>fs.
     bindM (lift (next_of fs)) (\<lambda>framework.
     bindM (gets (list_controls (fw_pk framework))) (\<lambda>cs.
     bindM (lift (index_0 cs)) (\<lambda>ctl.
     bindM (gets list_regulations) (\<lambda>rs.
     bindM (lift (index_0 rs)) (\<lambda>regulation.
     bindM (create_action_control_mapping (Some PACKET_TENANT_ID) (ga_pk action) (ctl_pk ctl) (Some (reg_pk regulation))
              (Some ''demo mapping'')) (\<lambda>_.
     bindM (record_evidence_artifact (Some PACKET_TENANT_ID) ''approval_record'' (Some (ga_pk action))
              (Some ''mem://demo/approval'') []) (\<lambda>_.
     ret (ga_pk action)))))))))"

definition seed_demo :: "env \<Rightarrow> string svc" where
  "seed_demo E =
     bindM seed_rbac (\<lambda>_.
     bindM seed_control_catalog (\<lambda>_.
     bindM (ensure_tenant PACKET_TENANT_ID PACKET_TENANT_NAME) (\<lambda>_.
     bindM (seed_demo_action E) (\<lambda>action. seed_demo_evidence action))))"

definition build_demo_packet :: "env \<Rightarrow> packet option svc" where
  "build_demo_packet E =
     bindM (seed_demo E) (\<lambda>action_id. gets (build_action_packet E action_id (Some PACKET_TENANT_ID)))"

section \<open>The governed action\<close>

text \<open>The tenant has no row in the tables the script writes under UNIQUE constraints, or reads back.\<close>

definition tenant_unused :: "string \<Rightarrow> world \<Rightarrow> bool" where
  "tenant_unused t w \<longleftrightarrow> list_all (\<lambda>r. ais_tenant r \<noteq> Some t) (ai_systems w) \<and> list_all (\<lambda>r. wf_tenant r \<noteq> Some t) (workflows w)
     \<and> list_all (\<lambda>r. ga_tenant r \<noteq> Some t) (governed_actions w) \<and> list_all (\<lambda>r. ac_tenant r \<noteq> Some t) (action_controls w)
     \<and> list_all (\<lambda>r. art_tenant r \<noteq> Some t) (artifacts w) \<and> list_all (\<lambda>r. ae_tenant r \<noteq> Some t) (audit_events w)"

lemma unused_fresh:
  assumes "tenant_unused t w"
  shows "ais_tenant r = Some t \<Longrightarrow> \<not> list_ex (\<lambda>r'. same_ai_system r' r) (ai_systems w)"
    and "wf_tenant f = Some t \<Longrightarrow> \<not> list_ex (\<lambda>r'. same_workflow r' f) (workflows w)"
    and "ga_tenant a = Some t \<Longrightarrow> \<not> list_ex (\<lambda>r'. same_governed_action r' a) (governed_actions w)"
    and "ac_tenant m = Some t \<Longrightarrow> \<not> list_ex (\<lambda>r'. same_action_control r' m) (action_controls w)"
  using assms by (auto simp: tenant_unused_def list_all_iff list_ex_iff same_ai_system_def same_workflow_def
      same_governed_action_def same_action_control_def sql_eq_def)

definition demo_job :: "string \<Rightarrow> dict \<Rightarrow> world \<Rightarrow> job" where
  "demo_job ty p w = \<lparr>job_pk = uuid (uuids w), job_tenant = Some PACKET_TENANT_ID, job_type = ty, job_status = JobPending,
     job_idempotency_key = None, job_payload = Some p, job_attempts = 0, job_last_error = None, job_run_after = None,
     job_created_at = clock w, job_updated_at = clock w\<rparr>"

lemma create_demo_job:
  "create_job ty (Some p) (Some PACKET_TENANT_ID) None w
     = (Inr (demo_job ty p w), w\<lparr>uuids := Suc (uuids w), jobs := jobs w @ [demo_job ty p w]\<rparr>)"
proof -
  have "\<not> list_ex (\<lambda>r'. same_idempotency_key r' (demo_job ty p w)) (jobs w)"
    by (auto simp: list_ex_iff same_idempotency_key_def sql_eq_def demo_job_def)
  then show ?thesis by (simp add: create_job_def new_id_def comp Let_def insert_unique_def demo_job_def)
qed

definition demo_request :: "job \<Rightarrow> world \<Rightarrow> approval" where
  "demo_request j w = \<lparr>appr_pk = uuid (uuids w), appr_tenant = Some PACKET_TENANT_ID, appr_kind = ''job.gate'',
     appr_status = ApprovalPending, appr_payload = Some [(''job_id'', JStr (job_pk j))], appr_decided_at = None,
     appr_created_at = clock w\<rparr>"

lemma create_demo_request:
  assumes "chain_ok E (audit_events w)"
  shows "\<exists>x. create_request E ''job.gate'' (Some PACKET_TENANT_ID) (job_pk j) [] w
     = (Inr (demo_request j w), audited E x (w\<lparr>uuids := Suc (uuids w), approvals := approvals w @ [demo_request j w]\<rparr>))
     \<and> arg_action x = APPROVAL_CREATED \<and> arg_resource_id x = uuid (uuids w) \<and> arg_tenant x = Some PACKET_TENANT_ID"
proof (rule exI, intro conjI)
  let ?x = "(audit_call APPROVAL_CREATED ''approval'' (uuid (uuids w)))
    \<lparr>arg_tenant := Some PACKET_TENANT_ID, arg_metadata := [(''kind'', JStr ''job.gate''), (''source_job_id'', JStr (job_pk j))]\<rparr>"
  show "create_request E ''job.gate'' (Some PACKET_TENANT_ID) (job_pk j) [] w
     = (Inr (demo_request j w), audited E ?x (w\<lparr>uuids := Suc (uuids w), approvals := approvals w @ [demo_request j w]\<rparr>))"
    by (simp add: create_request_run [OF assms] demo_request_def Let_def)
qed (simp_all add: audit_call_def)

lemma approve_demo_request:
  assumes "chain_ok E (audit_events w)" and "get_request k (Some PACKET_TENANT_ID) w = Some (demo_request j u)"
  shows "\<exists>x. approve E k actor note (Some PACKET_TENANT_ID) w
     = (Inr (decide_row ApprovalApproved (approved_decision actor note) (clock w) (demo_request j u)),
        audited E x (approvals_update (tupd appr_pk k (decide_row ApprovalApproved (approved_decision actor note) (clock w))) w))
     \<and> arg_action x = APPROVAL_APPROVED \<and> arg_resource_id x = uuid (uuids u) \<and> arg_tenant x = Some PACKET_TENANT_ID"
proof (rule exI, intro conjI)
  have "gate_verdict (demo_request j u) w = None"
    by (simp add: gate_verdict_def demo_request_def loads_def dget_def Let_def)
  moreover have "appr_status (demo_request j u) = ApprovalPending" by (simp add: demo_request_def)
  ultimately show "approve E k actor note (Some PACKET_TENANT_ID) w
     = (Inr (decide_row ApprovalApproved (approved_decision actor note) (clock w) (demo_request j u)),
        audited E (approve_audit (demo_request j u) actor note)
          (approvals_update (tupd appr_pk k (decide_row ApprovalApproved (approved_decision actor note) (clock w))) w))"
    by (simp add: approve_run [OF assms(1)] assms(2) Let_def)
qed (simp_all add: approve_audit_def audit_call_def demo_request_def)

text \<open>What the first half leaves, seen from the state it started in.\<close>

definition demo_acted :: "env \<Rightarrow> world \<Rightarrow> governed_action \<Rightarrow> world \<Rightarrow> bool" where
  "demo_acted E w a v \<longleftrightarrow> chain_ok E (audit_events v)
     \<and> governed_actions v = governed_actions w @ [a] \<and> ga_tenant a = Some PACKET_TENANT_ID
     \<and> ga_pk a = uuid (uuids w + 7) \<and> ga_status a = ''executed''
     \<and> list_ex (\<lambda>r. ais_tenant r = Some PACKET_TENANT_ID \<and> ais_name r = ''Pharmacy AI Documentation Assistant'') (ai_systems v)
     \<and> (\<exists>ap e1 e2. ga_approval a = Some (appr_pk ap) \<and> appr_pk ap \<noteq> [] \<and> get_request (appr_pk ap) (Some PACKET_TENANT_ID) v = Some ap
          \<and> appr_status ap = ApprovalApproved \<and> audit_events v = audit_events w @ [e1, e2]
          \<and> ae_action e1 = APPROVAL_CREATED \<and> ae_action e2 = APPROVAL_APPROVED \<and> ae_seq e1 < ae_seq e2
          \<and> list_all (\<lambda>e. ae_resource_id e = appr_pk ap \<and> ae_tenant e = Some PACKET_TENANT_ID \<and> hashed e) [e1, e2])"

lemma audited_seq:
  assumes "chain_ok E es"
  shows "ae_seq (audit_row E x (chain_head es) k n) = Some (int (length (filter hashed es)) + 1)"
  by (rule audit_row_good(1) [OF assms])

lemma audit_row_fields:
  "ae_action (audit_row E x h k n) = arg_action x" "ae_resource_id (audit_row E x h k n) = arg_resource_id x"
  "ae_tenant (audit_row E x h k n) = arg_tenant x"
  by (simp_all add: audit_row_def Let_def)

lemma seed_demo_action_run:
  assumes good: "good E w" and unused: "tenant_unused PACKET_TENANT_ID w"
  shows "\<exists>a v. seed_demo_action E w = (Inr a, v) \<and> demo_acted E w a v"
proof -
  let ?T = "Some PACKET_TENANT_ID"
  define ai where "ai = \<lparr>ais_pk = uuid (uuids w), ais_tenant = ?T, ais_name = ''Pharmacy AI Documentation Assistant'',
    ais_description = Some ''Demo AI system'', ais_owner = None, ais_created_at = clock w\<rparr>"
  define w1 where "w1 = w\<lparr>uuids := Suc (uuids w), ai_systems := ai_systems w @ [ai]\<rparr>"
  have s1: "create_ai_system ?T ''Pharmacy AI Documentation Assistant'' (Some ''Demo AI system'') None w = (Inr ai, w1)"
    using unused_fresh(1) [OF unused, of ai]
    by (simp add: create_ai_system_def new_id_def comp Let_def insert_unique_def ai_def w1_def)
  define flow where "flow = \<lparr>wf_pk = uuid (uuids w1), wf_tenant = ?T, wf_ai_system = Some (ais_pk ai), wf_name = ''Outbound email workflow'',
    wf_description = None, wf_created_at = clock w1\<rparr>"
  define w2 where "w2 = w1\<lparr>uuids := Suc (uuids w1), workflows := workflows w1 @ [flow]\<rparr>"
  have w1: "workflows w1 = workflows w" "approvals w1 = approvals w" "jobs w1 = jobs w" "governed_actions w1 = governed_actions w"
    "audit_events w1 = audit_events w" "uuids w1 = uuids w + 1" by (simp_all add: w1_def)
  have s2: "create_workflow ?T ''Outbound email workflow'' (Some (ais_pk ai)) None w1 = (Inr flow, w2)"
    using unused_fresh(2) [OF unused, of flow]
    by (simp add: create_workflow_def new_id_def comp Let_def insert_unique_def w1(1)) (simp add: flow_def w2_def w1(1))
  define sj where "sj = demo_job CHAT_ORCHESTRATE [(''demo'', JBool True)] w2"
  define w3 where "w3 = w2\<lparr>uuids := Suc (uuids w2), jobs := jobs w2 @ [sj]\<rparr>"
  have s3: "create_job CHAT_ORCHESTRATE (Some [(''demo'', JBool True)]) ?T None w2 = (Inr sj, w3)"
    by (simp add: create_demo_job sj_def w3_def)
  have w3: "approvals w3 = approvals w" "governed_actions w3 = governed_actions w" "audit_events w3 = audit_events w"
    "uuids w3 = uuids w + 3" by (simp_all add: w3_def w2_def w1)
  define ap where "ap = demo_request sj w3"
  have c3: "chain_ok E (audit_events w3)" using goodD(1) [OF good] by (simp add: w3)
  obtain x where x: "create_request E ''job.gate'' ?T (job_pk sj) [] w3
      = (Inr ap, audited E x (w3\<lparr>uuids := Suc (uuids w3), approvals := approvals w3 @ [ap]\<rparr>))"
    "arg_action x = APPROVAL_CREATED" "arg_resource_id x = uuid (uuids w3)" "arg_tenant x = ?T"
    using create_demo_request [OF c3, of sj] unfolding ap_def by blast
  define w4 where "w4 = audited E x (w3\<lparr>uuids := Suc (uuids w3), approvals := approvals w3 @ [ap]\<rparr>)"
  define e1 where "e1 = audit_row E x (chain_head (audit_events w)) (uuid (uuids w + 4)) (clock w3)"
  have w4: "approvals w4 = approvals w @ [ap]" "governed_actions w4 = governed_actions w"
    "audit_events w4 = audit_events w @ [e1]" "uuids w4 = uuids w + 5"
    by (simp_all add: w4_def audited_def w3 e1_def add.commute)
  have c4: "chain_ok E (audit_events w4)" unfolding w4_def by (rule chain_ok_audited) (simp add: c3)
  have pk: "appr_pk ap = uuid (uuids w + 3)" "appr_tenant ap = ?T" by (simp_all add: ap_def demo_request_def w3)
  have new: "tget appr_pk (uuid (uuids w + 3)) (approvals w) = None"
    using goodD(2) [OF good] by (auto simp: drawn_def tget_None_iff)
  have got: "get_request (appr_pk ap) ?T w4 = Some ap"
    by (simp add: get_request_def get_approval_def get_row_def w4 tget_append new scoped_row_def pk)
  define f where "f = decide_row ApprovalApproved (approved_decision ''compliance.officer'' (Some ''approved for demo'')) (clock w4)"
  obtain y where y: "approve E (appr_pk ap) ''compliance.officer'' (Some ''approved for demo'') ?T w4
      = (Inr (f ap), audited E y (approvals_update (tupd appr_pk (appr_pk ap) f) w4))"
    "arg_action y = APPROVAL_APPROVED" "arg_resource_id y = uuid (uuids w3)" "arg_tenant y = ?T"
    using approve_demo_request [OF c4 got [unfolded ap_def], of "''compliance.officer''" "Some ''approved for demo''"]
    unfolding ap_def [symmetric] f_def [symmetric] by blast
  define w5 where "w5 = audited E y (approvals_update (tupd appr_pk (appr_pk ap) f) w4)"
  define e2 where "e2 = audit_row E y (chain_head (audit_events w4)) (uuid (uuids w + 5)) (clock w4)"
  have f: "appr_pk (f r) = appr_pk r" "appr_tenant (f r) = appr_tenant r" "appr_status (f r) = ApprovalApproved" for r
    by (simp_all add: f_def decide_row_def)
  have w5: "approvals w5 = tupd appr_pk (appr_pk ap) f (approvals w4)" "governed_actions w5 = governed_actions w"
    "audit_events w5 = audit_events w @ [e1, e2]" "uuids w5 = uuids w + 6"
    by (simp_all add: w5_def audited_def w4 e2_def)
  have c5: "chain_ok E (audit_events w5)" unfolding w5_def by (rule chain_ok_audited) (simp add: c4)
  have got5: "get_request (appr_pk ap) ?T w5 = Some (f ap)"
    by (simp add: get_request_def get_approval_def get_row_def w5 tget_tupd [of appr_pk f, OF f(1)] w4 tget_append new scoped_row_def pk f(1,2))
  define ej where "ej = demo_job EMAIL_SEND_APPROVED [(''approval_id'', JStr (appr_pk ap))] w5"
  define w6 where "w6 = w5\<lparr>uuids := Suc (uuids w5), jobs := jobs w5 @ [ej]\<rparr>"
  have s6: "create_job EMAIL_SEND_APPROVED (Some [(''approval_id'', JStr (appr_pk ap))]) ?T None w5 = (Inr ej, w6)"
    by (simp add: create_demo_job ej_def w6_def)
  have w6: "governed_actions w6 = governed_actions w" "uuids w6 = uuids w + 7" by (simp_all add: w6_def w5)
  define a where "a = new_action (demo_action flow sj ap ej) w6"
  define w7 where "w7 = w6\<lparr>uuids := Suc (uuids w6), governed_actions := governed_actions w6 @ [a]\<rparr>"
  have a: "ga_tenant a = ?T" "ga_pk a = uuid (uuids w + 7)" "ga_status a = ''executed''" "ga_approval a = Some (appr_pk ap)"
    by (simp_all add: a_def new_action_def demo_action_def action_call_def w6)
  have s7: "create_governed_action (demo_action flow sj ap ej) w6 = (Inr a, w7)"
    using unused_fresh(3) [OF unused a(1)]
    by (simp add: create_governed_action_def new_id_def comp Let_def insert_unique_def w6 a_def new_action_def w7_def)
  have "seed_demo_action E w = (Inr a, w7)"
    by (simp add: seed_demo_action_def bindM_def s1 s2 s3 x(1) w4_def [symmetric] y(1) w5_def [symmetric] f s6 s7)
  moreover have "demo_acted E w a w7"
    unfolding demo_acted_def
  proof (intro conjI exI)
    show "chain_ok E (audit_events w7)" using c5 by (simp add: w7_def w6_def)
    show "governed_actions w7 = governed_actions w @ [a]" by (simp add: w7_def w6)
    have "ai_systems w7 = ai_systems w @ [ai]"
      by (simp add: w7_def w6_def w5_def w4_def w3_def w2_def w1_def audited_def)
    then show "list_ex (\<lambda>r. ais_tenant r = ?T \<and> ais_name r = ''Pharmacy AI Documentation Assistant'') (ai_systems w7)"
      by (simp add: ai_def)
    show "ga_approval a = Some (appr_pk (f ap))" "appr_pk (f ap) \<noteq> []" by (simp_all add: a(4) f pk)
    show "get_request (appr_pk (f ap)) ?T w7 = Some (f ap)"
      using got5 by (simp add: f(1) get_request_def get_approval_def get_row_def w7_def w6_def)
    show "audit_events w7 = audit_events w @ [e1, e2]" by (simp add: w7_def w6_def w5)
    have "ae_seq e1 = Some (int (length (filter hashed (audit_events w))) + 1)"
      unfolding e1_def using audited_seq c3 w3(3) by simp
    moreover have "ae_seq e2 = Some (int (length (filter hashed (audit_events w4))) + 1)"
      unfolding e2_def using audited_seq [OF c4] by simp
    ultimately show "ae_seq e1 < ae_seq e2" by (simp add: w4 e1_def)
    show "list_all (\<lambda>e. ae_resource_id e = appr_pk (f ap) \<and> ae_tenant e = ?T \<and> hashed e) [e1, e2]"
      by (simp add: e1_def e2_def audit_row_fields x y f pk w3)
  qed (simp_all add: a e1_def e2_def audit_row_fields x y f)
  ultimately show ?thesis by blast
qed

section \<open>The evidence\<close>

lemma seed_demo_action_only [evo]:
  "{TAiSystems, TWorkflows, TJobs, TApprovals, TAudit, TActions} \<subseteq> S \<Longrightarrow> evolves (only S) (seed_demo_action E)"
  unfolding seed_demo_action_def by (intro evo; simp)

lemma seed_demo_evidence_only [evo]:
  "{TActionControls, TArtifacts} \<subseteq> S \<Longrightarrow> evolves (only S) (seed_demo_evidence a)"
  unfolding seed_demo_evidence_def by (intro evo; simp)

text \<open>The catalog has the framework once, with controls, and regulations.\<close>

lemma demo_catalog:
  assumes "catalog_there w" and "current w"
  shows "\<exists>f c r. next_of (filter (\<lambda>f. fw_name f = ''NIST AI RMF'') (list_frameworks w)) = Inr f
     \<and> index_0 (list_controls (fw_pk f) w) = Inr c \<and> index_0 (list_regulations w) = Inr r"
proof -
  have "catalogued (hd FRAMEWORK_CONTROLS) w" "regulated (hd REGULATIONS) w"
    using assms(1) by (simp_all add: catalog_there_def FRAMEWORK_CONTROLS_def REGULATIONS_def)
  then obtain f c r where f: "found frameworks fw_ident (''NIST AI RMF'', FRAMEWORK_VERSION) f w"
    and c: "found controls ctl_ident (fw_pk f, ''GOVERN'') c w" and r: "r \<in> set (regulations w)"
    using found_in [of regulations] by (fastforce simp: catalogued_def regulated_def FRAMEWORK_CONTROLS_def)
  have version: "fw_version g = FRAMEWORK_VERSION" if "g \<in> set (frameworks w)" for g
    using assms(2) that by (simp add: current_def list_all_iff)
  have "filter (\<lambda>f. fw_name f = ''NIST AI RMF'') (frameworks w)
      = filter (\<lambda>f. fw_ident f = Some (''NIST AI RMF'', FRAMEWORK_VERSION)) (frameworks w)"
    by (rule filter_cong [OF refl]) (simp add: version fw_ident_def)
  then have "filter (\<lambda>f. fw_name f = ''NIST AI RMF'') (list_frameworks w) = [f]"
    using f by (simp add: list_frameworks_def filter_sort found_def)
  moreover have "c \<in> set (list_controls (fw_pk f) w)"
    using found_in [OF c] by (simp add: list_controls_def ctl_ident_def)
  then obtain c' cs where "list_controls (fw_pk f) w = c' # cs" by (cases "list_controls (fw_pk f) w") auto
  moreover have "r \<in> set (list_regulations w)" using r by (simp add: list_regulations_def)
  then obtain r' rs where "list_regulations w = r' # rs" by (cases "list_regulations w") auto
  ultimately show ?thesis by (simp add: next_of_def index_0_def)
qed

lemma seed_demo_evidence_run:
  assumes "catalog_there w" and "current w" and "list_all (\<lambda>r. ac_tenant r \<noteq> Some PACKET_TENANT_ID) (action_controls w)"
  shows "\<exists>m art. seed_demo_evidence a w = (Inr (ga_pk a), w\<lparr>uuids := uuids w + 2,
       action_controls := action_controls w @ [m], artifacts := artifacts w @ [art]\<rparr>)
     \<and> ac_tenant m = Some PACKET_TENANT_ID \<and> ac_action m = ga_pk a
     \<and> art_tenant art = Some PACKET_TENANT_ID \<and> art_action art = Some (ga_pk a) \<and> art_uri art = Some ''mem://demo/approval''"
proof -
  obtain f c r where fcr: "next_of (filter (\<lambda>f. fw_name f = ''NIST AI RMF'') (list_frameworks w)) = Inr f"
     "index_0 (list_controls (fw_pk f) w) = Inr c" "index_0 (list_regulations w) = Inr r"
    using demo_catalog [OF assms(1,2)] by blast
  define m where "m = \<lparr>ac_pk = uuid (uuids w), ac_tenant = Some PACKET_TENANT_ID, ac_action = ga_pk a, ac_control = ctl_pk c,
    ac_regulation = Some (reg_pk r), ac_rationale = Some ''demo mapping'', ac_created_at = clock w\<rparr>"
  define w1 where "w1 = w\<lparr>uuids := Suc (uuids w), action_controls := action_controls w @ [m]\<rparr>"
  have "\<not> list_ex (\<lambda>r'. same_action_control r' m) (action_controls w)"
    using assms(3) by (auto simp: list_all_iff list_ex_iff same_action_control_def sql_eq_def m_def)
  then have mapping: "create_action_control_mapping (Some PACKET_TENANT_ID) (ga_pk a) (ctl_pk c) (Some (reg_pk r)) (Some ''demo mapping'') w
      = (Inr m, w1)"
    by (simp add: create_action_control_mapping_def new_id_def comp Let_def insert_unique_def m_def w1_def)
  define art where "art = \<lparr>art_pk = uuid (uuids w1), art_tenant = Some PACKET_TENANT_ID, art_action = Some (ga_pk a),
    art_type = ''approval_record'', art_uri = Some ''mem://demo/approval'', art_metadata = None, art_created_at = clock w1\<rparr>"
  have artifact: "record_evidence_artifact (Some PACKET_TENANT_ID) ''approval_record'' (Some (ga_pk a)) (Some ''mem://demo/approval'') [] w1
      = (Inr art, w\<lparr>uuids := uuids w + 2, action_controls := action_controls w @ [m], artifacts := artifacts w @ [art]\<rparr>)"
    by (simp add: record_evidence_artifact_def new_id_def comp Let_def insert_row_def metadata_json_def art_def w1_def)
  have "seed_demo_evidence a w = (Inr (ga_pk a), w\<lparr>uuids := uuids w + 2,
       action_controls := action_controls w @ [m], artifacts := artifacts w @ [art]\<rparr>)"
    by (simp add: seed_demo_evidence_def comp fcr mapping artifact)
  then show ?thesis by (intro exI [of _ m] exI [of _ art]) (simp add: m_def art_def)
qed

section \<open>The packet\<close>

lemma filter_unused: "list_all (\<lambda>r. f r \<noteq> x) rs \<Longrightarrow> filter (\<lambda>r. f r = x \<and> P r) rs = []"
  by (auto simp: filter_empty_conv list_all_iff)

text \<open>The graph of the action, when the tenant had nothing else.\<close>

lemma demo_graph:
  assumes acted: "demo_acted E w a v" and unused: "tenant_unused PACKET_TENANT_ID w" and fresh: "drawn governed_actions ga_pk w"
    and rest: "u = v\<lparr>uuids := n, action_controls := ms @ [m], artifacts := arts @ [art]\<rparr>"
    and ms: "list_all (\<lambda>r. ac_tenant r \<noteq> Some PACKET_TENANT_ID) ms" "ac_tenant m = Some PACKET_TENANT_ID" "ac_action m = ga_pk a"
    and arts: "list_all (\<lambda>r. art_tenant r \<noteq> Some PACKET_TENANT_ID) arts" "art_tenant art = Some PACKET_TENANT_ID" "art_action art = Some (ga_pk a)"
  shows "\<exists>g ap e1 e2. get_evidence_graph (ga_pk a) (Some PACKET_TENANT_ID) u = Some g \<and> g_action g = a
     \<and> g_approval g = Some ap \<and> appr_status ap = ApprovalApproved \<and> g_audit_events g = [e1, e2]
     \<and> ae_action e1 = APPROVAL_CREATED \<and> ae_action e2 = APPROVAL_APPROVED
     \<and> g_control_mappings g = [mapping_view_of u m] \<and> g_artifacts g = [art]
     \<and> cr_status (verify_tenant_events E PACKET_TENANT_ID (audit_events u)) = ''verified''"
proof -
  let ?T = "Some PACKET_TENANT_ID"
  obtain ap e1 e2 where v: "chain_ok E (audit_events v)" "governed_actions v = governed_actions w @ [a]"
    "ga_tenant a = ?T" "ga_pk a = uuid (uuids w + 7)" "ga_approval a = Some (appr_pk ap)" "appr_pk ap \<noteq> []"
    "get_request (appr_pk ap) ?T v = Some ap" "appr_status ap = ApprovalApproved" "audit_events v = audit_events w @ [e1, e2]"
    "ae_action e1 = APPROVAL_CREATED" "ae_action e2 = APPROVAL_APPROVED" "ae_seq e1 < ae_seq e2"
    "list_all (\<lambda>e. ae_resource_id e = appr_pk ap \<and> ae_tenant e = ?T \<and> hashed e) [e1, e2]"
    using acted unfolding demo_acted_def by blast
  have "tget ga_pk (ga_pk a) (governed_actions w) = None"
    using fresh by (auto simp: drawn_def tget_None_iff v(4))
  then have action: "get_governed_action (ga_pk a) ?T u = Some a"
    by (simp add: get_governed_action_def get_row_def rest v(2) tget_append scoped_row_def v(3))
  have approval: "via (ga_approval a) (\<lambda>k. get_request k ?T u) = Some ap"
    using v(6,7) by (simp add: via_def v(5) get_request_def get_approval_def get_row_def rest)
  have old: "list_all (\<lambda>e. ae_tenant e \<noteq> ?T) (audit_events w)" using unused by (simp add: tenant_unused_def)
  have "appr_pk ap \<in> set (truthy_ids [Some (ga_pk a), ga_approval a, ga_source_job a, ga_execution_job a])"
    using v(5,6) by (auto simp: truthy_ids_def in_map_filter)
  then have "filter (\<lambda>e. in_tenant ae_tenant ?T e
      \<and> ae_resource_id e \<in> set (truthy_ids [Some (ga_pk a), ga_approval a, ga_source_job a, ga_execution_job a])) (audit_events u) = [e1, e2]"
    using v(13) filter_unused [OF old] by (simp add: rest v(9) in_tenant_def)
  then have events: "action_events a ?T u = [e1, e2]"
    using v(12) by (simp add: action_events_def)
  have mappings: "filter (\<lambda>m. in_tenant ac_tenant ?T m \<and> ac_action m = ga_pk a) (action_controls u) = [m]"
    using filter_unused [OF ms(1)] ms(2,3) by (simp add: rest in_tenant_def)
  have arts': "list_evidence_artifacts ?T (Some (ga_pk a)) u = [art]"
    using filter_unused [OF arts(1)] arts(2,3) by (simp add: list_evidence_artifacts_def rest in_tenant_def order_desc_def)
  have own: "filter (\<lambda>e. ae_tenant e = ?T \<and> hashed e) (audit_events u) = [e1, e2]"
    using v(13) filter_unused [OF old] by (simp add: rest v(9))
  moreover have "self_hashed E e" if "e \<in> set [e1, e2]" for e
  proof (rule linked_self_hashed)
    show "linked E (Some GENESIS_HASH) (filter hashed (audit_events v))" using v(1) by (simp add: chain_ok_def)
    show "e \<in> set (filter hashed (audit_events v))" using that v(13) by (auto simp: v(9))
  qed
  ultimately have "cr_status (verify_tenant_events E PACKET_TENANT_ID (audit_events u)) = ''verified''"
    by (simp add: tenant_verification)
  then show ?thesis
    using v(8,10,11) by (simp add: get_evidence_graph_def action approval events mappings arts' Let_def)
qed

lemma clash_second_system:
  assumes "list_ex (\<lambda>r. ais_tenant r = Some PACKET_TENANT_ID \<and> ais_name r = ''Pharmacy AI Documentation Assistant'') (ai_systems w)"
  shows "result (seed_demo_action E) w = Inl (IntegrityError ''uq_ai_system_tenant_name'')"
proof -
  have "list_ex (\<lambda>r'. same_ai_system r' \<lparr>ais_pk = uuid (uuids w), ais_tenant = Some PACKET_TENANT_ID,
      ais_name = ''Pharmacy AI Documentation Assistant'', ais_description = Some ''Demo AI system'', ais_owner = None,
      ais_created_at = clock w\<rparr>) (ai_systems w)"
    using assms by (auto simp: list_ex_iff same_ai_system_def sql_eq_def)
  then have "result (create_ai_system (Some PACKET_TENANT_ID) ''Pharmacy AI Documentation Assistant'' (Some ''Demo AI system'') None) w
      = Inl (IntegrityError ''uq_ai_system_tenant_name'')"
    by (simp add: create_ai_system_def new_id_def comp Let_def insert_unique_def)
  then show ?thesis
    by (cases "create_ai_system (Some PACKET_TENANT_ID) ''Pharmacy AI Documentation Assistant'' (Some ''Demo AI system'') None w")
      (simp add: seed_demo_action_def bindM_def)
qed

text \<open>The script up to the packet.\<close>

lemma demo_seeded:
  assumes "run E empty_world ls w" and "tenant_unused PACKET_TENANT_ID w"
  obtains a v3 v4 m art v where "seed_demo E w = (Inr (ga_pk a), v)" "demo_acted E v3 a v4"
    "tenant_unused PACKET_TENANT_ID v3" "drawn governed_actions ga_pk v3"
    "v = v4\<lparr>uuids := uuids v4 + 2, action_controls := action_controls v4 @ [m], artifacts := artifacts v4 @ [art]\<rparr>"
    "list_all (\<lambda>r. ac_tenant r \<noteq> Some PACKET_TENANT_ID) (action_controls v4)" "ac_tenant m = Some PACKET_TENANT_ID" "ac_action m = ga_pk a"
    "list_all (\<lambda>r. art_tenant r \<noteq> Some PACKET_TENANT_ID) (artifacts v4)" "art_tenant art = Some PACKET_TENANT_ID"
    "art_action art = Some (ga_pk a)" "art_uri art = Some ''mem://demo/approval''"
    "prepared PACKET_TENANT_ID v" "sent_log v = sent_log w"
proof -
  have w: "good E w" "reference w" "unique_keys w"
    using reached_good [OF assms(1)] reached_reference [OF assms(1)] by simp_all
  obtain v1 v2 v3 where seeded: "seed_rbac w = (Inr (), v1)" "seed_control_catalog v1 = (Inr (), v2)"
      "ensure_tenant PACKET_TENANT_ID PACKET_TENANT_NAME v2 = (Inr (), v3)"
    and v3: "prepared PACKET_TENANT_ID v3" "only (insert TTenants reference_tables) w v3"
    using prepare_run [OF w(2), of PACKET_TENANT_ID PACKET_TENANT_NAME] .
  have good3: "good E v3" using only_forward [OF v3(2)] w(1) by (simp add: forward_def)
  have same3: "ai_systems v3 = ai_systems w" "workflows v3 = workflows w" "governed_actions v3 = governed_actions w"
    "action_controls v3 = action_controls w" "artifacts v3 = artifacts w" "audit_events v3 = audit_events w" "sent_log v3 = sent_log w"
    using onlyD [OF v3(2), of TAiSystems] onlyD [OF v3(2), of TWorkflows] onlyD [OF v3(2), of TActions] onlyD [OF v3(2), of TActionControls]
      onlyD [OF v3(2), of TArtifacts] onlyD [OF v3(2), of TAudit] onlyD [OF v3(2), of TSent] by simp_all
  have unused3: "tenant_unused PACKET_TENANT_ID v3" using assms(2) by (simp add: tenant_unused_def same3)
  have fresh3: "drawn governed_actions ga_pk v3"
    using drawn_mono [OF unique_actions [OF w(3)] same3(3)] v3(2) by (simp add: only_def)
  obtain a v4 where v4: "seed_demo_action E v3 = (Inr a, v4)" "demo_acted E v3 a v4"
    using seed_demo_action_run [OF good3 unused3] by blast
  have o4: "only {TAiSystems, TWorkflows, TJobs, TApprovals, TAudit, TActions} v3 v4"
    using evolvesD [OF seed_demo_action_only [of "{TAiSystems, TWorkflows, TJobs, TApprovals, TAudit, TActions}" E], of v3] v4(1) by simp
  have ready4: "prepared PACKET_TENANT_ID v4" by (rule prepared_stays [OF v3(1) o4]) simp
  have none: "list_all (\<lambda>r. ac_tenant r \<noteq> Some PACKET_TENANT_ID) (action_controls v4)"
    "list_all (\<lambda>r. art_tenant r \<noteq> Some PACKET_TENANT_ID) (artifacts v4)"
    using assms(2) onlyD [OF o4, of TActionControls] onlyD [OF o4, of TArtifacts] by (simp_all add: tenant_unused_def same3)
  obtain m art v where ev: "seed_demo_evidence a v4 = (Inr (ga_pk a), v)"
    "v = v4\<lparr>uuids := uuids v4 + 2, action_controls := action_controls v4 @ [m], artifacts := artifacts v4 @ [art]\<rparr>"
    "ac_tenant m = Some PACKET_TENANT_ID" "ac_action m = ga_pk a" "art_tenant art = Some PACKET_TENANT_ID"
    "art_action art = Some (ga_pk a)" "art_uri art = Some ''mem://demo/approval''"
    using seed_demo_evidence_run [OF preparedD(2,5) [OF ready4] none(1), of a] by blast
  have o: "only {TActionControls, TArtifacts} v4 v"
    using evolvesD [OF seed_demo_evidence_only [of "{TActionControls, TArtifacts}" a], of v4] ev(1) by simp
  have "prepared PACKET_TENANT_ID v" by (rule prepared_stays [OF ready4 o]) simp
  moreover have "sent_log v = sent_log w" using onlyD [OF o, of TSent] onlyD [OF o4, of TSent] by (simp add: same3)
  moreover have "seed_demo E w = (Inr (ga_pk a), v)" by (simp add: seed_demo_def bindM_def seeded v4(1) ev(1))
  ultimately show ?thesis using that v4(2) unused3 fresh3 ev(2) none(1) ev(3,4) none(2) ev(5-7) by blast
qed

lemma demo_second_run:
  assumes "prepared PACKET_TENANT_ID v"
    and "list_ex (\<lambda>r. ais_tenant r = Some PACKET_TENANT_ID \<and> ais_name r = ''Pharmacy AI Documentation Assistant'') (ai_systems v)"
  shows "result (build_demo_packet E) v = Inl (IntegrityError ''uq_ai_system_tenant_name'')"
  using clash_second_system [OF assms(2), of E] prepare_again [OF assms(1)]
  by (cases "seed_demo_action E v") (simp add: build_demo_packet_def seed_demo_def bindM_def)

text \<open>C24: the demonstration packet is complete. On any database the system reaches where the demo tenant has no
  rows, the script succeeds; the packet it returns has no evidence gap, shows the action as approved (the
  status of its approval, not the stored \<open>executed\<close>), the creation and the approval of the request as its
  audit trail, verified, one control and the one artifact; and nothing is sent. The script is for a
  throwaway database: run again on the same one it fails on the name of the AI system.\<close>

theorem demo_packet_complete:
  assumes "run E empty_world ls w" and "tenant_unused PACKET_TENANT_ID w"
  shows "\<exists>p v. build_demo_packet E w = (Inr (Some p), v) \<and> p_gaps p = [] \<and> map pa_status (p_actions p) = [''approved'']
     \<and> map pp_status (p_approvals p) = [''approved''] \<and> map pv_action (p_events p) = [APPROVAL_CREATED, APPROVAL_APPROVED]
     \<and> cv_status (p_chain p) = ''verified'' \<and> length (p_controls p) = 1
     \<and> map pf_uri (p_artifacts p) = [Some ''mem://demo/approval''] \<and> sent_log v = sent_log w
     \<and> result (build_demo_packet E) v = Inl (IntegrityError ''uq_ai_system_tenant_name'')"
proof -
  let ?T = "Some PACKET_TENANT_ID"
  obtain a v3 v4 m art v where seed: "seed_demo E w = (Inr (ga_pk a), v)" "demo_acted E v3 a v4"
    "tenant_unused PACKET_TENANT_ID v3" "drawn governed_actions ga_pk v3"
    "v = v4\<lparr>uuids := uuids v4 + 2, action_controls := action_controls v4 @ [m], artifacts := artifacts v4 @ [art]\<rparr>"
    and rows: "list_all (\<lambda>r. ac_tenant r \<noteq> ?T) (action_controls v4)" "ac_tenant m = ?T" "ac_action m = ga_pk a"
    "list_all (\<lambda>r. art_tenant r \<noteq> ?T) (artifacts v4)" "art_tenant art = ?T" "art_action art = Some (ga_pk a)"
    "art_uri art = Some ''mem://demo/approval''"
    and after: "prepared PACKET_TENANT_ID v" "sent_log v = sent_log w"
    using demo_seeded [OF assms] .
  obtain g ap e1 e2 where g: "get_evidence_graph (ga_pk a) ?T v = Some g" "g_action g = a" "g_approval g = Some ap"
    "appr_status ap = ApprovalApproved" "g_audit_events g = [e1, e2]" "ae_action e1 = APPROVAL_CREATED" "ae_action e2 = APPROVAL_APPROVED"
    "g_control_mappings g = [mapping_view_of v m]" "g_artifacts g = [art]"
    "cr_status (verify_tenant_events E PACKET_TENANT_ID (audit_events v)) = ''verified''"
    using demo_graph [OF seed(2-5) rows(1-6)] by blast
  define p where "p = assemble E ''governed_action'' (Some (ga_pk a)) ?T [g] (g_workflow g) None v"
  have "build_action_packet E (ga_pk a) ?T v = Some p" by (simp add: build_action_packet_def g(1) p_def)
  then have first: "build_demo_packet E w = (Inr (Some p), v)"
    by (simp add: build_demo_packet_def bindM_def seed(1) gets_def)
  have acted: "ga_status a = ''executed''"
    "list_ex (\<lambda>r. ais_tenant r = ?T \<and> ais_name r = ''Pharmacy AI Documentation Assistant'') (ai_systems v4)"
    using seed(2) by (simp_all add: demo_acted_def)
  then have fields: "p_gaps p = []" "map pa_status (p_actions p) = [''approved'']" "map pp_status (p_approvals p) = [''approved'']"
    "map pv_action (p_events p) = [APPROVAL_CREATED, APPROVAL_APPROVED]" "cv_status (p_chain p) = ''verified''"
    "length (p_controls p) = 1" "map pf_uri (p_artifacts p) = [Some ''mem://demo/approval'']"
    using g(2-10) rows(7)
    by (simp_all add: p_def assemble_def Let_def packet_verify_def chain_view_of_def graph_gaps_def sorted_set_def
        action_entry_def effective_action_status_def approval_entries_def event_entry_def artifact_entry_def)
  have "result (build_demo_packet E) v = Inl (IntegrityError ''uq_ai_system_tenant_name'')"
    by (rule demo_second_run [OF after(1)]) (use acted(2) in \<open>simp add: seed(5)\<close>)
  then show ?thesis
    by (intro exI [of _ p] exI [of _ v] conjI first fields after(2))
qed

theorem demo_packet_complete_witness:
  "\<exists>p v. build_demo_packet sample_env empty_world = (Inr (Some p), v) \<and> p_gaps p = [] \<and> sent_log v = []"
proof -
  have run: "run sample_env empty_world [] empty_world" by (simp add: run_simps)
  have "tenant_unused PACKET_TENANT_ID empty_world" by (simp add: tenant_unused_def empty_world_def)
  moreover have "sent_log empty_world = []" by (simp add: empty_world_def)
  ultimately show ?thesis using demo_packet_complete [OF run] by auto
qed

end
