(* ===== verification/Migrations.thy ===== *)
theory Migrations
  imports AuditService
begin

text \<open>
  db/migration_scripts: the helpers that bring an existing database to the schema of db/models.py, with
  db/governance_seed.py and db/session.py. The typed tables of Model cannot hold a database that lacks
  columns, so this theory has a database of its own: a schema, which says the columns of each table, and
  rows that map columns to cells. A column a row does not mention is NULL, which is what an added column
  is in the rows that were there before.

  Modelled of the DDL are the tables, their columns, and the unique index that m002 makes; other
  indexes and the rollback of a failed script are not. A script that fails answers with its error.
\<close>

section \<open>Databases\<close>

datatype cell = Null | Num int | Txt string

type_synonym db_row = "(string \<times> cell) list"

record database =
  schema :: "string \<rightharpoonup> string list"
  rows :: "string \<Rightarrow> db_row list"
  indexes :: "string list"

definition at :: "string \<Rightarrow> db_row \<Rightarrow> cell" where
  "at c r = (case map_of r c of None \<Rightarrow> Null | Some v \<Rightarrow> v)"

definition set_cell :: "string \<Rightarrow> cell \<Rightarrow> db_row \<Rightarrow> db_row" where
  "set_cell c v r = AList.update c v r"

definition has_column :: "database \<Rightarrow> string \<Rightarrow> string \<Rightarrow> bool" where
  "has_column db t c \<longleftrightarrow> (case schema db t of None \<Rightarrow> False | Some cs \<Rightarrow> c \<in> set cs)"

text \<open>The tables of db/models.py (\<open>Base.metadata\<close>) and their columns.\<close>

definition MODEL_TABLES :: "(string \<times> string list) list" where
  "MODEL_TABLES =
     [(''tenants'', [''id'', ''name'', ''created_at'']),
      (''users'', [''id'', ''tenant_id'', ''email'', ''display_name'', ''is_active'', ''created_at'']),
      (''roles'', [''id'', ''tenant_id'', ''name'', ''description'', ''is_system'', ''created_at'']),
      (''permissions'', [''id'', ''name'', ''description'', ''created_at'']),
      (''user_roles'', [''id'', ''tenant_id'', ''user_id'', ''role_id'', ''created_at'']),
      (''role_permissions'', [''id'', ''role_id'', ''permission_id'', ''created_at'']),
      (''api_keys'', [''id'', ''tenant_id'', ''user_id'', ''name'', ''key_hash'', ''is_active'', ''created_at'', ''last_used_at'']),
      (''governance_policies'', [''id'', ''tenant_id'', ''name'', ''version'', ''rules_json'', ''is_active'', ''status'', ''effective_from'',
         ''effective_to'', ''created_by_user_id'', ''approved_by_user_id'', ''change_reason'', ''created_at'']),
      (''jobs'', [''id'', ''tenant_id'', ''type'', ''status'', ''idempotency_key'', ''payload_json'', ''attempts'', ''last_error'',
         ''run_after'', ''created_at'', ''updated_at'']),
      (''approval_requests'', [''id'', ''tenant_id'', ''kind'', ''status'', ''payload_json'', ''decided_at'', ''created_at'']),
      (''audit_events'', [''id'', ''action'', ''resource_type'', ''resource_id'', ''tenant_id'', ''actor'', ''actor_user_id'',
         ''actor_type'', ''action_type'', ''policy_version'', ''decision'', ''reason'', ''metadata_json'', ''seq'', ''previous_hash'',
         ''event_hash'', ''created_at'']),
      (''email_threads'', [''id'', ''tenant_id'', ''external_thread_id'', ''last_snippet'', ''last_intent'', ''source_job_id'',
         ''extra_json'', ''updated_at'']),
      (''email_deliveries'', [''id'', ''tenant_id'', ''thread_external_id'', ''gmail_draft_id'', ''gmail_message_id'', ''approval_id'',
         ''source_job_id'', ''execution_job_id'', ''status'', ''last_error'', ''updated_at'']),
      (''regulations'', [''id'', ''name'', ''jurisdiction'', ''description'', ''created_at'']),
      (''control_frameworks'', [''id'', ''name'', ''version'', ''description'', ''created_at'']),
      (''controls'', [''id'', ''framework_id'', ''code'', ''title'', ''description'', ''created_at'']),
      (''control_requirements'', [''id'', ''control_id'', ''requirement_text'', ''evidence_type'', ''created_at'']),
      (''industry_control_packs'', [''id'', ''tenant_id'', ''industry'', ''name'', ''description'', ''control_ids_json'', ''created_at'']),
      (''ai_systems'', [''id'', ''tenant_id'', ''name'', ''description'', ''owner_user_id'', ''created_at'']),
      (''data_sources'', [''id'', ''tenant_id'', ''name'', ''source_type'', ''metadata_json'', ''created_at'']),
      (''workflows'', [''id'', ''tenant_id'', ''ai_system_id'', ''name'', ''description'', ''created_at'']),
      (''governed_actions'', [''id'', ''tenant_id'', ''workflow_id'', ''source_job_id'', ''approval_id'', ''execution_job_id'',
         ''action_type'', ''policy_version'', ''policy_version_id'', ''policy_decision'', ''status'', ''metadata_json'',
         ''created_at'', ''updated_at'']),
      (''risk_assessments'', [''id'', ''tenant_id'', ''ai_system_id'', ''workflow_id'', ''risk_level'', ''summary'', ''metadata_json'',
         ''created_at'']),
      (''control_mappings'', [''id'', ''tenant_id'', ''source_type'', ''source_id'', ''control_id'', ''regulation_id'', ''rationale'',
         ''created_at'']),
      (''governed_action_control_mappings'', [''id'', ''tenant_id'', ''governed_action_id'', ''control_id'', ''regulation_id'',
         ''rationale'', ''created_at'']),
      (''evidence_artifacts'', [''id'', ''tenant_id'', ''governed_action_id'', ''artifact_type'', ''uri'', ''metadata_json'', ''created_at'']),
      (''evidence_packets'', [''id'', ''tenant_id'', ''scope_type'', ''scope_id'', ''start_at'', ''end_at'', ''summary_json'',
         ''json_export'', ''markdown_export'', ''created_by_user_id'', ''packet_hash'', ''version'', ''retention_status'',
         ''packet_signature'', ''signature_algorithm'', ''signed_at'', ''expires_at'', ''revoked_at'', ''revocation_reason'',
         ''created_at'']),
      (''action_overrides'', [''id'', ''tenant_id'', ''governed_action_id'', ''overridden_by_user_id'', ''reason'', ''authority_basis'',
         ''accepted_risk'', ''compensating_control'', ''expiration'', ''status'', ''created_at'']),
      (''trust_scores'', [''id'', ''tenant_id'', ''scope_type'', ''scope_id'', ''score'', ''score_band'', ''score_breakdown'', ''version'',
         ''created_at'']),
      (''trust_verifications'', [''id'', ''tenant_id'', ''subject_type'', ''subject_id'', ''status'', ''evidence_packet_id'',
         ''trust_score_id'', ''trust_score'', ''min_score_required'', ''requested_by_user_id'', ''reviewed_by_user_id'',
         ''decided_by_user_id'', ''review_notes'', ''decision_reason'', ''reviewed_at'', ''decided_at'', ''created_at''])]"

text \<open>\<open>Base.metadata.create_all\<close>: makes the tables that are missing, with their indexes, and leaves the others.\<close>

definition AUDIT_SEQ_INDEX :: string where "AUDIT_SEQ_INDEX = ''ix_audit_events_seq''"

definition create_all :: "database \<Rightarrow> database" where
  "create_all db = db\<lparr>schema := map_of MODEL_TABLES ++ schema db,
     indexes := (if schema db ''audit_events'' = None \<and> AUDIT_SEQ_INDEX \<notin> set (indexes db)
                 then indexes db @ [AUDIT_SEQ_INDEX] else indexes db)\<rparr>"

definition init_db :: "database \<Rightarrow> database" where
  "init_db db = create_all db"

definition DEFAULT_SQLITE_URL :: string where "DEFAULT_SQLITE_URL = ''sqlite:///./local.db''"

definition get_database_url :: "(string \<rightharpoonup> string) \<Rightarrow> string" where
  "get_database_url environ = (case environ ''DATABASE_URL'' of None \<Rightarrow> DEFAULT_SQLITE_URL | Some url \<Rightarrow> url)"

text \<open>\<open>engine.dialect.name == "sqlite"\<close>, and whether the connection is shared between threads.\<close>

definition is_sqlite :: "string \<Rightarrow> bool" where
  "is_sqlite url = startswith url ''sqlite''"

section \<open>What the scripts are made of\<close>

text \<open>\<open>_apply_sqlite_column_adds\<close>: the columns of each table of the list that it does not have yet.\<close>

definition add_columns :: "(string \<times> string list) list \<Rightarrow> database \<Rightarrow> database" where
  "add_columns adds db = db\<lparr>schema := fold (\<lambda>(t, cols) sch.
     case sch t of None \<Rightarrow> sch | Some cs \<Rightarrow> sch(t \<mapsto> cs @ filter (\<lambda>c. c \<notin> set cs) cols)) adds (schema db)\<rparr>"

text \<open>\<open>UPDATE t SET c = v WHERE p\<close>, skipped for a table that does not exist.\<close>

definition update_where :: "string \<Rightarrow> string \<Rightarrow> cell \<Rightarrow> (db_row \<Rightarrow> bool) \<Rightarrow> database \<Rightarrow> database" where
  "update_where t c v p db =
     (if schema db t = None then db
      else db\<lparr>rows := (rows db)(t := map (\<lambda>r. if p r then set_cell c v r else r) (rows db t))\<rparr>)"

definition insert_cells :: "string \<Rightarrow> db_row \<Rightarrow> database \<Rightarrow> database" where
  "insert_cells t r db = db\<lparr>rows := (rows db)(t := rows db t @ [r])\<rparr>"

definition same_cells :: "string list \<Rightarrow> db_row \<Rightarrow> db_row \<Rightarrow> bool" where
  "same_cells cs r r' \<longleftrightarrow> list_all (\<lambda>c. at c r \<noteq> Null \<and> at c r = at c r') cs"

text \<open>\<open>INSERT OR IGNORE\<close> (SQLite) skips a row that clashes with any key; \<open>ON CONFLICT (...) DO NOTHING\<close>
  only one that clashes with the named one.\<close>

definition insert_or_ignore :: "string \<Rightarrow> string list list \<Rightarrow> db_row \<Rightarrow> database \<Rightarrow> database" where
  "insert_or_ignore t uniques r db =
     (if list_ex (\<lambda>k. list_ex (\<lambda>r'. same_cells k r r') (rows db t)) uniques then db else insert_cells t r db)"

definition insert_on_conflict :: "string \<Rightarrow> string list \<Rightarrow> db_row \<Rightarrow> database \<Rightarrow> exn + database" where
  "insert_on_conflict t k r db =
     (if list_ex (\<lambda>r'. same_cells k r r') (rows db t) then Inr db
      else if list_ex (\<lambda>r'. same_cells [''id''] r r') (rows db t) then Inl (IntegrityError t)
      else Inr (insert_cells t r db))"

text \<open>No two rows agree on a key whose cells are not NULL.\<close>

fun unique_on :: "string list \<Rightarrow> db_row list \<Rightarrow> bool" where
  "unique_on k [] = True"
| "unique_on k (r # rs) \<longleftrightarrow> \<not> list_ex (\<lambda>r'. same_cells k r r') rs \<and> unique_on k rs"

fun each_step :: "('x \<Rightarrow> database \<Rightarrow> exn + database) \<Rightarrow> 'x list \<Rightarrow> database \<Rightarrow> exn + database" where
  "each_step f [] db = Inr db"
| "each_step f (x # xs) db = (case f x db of Inl e \<Rightarrow> Inl e | Inr db' \<Rightarrow> each_step f xs db')"

section \<open>The scripts\<close>

definition DEFAULT_TENANT_ID :: string where "DEFAULT_TENANT_ID = ''00000000-0000-4000-8000-000000000001''"
definition DEFAULT_TENANT_NAME :: string where "DEFAULT_TENANT_NAME = ''Default Development Tenant''"

definition INITIAL_CONTROL_FRAMEWORK_NAMES :: "string list" where
  "INITIAL_CONTROL_FRAMEWORK_NAMES =
     [''NIST AI RMF'', ''NIST Cybersecurity Framework 2.0'', ''ISO 27001'', ''ISO 42001'', ''SOC 2'', ''HIPAA'',
      ''GDPR'', ''EU AI Act'', ''NIST 800-53'', ''NIST 800-171'', ''CMMC'', ''SOX'', ''FFIEC / model risk'', ''DORA'']"

definition CONTROL_MAPPING_LANGUAGE :: string where
  "CONTROL_MAPPING_LANGUAGE =
     ''supports evidence collection, control mapping, audit readiness, and governance workflows''"

definition M001_COLUMNS :: "(string \<times> string list) list" where
  "M001_COLUMNS =
     [(''jobs'', [''tenant_id'']), (''approval_requests'', [''tenant_id'']), (''email_threads'', [''tenant_id'']),
      (''email_deliveries'', [''tenant_id'']),
      (''audit_events'', [''tenant_id'', ''actor_user_id'', ''actor_type'', ''action_type'', ''policy_version'',
         ''decision'', ''reason'', ''previous_hash'', ''event_hash''])]"

definition TENANT_TABLES :: "string list" where
  "TENANT_TABLES = [''jobs'', ''approval_requests'', ''email_threads'', ''email_deliveries'', ''audit_events'']"

text \<open>\<open>UPDATE t SET tenant_id = default WHERE tenant_id IS NULL\<close>; of the five tables only the threads have a
  constraint on the tenant.\<close>

definition fill_tenant :: "string \<Rightarrow> database \<Rightarrow> exn + database" where
  "fill_tenant t db =
     (let db' = update_where t ''tenant_id'' (Txt DEFAULT_TENANT_ID) (\<lambda>r. at ''tenant_id'' r = Null) db in
      if t = ''email_threads'' \<and> \<not> unique_on [''tenant_id'', ''external_thread_id''] (rows db' t)
      then Inl (IntegrityError ''uq_email_thread_tenant_ext'') else Inr db')"

definition default_tenant_row :: "time \<Rightarrow> db_row" where
  "default_tenant_row now = [(''id'', Txt DEFAULT_TENANT_ID), (''name'', Txt DEFAULT_TENANT_NAME), (''created_at'', Num now)]"

definition m001_columns :: "time \<Rightarrow> database \<Rightarrow> exn + database" where
  "m001_columns now db =
     each_step fill_tenant TENANT_TABLES
       (insert_or_ignore ''tenants'' [[''id'']] (default_tenant_row now) (add_columns M001_COLUMNS db))"

definition two_digits :: "nat \<Rightarrow> string" where
  "two_digits n = (if n < 10 then CHR ''0'' # str_nat n else str_nat n)"

definition framework_seed_row :: "time \<Rightarrow> nat \<times> string \<Rightarrow> db_row" where
  "framework_seed_row now entry =
     [(''id'', Txt (''framework-seed-'' @ two_digits (fst entry))), (''name'', Txt (snd entry)), (''version'', Txt ''current''),
      (''description'', Txt CONTROL_MAPPING_LANGUAGE), (''created_at'', Num now)]"

definition seed_framework_name :: "bool \<Rightarrow> time \<Rightarrow> nat \<times> string \<Rightarrow> database \<Rightarrow> exn + database" where
  "seed_framework_name sqlite now entry db =
     (if sqlite
      then Inr (insert_or_ignore ''control_frameworks'' [[''id''], [''name'', ''version'']] (framework_seed_row now entry) db)
      else insert_on_conflict ''control_frameworks'' [''name'', ''version''] (framework_seed_row now entry) db)"

definition seed_reference_rows :: "bool \<Rightarrow> time \<Rightarrow> database \<Rightarrow> exn + database" where
  "seed_reference_rows sqlite now db = each_step (seed_framework_name sqlite now) (List.enumerate 1 INITIAL_CONTROL_FRAMEWORK_NAMES) db"

definition m001 :: "bool \<Rightarrow> time \<Rightarrow> database \<Rightarrow> exn + database" where
  "m001 sqlite now db =
     (case (if sqlite then m001_columns now (create_all db) else Inr (create_all db)) of
        Inl e \<Rightarrow> Inl e
      | Inr db' \<Rightarrow> seed_reference_rows sqlite now db')"

definition M002_COLUMNS :: "(string \<times> string list) list" where
  "M002_COLUMNS = [(''audit_events'', [''seq''])]"

text \<open>\<open>CREATE UNIQUE INDEX IF NOT EXISTS\<close> fails on rows that are not unique.\<close>

definition create_seq_index :: "database \<Rightarrow> exn + database" where
  "create_seq_index db =
     (if schema db ''audit_events'' = None \<or> AUDIT_SEQ_INDEX \<in> set (indexes db) then Inr db
      else if \<not> unique_on [''seq''] (rows db ''audit_events'') then Inl (IntegrityError AUDIT_SEQ_INDEX)
      else Inr (db\<lparr>indexes := indexes db @ [AUDIT_SEQ_INDEX]\<rparr>))"

definition m002 :: "bool \<Rightarrow> database \<Rightarrow> exn + database" where
  "m002 sqlite db =
     (if sqlite then create_seq_index (add_columns M002_COLUMNS (create_all db)) else Inr (create_all db))"

definition M003_COLUMNS :: "(string \<times> string list) list" where
  "M003_COLUMNS = [(''evidence_packets'', [''packet_hash'', ''version'', ''retention_status''])]"

definition m003 :: "bool \<Rightarrow> database \<Rightarrow> database" where
  "m003 sqlite db =
     (if sqlite
      then update_where ''evidence_packets'' ''retention_status'' (Txt ''active'') (\<lambda>r. at ''retention_status'' r = Null)
             (add_columns M003_COLUMNS (create_all db))
      else create_all db)"

definition M004_COLUMNS :: "(string \<times> string list) list" where
  "M004_COLUMNS =
     [(''governance_policies'', [''status'', ''effective_from'', ''effective_to'', ''created_by_user_id'',
         ''approved_by_user_id'', ''change_reason'']),
      (''governed_actions'', [''policy_version_id''])]"

definition m004 :: "bool \<Rightarrow> database \<Rightarrow> database" where
  "m004 sqlite db =
     (if sqlite
      then update_where ''governance_policies'' ''status'' (Txt ''draft'') (\<lambda>r. at ''status'' r = Null)
             (update_where ''governance_policies'' ''status'' (Txt ''active'')
                (\<lambda>r. at ''status'' r = Null \<and> at ''is_active'' r = Num 1)
                (add_columns M004_COLUMNS (create_all db)))
      else create_all db)"

definition m005 :: "database \<Rightarrow> database" where "m005 db = create_all db"
definition m006 :: "database \<Rightarrow> database" where "m006 db = create_all db"

definition M007_COLUMNS :: "(string \<times> string list) list" where
  "M007_COLUMNS =
     [(''evidence_packets'', [''packet_signature'', ''signature_algorithm'', ''signed_at'', ''expires_at'',
         ''revoked_at'', ''revocation_reason''])]"

definition m007 :: "bool \<Rightarrow> database \<Rightarrow> database" where
  "m007 sqlite db = (if sqlite then add_columns M007_COLUMNS (create_all db) else create_all db)"

definition m008 :: "database \<Rightarrow> database" where "m008 db = create_all db"

text \<open>The scripts in their order.\<close>

definition migrate_all :: "bool \<Rightarrow> time \<Rightarrow> database \<Rightarrow> exn + database" where
  "migrate_all sqlite now db =
     (case m001 sqlite now db of
        Inl e \<Rightarrow> Inl e
      | Inr db1 \<Rightarrow>
          (case m002 sqlite db1 of
             Inl e \<Rightarrow> Inl e
           | Inr db2 \<Rightarrow> Inr (m008 (m007 sqlite (m006 (m005 (m004 sqlite (m003 sqlite db2))))))))"

section \<open>Frames\<close>

lemma create_all_frame [simp]:
  "rows (create_all db) = rows db" "schema (create_all db) = map_of MODEL_TABLES ++ schema db"
  "set (indexes db) \<subseteq> set (indexes (create_all db))"
  by (auto simp: create_all_def)

lemma add_columns_frame [simp]:
  "rows (add_columns adds db) = rows db" "indexes (add_columns adds db) = indexes db"
  by (simp_all add: add_columns_def)

lemma update_where_frame [simp]:
  "schema (update_where t c v p db) = schema db" "indexes (update_where t c v p db) = indexes db"
  "rows (update_where t c v p db) t' =
     (if t' = t \<and> schema db t \<noteq> None then map (\<lambda>r. if p r then set_cell c v r else r) (rows db t) else rows db t')"
  by (auto simp: update_where_def)

lemma insert_cells_frame [simp]:
  "schema (insert_cells t r db) = schema db" "indexes (insert_cells t r db) = indexes db"
  "rows (insert_cells t r db) t' = (if t' = t then rows db t @ [r] else rows db t')"
  by (simp_all add: insert_cells_def)

lemma at_set_cell [simp]: "at c' (set_cell c v r) = (if c' = c then v else at c' r)"
  by (simp add: at_def set_cell_def update_conv)

text \<open>The columns of a table after an addition.\<close>

definition columns_of :: "database \<Rightarrow> string \<Rightarrow> string set" where
  "columns_of db t = (case schema db t of None \<Rightarrow> {} | Some cs \<Rightarrow> set cs)"

lemma has_column_columns: "has_column db t c \<longleftrightarrow> c \<in> columns_of db t"
  by (simp add: has_column_def columns_of_def split: option.split)

lemma add_columns_Cons:
  "add_columns ((t, cols) # adds) db = add_columns adds (add_columns [(t, cols)] db)"
  by (simp add: add_columns_def)

lemma add_columns_Nil [simp]: "add_columns [] db = db"
  by (simp add: add_columns_def)

lemma add_columns_one:
  "schema (add_columns [(t, cols)] db) t' =
     (if t' = t then map_option (\<lambda>cs. cs @ filter (\<lambda>c. c \<notin> set cs) cols) (schema db t) else schema db t')"
  by (simp add: add_columns_def split: option.split)

lemma add_columns_done:
  "list_all (\<lambda>(t, cols). list_all (has_column db t) cols) adds \<Longrightarrow> add_columns adds db = db"
proof (induction adds)
  case (Cons add adds)
  obtain t cols where add: "add = (t, cols)" by (cases add)
  have has: "list_all (has_column db t) cols" using Cons.prems add by simp
  have "filter (\<lambda>c. c \<notin> set cs) cols = []" if "schema db t = Some cs" for cs
    using has that by (induction cols) (simp_all add: has_column_def)
  then have "schema (add_columns [(t, cols)] db) = schema db"
    by (intro ext) (cases "schema db t"; simp add: add_columns_one)
  then have "add_columns [(t, cols)] db = db" by (intro database.equality) simp_all
  then have "add_columns (add # adds) db = add_columns adds db" unfolding add by (subst add_columns_Cons) simp
  also have "\<dots> = db" using Cons.IH Cons.prems by simp
  finally show ?case .
qed simp

section \<open>Nothing stored is lost\<close>

text \<open>
  \<open>preserves db db'\<close>: every table keeps its columns (in place, new ones after them), every index stays, and every
  row is still at its place with the value of every cell that had one. Only NULLs are filled in, and
  rows are only added after the others.
\<close>

definition row_preserved :: "db_row \<Rightarrow> db_row \<Rightarrow> bool" where
  "row_preserved r r' \<longleftrightarrow> (\<forall>c. at c r \<noteq> Null \<longrightarrow> at c r' = at c r)"

definition rows_preserved :: "db_row list \<Rightarrow> db_row list \<Rightarrow> bool" where
  "rows_preserved rs rs' \<longleftrightarrow> (\<exists>old new. rs' = old @ new \<and> list_all2 row_preserved rs old)"

definition preserves :: "database \<Rightarrow> database \<Rightarrow> bool" where
  "preserves db db' \<longleftrightarrow>
     (\<forall>t cs. schema db t = Some cs \<longrightarrow> (\<exists>new. schema db' t = Some (cs @ new)))
     \<and> (\<forall>t. rows_preserved (rows db t) (rows db' t))
     \<and> set (indexes db) \<subseteq> set (indexes db')"

lemma row_preserved_refl [simp]: "row_preserved r r"
  by (simp add: row_preserved_def)

lemma rows_preserved_append [simp]: "rows_preserved rs (rs @ new)"
  unfolding rows_preserved_def by (intro exI [of _ rs] exI [of _ new]) (simp add: list_all2_conv_all_nth)

lemma rows_preserved_refl [simp]: "rows_preserved rs rs"
  using rows_preserved_append [of rs "[]"] by simp

lemma rows_preserved_map: "(\<And>r. row_preserved r (f r)) \<Longrightarrow> rows_preserved rs (map f rs)"
  unfolding rows_preserved_def by (intro exI [of _ "map f rs"] exI [of _ "[]"]) (simp add: list_all2_conv_all_nth)

lemma rows_preserved_trans:
  assumes "rows_preserved xs ys" and "rows_preserved ys zs"
  shows "rows_preserved xs zs"
proof -
  obtain old new where y: "ys = old @ new" "list_all2 row_preserved xs old" using assms(1) by (auto simp: rows_preserved_def)
  obtain old' new' where z: "zs = old' @ new'" "list_all2 row_preserved (old @ new) old'"
    using assms(2) y(1) by (auto simp: rows_preserved_def)
  then obtain us vs where u: "old' = us @ vs" "list_all2 row_preserved old us" by (auto simp: list_all2_append1)
  have "list_all2 row_preserved xs us"
    by (rule list_all2_trans [OF _ y(2) u(2)]) (auto simp: row_preserved_def)
  then show ?thesis unfolding rows_preserved_def using z(1) u(1) by auto
qed

lemma preserves_refl [simp]: "preserves db db"
  by (simp add: preserves_def)

lemma preserves_trans:
  assumes "preserves a b" and "preserves b c"
  shows "preserves a c"
  unfolding preserves_def
proof (intro conjI allI impI)
  fix t cs assume "schema a t = Some cs"
  then obtain new where "schema b t = Some (cs @ new)" using assms(1) unfolding preserves_def by blast
  then obtain new' where "schema c t = Some ((cs @ new) @ new')" using assms(2) unfolding preserves_def by blast
  then show "\<exists>new. schema c t = Some (cs @ new)" by auto
next
  show "rows_preserved (rows a t) (rows c t)" for t
    using assms rows_preserved_trans unfolding preserves_def by blast
  show "set (indexes a) \<subseteq> set (indexes c)" using assms by (auto simp: preserves_def)
qed

text \<open>A step that keeps the schema and the indexes, by its rows.\<close>

lemma preserves_rows:
  "schema db' = schema db \<Longrightarrow> indexes db' = indexes db \<Longrightarrow> (\<And>t. rows_preserved (rows db t) (rows db' t)) \<Longrightarrow> preserves db db'"
  by (simp add: preserves_def)

lemma preserves_create_all [simp]: "preserves db (create_all db)"
  by (simp add: preserves_def map_add_def)

lemma preserves_add_columns [simp]: "preserves db (add_columns adds db)"
proof (induction adds arbitrary: db)
  case (Cons add adds)
  obtain t cols where add: "add = (t, cols)" by (cases add)
  have "preserves db (add_columns [(t, cols)] db)"
    by (auto simp: preserves_def add_columns_one)
  then show ?case unfolding add by (subst add_columns_Cons) (rule preserves_trans [OF _ Cons])
qed simp

lemma preserves_update_null: "(\<And>r. p r \<Longrightarrow> at c r = Null) \<Longrightarrow> preserves db (update_where t c v p db)"
  by (rule preserves_rows) (auto intro!: rows_preserved_map simp: row_preserved_def)

lemma preserves_insert_cells: "preserves db (insert_cells t r db)"
  by (rule preserves_rows) auto

lemma preserves_insert_or_ignore [simp]: "preserves db (insert_or_ignore t k r db)"
  by (simp add: insert_or_ignore_def preserves_insert_cells)

lemma each_step_preserved:
  assumes "\<And>x db db'. f x db = Inr db' \<Longrightarrow> preserves db db'"
  shows "each_step f xs db = Inr db' \<Longrightarrow> preserves db db'"
proof (induction xs arbitrary: db)
  case (Cons x xs)
  then obtain db1 where "f x db = Inr db1" "each_step f xs db1 = Inr db'" by (auto split: sum.splits)
  then show ?case using assms Cons.IH preserves_trans by blast
qed simp

lemma preserves_fill_tenant: "fill_tenant t db = Inr db' \<Longrightarrow> preserves db db'"
  by (auto simp: fill_tenant_def Let_def intro: preserves_update_null split: if_splits)

lemma preserves_seed: "seed_framework_name sqlite now e db = Inr db' \<Longrightarrow> preserves db db'"
  by (auto simp: seed_framework_name_def insert_on_conflict_def preserves_insert_cells split: if_splits)

text \<open>One more step after the others.\<close>

lemma preserves_then:
  "preserves a b \<Longrightarrow> preserves a (create_all b)" "preserves a b \<Longrightarrow> preserves a (add_columns adds b)"
  "preserves a b \<Longrightarrow> preserves a (insert_or_ignore t k r b)"
  "preserves a b \<Longrightarrow> (\<And>r. p r \<Longrightarrow> at c r = Null) \<Longrightarrow> preserves a (update_where t c v p b)"
  using preserves_create_all preserves_add_columns preserves_insert_or_ignore preserves_update_null preserves_trans by metis+

lemma preserves_fills: "each_step fill_tenant ts db = Inr db' \<Longrightarrow> preserves db db'"
  using each_step_preserved [of fill_tenant] preserves_fill_tenant by blast

lemma preserves_each_seed: "each_step (seed_framework_name sqlite now) es db = Inr db' \<Longrightarrow> preserves db db'"
  using each_step_preserved [of "seed_framework_name sqlite now"] preserves_seed by blast

lemma preserves_m001_columns: "m001_columns now db = Inr db' \<Longrightarrow> preserves db db'"
  unfolding m001_columns_def
  by (drule preserves_fills) (rule preserves_trans [OF preserves_then(3) [OF preserves_add_columns]])

lemma preserves_seeds: "seed_reference_rows sqlite now db = Inr db' \<Longrightarrow> preserves db db'"
  unfolding seed_reference_rows_def by (rule preserves_each_seed)

lemma preserves_m001:
  assumes "m001 sqlite now db = Inr db'"
  shows "preserves db db'"
proof -
  from assms obtain db1 where db1: "(if sqlite then m001_columns now (create_all db) else Inr (create_all db)) = Inr db1"
    "seed_reference_rows sqlite now db1 = Inr db'" by (auto simp: m001_def split: sum.splits)
  have "preserves (create_all db) db1" using db1(1) by (auto split: if_splits dest: preserves_m001_columns)
  then show ?thesis using preserves_seeds [OF db1(2)] preserves_create_all preserves_trans by blast
qed

lemma preserves_index: "create_seq_index db = Inr db' \<Longrightarrow> preserves db db'"
  by (auto simp: create_seq_index_def preserves_def split: if_splits)

lemma preserves_m002: "m002 sqlite db = Inr db' \<Longrightarrow> preserves db db'"
  using preserves_trans [OF preserves_then(2) [OF preserves_create_all] preserves_index]
  by (cases sqlite) (auto simp: m002_def)

lemma preserves_rest [simp]:
  "preserves db (m003 sqlite db)" "preserves db (m004 sqlite db)" "preserves db (m005 db)" "preserves db (m006 db)"
  "preserves db (m007 sqlite db)" "preserves db (m008 db)"
  by (cases sqlite; simp only: m003_def m004_def m005_def m006_def m007_def m008_def if_True if_False;
      intro preserves_then preserves_refl; simp)+

section \<open>Where the scripts lead\<close>

definition ADDED_COLUMNS :: "(string \<times> string list) list" where
  "ADDED_COLUMNS = M001_COLUMNS @ M002_COLUMNS @ M003_COLUMNS @ M004_COLUMNS @ M007_COLUMNS"

definition has_table :: "database \<Rightarrow> string \<Rightarrow> bool" where
  "has_table db t \<longleftrightarrow> schema db t \<noteq> None"

definition has_columns :: "database \<Rightarrow> (string \<times> string list) list \<Rightarrow> bool" where
  "has_columns db adds = list_all (\<lambda>(t, cols). list_all (has_column db t) cols) adds"

definition filled :: "string \<Rightarrow> string \<Rightarrow> database \<Rightarrow> bool" where
  "filled t c db = list_all (\<lambda>r. at c r \<noteq> Null) (rows db t)"

definition present :: "string \<Rightarrow> string list list \<Rightarrow> db_row \<Rightarrow> database \<Rightarrow> bool" where
  "present t uniques r db = list_ex (\<lambda>k. list_ex (same_cells k r) (rows db t)) uniques"

definition threads_unique :: "database \<Rightarrow> bool" where
  "threads_unique db = unique_on [''tenant_id'', ''external_thread_id''] (rows db ''email_threads'')"

text \<open>A database that has been through all of the scripts.\<close>

definition settled :: "database \<Rightarrow> bool" where
  "settled db \<longleftrightarrow>
     list_all (has_table db) (map fst MODEL_TABLES) \<and> has_columns db ADDED_COLUMNS
     \<and> AUDIT_SEQ_INDEX \<in> set (indexes db)
     \<and> present ''tenants'' [[''id'']] (default_tenant_row 0) db
     \<and> list_all (\<lambda>t. filled t ''tenant_id'' db) TENANT_TABLES \<and> threads_unique db
     \<and> list_all (\<lambda>e. present ''control_frameworks'' [[''id''], [''name'', ''version'']] (framework_seed_row 0 e) db)
         (List.enumerate 1 INITIAL_CONTROL_FRAMEWORK_NAMES)
     \<and> filled ''evidence_packets'' ''retention_status'' db \<and> filled ''governance_policies'' ''status'' db"

text \<open>The tables the scripts write to.\<close>

definition TOUCHED_TABLES :: "string list" where
  "TOUCHED_TABLES = TENANT_TABLES
     @ [''evidence_packets'', ''governance_policies'', ''governed_actions'', ''tenants'', ''control_frameworks'']"

lemma touched_tables: "set TOUCHED_TABLES \<subseteq> set (map fst MODEL_TABLES)"
  by (simp add: MODEL_TABLES_def TOUCHED_TABLES_def TENANT_TABLES_def)

lemma created_tables: "list_all (has_table (create_all db)) (map fst MODEL_TABLES)"
  by (auto simp: list_all_iff has_table_def map_add_def split: option.split dest: weak_map_of_SomeI)

lemma has_column_preserved: "preserves db db' \<Longrightarrow> has_column db t c \<Longrightarrow> has_column db' t c"
  unfolding preserves_def has_column_def by (cases "schema db t") (simp, metis Un_iff option.simps(5) set_append)

lemma has_columns_preserved:
  assumes "preserves db db'" and "has_columns db adds"
  shows "has_columns db' adds"
  using assms(2) has_column_preserved [OF assms(1)] unfolding has_columns_def list_all_iff by fast

lemma table_preserved: "preserves db db' \<Longrightarrow> has_table db t \<Longrightarrow> has_table db' t"
  unfolding preserves_def has_table_def by fastforce

lemma tables_preserved: "preserves db db' \<Longrightarrow> list_all (has_table db) ts \<Longrightarrow> list_all (has_table db') ts"
  by (auto simp: list_all_iff dest: table_preserved)

lemma add_columns_has:
  "list_all (has_table db) (map fst adds) \<Longrightarrow> has_columns (add_columns adds db) adds"
proof (induction adds arbitrary: db)
  case (Cons add adds)
  obtain t cols where add: "add = (t, cols)" by (cases add)
  let ?db = "add_columns [(t, cols)] db"
  have "list_all (has_table ?db) (map fst adds)"
    using Cons.prems by (intro tables_preserved [OF preserves_add_columns]) simp
  then have "has_columns (add_columns adds ?db) adds" by (rule Cons.IH)
  moreover have "list_all (has_column ?db t) cols"
    using Cons.prems add by (auto simp: has_table_def has_column_def add_columns_one list_all_iff)
  ultimately show ?case
    unfolding add by (subst add_columns_Cons, simp add: has_columns_def)
      (auto simp: list_all_iff intro: has_column_preserved [OF preserves_add_columns])
qed (simp add: has_columns_def)

lemma present_preserved: "preserves db db' \<Longrightarrow> present t ks r db \<Longrightarrow> present t ks r db'"
proof -
  assume "preserves db db'" and p: "present t ks r db"
  then have "rows_preserved (rows db t) (rows db' t)" by (simp add: preserves_def)
  then obtain old new where rows: "rows db' t = old @ new" "list_all2 row_preserved (rows db t) old"
    by (auto simp: rows_preserved_def)
  from p obtain k r1 where k: "k \<in> set ks" "r1 \<in> set (rows db t)" "same_cells k r r1"
    by (auto simp: present_def list_ex_iff)
  then obtain r2 where "r2 \<in> set old" "row_preserved r1 r2"
    using rows(2) by (metis in_set_conv_nth list_all2_conv_all_nth)
  moreover have "same_cells k r r2" using k(3) \<open>row_preserved r1 r2\<close> by (fastforce simp: same_cells_def row_preserved_def list_all_iff)
  ultimately show "present t ks r db'" using k rows(1) by (auto simp: present_def list_ex_iff)
qed

text \<open>The fill of the tenant column.\<close>

definition fill_rows :: "db_row list \<Rightarrow> db_row list" where
  "fill_rows rs = map (\<lambda>r. if at ''tenant_id'' r = Null then set_cell ''tenant_id'' (Txt DEFAULT_TENANT_ID) r else r) rs"

lemma fill_rows_idem [simp]: "fill_rows (fill_rows rs) = fill_rows rs"
  by (simp add: fill_rows_def)

lemma fill_rows_filled: "list_all (\<lambda>r. at ''tenant_id'' r \<noteq> Null) (fill_rows rs)"
  by (auto simp: fill_rows_def list_all_iff)

lemma fill_rows_done: "list_all (\<lambda>r. at ''tenant_id'' r \<noteq> Null) rs \<Longrightarrow> fill_rows rs = rs"
  by (simp add: fill_rows_def list_all_iff map_idI)

lemma fill_tenant_run:
  "fill_tenant t db =
     (let db' = (if has_table db t then db\<lparr>rows := (rows db)(t := fill_rows (rows db t))\<rparr> else db) in
      if t = ''email_threads'' \<and> threads_unique db' = False
      then Inl (IntegrityError ''uq_email_thread_tenant_ext'') else Inr db')"
  by (auto simp: fill_tenant_def update_where_def fill_rows_def has_table_def threads_unique_def Let_def)

lemma has_table_rows [simp]: "has_table (db\<lparr>rows := x\<rparr>) t = has_table db t"
  by (simp add: has_table_def)

lemma fills_run:
  assumes "list_all (has_table db) ts" and "each_step fill_tenant ts db = Inr db'"
  shows "schema db' = schema db \<and> indexes db' = indexes db
     \<and> (\<forall>t. rows db' t = (if t \<in> set ts then fill_rows (rows db t) else rows db t))
     \<and> (''email_threads'' \<in> set ts \<longrightarrow> threads_unique db')"
  using assms
proof (induction ts arbitrary: db)
  case (Cons t ts)
  let ?db = "db\<lparr>rows := (rows db)(t := fill_rows (rows db t))\<rparr>"
  have one: "fill_tenant t db = Inr ?db" "t = ''email_threads'' \<Longrightarrow> threads_unique ?db"
    using Cons.prems by (auto simp: fill_tenant_run Let_def split: if_splits sum.splits)
  then have "list_all (has_table ?db) ts" "each_step fill_tenant ts ?db = Inr db'"
    using Cons.prems by (simp_all add: list_all_iff)
  note rest = Cons.IH [OF this]
  show ?case
  proof (cases "''email_threads'' \<in> set ts")
    case False
    then have "rows db' ''email_threads'' = rows ?db ''email_threads''" using rest by simp
    then show ?thesis using rest one(2) False by (auto simp: threads_unique_def)
  qed (use rest in auto)
qed simp

lemma fills_done:
  "list_all (\<lambda>t. filled t ''tenant_id'' db) ts \<Longrightarrow> threads_unique db \<Longrightarrow> each_step fill_tenant ts db = Inr db"
proof (induction ts)
  case (Cons t ts)
  then have "fill_rows (rows db t) = rows db t" by (intro fill_rows_done) (simp add: filled_def)
  then have "db\<lparr>rows := (rows db)(t := fill_rows (rows db t))\<rparr> = db" by simp
  then have "fill_tenant t db = Inr db" unfolding fill_tenant_run Let_def using Cons.prems by (simp only:) simp
  then show ?case using Cons by simp
qed simp

text \<open>The framework names.\<close>

lemma same_cells_seed:
  "same_cells [''id''] (framework_seed_row now e) = same_cells [''id''] (framework_seed_row 0 e)"
  "same_cells [''name'', ''version''] (framework_seed_row now e) = same_cells [''name'', ''version''] (framework_seed_row 0 e)"
  by (simp_all add: fun_eq_iff same_cells_def framework_seed_row_def at_def)

lemma present_seed:
  "present ''control_frameworks'' [[''id''], [''name'', ''version'']] (framework_seed_row now e) db
   = present ''control_frameworks'' [[''id''], [''name'', ''version'']] (framework_seed_row 0 e) db"
  by (simp add: present_def same_cells_seed [of now])

lemma present_tenant:
  "present ''tenants'' [[''id'']] (default_tenant_row now) db = present ''tenants'' [[''id'']] (default_tenant_row 0) db"
proof -
  have "same_cells [''id''] (default_tenant_row now) = same_cells [''id''] (default_tenant_row 0)"
    by (simp add: fun_eq_iff same_cells_def default_tenant_row_def at_def)
  then show ?thesis by (simp add: present_def)
qed

lemma insert_or_ignore_present:
  "insert_or_ignore t ks r db = (if present t ks r db then db else insert_cells t r db)"
  by (simp add: insert_or_ignore_def present_def)

lemma insert_or_ignore_frame [simp]:
  "schema (insert_or_ignore t ks r db) = schema db" "indexes (insert_or_ignore t ks r db) = indexes db"
  "t' \<noteq> t \<Longrightarrow> rows (insert_or_ignore t ks r db) t' = rows db t'"
  by (simp_all add: insert_or_ignore_def)

lemma inserted_present:
  "list_ex (list_all (\<lambda>c. at c r \<noteq> Null)) ks \<Longrightarrow> present t ks r (insert_or_ignore t ks r db)"
  by (auto simp: insert_or_ignore_present present_def list_ex_iff same_cells_def list_all_iff)

lemma seed_framework_run:
  "seed_framework_name True now e db = Inr (insert_or_ignore ''control_frameworks'' [[''id''], [''name'', ''version'']] (framework_seed_row now e) db)"
  by (simp add: seed_framework_name_def)

lemma seeds_run:
  assumes "each_step (seed_framework_name True now) es db = Inr db'"
  shows "schema db' = schema db \<and> indexes db' = indexes db
     \<and> (\<forall>t. t \<noteq> ''control_frameworks'' \<longrightarrow> rows db' t = rows db t)
     \<and> list_all (\<lambda>e. present ''control_frameworks'' [[''id''], [''name'', ''version'']] (framework_seed_row 0 e) db') es"
  using assms
proof (induction es arbitrary: db)
  case (Cons e es)
  let ?db = "insert_or_ignore ''control_frameworks'' [[''id''], [''name'', ''version'']] (framework_seed_row now e) db"
  from Cons.prems obtain db1 where "seed_framework_name True now e db = Inr db1"
    "each_step (seed_framework_name True now) es db1 = Inr db'" by (auto split: sum.splits)
  then have rest: "each_step (seed_framework_name True now) es ?db = Inr db'"
    by (simp only: seed_framework_run sum.inject)
  have "present ''control_frameworks'' [[''id''], [''name'', ''version'']] (framework_seed_row now e) ?db"
    by (rule inserted_present) (simp add: framework_seed_row_def at_def)
  then have "present ''control_frameworks'' [[''id''], [''name'', ''version'']] (framework_seed_row 0 e) db'"
    using present_preserved [OF preserves_each_seed [OF rest]] present_seed by blast
  then show ?case using Cons.IH [OF rest] by simp
qed simp

lemma seeds_done:
  "list_all (\<lambda>e. present ''control_frameworks'' [[''id''], [''name'', ''version'']] (framework_seed_row 0 e) db) es \<Longrightarrow>
   each_step (seed_framework_name True now) es db = Inr db"
  by (induction es) (simp_all add: seed_framework_run insert_or_ignore_present present_seed [of now])

lemma update_where_done:
  "list_all (\<lambda>r. p r = False) (rows db t) \<Longrightarrow> update_where t c v p db = db"
  by (simp add: update_where_def list_all_iff map_idI)

lemma create_all_done: "list_all (has_table db) (map fst MODEL_TABLES) \<Longrightarrow> create_all db = db"
proof -
  assume all: "list_all (has_table db) (map fst MODEL_TABLES)"
  have "''audit_events'' \<in> set (map fst MODEL_TABLES)" using touched_tables by (auto simp: TOUCHED_TABLES_def TENANT_TABLES_def)
  then have "schema db ''audit_events'' \<noteq> None" using all by (auto simp: list_all_iff has_table_def)
  moreover have "(map_of MODEL_TABLES ++ schema db) t = schema db t" for t
  proof (cases "schema db t")
    case None
    then have "t \<notin> fst ` set MODEL_TABLES" using all by (auto simp: list_all_iff has_table_def)
    then show ?thesis using None by (simp add: map_add_def map_of_eq_None_iff)
  qed (simp add: map_add_def)
  then have "map_of MODEL_TABLES ++ schema db = schema db" ..
  ultimately show ?thesis by (simp add: create_all_def)
qed

text \<open>A settled database is a fixed point of the scripts.\<close>

lemma settled_fixed: "settled db \<Longrightarrow> migrate_all True now db = Inr db"
proof -
  assume s: "settled db"
  have cols: "add_columns adds db = db" if "set adds \<subseteq> set ADDED_COLUMNS" for adds
  proof (rule add_columns_done)
    have "has_columns db ADDED_COLUMNS" using s by (simp add: settled_def)
    then show "list_all (\<lambda>(t, cols). list_all (has_column db t) cols) adds"
      using that unfolding has_columns_def list_all_iff by fast
  qed
  have adds: "add_columns M001_COLUMNS db = db" "add_columns M002_COLUMNS db = db" "add_columns M003_COLUMNS db = db"
    "add_columns M004_COLUMNS db = db" "add_columns M007_COLUMNS db = db"
    by (rule cols, fastforce simp: ADDED_COLUMNS_def)+
  have "create_all db = db" using s by (intro create_all_done) (simp add: settled_def)
  moreover have "insert_or_ignore ''tenants'' [[''id'']] (default_tenant_row now) db = db"
    using s by (simp add: insert_or_ignore_present settled_def present_tenant [of now])
  moreover have "each_step fill_tenant TENANT_TABLES db = Inr db" using s by (intro fills_done) (simp_all add: settled_def)
  moreover have "seed_reference_rows True now db = Inr db"
    unfolding seed_reference_rows_def using s by (intro seeds_done) (simp add: settled_def)
  moreover have "update_where ''evidence_packets'' ''retention_status'' (Txt ''active'') (\<lambda>r. at ''retention_status'' r = Null) db = db"
    "update_where ''governance_policies'' ''status'' v (\<lambda>r. at ''status'' r = Null) db = db"
    "update_where ''governance_policies'' ''status'' v (\<lambda>r. at ''status'' r = Null \<and> q r) db = db" for v q
    using s by (auto intro!: update_where_done simp: settled_def filled_def list_all_iff)
  ultimately show ?thesis
    using s by (simp add: migrate_all_def m001_def m001_columns_def m002_def m003_def m004_def m005_def m006_def m007_def
        m008_def create_seq_index_def adds settled_def)
qed

section \<open>And they lead there\<close>

text \<open>Rows of the tables that the later scripts do not touch, and NULLs that are gone.\<close>

lemma later_rows [simp]:
  "t \<noteq> ''evidence_packets'' \<Longrightarrow> rows (m003 sqlite db) t = rows db t"
  "t \<noteq> ''governance_policies'' \<Longrightarrow> rows (m004 sqlite db) t = rows db t"
  "rows (m005 db) = rows db" "rows (m006 db) = rows db" "rows (m007 sqlite db) = rows db" "rows (m008 db) = rows db"
  by (simp_all add: m003_def m004_def m005_def m006_def m007_def m008_def)

lemma m002_frame: "m002 sqlite db = Inr db' \<Longrightarrow> rows db' = rows db"
  by (auto simp: m002_def create_seq_index_def split: if_splits)

lemma m002_index: "m002 True db = Inr db' \<Longrightarrow> AUDIT_SEQ_INDEX \<in> set (indexes db')"
proof -
  have "has_table (add_columns M002_COLUMNS (create_all db)) ''audit_events''"
    using created_tables [of db] touched_tables
    by (intro table_preserved [OF preserves_add_columns]) (auto simp: list_all_iff TOUCHED_TABLES_def TENANT_TABLES_def)
  then show "m002 True db = Inr db' \<Longrightarrow> ?thesis"
    by (auto simp: m002_def create_seq_index_def has_table_def split: if_splits)
qed

lemma touched_created: "t \<in> set TOUCHED_TABLES \<Longrightarrow> has_table (create_all db) t"
  using created_tables [of db] touched_tables by (auto simp: list_all_iff)

lemma scripts_columns:
  "m001_columns now (create_all db) = Inr db' \<Longrightarrow> has_columns db' M001_COLUMNS"
  "m002 True db = Inr db' \<Longrightarrow> has_columns db' M002_COLUMNS"
  "has_columns (m003 True db) M003_COLUMNS" "has_columns (m004 True db) M004_COLUMNS" "has_columns (m007 True db) M007_COLUMNS"
proof -
  have has: "has_columns (add_columns adds (create_all db)) adds" if "set (map fst adds) \<subseteq> set TOUCHED_TABLES" for adds db
    using that touched_created by (intro add_columns_has) (auto simp: list_all_iff)
  have sub: "set (map fst M001_COLUMNS) \<subseteq> set TOUCHED_TABLES" "set (map fst M002_COLUMNS) \<subseteq> set TOUCHED_TABLES"
    "set (map fst M003_COLUMNS) \<subseteq> set TOUCHED_TABLES" "set (map fst M004_COLUMNS) \<subseteq> set TOUCHED_TABLES"
    "set (map fst M007_COLUMNS) \<subseteq> set TOUCHED_TABLES"
    by (simp_all add: M001_COLUMNS_def M002_COLUMNS_def M003_COLUMNS_def M004_COLUMNS_def M007_COLUMNS_def
        TOUCHED_TABLES_def TENANT_TABLES_def)
  show "has_columns db' M001_COLUMNS" if "m001_columns now (create_all db) = Inr db'"
    using that unfolding m001_columns_def
    by (rule has_columns_preserved [OF preserves_trans [OF preserves_insert_or_ignore preserves_fills] has [OF sub(1)]])
  show "has_columns db' M002_COLUMNS" if "m002 True db = Inr db'"
    using that has_columns_preserved [OF preserves_index has [OF sub(2)]] by (simp add: m002_def)
  show "has_columns (m003 True db) M003_COLUMNS"
    unfolding m003_def if_True by (rule has_columns_preserved [OF preserves_update_null has [OF sub(3)]])
  show "has_columns (m004 True db) M004_COLUMNS"
    unfolding m004_def if_True by (rule has_columns_preserved [OF preserves_then(4) [OF preserves_update_null] has [OF sub(4)]]) simp_all
  show "has_columns (m007 True db) M007_COLUMNS"
    unfolding m007_def if_True by (rule has [OF sub(5)])
qed

lemma update_filled:
  assumes "has_table db t" and "v \<noteq> Null"
  shows "filled t c (update_where t c v (\<lambda>r. at c r = Null) db)"
proof -
  have "list_all (\<lambda>r. at c r \<noteq> Null) (map (\<lambda>r. if at c r = Null then set_cell c v r else r) rs)" for rs
    by (induction rs) (simp_all add: assms(2))
  then show ?thesis using assms(1) by (simp add: filled_def has_table_def)
qed

lemma scripts_fill:
  "filled ''evidence_packets'' ''retention_status'' (m003 True db)"
  "filled ''governance_policies'' ''status'' (m004 True db)"
proof -
  have "has_table (create_all db) ''evidence_packets''" "has_table (create_all db) ''governance_policies''"
    by (rule touched_created, simp add: TOUCHED_TABLES_def)+
  then have "has_table (add_columns M003_COLUMNS (create_all db)) ''evidence_packets''"
    "has_table (add_columns M004_COLUMNS (create_all db)) ''governance_policies''"
    by (blast intro: table_preserved [OF preserves_add_columns])+
  then show "filled ''evidence_packets'' ''retention_status'' (m003 True db)"
    "filled ''governance_policies'' ''status'' (m004 True db)"
    unfolding m003_def m004_def if_True by (auto intro!: update_filled simp: has_table_def)
qed

lemma filled_rows: "rows db' t = rows db t \<Longrightarrow> filled t c db' = filled t c db"
  by (simp add: filled_def)

lemma migrate_settled:
  assumes "migrate_all True now db = Inr db'"
  shows "settled db'"
proof -
  obtain db1 db2 where m: "m001 True now db = Inr db1" "m002 True db1 = Inr db2"
    "db' = m008 (m007 True (m006 (m005 (m004 True (m003 True db2)))))"
    using assms by (auto simp: migrate_all_def split: sum.splits)
  obtain db0 where m0: "m001_columns now (create_all db) = Inr db0" "seed_reference_rows True now db0 = Inr db1"
    using m(1) by (auto simp: m001_def split: sum.splits)
  let ?dba = "insert_or_ignore ''tenants'' [[''id'']] (default_tenant_row now) (add_columns M001_COLUMNS (create_all db))"
  have k34: "preserves (m003 True db2) db'" "preserves (m004 True (m003 True db2)) db'" "preserves (m007 True (m006 (m005 (m004 True (m003 True db2))))) db'"
    unfolding m(3) by (meson preserves_rest preserves_trans preserves_refl)+
  have k2: "preserves db2 db'" by (rule preserves_trans [OF preserves_rest(1) k34(1)])
  have k1: "preserves db1 db'" by (rule preserves_trans [OF preserves_m002 [OF m(2)] k2])
  have k0: "preserves db0 db'" by (rule preserves_trans [OF preserves_seeds [OF m0(2)] k1])
  have seeds: "schema db1 = schema db0 \<and> indexes db1 = indexes db0
     \<and> (\<forall>t. t \<noteq> ''control_frameworks'' \<longrightarrow> rows db1 t = rows db0 t)
     \<and> list_all (\<lambda>e. present ''control_frameworks'' [[''id''], [''name'', ''version'']] (framework_seed_row 0 e) db1)
         (List.enumerate 1 INITIAL_CONTROL_FRAMEWORK_NAMES)"
    by (rule seeds_run [OF m0(2) [unfolded seed_reference_rows_def]])
  have "list_all (has_table ?dba) TENANT_TABLES"
    using touched_created by (auto simp: list_all_iff TOUCHED_TABLES_def intro: table_preserved [OF preserves_trans [OF preserves_add_columns preserves_insert_or_ignore]])
  note fills = fills_run [OF this m0(1) [unfolded m001_columns_def]]
  have rows: "rows db' t = rows db0 t" if "t \<notin> {''control_frameworks'', ''evidence_packets'', ''governance_policies''}" for t
    using that seeds m002_frame [OF m(2)] by (simp add: m(3))
  show ?thesis unfolding settled_def
  proof (intro conjI)
    show "list_all (has_table db') (map fst MODEL_TABLES)"
      unfolding m(3) m008_def by (rule created_tables)
    show "has_columns db' ADDED_COLUMNS"
      using scripts_columns(1) [OF m0(1)] scripts_columns(2) [OF m(2)] scripts_columns(3) [of db2]
        scripts_columns(4) [of "m003 True db2"] scripts_columns(5) [of "m006 (m005 (m004 True (m003 True db2)))"]
        has_columns_preserved [OF k0] has_columns_preserved [OF k2] has_columns_preserved [OF k34(1)] has_columns_preserved [OF k34(2)]
        has_columns_preserved [OF k34(3)]
      by (simp add: ADDED_COLUMNS_def has_columns_def)
    show "AUDIT_SEQ_INDEX \<in> set (indexes db')" using m002_index [OF m(2)] k2 by (auto simp: preserves_def)
    have "present ''tenants'' [[''id'']] (default_tenant_row now) ?dba"
      by (rule inserted_present) (simp add: default_tenant_row_def at_def)
    then show "present ''tenants'' [[''id'']] (default_tenant_row 0) db'"
      using present_preserved [OF preserves_trans [OF preserves_fills [OF m0(1) [unfolded m001_columns_def]] k0]] present_tenant by blast
    have "filled t ''tenant_id'' db0" if "t \<in> set TENANT_TABLES" for t
      using fills that fill_rows_filled by (simp add: filled_def)
    moreover have "t \<notin> {''control_frameworks'', ''evidence_packets'', ''governance_policies''}" if "t \<in> set TENANT_TABLES" for t
      using that by (auto simp: TENANT_TABLES_def)
    ultimately show "list_all (\<lambda>t. filled t ''tenant_id'' db') TENANT_TABLES"
      using filled_rows [OF rows] by (simp add: list_all_iff)
    have "threads_unique db0" using fills by (simp add: TENANT_TABLES_def)
    moreover have "rows db' ''email_threads'' = rows db0 ''email_threads''" by (rule rows) simp
    ultimately show "threads_unique db'" by (simp only: threads_unique_def)
    show "list_all (\<lambda>e. present ''control_frameworks'' [[''id''], [''name'', ''version'']] (framework_seed_row 0 e) db')
       (List.enumerate 1 INITIAL_CONTROL_FRAMEWORK_NAMES)"
      using seeds present_preserved [OF k1] by (auto simp: list_all_iff)
    show "filled ''evidence_packets'' ''retention_status'' db'"
      using scripts_fill(1) [of db2] by (simp add: m(3) filled_def)
    show "filled ''governance_policies'' ''status'' db'"
      using scripts_fill(2) [of "m003 True db2"] by (simp add: m(3) filled_def)
  qed
qed

lemma migrate_preserved: "migrate_all sqlite now db = Inr db' \<Longrightarrow> preserves (create_all db) db'"
proof -
  assume "migrate_all sqlite now db = Inr db'"
  then obtain db1 db2 where m: "m001 sqlite now db = Inr db1" "m002 sqlite db1 = Inr db2"
    "db' = m008 (m007 sqlite (m006 (m005 (m004 sqlite (m003 sqlite db2)))))"
    by (auto simp: migrate_all_def split: sum.splits)
  obtain db0 where m0: "(if sqlite then m001_columns now (create_all db) else Inr (create_all db)) = Inr db0"
    "seed_reference_rows sqlite now db0 = Inr db1"
    using m(1) by (auto simp: m001_def split: sum.splits)
  have "preserves (create_all db) db0" using m0(1) by (auto split: if_splits dest: preserves_m001_columns)
  moreover have "preserves db2 db'" unfolding m(3) by (meson preserves_rest preserves_trans)
  ultimately show ?thesis using preserves_seeds [OF m0(2)] preserves_m002 [OF m(2)] preserves_trans by blast
qed

text \<open>How the scripts fail.\<close>

lemma fills_fail:
  "list_all (has_table db) ts \<Longrightarrow> each_step fill_tenant ts db = Inl e \<Longrightarrow>
   e = IntegrityError ''uq_email_thread_tenant_ext''
   \<and> unique_on [''tenant_id'', ''external_thread_id''] (fill_rows (rows db ''email_threads'')) = False"
proof (induction ts arbitrary: db)
  case (Cons t ts)
  let ?db = "db\<lparr>rows := (rows db)(t := fill_rows (rows db t))\<rparr>"
  have tables: "list_all (has_table ?db) ts" using Cons.prems(1) by (simp add: list_all_iff)
  show ?case
  proof (cases "t = ''email_threads'' \<and> threads_unique ?db = False")
    case True
    then show ?thesis using Cons.prems by (auto simp: fill_tenant_run threads_unique_def)
  next
    case False
    then have "fill_tenant t db = Inr ?db" using Cons.prems(1) by (simp add: fill_tenant_run Let_def)
    then have "each_step fill_tenant ts ?db = Inl e" using Cons.prems(2) by simp
    from Cons.IH [OF tables this] show ?thesis by (cases "t = ''email_threads''") simp_all
  qed
qed simp

lemma seeds_succeed: "\<exists>db'. each_step (seed_framework_name True now) es db = Inr db'"
proof (induction es arbitrary: db)
  case (Cons e es)
  show ?case
    by (subst each_step.simps(2), subst seed_framework_run, unfold sum.case) (rule Cons.IH)
qed simp

lemma unique_on_map:
  "(\<And>r r'. same_cells k (f r) (f r') = same_cells k r r') \<Longrightarrow> unique_on k (map f rs) = unique_on k rs"
  by (induction rs) (simp_all add: list_ex_iff)

lemma unique_seq_fill: "unique_on [''seq''] (fill_rows rs) = unique_on [''seq''] rs"
  unfolding fill_rows_def by (rule unique_on_map) (simp add: same_cells_def)

text \<open>A database that an earlier version of the program left: its tables have their columns of today, but for
  those the scripts add.\<close>

definition older_schema :: "database \<Rightarrow> bool" where
  "older_schema db = list_all (\<lambda>(t, cs). case schema db t of
       None \<Rightarrow> True
     | Some had \<Rightarrow> list_all (\<lambda>c. c \<in> set had \<or> list_ex (\<lambda>(t', added). t' = t \<and> c \<in> set added) ADDED_COLUMNS) cs) MODEL_TABLES"

lemma model_tables_distinct: "distinct (map fst MODEL_TABLES)"
  by (simp add: MODEL_TABLES_def)

lemma migrate_complete:
  assumes "older_schema db" and "migrate_all True now db = Inr db'"
  shows "has_columns db' MODEL_TABLES"
  unfolding has_columns_def list_all_iff
proof (intro ballI, clarify)
  fix t cs c assume tc: "(t, cs) \<in> set MODEL_TABLES" "c \<in> set cs"
  show "has_column db' t c"
  proof (cases "schema db t")
    case None
    then have "schema (create_all db) t = Some cs"
      using tc(1) model_tables_distinct by (simp add: map_add_def)
    then show ?thesis using tc(2) has_column_preserved [OF migrate_preserved [OF assms(2)]] by (simp add: has_column_def)
  next
    case (Some had)
    then consider "c \<in> set had" | t' added where "(t', added) \<in> set ADDED_COLUMNS" "t' = t" "c \<in> set added"
      using assms(1) tc unfolding older_schema_def list_all_iff list_ex_iff by fastforce
    then show ?thesis
    proof cases
      case 1
      then have "has_column db t c" using Some by (simp add: has_column_def)
      then show ?thesis using has_column_preserved [OF preserves_trans [OF preserves_create_all migrate_preserved [OF assms(2)]]] by blast
    next
      case 2
      then show ?thesis using migrate_settled [OF assms(2)] unfolding settled_def has_columns_def list_all_iff by blast
    qed
  qed
qed

lemma migrate_fails:
  assumes "migrate_all True now db = Inl e"
  shows "(e = IntegrityError ''uq_email_thread_tenant_ext''
       \<and> unique_on [''tenant_id'', ''external_thread_id''] (fill_rows (rows db ''email_threads'')) = False)
     \<or> (e = IntegrityError AUDIT_SEQ_INDEX \<and> unique_on [''seq''] (rows db ''audit_events'') = False)"
proof -
  let ?dba = "insert_or_ignore ''tenants'' [[''id'']] (default_tenant_row now) (add_columns M001_COLUMNS (create_all db))"
  have tables: "list_all (has_table ?dba) TENANT_TABLES"
    using touched_created by (auto simp: list_all_iff TOUCHED_TABLES_def intro: table_preserved [OF preserves_trans [OF preserves_add_columns preserves_insert_or_ignore]])
  show ?thesis
  proof (cases "each_step fill_tenant TENANT_TABLES ?dba")
    case (Inl e')
    then have "e' = e" using assms by (simp add: migrate_all_def m001_def m001_columns_def)
    then show ?thesis using fills_fail [OF tables Inl] by simp
  next
    case (Inr db0)
    obtain db1 where db1: "seed_reference_rows True now db0 = Inr db1"
      using seeds_succeed unfolding seed_reference_rows_def by blast
    then have m1: "m001 True now db = Inr db1" using Inr by (simp add: m001_def m001_columns_def)
    have "rows db1 ''audit_events'' = rows db0 ''audit_events''"
      using seeds_run [OF db1 [unfolded seed_reference_rows_def]] by simp
    also have "\<dots> = fill_rows (rows db ''audit_events'')"
      using fills_run [OF tables Inr] by (simp add: TENANT_TABLES_def)
    finally have rows: "rows db1 ''audit_events'' = fill_rows (rows db ''audit_events'')" .
    have "m002 True db1 = Inl e"
      using assms m1 by (cases "m002 True db1") (simp_all add: migrate_all_def)
    then show ?thesis
      using rows by (auto simp: m002_def create_seq_index_def unique_seq_fill split: if_splits)
  qed
qed


definition sample_old_database :: database where
  "sample_old_database = \<lparr>schema = [''jobs'' \<mapsto> [''id'', ''type'', ''status'', ''idempotency_key'', ''payload_json'', ''attempts'',
       ''last_error'', ''run_after'', ''created_at'', ''updated_at'']],
     rows = (\<lambda>t. if t = ''jobs'' then [[(''id'', Txt ''j1''), (''status'', Txt ''pending'')]] else []), indexes = []\<rparr>"


section \<open>The default tenant and the audit chain\<close>

text \<open>The audit events that the rows of a database are.\<close>

definition text_at :: "string \<Rightarrow> db_row \<Rightarrow> string option" where
  "text_at c r = (case at c r of Txt s \<Rightarrow> Some s | _ \<Rightarrow> None)"

definition num_at :: "string \<Rightarrow> db_row \<Rightarrow> int option" where
  "num_at c r = (case at c r of Num n \<Rightarrow> Some n | _ \<Rightarrow> None)"

definition text_of :: "string option \<Rightarrow> string" where
  "text_of x = (case x of None \<Rightarrow> [] | Some s \<Rightarrow> s)"

definition event_of_row :: "db_row \<Rightarrow> audit_event" where
  "event_of_row r =
     \<lparr>ae_pk = text_of (text_at ''id'' r), ae_action = text_of (text_at ''action'' r),
      ae_resource_type = text_of (text_at ''resource_type'' r), ae_resource_id = text_of (text_at ''resource_id'' r),
      ae_tenant = text_at ''tenant_id'' r, ae_actor = text_at ''actor'' r, ae_actor_user_id = text_at ''actor_user_id'' r,
      ae_actor_type = text_at ''actor_type'' r, ae_action_type = text_at ''action_type'' r,
      ae_policy_version = text_at ''policy_version'' r, ae_decision = text_at ''decision'' r, ae_reason = text_at ''reason'' r,
      ae_metadata = text_at ''metadata_json'' r, ae_seq = num_at ''seq'' r, ae_previous_hash = text_at ''previous_hash'' r,
      ae_event_hash = text_at ''event_hash'' r, ae_created_at = num_at ''created_at'' r\<rparr>"

definition audit_of :: "database \<Rightarrow> audit_event list" where
  "audit_of db = map event_of_row (rows db ''audit_events'')"

text \<open>A chained event that no tenant owns.\<close>

definition tenantless :: "db_row \<Rightarrow> bool" where
  "tenantless r \<longleftrightarrow> hashed (event_of_row r) \<and> at ''tenant_id'' r = Null"

definition owned :: "db_row \<Rightarrow> db_row" where
  "owned r = (if at ''tenant_id'' r = Null then set_cell ''tenant_id'' (Txt DEFAULT_TENANT_ID) r else r)"

lemma event_of_owned:
  "event_of_row (owned r) =
     (if at ''tenant_id'' r = Null then (event_of_row r)\<lparr>ae_tenant := Some DEFAULT_TENANT_ID\<rparr> else event_of_row r)"
  by (simp add: owned_def event_of_row_def text_at_def num_at_def)

lemma m001_audit_rows:
  assumes "m001 True now db = Inr db'"
  shows "rows db' ''audit_events'' = map owned (rows db ''audit_events'')"
proof -
  let ?dba = "insert_or_ignore ''tenants'' [[''id'']] (default_tenant_row now) (add_columns M001_COLUMNS (create_all db))"
  have tables: "list_all (has_table ?dba) TENANT_TABLES"
    using touched_created by (auto simp: list_all_iff TOUCHED_TABLES_def intro: table_preserved [OF preserves_trans [OF preserves_add_columns preserves_insert_or_ignore]])
  obtain db0 where db0: "each_step fill_tenant TENANT_TABLES ?dba = Inr db0" "seed_reference_rows True now db0 = Inr db'"
    using assms by (auto simp: m001_def m001_columns_def split: sum.splits)
  have "rows db' ''audit_events'' = rows db0 ''audit_events''"
    using seeds_run [OF db0(2) [unfolded seed_reference_rows_def]] by simp
  also have "\<dots> = fill_rows (rows db ''audit_events'')"
    using fills_run [OF tables db0(1)] by (simp add: TENANT_TABLES_def)
  also have "\<dots> = map owned (rows db ''audit_events'')" by (simp add: fill_rows_def owned_def)
  finally show ?thesis .
qed

lemma chain_rows_owned:
  assumes "\<not> list_ex tenantless rs"
  shows "chain_rows (map (event_of_row \<circ> owned) rs) = chain_rows (map event_of_row rs)"
proof -
  have "filter hashed (map (event_of_row \<circ> owned) rs) = filter hashed (map event_of_row rs)"
    using assms by (induction rs) (auto simp: event_of_owned tenantless_def hashed_def)
  then show ?thesis by (simp add: chain_rows_def)
qed

lemma verify_chain_rows: "chain_rows es = chain_rows es' \<Longrightarrow> verify_chain E es = verify_chain E es'"
  by (simp add: verify_chain_def chain_rows_def Let_def)

lemma verify_chain_failed:
  "chain_rows es \<noteq> [] \<Longrightarrow> cr_status (verify_chain E es) \<noteq> ''verified'' \<Longrightarrow> cr_status (verify_chain E es) = ''failed''"
  by (simp add: verify_chain_def verify_loop_report chain_report_def chain_rows_def Let_def split: if_splits)

lemma set_chain_rows: "set (chain_rows es) = {e \<in> set es. hashed e}"
  by (auto simp: chain_rows_def)

text \<open>C17: giving old rows to the default tenant can break the audit chain. The first script writes the default
  tenant into every audit event that has none, and the tenant is part of what an event's hash commits to:
  on a database whose chain verifies, the script leaves the verdict as it is when every chained event has a
  tenant, and otherwise the chain no longer verifies (unless the digest fails on the texts at hand).\<close>

theorem backfill_and_chain:
  assumes "cr_status (verify_chain E (audit_of db)) = ''verified''" and "m001 True now db = Inr db'"
  shows "if list_ex tenantless (rows db ''audit_events'')
     then cr_status (verify_chain E (audit_of db')) = ''failed''
       \<or> digest_broken E (committed_text ` (set (chain_rows (audit_of db)) \<union> set (chain_rows (audit_of db'))))
     else verify_chain E (audit_of db') = verify_chain E (audit_of db)"
proof -
  let ?rs = "rows db ''audit_events''"
  have new: "audit_of db' = map (event_of_row \<circ> owned) ?rs"
    by (simp add: audit_of_def m001_audit_rows [OF assms(2)])
  show ?thesis
  proof (cases "list_ex tenantless ?rs")
    case False
    then show ?thesis using verify_chain_rows [OF chain_rows_owned [OF False]] by (simp add: new audit_of_def [of db])
  next
    case True
    then obtain r where r: "r \<in> set ?rs" "hashed (event_of_row r)" "at ''tenant_id'' r = Null"
      by (auto simp: list_ex_iff tenantless_def)
    let ?e = "event_of_row r" and ?e' = "(event_of_row r)\<lparr>ae_tenant := Some DEFAULT_TENANT_ID\<rparr>"
    have "?e' = (event_of_row \<circ> owned) r" using r(3) by (simp add: event_of_owned)
    then have "?e' \<in> set (audit_of db')" unfolding new set_map using r(1) by (rule image_eqI)
    moreover have "hashed ?e'" using r(2) by (simp add: hashed_def)
    ultimately have in_new: "?e' \<in> set (chain_rows (audit_of db'))" by (simp add: set_chain_rows)
    have in_old: "?e \<in> set (chain_rows (audit_of db))" using r by (simp add: set_chain_rows audit_of_def)
    have "digest_broken E (committed_text ` (set (chain_rows (audit_of db)) \<union> set (chain_rows (audit_of db'))))"
      if "cr_status (verify_chain E (audit_of db')) = ''verified''"
    proof -
      have "ae_event_hash ?e' = Some (sha256 E (committed_text ?e'))"
        by (rule linked_hash [OF _ in_new, of E "Some GENESIS_HASH"]) (use that in \<open>simp add: verify_chain_verified\<close>)
      moreover have "ae_event_hash ?e = Some (sha256 E (committed_text ?e))"
        by (rule linked_hash [OF _ in_old, of E "Some GENESIS_HASH"]) (use assms(1) in \<open>simp add: verify_chain_verified\<close>)
      ultimately have "sha256 E (committed_text ?e') = sha256 E (committed_text ?e)" by simp
      moreover have "committed_text ?e' \<noteq> committed_text ?e"
      proof
        assume "committed_text ?e' = committed_text ?e"
        then have "contents ?e' = contents ?e" by (intro committed_contents committed_text_inject)
        then have "ae_tenant (fst (contents ?e')) = ae_tenant (fst (contents ?e))" by (rule arg_cong)
        then have "ae_tenant ?e = Some DEFAULT_TENANT_ID" by (simp add: contents_def)
        then show False using r(3) by (simp add: event_of_row_def text_at_def)
      qed
      ultimately show ?thesis using in_new in_old unfolding digest_broken_def by blast
    qed
    moreover have "chain_rows (audit_of db') \<noteq> []" using in_new by auto
    ultimately show ?thesis using True verify_chain_failed [of "audit_of db'" E] by (simp only: if_True) blast
  qed
qed

definition sample_audit_cells :: db_row where
  "sample_audit_cells = [(''id'', Txt ''e1''), (''action'', Txt ''approval.created''), (''resource_type'', Txt ''approval''),
     (''resource_id'', Txt ''a1''), (''seq'', Num 1), (''previous_hash'', Txt GENESIS_HASH), (''created_at'', Num 0)]"

definition sample_audit_database :: database where
  "sample_audit_database = \<lparr>schema = map_of MODEL_TABLES,
     rows = (\<lambda>t. if t = ''audit_events''
        then [(''event_hash'', Txt (compute_event_hash sample_env (event_of_row sample_audit_cells) (Some GENESIS_HASH))) # sample_audit_cells]
        else []), indexes = [AUDIT_SEQ_INDEX]\<rparr>"

theorem backfill_and_chain_witness:
  "cr_status (verify_chain sample_env (audit_of sample_audit_database)) = ''verified''
   \<and> (\<exists>db'. m001 True 5 sample_audit_database = Inr db'
       \<and> (cr_status (verify_chain sample_env (audit_of db')) = ''failed''
          \<or> digest_broken sample_env (committed_text `
              (set (chain_rows (audit_of sample_audit_database)) \<union> set (chain_rows (audit_of db'))))))"
proof -
  let ?h = "compute_event_hash sample_env (event_of_row sample_audit_cells) (Some GENESIS_HASH)"
  let ?r = "(''event_hash'', Txt ?h) # sample_audit_cells"
  have rows: "rows sample_audit_database ''audit_events'' = [?r]" "rows sample_audit_database ''email_threads'' = []"
    by (simp_all add: sample_audit_database_def)
  have event: "event_of_row ?r = (event_of_row sample_audit_cells)\<lparr>ae_event_hash := Some ?h\<rparr>"
    by (simp add: event_of_row_def text_at_def num_at_def at_def)
  have hash: "compute_event_hash sample_env (event_of_row ?r) (Some GENESIS_HASH) = ?h"
    unfolding event by (simp add: compute_event_hash_def canonical_payload_def)
  have prev: "ae_previous_hash (event_of_row ?r) = Some GENESIS_HASH"
    by (simp add: event_of_row_def text_at_def at_def sample_audit_cells_def)
  have hashed: "hashed (event_of_row ?r)" by (simp add: event hashed_def)
  then have "chain_rows (audit_of sample_audit_database) = [event_of_row ?r]"
    by (simp add: chain_rows_def audit_of_def rows)
  then have ok: "cr_status (verify_chain sample_env (audit_of sample_audit_database)) = ''verified''"
    using hash prev by (simp add: verify_chain_verified event)
  have "tenantless ?r" using hashed by (simp add: tenantless_def at_def sample_audit_cells_def)
  then have tl: "list_ex tenantless (rows sample_audit_database ''audit_events'')" by (simp add: rows)
  show ?thesis
  proof (cases "m001 True 5 sample_audit_database")
    case (Inl e)
    then have "migrate_all True 5 sample_audit_database = Inl e" by (simp add: migrate_all_def)
    then show ?thesis using migrate_fails [of 5 sample_audit_database e] by (simp add: rows fill_rows_def)
  next
    case (Inr db')
    then show ?thesis using backfill_and_chain [OF ok Inr] tl ok by simp
  qed
qed

end
