(* ===== verification/Configuration.thy ===== *)
theory Configuration
  imports GmailConnector Samples
begin

text \<open>
  app/config.py: the defaults of the settings, the validator that refuses a live mode without a token file,
  and the cached \<open>get_settings\<close>. Reading the fields from the environment is pydantic-settings' (the
  argument \<open>load\<close>: the fields before validation, or the exception).
\<close>

definition default_settings :: settings where
  "default_settings = \<lparr>gmail_mode = Stub, gmail_credentials_path = None, operator_api_key = None,
     require_rbac_for_operator = False, app_env = Demo, evidence_signing_key = None, evidence_packet_ttl_days = 365\<rparr>"

text \<open>The validator; pydantic reports its ValueError as a ValidationError, which is a ValueError.\<close>

definition live_gmail_requires_credentials_file :: "env \<Rightarrow> settings \<Rightarrow> exn + settings" where
  "live_gmail_requires_credentials_file E s =
     (if gmail_mode s \<noteq> Live then Inr s
      else
        let path_raw = strip (case gmail_credentials_path s of None \<Rightarrow> [] | Some p \<Rightarrow> p) in
        if path_raw = []
        then Inl (ValueError ''GMAIL_MODE=live requires GMAIL_CREDENTIALS_PATH to point to an OAuth token JSON file'')
        else case expanduser (home_dir E) path_raw of
          None \<Rightarrow> Inl (RuntimeError ''Could not determine home directory.'')
        | Some path \<Rightarrow>
            if \<not> is_file E path
            then Inl (ValueError (''GMAIL_MODE=live requires an existing file at GMAIL_CREDENTIALS_PATH (not found: '' @ path @ '')''))
            else Inr s)"

text \<open>\<open>lru_cache\<close> keeps the value of a call that returned; a call that raised is made again.\<close>

definition get_settings :: "env \<Rightarrow> exn + settings \<Rightarrow> settings option \<Rightarrow> (exn + settings) \<times> settings option" where
  "get_settings E load cache =
     (case cache of
        Some s \<Rightarrow> (Inr s, cache)
      | None \<Rightarrow>
          (case load of
             Inl e \<Rightarrow> (Inl e, None)
           | Inr read \<Rightarrow>
               (case live_gmail_requires_credentials_file E read of
                  Inl e \<Rightarrow> (Inl e, None)
                | Inr s \<Rightarrow> (Inr s, Some s))))"

section \<open>What a start with validated settings guarantees\<close>

lemma validated:
  assumes "live_gmail_requires_credentials_file E s = Inr s'"
  shows "s' = s" and "gmail_mode s = Live \<Longrightarrow> \<exists>p q. gmail_credentials_path s = Some p \<and> strip p \<noteq> []
     \<and> expanduser (home_dir E) (strip p) = Some q \<and> is_file E q"
proof -
  show "s' = s" using assms
    by (auto simp: live_gmail_requires_credentials_file_def Let_def split: if_splits option.splits)
  have empty: "strip [] = []" by (simp add: strip_def)
  assume "gmail_mode s = Live"
  then show "\<exists>p q. gmail_credentials_path s = Some p \<and> strip p \<noteq> []
     \<and> expanduser (home_dir E) (strip p) = Some q \<and> is_file E q"
    using assms
    by (cases "gmail_credentials_path s")
      (auto simp: live_gmail_requires_credentials_file_def Let_def empty split: if_splits option.splits)
qed

text \<open>C34: the settings are decided once: the first call that returns fixes them, whatever the environment holds
  later; in live mode they name a token file that exists. For an absolute path written without
  surrounding blanks it is the very file the connector loads its credentials from.\<close>

theorem settings_checked_once:
  assumes "get_settings E load None = (Inr s, cache)"
  shows "load = Inr s \<and> get_settings E' load' cache = (Inr s, cache)
     \<and> (case gmail_mode s of Stub \<Rightarrow> True
        | Live \<Rightarrow> \<exists>p q. gmail_credentials_path s = Some p \<and> expanduser (home_dir E) (strip p) = Some q \<and> is_file E q
            \<and> (if startswith p ''/'' \<and> strip p = p
               then load_credentials E (Some p) = (case import_error E of None \<Rightarrow> token_file E q SCOPES | Some _ \<Rightarrow> load_credentials E None)
               else True))"
proof -
  obtain read where l: "load = Inr read" "live_gmail_requires_credentials_file E read = Inr s" "cache = Some s"
    using assms by (auto simp: get_settings_def split: sum.splits)
  have s: "read = s" using validated(1) [OF l(2)] by simp
  note live = validated(2) [OF l(2) [unfolded s]]
  have same: "load_credentials E (Some p) = (case import_error E of None \<Rightarrow> token_file E q SCOPES | Some _ \<Rightarrow> load_credentials E None)"
    if "startswith p ''/''" "strip p = p" "expanduser (home_dir E) (strip p) = Some q" "is_file E q" for p q
  proof -
    have "q = py_path p" using that(1-3) by (simp add: expanduser_absolute)
    moreover have "p \<noteq> []" using that(1) by (auto simp: startswith_def)
    ultimately show ?thesis using that(4) by (simp add: load_credentials_def require_deps_def split: option.split)
  qed
  show ?thesis
    using l s live same by (cases "gmail_mode s") (fastforce simp: get_settings_def)+
qed

theorem settings_checked_once_witness:
  "get_settings sample_env (Inr (sample_settings\<lparr>gmail_mode := Live, gmail_credentials_path := Some ''/home/pilot/token.json''\<rparr>)) None
     = (Inr (sample_settings\<lparr>gmail_mode := Live, gmail_credentials_path := Some ''/home/pilot/token.json''\<rparr>),
        Some (sample_settings\<lparr>gmail_mode := Live, gmail_credentials_path := Some ''/home/pilot/token.json''\<rparr>))
   \<and> load_credentials sample_env (Some ''/home/pilot/token.json'')
     = Inr \<lparr>oauth_expired = False, oauth_refresh_token = None, oauth_token = ''/home/pilot/token.json''\<rparr>"
proof
  let ?s = "sample_settings\<lparr>gmail_mode := Live, gmail_credentials_path := Some ''/home/pilot/token.json''\<rparr>"
  have path: "strip ''/home/pilot/token.json'' = ''/home/pilot/token.json''" by code_simp
  have exp: "expanduser (home_dir sample_env) ''/home/pilot/token.json'' = Some ''/home/pilot/token.json''" by code_simp
  show got: "get_settings sample_env (Inr ?s) None = (Inr ?s, Some ?s)"
    by (simp add: get_settings_def live_gmail_requires_credentials_file_def path exp) (simp add: sample_env_def)
  show "load_credentials sample_env (Some ''/home/pilot/token.json'')
     = Inr \<lparr>oauth_expired = False, oauth_refresh_token = None, oauth_token = ''/home/pilot/token.json''\<rparr>"
    using settings_checked_once [OF got, of sample_env "Inr sample_settings"]
    by (simp add: path exp startswith_def) (simp add: sample_env_def)
qed

text \<open>C25: the connector does not expand the path the validator accepted: with \<open>~/\<close> in front the program
  starts, and then every draft fails on a missing file (unless a file of that very name lies in a
  directory called \<open>~\<close>), which is what the validator is there to exclude.\<close>

theorem tilde_path_fails_late:
  assumes "get_settings E load None = (Inr (config E), cache)" and "gmail_mode (config E) = Live"
    and "gmail_credentials_path (config E) = Some (''~/'' @ r)"
    and "import_error E = None" and "is_file E (py_path (''~/'' @ r)) = False"
  shows "(\<exists>q. expanduser (home_dir E) (strip (''~/'' @ r)) = Some q \<and> is_file E q)
     \<and> create_draft E (get_gmail_connector E) thread subject body w
         = (Inl (auth_error (''Gmail credentials file not found: '' @ py_path (''~/'' @ r))), w)"
proof
  have "live_gmail_requires_credentials_file E (config E) = Inr (config E)"
    using assms(1) by (auto simp: get_settings_def dest: validated(1) split: sum.splits)
  then show "\<exists>q. expanduser (home_dir E) (strip (''~/'' @ r)) = Some q \<and> is_file E q"
    using validated(2) [of E "config E" "config E"] assms(2,3) by auto
  show "create_draft E (get_gmail_connector E) thread subject body w
         = (Inl (auth_error (''Gmail credentials file not found: '' @ py_path (''~/'' @ r))), w)"
    using assms(2-5)
    by (simp add: create_draft_def get_gmail_connector_def default_gmail_config_def build_gmail_service_def
        load_credentials_def require_deps_def comp lift_def)
qed

theorem tilde_path_fails_late_witness:
  "result (create_draft (sample_env\<lparr>config := sample_settings\<lparr>gmail_mode := Live, gmail_credentials_path := Some ''~/token.json''\<rparr>\<rparr>)
      (get_gmail_connector (sample_env\<lparr>config := sample_settings\<lparr>gmail_mode := Live, gmail_credentials_path := Some ''~/token.json''\<rparr>\<rparr>))
      None ''s'' ''b'') empty_world = Inl (auth_error ''Gmail credentials file not found: ~/token.json'')"
proof -
  let ?s = "sample_settings\<lparr>gmail_mode := Live, gmail_credentials_path := Some ''~/token.json''\<rparr>"
  let ?E = "sample_env\<lparr>config := ?s\<rparr>"
  have path: "strip ''~/token.json'' = ''~/token.json''" "py_path ''~/token.json'' = ''~/token.json''" by code_simp+
  have exp: "expanduser (home_dir sample_env) ''~/token.json'' = Some ''/home/pilot/token.json''" by code_simp
  have got: "get_settings ?E (Inr ?s) None = (Inr (config ?E), Some ?s)"
    by (simp add: get_settings_def live_gmail_requires_credentials_file_def path(1) exp) (simp add: sample_env_def exp)
  have here: "is_file ?E (py_path (''~/'' @ ''token.json'')) = False"
    using path(2) by (simp add: sample_env_def)
  show ?thesis
    using tilde_path_fails_late [OF got, of "''token.json''" None "''s''" "''b''" empty_world] here path(2)
    by (simp add: sample_env_def)
qed

end
