(* ===== verification/WorkerLoop.thy ===== *)
theory WorkerLoop
  imports Worker
begin

text \<open>
  workers/runner.py \<open>run_forever\<close>: the loop around \<open>poll_once\<close>, and that it drains the queue. The loop does
  not return, so it is described by what it has done after any number of iterations: one clock
  reading per iteration, and whether the iteration found work (if not, it sleeps until the next).
\<close>

definition poll_guarded :: "env \<Rightarrow> world \<Rightarrow> bool \<times> world" where
  "poll_guarded E w = (case poll_once E w of (Inl e, v) \<Rightarrow> (False, v) | (Inr worked, v) \<Rightarrow> (worked, v))"

primrec run_forever :: "env \<Rightarrow> int list \<Rightarrow> world \<Rightarrow> bool list \<times> world" where
  "run_forever E [] w = ([], w)"
| "run_forever E (now # later) w =
     (case poll_guarded E (w\<lparr>clock := now\<rparr>) of (worked, v) \<Rightarrow>
        (case run_forever E later v of (rest, u) \<Rightarrow> (worked # rest, u)))"

section \<open>A poll touches one job\<close>

definition others :: "string \<Rightarrow> world \<Rightarrow> world \<Rightarrow> bool" where
  "others jid w v \<longleftrightarrow> map job_pk (jobs v) = map job_pk (jobs w)
     \<and> filter (\<lambda>j. job_pk j \<noteq> jid) (jobs v) = filter (\<lambda>j. job_pk j \<noteq> jid) (jobs w)"

interpretation others_evo: evolution "others jid" for jid
  by unfold_locales (auto simp: others_def)

named_theorems oth \<open>rules that walk through the handling of one job\<close>

lemmas [oth] = others_evo.evo_ret others_evo.evo_raise others_evo.evo_bind others_evo.evo_catch

lemma others_frame:
  assumes "evolves (only S) m" and "TJobs \<notin> S"
  shows "evolves (others jid) m"
proof (rule evolvesI)
  fix w
  show "others jid w (after m w)"
    using onlyD [OF evolvesD [OF assms(1)] assms(2), of w] by (simp add: others_def)
qed

lemma others_update:
  assumes "\<And>j. job_pk (f j) = job_pk j"
  shows "evolves (others jid) (update_job jid f)"
proof (rule evolvesI)
  fix w :: world
  have pk: "job_pk (touch_job (clock w) f j) = job_pk j" for j using assms by (simp add: touched_def)
  have "map job_pk (tupd job_pk jid (touch_job (clock w) f) rs) = map job_pk rs
      \<and> filter (\<lambda>j. job_pk j \<noteq> jid) (tupd job_pk jid (touch_job (clock w) f) rs) = filter (\<lambda>j. job_pk j \<noteq> jid) rs" for rs
    by (induction rs) (auto simp: pk assms)
  then show "others jid w (after (update_job jid f) w)" by (simp add: update_job_run others_def)
qed

lemma others_parts [oth]:
  "evolves (others jid) (count_attempt jid)"
  "evolves (others jid) (mark_job_failed jid m)"
  "evolves (others jid) (mark_job_succeeded jid r)"
  "evolves (others jid) (execute_chat_orchestrate E job)"
  "evolves (others jid) (run_send_approved_job E job)"
  "evolves (others jid) (audit_send_job_failed E job m)"
proof -
  let ?S = "worker_tables - {TJobs}"
  have S: "TJobs \<notin> ?S" by simp
  show "evolves (others jid) (count_attempt jid)" "evolves (others jid) (mark_job_failed jid m)"
    "evolves (others jid) (mark_job_succeeded jid r)"
    by (simp_all add: count_attempt_def mark_job_failed_def mark_job_succeeded_def others_update split: option.split)
  show "evolves (others jid) (execute_chat_orchestrate E job)"
    by (rule others_frame [OF execute_chat_evo(1) S]) simp_all
  show "evolves (others jid) (run_send_approved_job E job)"
    by (rule others_frame [OF run_send_evo(1) S]) simp_all
  show "evolves (others jid) (audit_send_job_failed E job m)"
    by (rule others_frame [OF audit_send_job_failed_evo(1) S]) simp_all
qed

lemma others_case [oth]:
  "evolves R a \<Longrightarrow> (\<And>x. evolves R (b x)) \<Longrightarrow> evolves R (case v of None \<Rightarrow> a | Some x \<Rightarrow> b x)"
  "evolves R a \<Longrightarrow> evolves R b' \<Longrightarrow> evolves R (if c then a else b')"
  "(\<And>x y. evolves R (f x y)) \<Longrightarrow> evolves R (case p of (x, y) \<Rightarrow> f x y)"
  by (simp_all split: option.split prod.split)

lemma others_attempt [oth]:
  assumes "evolves (others jid) body" and "\<And>m. evolves (others jid) (fail m)"
  shows "evolves (others jid) (attempt body fail)"
proof -
  have "evolves (others jid) (case e of ValueError m \<Rightarrow> bindM (fail m) (\<lambda>_. ret None)
        | ConnectorError c m \<Rightarrow> bindM (fail (c @ '':'' @ m)) (\<lambda>_. ret None) | _ \<Rightarrow> raise e)" for e
    by (cases e) (simp_all add: assms others_evo.evo_bind others_evo.evo_ret others_evo.evo_raise)
  then show ?thesis unfolding attempt_def using assms by (intro oth)
qed

lemma others_process: "job_pk job = jid \<Longrightarrow> evolves (others jid) (process_job E job)"
  unfolding process_job_def run_task_def handle_chat_orchestrate_def handle_email_send_approved_def
  by (simp only:) (intro oth)

section \<open>The queue shrinks\<close>

definition waiting :: "world \<Rightarrow> job list" where
  "waiting w = filter (\<lambda>j. job_status j = JobPending) (jobs w)"

lemma settled_row:
  assumes d: "distinct (map job_pk (jobs w))" and j: "j \<in> set (jobs w)"
  shows "settled (job_pk j) w \<longleftrightarrow> job_status j = JobSucceeded \<or> job_status j = JobFailed"
proof -
  have "get_job (job_pk j) w = Some j" using tget_Some_iff [OF d] j by (simp add: get_job_def get_row_def)
  then show ?thesis by (simp add: settled_def)
qed

lemma settled_in: "settled k w \<Longrightarrow> \<exists>j \<in> set (jobs w). job_pk j = k"
  by (auto simp: settled_def get_job_def get_row_def split: option.splits dest: tget_in tget_key)

lemma good_distinct: "good E w \<Longrightarrow> distinct (map job_pk (jobs w))"
  by (simp add: good_def drawn_def)

lemma others_rows:
  assumes "others jid w v"
  shows "j \<in> set (jobs w) \<Longrightarrow> job_pk j \<noteq> jid \<Longrightarrow> j \<in> set (jobs v)"
    and "j \<in> set (jobs v) \<Longrightarrow> job_pk j \<noteq> jid \<Longrightarrow> j \<in> set (jobs w)"
proof -
  have "set (filter (\<lambda>j. job_pk j \<noteq> jid) (jobs v)) = set (filter (\<lambda>j. job_pk j \<noteq> jid) (jobs w))"
    using assms by (simp add: others_def)
  then show "j \<in> set (jobs w) \<Longrightarrow> job_pk j \<noteq> jid \<Longrightarrow> j \<in> set (jobs v)"
    and "j \<in> set (jobs v) \<Longrightarrow> job_pk j \<noteq> jid \<Longrightarrow> j \<in> set (jobs w)" by auto
qed

lemma distinct_filter_one:
  "distinct (map k xs) \<Longrightarrow> x \<in> set xs \<Longrightarrow> Suc (length (filter (\<lambda>y. k y \<noteq> k x) xs)) = length xs"
proof (induction xs)
  case (Cons y ys)
  show ?case
  proof (cases "y = x")
    case True
    then have "filter (\<lambda>z. k z \<noteq> k x) ys = ys" using Cons.prems(1) by (auto simp: filter_id_conv rev_image_eqI)
    then show ?thesis using True by simp
  next
    case False
    then show ?thesis using Cons by auto
  qed
qed simp

text \<open>One iteration with work: the oldest eligible job is settled, no other row changes, one job less waits.\<close>

lemma poll_step:
  assumes good: "good E w" and j: "oldest_eligible w = Some j"
  obtains v where "poll_guarded E w = (True, v)" "good E v" "clock v = clock w" "others (job_pk j) w v"
    "settled (job_pk j) v" "Suc (length (waiting v)) = length (waiting w)"
proof -
  let ?j = "touch_job (clock w) (\<lambda>j. j\<lparr>job_status := JobRunning\<rparr>) j"
  obtain w1 where claim: "claim_next_pending w = (Inr (Some ?j), w1)" by (simp add: claim_run j)
  have good1: "good E w1" using good forward_run [OF claim_evo(2) claim, of E] by (simp add: forward_def)
  have pk: "job_pk ?j = job_pk j" by (simp add: touched_def)
  obtain out v where v: "process_job E ?j w1 = (Inr out, v)" "settled (job_pk j) v"
    using process_job_settles [OF good1, of ?j] claimed_is_there [OF j] claim pk by auto
  have poll: "poll_guarded E w = (True, v)"
    by (simp add: poll_guarded_def poll_once_def bindM_def claim v(1) ret_def)
  have good2: "good E v" using good1 forward_run [OF process_job_evo(2) v(1)] by (simp add: forward_def)
  have "clock v = clock w"
    using only_run [OF claim_evo(1) claim, of "{TJobs}"] only_run [OF process_job_evo(1) v(1)] by (simp add: only_def)
  moreover have oth: "others (job_pk j) w v"
  proof (rule others_evo.evo_trans)
    have "after (update_job (job_pk j) (\<lambda>j. j\<lparr>job_status := JobRunning\<rparr>)) w = w1"
      using claim by (simp add: claim_run j update_job_run)
    then show "others (job_pk j) w w1"
      using evolvesD [OF others_update [of "\<lambda>j. j\<lparr>job_status := JobRunning\<rparr>" "job_pk j"], of w] by simp
    show "others (job_pk j) w1 v" using evolvesD [OF others_process [OF pk, of E], of w1] v(1) by simp
  qed
  moreover have "Suc (length (waiting v)) = length (waiting w)"
  proof -
    have one: "j \<in> set (waiting w)" using oldest_eligible_in [OF j] by (simp add: waiting_def eligible_def)
    have d: "distinct (map job_pk (waiting w))" using good_distinct [OF good] by (simp add: waiting_def distinct_map_filter)
    have "\<forall>j' \<in> set (waiting v). job_pk j' \<noteq> job_pk j"
    proof
      fix j' assume j': "j' \<in> set (waiting v)"
      obtain r where r: "r \<in> set (jobs v)" "job_pk r = job_pk j" "job_status r \<noteq> JobPending"
        using settled_in [OF v(2)] v(2) settled_row [OF good_distinct [OF good2]] by fastforce
      have "job_pk j' = job_pk r \<Longrightarrow> j' = r"
        using j' r(1) good_distinct [OF good2] by (auto simp: waiting_def distinct_map dest: inj_onD)
      then show "job_pk j' \<noteq> job_pk j" using j' r by (auto simp: waiting_def)
    qed
    then have "waiting v = filter (\<lambda>j'. job_pk j' \<noteq> job_pk j) (waiting v)" by (simp add: filter_id_conv)
    also have "\<dots> = filter (\<lambda>j'. job_status j' = JobPending) (filter (\<lambda>j'. job_pk j' \<noteq> job_pk j) (jobs v))"
      by (simp add: waiting_def conj_commute)
    also have "\<dots> = filter (\<lambda>j'. job_pk j' \<noteq> job_pk j) (waiting w)"
      using oth by (simp add: others_def waiting_def conj_commute)
    finally show ?thesis using distinct_filter_one [OF d one] by simp
  qed
  ultimately show ?thesis using that [OF poll good2] v(2) by blast
qed

lemma poll_idle: "oldest_eligible w = None \<Longrightarrow> poll_guarded E w = (False, w)"
  by (simp add: poll_guarded_def poll_once_def bindM_def claim_run ret_def)

lemma idle_iff: "oldest_eligible w = None \<longleftrightarrow> filter (eligible (clock w)) (jobs w) = []"
  by (auto simp: oldest_eligible_def first_row_def split: list.split)

section \<open>What the loop has done after some iterations\<close>

lemma clock_frame: "good E w \<Longrightarrow> good E (w\<lparr>clock := t\<rparr>)" "waiting (w\<lparr>clock := t\<rparr>) = waiting w"
  by (simp_all add: good_def drawn_def keys_unique_def waiting_def)

lemma loop_idle:
  "oldest_eligible (w\<lparr>clock := t\<rparr>) = None \<Longrightarrow> run_forever E ts (w\<lparr>clock := t\<rparr>) = (ws, v) \<Longrightarrow>
   run_forever E (t # ts) w = (False # ws, v)"
  by (simp add: poll_idle)

lemma loop_works:
  "poll_guarded E (w\<lparr>clock := t\<rparr>) = (True, u) \<Longrightarrow> run_forever E ts u = (ws, v) \<Longrightarrow>
   run_forever E (t # ts) w = (True # ws, v)"
  by simp

definition carried :: "env \<Rightarrow> world \<Rightarrow> bool list \<Rightarrow> world \<Rightarrow> bool" where
  "carried E w ws v \<longleftrightarrow> good E v \<and> map job_pk (jobs v) = map job_pk (jobs w)
     \<and> (\<forall>j \<in> set (jobs w). job_status j \<noteq> JobPending \<longrightarrow> j \<in> set (jobs v))
     \<and> length (filter id ws) + length (waiting v) = length (waiting w)"

lemma poll_carried:
  assumes "good E w" "others (job_pk j) w v" "j \<in> set (waiting w)" "Suc (length (waiting v)) = length (waiting w)"
    and "carried E v ws u"
  shows "carried E w (True # ws) u"
proof -
  have "j' \<in> set (jobs v)" if "j' \<in> set (jobs w)" "job_status j' \<noteq> JobPending" for j'
  proof -
    have "job_pk j' \<noteq> job_pk j"
      using that assms(3) good_distinct [OF assms(1)] by (auto simp: waiting_def distinct_map dest: inj_onD)
    then show ?thesis using others_rows(1) [OF assms(2)] that(1) by blast
  qed
  then show ?thesis using assms(2,4,5) by (simp add: carried_def others_def)
qed

lemma claimed_waits: "oldest_eligible w = Some j \<Longrightarrow> j \<in> set (waiting w)"
  using oldest_eligible_in [of w j] by (simp add: waiting_def eligible_def)

lemma loop_carried: "good E w \<Longrightarrow> run_forever E ts w = (ws, v) \<Longrightarrow> carried E w ws v"
proof (induction ts arbitrary: w ws)
  case Nil
  then show ?case by (simp add: carried_def)
next
  case (Cons t ts)
  let ?w = "w\<lparr>clock := t\<rparr>"
  have good: "good E ?w" using Cons.prems(1) by (rule clock_frame)
  have clock: "carried E ?w ws' v \<Longrightarrow> carried E w ws' v" for ws' by (simp add: carried_def clock_frame)
  show ?case
  proof (cases "oldest_eligible ?w")
    case None
    obtain rs u where rs: "run_forever E ts ?w = (rs, u)" by fastforce
    then have ws: "ws = False # rs" "u = v" using loop_idle [OF None rs] Cons.prems(2) by simp_all
    have "carried E ?w rs v" using Cons.IH [OF good] rs ws(2) by simp
    then have "carried E w rs v" by (rule clock)
    then show ?thesis by (simp add: carried_def ws(1))
  next
    case (Some j)
    obtain u where u: "poll_guarded E ?w = (True, u)" "good E u" "clock u = clock ?w" "others (job_pk j) ?w u"
      "settled (job_pk j) u" "Suc (length (waiting u)) = length (waiting ?w)"
      using poll_step [OF good Some] .
    obtain rs x where rs: "run_forever E ts u = (rs, x)" by fastforce
    then have ws: "ws = True # rs" "x = v" using loop_works [OF u(1) rs] Cons.prems(2) by simp_all
    have "carried E u rs v" using Cons.IH [OF u(2)] rs ws(2) by simp
    then have "carried E ?w (True # rs) v" by (rule poll_carried [OF good u(4) claimed_waits [OF Some] u(6)])
    then show ?thesis unfolding ws(1) by (rule clock)
  qed
qed

lemma settled_stays:
  assumes "good E w" "carried E w ws v" "settled k w"
  shows "settled k v"
proof -
  obtain r where r: "r \<in> set (jobs w)" "job_pk r = k" using settled_in [OF assms(3)] by blast
  then have st: "job_status r = JobSucceeded \<or> job_status r = JobFailed"
    using assms(3) settled_row [OF good_distinct [OF assms(1)] r(1)] by simp
  then have "r \<in> set (jobs v)" using assms(2) r(1) by (auto simp: carried_def)
  then have "settled (job_pk r) v"
    using st settled_row [OF good_distinct] assms(2) unfolding carried_def by blast
  then show ?thesis using r(2) by simp
qed

lemma loop_settles:
  assumes "good E w" "run_forever E ts w = (ws, v)" "sorted (clock w # ts)" "length (waiting w) \<le> length ts"
    and "j \<in> set (jobs w)" "eligible (clock w) j"
  shows "settled (job_pk j) v"
  using assms
proof (induction ts arbitrary: w ws)
  case Nil
  then show ?case by (auto simp: waiting_def eligible_def filter_empty_conv)
next
  case (Cons t ts)
  let ?w = "w\<lparr>clock := t\<rparr>"
  have good: "good E ?w" using Cons.prems(1) by (rule clock_frame)
  have el: "eligible t j" using Cons.prems(3,6) by (auto simp: eligible_def split: option.splits)
  have "oldest_eligible ?w \<noteq> None" using el Cons.prems(5) by (auto simp: idle_iff filter_empty_conv)
  then obtain j0 where j0: "oldest_eligible ?w = Some j0" by blast
  obtain u where u: "poll_guarded E ?w = (True, u)" "good E u" "clock u = clock ?w" "others (job_pk j0) ?w u"
    "settled (job_pk j0) u" "Suc (length (waiting u)) = length (waiting ?w)"
    using poll_step [OF good j0] .
  obtain rs x where rs: "run_forever E ts u = (rs, x)" by fastforce
  then have ws: "ws = True # rs" "x = v" using loop_works [OF u(1) rs] Cons.prems(2) by simp_all
  show ?case
  proof (cases "job_pk j = job_pk j0")
    case True
    then show ?thesis using settled_stays [OF u(2) loop_carried [OF u(2) rs] u(5)] ws(2) by simp
  next
    case False
    have j: "j \<in> set (jobs u)" using others_rows(1) [OF u(4)] Cons.prems(5) False by simp
    have "sorted (clock u # ts)" using Cons.prems(3) u(3) by simp
    moreover have "length (waiting u) \<le> length ts" using u(6) Cons.prems(4) by (simp add: clock_frame)
    moreover have "eligible (clock u) j" using el u(3) by simp
    ultimately show ?thesis using Cons.IH [OF u(2)] rs ws(2) j by blast
  qed
qed

section \<open>Properties\<close>

text \<open>C18: the loop drains the queue. Started on any state, with clock readings that do not go back and at
  least as many iterations as jobs wait, it ends every job that could be claimed at the start as
  succeeded or failed, whatever the handlers and the provider do; it never stops on an exception, leaves
  every other job as it was, makes no new one, and works exactly as often as jobs stop waiting.\<close>

theorem queue_drained:
  assumes "good E w" and "sorted (clock w # ts)" and "length (waiting w) \<le> length ts"
  shows "case run_forever E ts w of (worked, v) \<Rightarrow>
     good E v \<and> map job_pk (jobs v) = map job_pk (jobs w)
     \<and> list_all (\<lambda>j. settled (job_pk j) v) (filter (eligible (clock w)) (jobs w))
     \<and> list_all (\<lambda>j. get_job (job_pk j) v = Some j) (filter (\<lambda>j. job_status j \<noteq> JobPending) (jobs w))
     \<and> length (filter id worked) + length (waiting v) = length (waiting w)"
proof -
  obtain ws v where run: "run_forever E ts w = (ws, v)" by fastforce
  have v: "carried E w ws v" using loop_carried [OF assms(1) run] .
  have "get_job (job_pk j) v = Some j" if "j \<in> set (jobs w)" "job_status j \<noteq> JobPending" for j
  proof -
    have "j \<in> set (jobs v)" "distinct (map job_pk (jobs v))" using v that good_distinct [of E v] by (simp_all add: carried_def)
    then show ?thesis by (simp add: get_job_def get_row_def tget_Some_iff)
  qed
  moreover have "settled (job_pk j) v" if "j \<in> set (jobs w)" "eligible (clock w) j" for j
    using loop_settles [OF assms(1) run assms(2,3) that] .
  ultimately show ?thesis using v by (simp add: run list_all_iff carried_def)
qed

theorem queue_drained_witness:
  "settled (uuid 2) (snd (run_forever sample_env [5, 9] (sample_state ApprovalApproved\<lparr>clock := 5, jobs := [sample_source_job\<lparr>job_status := JobPending\<rparr>]\<rparr>)))"
proof -
  let ?w = "sample_state ApprovalApproved\<lparr>clock := 5, jobs := [sample_source_job\<lparr>job_status := JobPending\<rparr>]\<rparr>"
  have good: "good sample_env ?w"
    using sample_state_good [of ApprovalApproved]
    by (simp add: good_def drawn_def keys_unique_def sample_state_def sample_source_job_def)
  have "sorted (clock ?w # [5, 9])" "length (waiting ?w) \<le> length [5, 9 :: int]" by (simp_all add: waiting_def)
  then show ?thesis
    using queue_drained [OF good, of "[5, 9]"] by (simp add: eligible_def sample_source_job_def split: prod.splits)
qed

end
