(* ===== verification/Delivery.thy ===== *)
theory Delivery
  imports SendLedger
begin

text \<open>
  The delivery of an approved send: when the mail provider works, the poll that claims the send job sends
  the draft and records it everywhere. SendLedger shows that nothing else is ever sent; this theory,
  that what should be sent is.
\<close>

text \<open>
  The provider works: in live mode the token loads and can be refreshed, the client is built, and a send is
  answered with a message id, as the Gmail API documents.
\<close>

definition mail_up :: "env \<Rightarrow> bool" where
  "mail_up E \<longleftrightarrow> gmail_mode (config E) = Stub
     \<or> (\<exists>c. load_credentials E (gmail_credentials_path (config E)) = Inr c \<and> gmail_build E c = Inr ()
          \<and> (\<forall>n. \<exists>c'. token_refresh E n c = Inr c' \<and> gmail_build E c' = Inr ())
          \<and> (\<forall>n d. \<exists>m. gmail_send E n d = Inr (Some m) \<and> m \<noteq> []))"

lemma mail_up_build:
  assumes "mail_up E" and "gmail_mode (config E) = Live"
  shows "\<exists>u. build_gmail_service E (gmail_credentials_path (config E)) w = (Inr (), u)"
proof -
  obtain c where c: "load_credentials E (gmail_credentials_path (config E)) = Inr c" "gmail_build E c = Inr ()"
    "\<forall>n. \<exists>c'. token_refresh E n c = Inr c' \<and> gmail_build E c' = Inr ()"
    using assms by (auto simp: mail_up_def)
  have deps: "require_deps E = Inr ()"
    using c(1) by (auto simp: load_credentials_def require_deps_def split: option.splits)
  obtain c' where "token_refresh E (api_calls w) c = Inr c'" "gmail_build E c' = Inr ()" using c(3) by blast
  then show ?thesis by (simp add: build_gmail_service_def bindM_def lift_def deps c(1,2) api_call_def ret_def)
qed

lemma mail_up_sends:
  assumes up: "mail_up E" and d: "gmail_mode (config E) = Stub \<or> startswith d ''draft:stub:'' = False"
  obtains m v where "send_approved_draft E (get_gmail_connector E) d w = (Inr m, v)" "m \<noteq> []"
    "sent_log v = sent_log w @ [(d, m)]" "only {TCalls, TSent} w v"
proof -
  have ids: "send_answers_id E"
  proof (cases "gmail_mode (config E)")
    case Live
    then have "\<exists>m. gmail_send E n d = Inr (Some m) \<and> m \<noteq> []" for n d using up by (auto simp: mail_up_def)
    then have "gmail_send E n d \<noteq> Inr None \<and> gmail_send E n d \<noteq> Inr (Some [])" for n d by (metis option.inject option.simps(3) sum.inject(2))
    then show ?thesis by (simp add: send_answers_id_def)
  qed (simp add: send_answers_id_def)
  have "\<exists>m v. send_approved_draft E (get_gmail_connector E) d w = (Inr m, v)"
  proof (cases "gmail_mode (config E)")
    case Stub
    then show ?thesis
      by (auto simp: send_approved_draft_def send_message_def get_gmail_connector_def log_sent_def comp new_id_def Let_def)
  next
    case Live
    obtain u where u: "build_gmail_service E (gmail_credentials_path (config E)) w = (Inr (), u)"
      using mail_up_build [OF up Live] by blast
    have ns: "startswith d ''draft:stub:'' = False" using d Live by simp
    have "\<forall>n d. \<exists>m. gmail_send E n d = Inr (Some m) \<and> m \<noteq> []" using up Live by (auto simp: mail_up_def)
    then obtain m where "gmail_send E (api_calls u) d = Inr (Some m)" "m \<noteq> []" by blast
    then show ?thesis
      using Live by (simp add: send_approved_draft_def send_message_def get_gmail_connector_def live_send_draft_def
          bindM_def u ns api_call_def log_sent_def modify_def ret_def Let_def)
  qed
  then obtain m v where send: "send_approved_draft E (get_gmail_connector E) d w = (Inr m, v)" by blast
  have "only {TCalls, TSent} w v"
    by (rule only_run [of _ "send_approved_draft E (get_gmail_connector E) d" w "Inr m" v]) (simp_all add: send send_approved_draft_evo(1))
  then show ?thesis using that [OF send] send_outcome [OF ids send] by simp
qed

section \<open>What the send records\<close>

definition marked_sent :: "string \<Rightarrow> string \<Rightarrow> string \<Rightarrow> world \<Rightarrow> bool" where
  "marked_sent aid jid m w \<longleftrightarrow> list_all (\<lambda>d. dlv_status d = ''sent'' \<and> dlv_message d = Some m
     \<and> dlv_execution_job d = Some jid \<and> dlv_last_error d = None) (deliveries_of aid (deliveries w))"

lemma mark_delivery_sent_run:
  assumes "distinct (List.map_filter dlv_approval (deliveries w))"
  obtains v where "mark_delivery_sent aid jid m w = (Inr (), v)" "marked_sent aid jid m v" "only {TDeliveries} w v"
proof -
  have "length (deliveries_of aid (deliveries w)) \<le> 1" by (rule deliveries_of_at_most_one [OF assms])
  then consider "deliveries_of aid (deliveries w) = []" | d where "deliveries_of aid (deliveries w) = [d]"
    by (cases "deliveries_of aid (deliveries w)" rule: list.exhaust) auto
  then have "\<exists>v. mark_delivery_sent aid jid m w = (Inr (), v) \<and> marked_sent aid jid m v"
  proof cases
    case 1
    then show ?thesis by (simp add: mark_delivery_sent_def bindM_def gets_def lift_def ret_def scalar_one_or_none_def marked_sent_def)
  next
    case 2
    let ?f = "touch (clock w) (\<lambda>d. d\<lparr>dlv_message := Some m, dlv_execution_job := Some jid, dlv_status := ''sent'', dlv_last_error := None\<rparr>)"
    have f: "dlv_approval (?f r) = dlv_approval r" "dlv_status (?f r) = ''sent''" "dlv_message (?f r) = Some m"
      "dlv_execution_job (?f r) = Some jid" "dlv_last_error (?f r) = None" for r
      by (cases r; simp add: touch_def touched_def)+
    have "deliveries_of aid (tupd dlv_pk k ?f ds) = tupd dlv_pk k ?f (deliveries_of aid ds)" for k ds
      by (induction ds) (auto simp: deliveries_of_def f(1))
    then have "marked_sent aid jid m (deliveries_update (tupd dlv_pk (dlv_pk d) ?f) w)"
      using f(2-5) by (simp add: marked_sent_def 2)
    then show ?thesis
      by (simp add: mark_delivery_sent_def bindM_def gets_def lift_def scalar_one_or_none_def 2 update_row_def modify_def)
  qed
  then obtain v where v: "mark_delivery_sent aid jid m w = (Inr (), v)" "marked_sent aid jid m v" by blast
  have "evolves (only {TDeliveries}) (mark_delivery_sent aid jid m)" by (intro evo) simp
  then have "only {TDeliveries} w v" using only_run v(1) by blast
  then show ?thesis using that v by blast
qed

text \<open>The approval carries the message id, and nothing else about it changed.\<close>

definition carries :: "string \<Rightarrow> approval \<Rightarrow> world \<Rightarrow> bool" where
  "carries m row w \<longleftrightarrow> get_approval (appr_pk row) w
     = Some (merge_row [(''gmail_message_id'', JStr m), (''send_status'', JStr ''sent'')] row)"

lemma send_tail_run:
  assumes good: "chain_ok E (audit_events w)" and one: "distinct (List.map_filter dlv_approval (deliveries w))"
    and c: "carries m row w"
  obtains r v where "send_tail E job row m w = (Inr r, v)" "marked_sent (appr_pk row) (job_pk job) m v"
    "carries m row v" "only {TDeliveries, TAudit} w v"
proof -
  obtain u where u: "mark_delivery_sent (appr_pk row) (job_pk job) m w = (Inr (), u)"
    "marked_sent (appr_pk row) (job_pk job) m u" "only {TDeliveries} w u"
    using mark_delivery_sent_run [OF one] .
  have chain: "chain_ok E (audit_events u)" using good onlyD [OF u(3), of TAudit] by simp
  have "\<exists>r a. send_tail E job row m w = (Inr r, audited E a u)"
    by (simp add: send_tail_def bindM_def u(1) audit_record_audited [OF chain] ret_def) (rule exI, rule refl)
  then obtain r a where tail: "send_tail E job row m w = (Inr r, audited E a u)" by blast
  have "evolves (only {TDeliveries, TAudit}) (send_tail E job row m)" unfolding send_tail_def by (intro evo; simp)
  then have o: "only {TDeliveries, TAudit} w (audited E a u)" using only_run tail by blast
  have "marked_sent (appr_pk row) (job_pk job) m (audited E a u)" using u(2) by (simp add: marked_sent_def)
  moreover have "carries m row (audited E a u)"
    using c onlyD [OF o, of TApprovals] by (simp add: carries_def get_approval_def get_row_def)
  ultimately show ?thesis using that [OF tail] o by blast
qed

section \<open>The job\<close>

text \<open>An approved send that is due: the job passes its checks, nothing was sent yet, the draft can be sent.\<close>

definition due :: "env \<Rightarrow> job \<Rightarrow> approval \<Rightarrow> world \<Rightarrow> bool" where
  "due E job row w \<longleftrightarrow> checked job w row \<and> appr_pk row \<noteq> []
     \<and> truthy (dget (loads (appr_payload row)) ''gmail_message_id'') = False
     \<and> (gmail_mode (config E) = Stub
        \<or> startswith (py_str (dget (loads (appr_payload row)) ''gmail_draft_id'')) ''draft:stub:'' = False)
     \<and> distinct (List.map_filter dlv_approval (deliveries w))"

definition delivered :: "job \<Rightarrow> approval \<Rightarrow> string \<Rightarrow> world \<Rightarrow> world \<Rightarrow> bool" where
  "delivered job row m w v \<longleftrightarrow> m \<noteq> []
     \<and> sent_log v = sent_log w @ [(py_str (dget (loads (appr_payload row)) ''gmail_draft_id''), m)]
     \<and> carries m row v \<and> marked_sent (appr_pk row) (job_pk job) m v"

lemma delivered_frame:
  "only S v u \<Longrightarrow> TApprovals \<notin> S \<Longrightarrow> TSent \<notin> S \<Longrightarrow> TDeliveries \<notin> S \<Longrightarrow> delivered job row m w v \<Longrightarrow> delivered job row m w u"
  using onlyD [of S v u TApprovals] onlyD [of S v u TSent] onlyD [of S v u TDeliveries]
  by (simp add: delivered_def carries_def marked_sent_def get_approval_def get_row_def)

lemma run_send_delivers:
  assumes up: "mail_up E" and good: "chain_ok E (audit_events w)" and due: "due E job row w"
  obtains r m v where "run_send_approved_job E job w = (Inr r, v)" "delivered job row m w v"
proof -
  let ?d = "py_str (dget (loads (appr_payload row)) ''gmail_draft_id'')"
  have c: "checked job w row" "appr_pk row \<noteq> []" using due by (simp_all add: due_def)
  obtain m u where send: "send_approved_draft E (get_gmail_connector E) ?d w = (Inr m, u)" "m \<noteq> []"
    "sent_log u = sent_log w @ [(?d, m)]" "only {TCalls, TSent} w u"
    using mail_up_sends [OF up, of ?d w] due by (auto simp: due_def)
  let ?g = "merge_row [(''gmail_message_id'', JStr m), (''send_status'', JStr ''sent'')]"
  have row: "get_approval (appr_pk row) u = Some row"
    using checkedD(1) [OF c(1)] onlyD [OF send(4), of TApprovals] by (simp add: get_approval_def get_row_def)
  define x where "x = approvals_update (tupd appr_pk (appr_pk row) ?g) u"
  have rec: "record_send_completed (appr_pk row) m u = (Inr (?g row), x)"
    by (simp add: record_send_completed_def merge_run row x_def)
  have "carries m row x"
    using row by (simp add: carries_def x_def get_approval_def get_row_def tget_tupd merge_row_def)
  moreover have "chain_ok E (audit_events x)" "distinct (List.map_filter dlv_approval (deliveries x))"
    using good due onlyD [OF send(4), of TAudit] onlyD [OF send(4), of TDeliveries] by (simp_all add: x_def due_def)
  ultimately obtain r v where tail: "send_tail E job row m x = (Inr r, v)" "marked_sent (appr_pk row) (job_pk job) m v"
    "carries m row v" "only {TDeliveries, TAudit} x v"
    using send_tail_run by blast
  have "run_send_approved_job E job w = (Inr r, v)"
    using due by (simp add: run_send_checked [OF c] due_def bindM_def send(1) rec tail(1))
  moreover have "sent_log v = sent_log w @ [(?d, m)]"
    using onlyD [OF tail(4), of TSent] send(3) by (simp add: x_def)
  ultimately show ?thesis using that tail(2,3) send(2) by (auto simp: delivered_def)
qed

text \<open>Marking a job row leaves an approved send due: the checks ask for the type, payload and tenant of the
  job, and that the source job exists.\<close>

lemma checked_iff:
  "checked job w row \<longleftrightarrow> get_json (\<lambda>aid. get_request aid None) (dget (loads (job_payload job)) ''approval_id'') w = Some row
     \<and> job_type job = EMAIL_SEND_APPROVED \<and> dget (loads (job_payload job)) ''approval_id'' = JStr (appr_pk row)
     \<and> job_tenant job = appr_tenant row \<and> enqueue_verdict row w = None
     \<and> truthy (dget (loads (appr_payload row)) ''gmail_draft_id'')"
  by (auto simp: checked_def validate_send_execution_invariants_def raise_def validate_enqueue_run split: option.splits)

lemma due_update:
  assumes pk: "\<And>j. job_pk (f j) = job_pk j" and u: "u = jobs_update (tupd job_pk k (touch_job now f)) w"
    and same: "job_type job' = job_type job" "job_payload job' = job_payload job" "job_tenant job' = job_tenant job"
    and due: "due E job row w"
  shows "due E job' row u"
proof -
  have "get_json get_job v u = None \<longleftrightarrow> get_json get_job v w = None" for v
    using update_job_lookup [of f, OF pk] by (simp add: get_json_def get_job_def u split: option.split)
  then have "enqueue_verdict row u = enqueue_verdict row w"
    by (simp add: enqueue_verdict_def gate_verdict_def Let_def)
  moreover have "get_json (\<lambda>aid. get_request aid None) v u = get_json (\<lambda>aid. get_request aid None) v w" for v
    by (simp add: get_json_def get_request_def get_approval_def get_row_def u split: option.split)
  moreover have "get_json (\<lambda>aid. get_request aid None) (JStr (appr_pk row)) w = Some row"
    using due by (auto simp: due_def checked_iff)
  ultimately show ?thesis using due by (simp add: due_def checked_iff same u)
qed

lemma handler_delivers:
  assumes up: "mail_up E" and good: "good E w" and here: "get_job (job_pk job) w \<noteq> None" and due: "due E job row w"
  obtains m v where "process_job E job w = (Inr None, v)" "delivered job row m w v"
    "map_option job_status (get_job (job_pk job) v) = Some JobSucceeded"
proof -
  let ?f = "\<lambda>j. j\<lparr>job_attempts := job_attempts j + 1\<rparr>"
  define u where "u = jobs_update (tupd job_pk (job_pk job) (touch_job (clock w) ?f)) w"
  have count: "count_attempt (job_pk job) w = (Inr (), u)" by (simp add: count_attempt_def update_job_run u_def)
  have due_u: "due E job row u" by (rule due_update [OF _ u_def refl refl refl due]) simp
  have chain: "chain_ok E (audit_events u)" using good by (simp add: good_def u_def)
  obtain r m x where send: "run_send_approved_job E job u = (Inr r, x)" "delivered job row m u x"
    using run_send_delivers [OF up chain due_u] .
  define v where "v = after (mark_job_succeeded (job_pk job) (Some r)) x"
  have ty: "job_type job = EMAIL_SEND_APPROVED" using due by (simp add: due_def checked_iff)
  have body: "attempt (run_send_approved_job E job)
      (\<lambda>m. bindM (mark_job_failed (job_pk job) m) (\<lambda>_. audit_send_job_failed E job m)) u = (Inr (Some r), x)"
    by (simp add: attempt_def catch_def bindM_def send(1) ret_def)
  have mark: "mark_job_succeeded (job_pk job) (Some r) x = (Inr (), v)" unfolding v_def by (rule mark_run(2))
  have "handle_email_send_approved E job w = (Inr (), v)"
    by (simp add: handle_email_send_approved_def bindM_def [of "count_attempt _"] count
        bindM_def [of "attempt _ _"] body mark)
  then have "process_job E job w = (Inr None, v)"
    by (simp add: process_job_def run_task_def ty CHAT_ORCHESTRATE_def EMAIL_SEND_APPROVED_def bindM_def catch_def ret_def)
  moreover have "delivered job row m w v"
  proof -
    have "delivered job row m u v"
      using evolvesD [of "only {TJobs}" "mark_job_succeeded (job_pk job) (Some r)" x]
      by (intro delivered_frame [OF _ _ _ _ send(2), of "{TJobs}"]) (simp_all add: v_def mark_job_succeeded_def update_job_evo)
    then show ?thesis by (simp add: delivered_def u_def)
  qed
  moreover have "get_job (job_pk job) x \<noteq> None"
  proof (rule job_stays [OF good _ here])
    have "forward E u x" using forward_run [OF run_send_evo(2) send(1)] .
    then show "forward E w x" using forward_run [OF count_attempt_evo(2) count] forward_evo.evo_trans by blast
  qed
  then have "map_option job_status (get_job (job_pk job) v) = Some JobSucceeded"
    by (auto simp: v_def mark_job_succeeded_def get_job_def update_job_run update_job_lookup touched_def split: option.split)
  ultimately show ?thesis by (rule that)
qed

section \<open>Properties\<close>

text \<open>C8: an approved send goes out. When the oldest eligible job is a send that passes its checks, for an approved
  approval that was not sent yet, and the mail provider works, then the poll sends exactly that draft
  once, ends the job succeeded, and the message id stands on the approval (which is otherwise unchanged)
  and on its delivery.\<close>

theorem approved_send_delivered:
  assumes "mail_up E" and "good E w" and "oldest_eligible w = Some job" and "due E job row w"
  shows "\<exists>m v. poll_once E w = (Inr True, v) \<and> m \<noteq> []
     \<and> sent_log v = sent_log w @ [(py_str (dget (loads (appr_payload row)) ''gmail_draft_id''), m)]
     \<and> get_approval (appr_pk row) v = Some (merge_row [(''gmail_message_id'', JStr m), (''send_status'', JStr ''sent'')] row)
     \<and> marked_sent (appr_pk row) (job_pk job) m v
     \<and> map_option job_status (get_job (job_pk job) v) = Some JobSucceeded"
proof -
  let ?f = "\<lambda>j. j\<lparr>job_status := JobRunning\<rparr>"
  let ?j = "touch_job (clock w) ?f job"
  define u where "u = jobs_update (tupd job_pk (job_pk job) (touch_job (clock w) ?f)) w"
  have claim: "claim_next_pending w = (Inr (Some ?j), u)" by (simp add: claim_run assms(3) u_def)
  have same: "job_pk ?j = job_pk job" "job_type ?j = job_type job" "job_payload ?j = job_payload job" "job_tenant ?j = job_tenant job"
    by (simp_all add: touched_def)
  have good: "good E u" using assms(2) forward_run [OF claim_evo(2) claim, of E] by (simp add: forward_def)
  have here: "get_job (job_pk ?j) u \<noteq> None" using claimed_is_there [OF assms(3)] claim same(1) by simp
  have due: "due E ?j row u" by (rule due_update [OF _ u_def same(2-4) assms(4)]) simp
  obtain m v where v: "process_job E ?j u = (Inr None, v)" "delivered ?j row m u v"
    "map_option job_status (get_job (job_pk ?j) v) = Some JobSucceeded"
    using handler_delivers [OF assms(1) good here due] .
  have "poll_once E w = (Inr True, v)" by (simp add: poll_once_def bindM_def claim v(1) ret_def)
  moreover have "sent_log v = sent_log w @ [(py_str (dget (loads (appr_payload row)) ''gmail_draft_id''), m)]"
  proof -
    have "sent_log u = sent_log w" by (simp add: u_def)
    then show ?thesis using v(2) by (simp add: delivered_def)
  qed
  moreover have "m \<noteq> []" using v(2) by (simp add: delivered_def)
  moreover have "get_approval (appr_pk row) v = Some (merge_row [(''gmail_message_id'', JStr m), (''send_status'', JStr ''sent'')] row)"
    using v(2) unfolding delivered_def carries_def by blast
  moreover have "marked_sent (appr_pk row) (job_pk job) m v"
    using v(2) unfolding delivered_def same(1) by blast
  moreover have "map_option job_status (get_job (job_pk job) v) = Some JobSucceeded" using v(3) unfolding same(1) .
  ultimately show ?thesis by blast
qed

text \<open>An approved approval whose send job waits.\<close>

definition due_state :: world where
  "due_state = sample_state ApprovalApproved\<lparr>jobs := [sample_source_job,
     sample_source_job\<lparr>job_pk := uuid 1, job_type := EMAIL_SEND_APPROVED, job_status := JobPending,
       job_payload := Some [(''approval_id'', JStr (uuid 3))]\<rparr>]\<rparr>"

theorem approved_send_delivered_witness:
  "\<exists>m v. poll_once sample_env due_state = (Inr True, v) \<and> sent_log v = [(''d1'', m)]"
proof -
  let ?job = "sample_source_job\<lparr>job_pk := uuid 1, job_type := EMAIL_SEND_APPROVED, job_status := JobPending,
       job_payload := Some [(''approval_id'', JStr (uuid 3))]\<rparr>"
  let ?row = "sample_approval ApprovalApproved"
  have up: "mail_up sample_env" by (simp add: mail_up_def sample_defs)
  have good: "good sample_env due_state"
    using sample_state_good [of ApprovalApproved]
    by (auto simp: due_state_def good_def drawn_def keys_unique_def sample_state_def sample_source_job_def)
  have oldest: "oldest_eligible due_state = Some ?job"
    by (simp add: oldest_eligible_def eligible_def first_row_def due_state_def sample_source_job_def)
  have row: "loads (appr_payload ?row) = [(''job_id'', JStr (uuid 2)), (''workflow'', JStr ''email.outbound''), (''gmail_draft_id'', JStr ''d1'')]"
    "appr_pk ?row = uuid 3" "appr_tenant ?row = Some ''t1''" "appr_kind ?row = ''job.gate''" "appr_status ?row = ApprovalApproved"
    by (simp_all add: sample_approval_def loads_def)
  have "get_job (uuid 2) due_state = Some sample_source_job"
    by (simp add: get_job_def get_row_def due_state_def sample_source_job_def)
  then have verdict: "enqueue_verdict ?row due_state = None"
    by (simp add: enqueue_verdict_def gate_verdict_def row get_json_def Let_def)
  have "get_request (uuid 3) None due_state = Some ?row"
    by (simp add: get_request_def get_approval_def get_row_def due_state_def sample_state_def sample_approval_def)
  then have "checked ?job due_state ?row"
    by (simp add: checked_iff verdict row get_json_def) (simp add: sample_source_job_def loads_def)
  moreover have "gmail_mode (config sample_env) = Stub" "deliveries due_state = []"
    by (simp_all add: sample_defs due_state_def sample_state_def empty_world_def)
  ultimately have due: "due sample_env ?job ?row due_state" by (simp add: due_def row)
  have "sent_log due_state = []" by (simp add: due_state_def sample_state_def empty_world_def)
  then show ?thesis
    using approved_send_delivered [OF up good oldest due] by (auto simp: row)
qed

end
