(* ===== verification/Links.thy ===== *)
theory Links
  imports SeedPilot
begin

text \<open>
  The links between jobs, approvals and deliveries, which no foreign key enforces: an approval has one
  delivery, the send job a delivery names is a job for the delivery's approval, and a job with the
  idempotency key of an approval's send belongs to the tenant of the approval. Every state the system
  reaches has them.
\<close>

definition names_approval :: "job \<Rightarrow> string \<Rightarrow> bool" where
  "names_approval j a \<longleftrightarrow> dget (loads (job_payload j)) ''approval_id'' = JStr a"

definition executed_by_own_job :: "world \<Rightarrow> bool" where
  "executed_by_own_job w \<longleftrightarrow> (\<forall>d \<in> set (deliveries w). \<forall>k. dlv_execution_job d = Some k \<longrightarrow>
     (\<exists>j \<in> set (jobs w). \<exists>a. job_pk j = k \<and> dlv_approval d = Some a \<and> names_approval j a))"

definition send_keys_own :: "world \<Rightarrow> bool" where
  "send_keys_own w \<longleftrightarrow> (\<forall>j \<in> set (jobs w). \<forall>a. job_idempotency_key j = Some (send_key a) \<longrightarrow>
     (\<exists>r \<in> set (approvals w). appr_pk r = a \<and> appr_tenant r = job_tenant j))"

text \<open>While a worker handles a job, its row stays with the approval it names.\<close>

definition present :: "job \<Rightarrow> world \<Rightarrow> bool" where
  "present job w \<longleftrightarrow> (\<exists>j \<in> set (jobs w). job_pk j = job_pk job
     \<and> dget (loads (job_payload j)) ''approval_id'' = dget (loads (job_payload job)) ''approval_id'')"

definition linked :: "env \<Rightarrow> job option \<Rightarrow> world \<Rightarrow> bool" where
  "linked E handled w \<longleftrightarrow> good E w \<and> deliveries_single w \<and> executed_by_own_job w \<and> send_keys_own w
     \<and> (case handled of None \<Rightarrow> True | Some job \<Rightarrow> present job w)"

section \<open>Operations that write neither jobs nor deliveries\<close>

lemma linked_frame:
  assumes "forward E w v" and "only S w v" and "TJobs \<notin> S" and "TDeliveries \<notin> S"
  shows "keeps (linked E handled) w v"
proof -
  have same: "jobs v = jobs w" "deliveries v = deliveries w" "uuids w \<le> uuids v"
    using onlyD [OF assms(2), of TJobs] onlyD [OF assms(2), of TDeliveries] assms by (simp_all add: only_def)
  have "linked E handled v" if w: "linked E handled w"
  proof -
    have good: "good E v" "table_le appr_le (approvals w) (approvals v)"
      using assms(1) w by (simp_all add: forward_def linked_def)
    have "deliveries_single v" using w same by (auto simp: linked_def deliveries_single_def intro: drawn_mono)
    moreover have "executed_by_own_job v" using w same by (simp add: linked_def executed_by_own_job_def)
    moreover have "\<exists>r' \<in> set (approvals v). appr_pk r' = appr_pk r \<and> appr_tenant r' = appr_tenant r"
      if "r \<in> set (approvals w)" for r
      using appr_order.le_in [OF good(2) that] by (auto simp: appr_le_def)
    then have "send_keys_own v" using w same unfolding linked_def send_keys_own_def by (metis (no_types, lifting))
    moreover have "present job v = present job w" for job by (simp add: present_def same)
    ultimately show ?thesis using w good by (cases handled) (simp_all add: linked_def)
  qed
  then show ?thesis by (simp add: keeps_def)
qed

lemma evolves_linked:
  assumes "evolves (only S) m" and "TJobs \<notin> S" and "TDeliveries \<notin> S" and "evolves (forward E) m"
  shows "evolves (keeps (linked E handled)) m"
  by (rule evolvesI) (rule linked_frame [OF evolvesD [OF assms(4)] evolvesD [OF assms(1)] assms(2,3)])

lemma linked_neutral [evo]:
  "evolves (keeps (linked E handled)) (create_draft E' g t s b)"
  "evolves (keeps (linked E handled)) (workflow_read_thread E' th t j i)"
  "evolves (keeps (linked E handled)) (upsert_thread_record t x j0 sn i0 e)"
  "evolves (keeps (linked E handled)) (audit_record E a')"
  "evolves (keeps (linked E handled)) (send_approved_draft E' g d)"
  "evolves (keeps (linked E handled)) (create_request E kind t jid p)"
  "evolves (keeps (linked E handled)) (merge_execution_context aid fs)"
  "evolves (keeps (linked E handled)) (record_send_completed aid m)"
  by (rule evolves_linked [of "{TCalls, TSent, TThreads, TAudit, TApprovals}"], (intro evo; simp), simp, simp, intro evo)+

section \<open>Writes of jobs\<close>

lemma linked_update_job:
  assumes le: "\<And>j. job_le j (f j)"
    and names: "\<And>j. dget (loads (job_payload (f j))) ''approval_id'' = dget (loads (job_payload j)) ''approval_id''"
  shows "evolves (keeps (linked E handled)) (update_job jid f)"
proof (rule evolvesI)
  fix w :: world
  let ?g = "touch_job (clock w) f"
  let ?v = "jobs_update (tupd job_pk jid ?g) w"
  have v: "after (update_job jid f) w = ?v" by (simp add: update_job_run)
  have g: "job_pk (?g j) = job_pk j" "job_tenant (?g j) = job_tenant j" "job_idempotency_key (?g j) = job_idempotency_key j"
    "dget (loads (job_payload (?g j))) ''approval_id'' = dget (loads (job_payload j)) ''approval_id''" for j
    using le [of j] names [of j] by (auto simp: touched_def job_le_def)
  have "forward E w ?v" using evolvesD [OF update_job_keeps [where f = f and E = E and jid = jid, OF le], of w] by (simp add: v)
  then have "good E w \<Longrightarrow> good E ?v" by (simp add: forward_def)
  moreover have "deliveries_single w \<Longrightarrow> deliveries_single ?v" by (simp add: deliveries_single_def drawn_def)
  moreover have img: "\<exists>j' \<in> set (jobs ?v). job_pk j' = job_pk j
      \<and> dget (loads (job_payload j')) ''approval_id'' = dget (loads (job_payload j)) ''approval_id''"
    if "j \<in> set (jobs w)" for j
  proof (rule bexI)
    show "(if job_pk j = jid then ?g j else j) \<in> set (jobs ?v)" using that by (auto simp: tupd_def)
  qed (use g in \<open>simp add: if_distrib\<close>)
  have "executed_by_own_job w \<Longrightarrow> executed_by_own_job ?v"
    using img unfolding executed_by_own_job_def names_approval_def by (simp, metis)
  moreover have "present job w \<Longrightarrow> present job ?v" for job
    using img unfolding present_def by metis
  moreover have "\<exists>j0 \<in> set (jobs w). job_idempotency_key j = job_idempotency_key j0 \<and> job_tenant j = job_tenant j0"
    if "j \<in> set (jobs ?v)" for j
    using that g by (auto simp: tupd_def split: if_splits)
  then have "send_keys_own w \<Longrightarrow> send_keys_own ?v"
    unfolding send_keys_own_def by (simp, metis)
  ultimately show "keeps (linked E handled) w (after (update_job jid f) w)"
    by (cases handled) (simp_all add: v keeps_def linked_def)
qed

lemma linked_job_marks [evo]:
  "evolves (keeps (linked E handled)) (count_attempt jid)"
  "evolves (keeps (linked E handled)) (mark_job_failed jid m)"
  "evolves (keeps (linked E handled)) (mark_job_succeeded jid r)"
  "evolves (keeps (linked E handled)) (retry_failed_job jid t)"
  unfolding count_attempt_def mark_job_failed_def mark_job_succeeded_def retry_failed_job_def
    assert_email_send_retry_allowed_def
  by (intro evo linked_update_job; simp add: job_le_def loads_def split: option.split)+

section \<open>Writes of deliveries\<close>

text \<open>The delivery of an approval is updated: it may come to name a job only when that job names the approval.\<close>

lemma linked_update_delivery:
  assumes d: "deliveries_of a (deliveries w) = [d]"
    and f: "\<And>r. dlv_approval (f r) = dlv_approval r" "\<And>r. dlv_pk (f r) = dlv_pk r"
    and ex: "\<And>r. dlv_execution_job (f r) = dlv_execution_job r
      \<or> (\<exists>job. handled = Some job \<and> dlv_execution_job (f r) = Some (job_pk job) \<and> names_approval job a)"
  shows "keeps (linked E handled) w (deliveries_update (tupd dlv_pk (dlv_pk d) f) w)"
  unfolding keeps_def
proof
  let ?v = "deliveries_update (tupd dlv_pk (dlv_pk d) f) w"
  assume w: "linked E handled w"
  then have single: "deliveries_single w" by (simp add: linked_def)
  note upd = update_delivery [OF single d f]
  have "\<exists>j \<in> set (jobs ?v). \<exists>b. job_pk j = k \<and> dlv_approval r = Some b \<and> names_approval j b"
    if r: "r \<in> set (deliveries ?v)" "dlv_execution_job r = Some k" for r k
  proof (cases "dlv_approval r = Some a")
    case False
    then have "r \<in> set (filter (\<lambda>r. dlv_approval r \<noteq> Some a) (deliveries ?v))" using r(1) by simp
    then have "r \<in> set (deliveries w)" unfolding upd(3) by simp
    then show ?thesis using w r(2) by (simp add: linked_def executed_by_own_job_def)
  next
    case True
    then have "r \<in> set (deliveries_of a (deliveries ?v))" using r(1) by (simp add: deliveries_of_def)
    then have rd: "r = f d" unfolding upd(1) by simp
    have "d \<in> set (deliveries_of a (deliveries w))" by (simp add: d)
    then have d_in: "d \<in> set (deliveries w)" "dlv_approval d = Some a" by (simp_all add: deliveries_of_def)
    show ?thesis
    proof (cases "dlv_execution_job (f d) = dlv_execution_job d")
      case True
      then show ?thesis using w d_in r(2) rd by (auto simp: linked_def executed_by_own_job_def f)
    next
      case False
      then obtain job where job: "handled = Some job" "k = job_pk job" "names_approval job a"
        using ex [of d] r(2) rd by auto
      then obtain j where "j \<in> set (jobs w)" "job_pk j = job_pk job" "names_approval j a"
        using w by (auto simp: linked_def present_def names_approval_def)
      then show ?thesis using job d_in rd f by auto
    qed
  qed
  then have "executed_by_own_job ?v" by (simp add: executed_by_own_job_def)
  moreover have "good E ?v" using w by (simp add: linked_def good_def drawn_def keys_unique_def)
  ultimately show "linked E handled ?v"
    using w upd(2) by (cases handled) (simp_all add: linked_def send_keys_own_def present_def)
qed

lemma linked_upsert [evo]: "evolves (keeps (linked E handled)) (upsert_outbound_delivery t x d a j s)"
proof (rule evolvesI)
  fix w
  show "keeps (linked E handled) w (after (upsert_outbound_delivery t x d a j s) w)"
  proof (cases "linked E handled w")
    case True
    then have single: "deliveries_single w" by (simp add: linked_def)
    then have "distinct (List.map_filter dlv_approval (deliveries w))" by (simp add: deliveries_single_def)
    then show ?thesis
    proof (cases rule: deliveries_of_cases [where a = a])
      case 1
      let ?r = "\<lparr>dlv_pk = uuid (uuids w), dlv_tenant = t, dlv_thread = x, dlv_draft = Some d,
            dlv_message = None, dlv_approval = Some a, dlv_source_job = Some j,
            dlv_execution_job = None, dlv_status = s, dlv_last_error = None, dlv_updated_at = clock w\<rparr>"
      let ?v = "w\<lparr>uuids := Suc (uuids w), deliveries := deliveries w @ [?r]\<rparr>"
      note ins = insert_delivery [OF single 1, of ?r]
      have "upsert_outbound_delivery t x d a j s w = (Inr (), ?v)"
        using ins(3) by (simp add: upsert_outbound_delivery_def 1 scalar_one_or_none_def comp new_id_def insert_unique_def)
      moreover have "good E ?v" using True by (auto simp: linked_def good_def keys_unique_def intro: drawn_mono)
      moreover have "executed_by_own_job ?v" using True by (auto simp: linked_def executed_by_own_job_def)
      moreover have "deliveries_single ?v" using ins(2) by simp
      ultimately have "linked E handled (after (upsert_outbound_delivery t x d a j s) w)"
        using True by (cases handled) (simp_all add: linked_def send_keys_own_def present_def)
      then show ?thesis by (simp add: keeps_def)
    next
      case (2 d')
      show ?thesis
        using linked_update_delivery [OF 2, of "touch (clock w) (\<lambda>r. r\<lparr>dlv_thread := x, dlv_draft := Some d,
             dlv_source_job := Some j, dlv_status := s, dlv_last_error := None\<rparr>)" handled E]
        by (simp add: upsert_outbound_delivery_def 2 scalar_one_or_none_def comp update_row_def touch_keeps)
    qed
  qed (simp add: keeps_def)
qed

lemma linked_mark_deliveries:
  assumes "names_approval job a"
  shows "evolves (keeps (linked E (Some job))) (mark_delivery_sent a (job_pk job) m)"
    and "evolves (keeps (linked E (Some job))) (mark_delivery_failed a (job_pk job) m)"
proof -
  have mark: "keeps (linked E (Some job)) w (after (bindM (gets (\<lambda>w. deliveries_of a (deliveries w))) (\<lambda>found.
     bindM (lift (scalar_one_or_none found)) (\<lambda>row.
     bindM (gets clock) (\<lambda>now.
     case row of None \<Rightarrow> ret () | Some d \<Rightarrow> update_row deliveries_update dlv_pk (dlv_pk d) (touch now f))))) w)"
    if f: "\<And>r. dlv_approval (f r) = dlv_approval r" "\<And>r. dlv_pk (f r) = dlv_pk r" "\<And>r. dlv_execution_job (f r) = Some (job_pk job)"
    for f and w :: world
  proof (cases "linked E (Some job) w")
    case True
    then have "distinct (List.map_filter dlv_approval (deliveries w))" by (simp add: linked_def deliveries_single_def)
    then show ?thesis
    proof (cases rule: deliveries_of_cases [where a = a])
      case 1
      then show ?thesis by (simp add: scalar_one_or_none_def comp keeps_evo.evo_refl)
    next
      case (2 d)
      show ?thesis
        using linked_update_delivery [OF 2, of "touch (clock w) f" "Some job" E] assms f
        by (simp add: 2 scalar_one_or_none_def comp update_row_def touch_keeps)
    qed
  qed (simp add: keeps_def)
  show "evolves (keeps (linked E (Some job))) (mark_delivery_sent a (job_pk job) m)"
    unfolding mark_delivery_sent_def by (rule evolvesI) (rule mark; simp)
  show "evolves (keeps (linked E (Some job))) (mark_delivery_failed a (job_pk job) m)"
    unfolding mark_delivery_failed_def by (rule evolvesI) (rule mark; simp)
qed


section \<open>Creation of jobs\<close>

text \<open>A job is created with the key of an approval's send only for that approval's tenant.\<close>

definition row_of :: "approval \<Rightarrow> world \<Rightarrow> bool" where
  "row_of a w \<longleftrightarrow> (\<exists>r \<in> set (approvals w). appr_pk r = appr_pk a \<and> appr_tenant r = appr_tenant a)"

lemma linked_create:
  assumes "k = None \<or> (\<exists>a. k = Some (send_key (appr_pk a)) \<and> t = appr_tenant a \<and> row_of a w)"
  shows "keeps (linked E handled) w (after (create_job ty p t k) w)"
proof -
  let ?j = "new_job ty p t k w"
  let ?v = "after (create_job ty p t k) w"
  have v: "deliveries ?v = deliveries w" "approvals ?v = approvals w" "uuids ?v = Suc (uuids w)"
    "set (jobs w) \<subseteq> set (jobs ?v)" "set (jobs ?v) \<subseteq> insert ?j (set (jobs w))"
    by (auto simp: create_job_run)
  have "linked E handled ?v" if w: "linked E handled w"
  proof -
    have "good E ?v" using evolvesD [OF create_job_forward, of E w] w by (simp add: forward_def linked_def)
    moreover have "deliveries_single ?v" using w v(1,3) by (auto simp: linked_def deliveries_single_def intro: drawn_mono)
    moreover have "executed_by_own_job ?v" using w v(1,4) by (fastforce simp: linked_def executed_by_own_job_def)
    moreover have "send_keys_own ?v"
    proof -
      have "\<exists>r \<in> set (approvals w). appr_pk r = a \<and> appr_tenant r = job_tenant ?j"
        if "job_idempotency_key ?j = Some (send_key a)" for a
        using that assms by (auto simp: new_job_def send_key_def row_of_def)
      then show ?thesis
        using w v(2,5) unfolding linked_def send_keys_own_def by (metis insertE subsetD)
    qed
    moreover have "present job w \<Longrightarrow> present job ?v" for job using v(4) by (fastforce simp: present_def)
    ultimately show ?thesis using w by (cases handled) (simp_all add: linked_def)
  qed
  then show ?thesis by (simp add: keeps_def)
qed

lemma linked_new_job [evo]: "evolves (keeps (linked E handled)) (create_job ty p t None)"
  by (rule evolvesI) (rule linked_create, simp)

lemma linked_enqueue:
  assumes "row_of a w"
  shows "keeps (linked E handled) w (after (enqueue_email_send_job E a) w)"
proof -
  have audit: "keeps (linked E handled) u (after (bindM (audit_record E x) (\<lambda>_. ret z)) u)" for u x and z :: job
    by (rule evolvesD) (intro keeps_evo.evo_bind keeps_evo.evo_ret linked_neutral)
  have "validate_send_enqueue_eligibility a w = (case enqueue_verdict a w of None \<Rightarrow> Inr () | Some e \<Rightarrow> Inl e, w)"
    by (simp add: validate_enqueue_run)
  then consider e where "enqueue_email_send_job E a w = (Inl e, w)"
    | "validate_send_enqueue_eligibility a w = (Inr (), w)"
    by (cases "enqueue_verdict a w") (auto simp: enqueue_email_send_job_def bindM_def)
  then show ?thesis
  proof cases
    case 1
    then show ?thesis by (simp add: keeps_evo.evo_refl)
  next
    case 2
    let ?k = "send_key (appr_pk a)"
    show ?thesis
    proof (cases "get_job_by_idempotency_key ?k w")
      case (Some j)
      then show ?thesis using 2 by (simp add: enqueue_email_send_job_def Let_def bindM_def [of "validate_send_enqueue_eligibility _"] bindM_def [of "gets _"] gets_def audit)
    next
      case None
      let ?m = "create_job EMAIL_SEND_APPROVED (Some [(''approval_id'', JStr (appr_pk a))]) (appr_tenant a) (Some ?k)"
      obtain r v where m: "?m w = (r, v)" by fastforce
      have "keeps (linked E handled) w v"
        using linked_create [of "Some ?k" "appr_tenant a" w E handled EMAIL_SEND_APPROVED "Some [(''approval_id'', JStr (appr_pk a))]"] assms m
        by auto
      then show ?thesis
        using 2 None m audit [of v]
        by (cases r) (auto simp: enqueue_email_send_job_def Let_def bindM_def [of "validate_send_enqueue_eligibility _"]
            bindM_def [of "gets _"] bindM_def [of "create_job _ _ _ _"] gets_def intro: keeps_evo.evo_trans)
    qed
  qed
qed


section \<open>Requests\<close>

text \<open>The decision answers a row of the table, and the send job is created for that row.\<close>

lemma approve_answers:
  assumes "good E w" and "value_error s (approve E aid actor note t) w = (Inr a, v)"
  shows "row_of a v"
proof -
  have chain: "chain_ok E (audit_events w)" using assms(1) by (simp add: good_def)
  have "approve E aid actor note t w = (Inr a, v)"
    using assms(2) by (auto simp: value_error_def catch_def raise_def split: prod.splits sum.splits exn.splits)
  then obtain row where row: "get_request aid t w = Some row"
    "a = decide_row ApprovalApproved (approved_decision actor note) (clock w) row"
    "v = audited E (approve_audit row actor note) (approvals_update (tupd appr_pk aid
           (decide_row ApprovalApproved (approved_decision actor note) (clock w))) w)"
    by (auto simp: approve_run [OF chain] Let_def split: option.splits if_splits)
  have "row \<in> set (approvals w)" "appr_pk row = aid" using approval_fetch.fetch_SomeD [OF row(1)] by simp_all
  then show ?thesis 
    by (simp add: row_of_def row(2,3) decide_row_def) (rule bexI [of _ "decide_row ApprovalApproved (approved_decision actor note) (clock w) row"];
      force simp: tupd_def decide_row_def)
qed

text \<open>Sequencing at one state, and with what the first operation answered.\<close>

lemma keeps_bind_at:
  assumes "keeps Q w (after m w)" and "\<And>x. evolves (keeps Q) (f x)"
  shows "keeps Q w (after (bindM m f) w)"
proof -
  obtain r v where m: "m w = (r, v)" by fastforce
  show ?thesis
    using assms m keeps_evo.evo_trans [of Q w v] evolvesD [OF assms(2)]
    by (cases r) (auto simp: bindM_def)
qed

lemma keeps_bind_answer:
  assumes "evolves (keeps Q) m" and "\<And>w x v. Q w \<Longrightarrow> m w = (Inr x, v) \<Longrightarrow> keeps Q v (after (f x) v)"
  shows "evolves (keeps Q) (bindM m f)"
proof (rule evolvesI)
  fix w
  obtain r v where m: "m w = (r, v)" by fastforce
  have v: "keeps Q w v" using evolvesD [OF assms(1), of w] m by simp
  show "keeps Q w (after (bindM m f) w)"
  proof (cases r)
    case (Inr x)
    then have "Q w \<Longrightarrow> keeps Q v (after (f x) v)" using assms(2) m by simp
    then show ?thesis using v m Inr by (auto simp: bindM_def keeps_def)
  qed (use m v in \<open>simp add: bindM_def\<close>)
qed

lemma keeps_value_error: "keeps Q w (after m w) \<Longrightarrow> keeps Q w (after (value_error s m) w)"
  by (auto simp: value_error_def catch_def raise_def split: prod.splits sum.splits exn.splits)

lemma linked_approve:
  assumes f: "\<And>row x. evolves (keeps (linked E None)) (f row x)"
  shows "evolves (keeps (linked E None)) (bindM (value_error s (approve E aid actor note t)) (\<lambda>row.
     bindM (if should_enqueue_email_send_after_approval row
            then bindM (value_error s' (enqueue_email_send_job E row)) (\<lambda>j. ret (Some (job_pk j)))
            else ret None) (f row)))"
proof (rule keeps_bind_answer)
  show "evolves (keeps (linked E None)) (value_error s (approve E aid actor note t))"
    by (rule evolves_linked [of "{TApprovals, TAudit}"]) (unfold value_error_def, (intro evo; simp), simp, simp, intro evo)
next
  fix w a v
  assume w: "linked E None w" and m: "value_error s (approve E aid actor note t) w = (Inr a, v)"
  have row: "row_of a v" by (rule approve_answers [OF _ m]) (use w in \<open>simp add: linked_def\<close>)
  let ?enq = "bindM (value_error s' (enqueue_email_send_job E a)) (\<lambda>j. ret (Some (job_pk j)))"
  have "keeps (linked E None) v (after ?enq v)"
    by (rule keeps_bind_at, rule keeps_value_error, rule linked_enqueue [OF row], rule keeps_evo.evo_ret)
  then have "keeps (linked E None) v (after (if should_enqueue_email_send_after_approval a then ?enq else ret None) v)"
    by (simp add: ret_def keeps_evo.evo_refl)
  then show "keeps (linked E None) v (after (bindM (if should_enqueue_email_send_after_approval a then ?enq else ret None) (f a)) v)"
    by (rule keeps_bind_at) (rule f)
qed

abbreviation unlinked_tables :: "table set" where
  "unlinked_tables \<equiv> - {TJobs, TDeliveries}"

lemma linked_dependencies [evo]:
  "evolves (keeps (linked E None)) (require_permission E' p key)"
  "evolves (keeps (linked E None)) (get_current_tenant_id E' key)"
  by (rule evolves_linked [of "{TApiKeys}"], (intro evo; simp), simp, simp,
      rule evolves_only_forward [of "{TApiKeys}"], (intro evo; simp), simp, simp, simp)+

text \<open>Every other request writes neither table; the two that do keep the links.\<close>

lemma linked_unlinked: "evolves (progress E) m \<Longrightarrow> evolves (only unlinked_tables) m \<Longrightarrow> evolves (keeps (linked E handled)) m"
  by (rule evolves_linked, assumption) (auto simp: progress_def evolves_def)

lemma inspection_unlinked:
  "(case r of RetryJob _ \<Rightarrow> False | ApproveRequest _ _ _ \<Rightarrow> False | _ \<Rightarrow> True) \<Longrightarrow>
   evolves (only unlinked_tables) (handle_inspection E key r)"
  by (cases r) (simp_all only: inspection_request.simps handle_inspection.simps route_list_jobs_def route_get_job_def
      route_list_approvals_def route_get_approval_def route_reject_def route_list_audit_def
      route_verify_audit_chain_def route_list_deliveries_def route_delivery_by_approval_def route_delivery_by_job_def
      route_thread_summary_def get_thread_summary_def route_parts, (intro evo; simp)+)

lemma inspection_linked: "evolves (keeps (linked E None)) (handle_inspection E key r)"
proof (cases r)
  case (ApproveRequest aid actor n)
  show ?thesis
    unfolding ApproveRequest handle_inspection.simps route_approve_def answers_def with_permission_def valid_input_def
    by (intro keeps_evo.evo_bind keeps_evo.evo_ret keeps_evo.evo_gets keeps_evo.evo_raise evolves_if linked_dependencies linked_approve)
next
  case (RetryJob jid)
  show ?thesis
    unfolding RetryJob handle_inspection.simps route_retry_job_def answers_def with_permission_def valid_input_def found_or_def value_error_def
    by (intro evo)
qed (rule linked_unlinked [OF handle_inspection_progress inspection_unlinked], simp)+

lemma evidence_unlinked: "evolves (only unlinked_tables) (handle_evidence E key r)"
  by (cases r) (simp_all only: handle_evidence.simps route_list_frameworks_def route_list_framework_controls_def
      route_list_regulations_def route_list_ai_systems_def route_list_actions_def route_action_graph_def
      route_action_packet_def route_workflow_packet_def route_export_packet_def route_persist_action_packet_def
      route_list_stored_packets_def route_get_stored_packet_def route_verify_packet_def route_revoke_packet_def
      route_download_stored_packet_def route_incident_replay_def route_parts, (intro evo; simp)+)

lemma governance_unlinked: "evolves (only unlinked_tables) (handle_governance E key r)"
  by (cases r) (simp_all only: handle_governance.simps route_list_policies_def route_create_policy_def route_get_policy_def
      route_activate_policy_def route_rollback_policy_def route_submit_review_def route_list_runs_def route_get_run_def
      route_override_run_def route_parts, (intro evo; simp)+)

lemma trust_unlinked: "evolves (only unlinked_tables) (handle_trust E key r)"
  by (cases r) (simp_all only: handle_trust.simps route_action_score_def route_workflow_score_def route_tenant_score_def
      route_compute_action_score_def route_compute_workflow_score_def route_compute_tenant_score_def
      route_request_verification_def route_review_verification_def route_approve_verification_def
      route_revoke_verification_def route_parts, (intro evo; simp)+)

lemma dispatch_linked: "evolves (keeps (linked E None)) (dispatch E oh key req)"
proof -
  have "evolves (keeps (linked E None)) (handle E key req)"
  proof (cases req)
    case (Chat a b c)
    then show ?thesis by (simp only: handle.simps route_chat_def route_parts) (intro evo)
  qed (simp_all add: inspection_linked linked_unlinked handle_evidence_progress evidence_unlinked
      handle_governance_progress governance_unlinked handle_trust_progress trust_unlinked)
  then show ?thesis unfolding dispatch_def by (intro evo)
qed

section \<open>The worker\<close>

lemma linked_enrich [evo]: "evolves (keeps (linked E handled)) (enrich_orchestrate_result E' job p r)"
  unfolding enrich_orchestrate_result_def by (intro evo)

lemma linked_execute_chat [evo]: "evolves (keeps (linked E handled)) (execute_chat_orchestrate E job)"
  unfolding execute_chat_orchestrate_def by (intro evo)

lemma linked_run_send [evo]: "evolves (keeps (linked E (Some job))) (run_send_approved_job E job)"
proof (rule evolvesI)
  fix w
  show "keeps (linked E (Some job)) w (after (run_send_approved_job E job) w)"
  proof (cases "\<exists>row. checked job w row \<and> appr_pk row \<noteq> []")
    case True
    then obtain row where row: "checked job w row" "appr_pk row \<noteq> []" by blast
    have names: "names_approval job (appr_pk row)" using checkedD(5) [OF row(1)] by (simp add: names_approval_def)
    note marks = linked_mark_deliveries [OF names]
    show ?thesis
      unfolding run_send_checked [OF row] send_tail_def
      by (cases "truthy (dget (loads (appr_payload row)) ''gmail_message_id'')")
        (simp_all only: if_True if_False, (rule evolvesD, intro evo marks)+)
  next
    case False
    then show ?thesis using run_send_unchecked [OF False, of E] by (auto simp: keeps_evo.evo_refl)
  qed
qed

lemma linked_audit_failed [evo]: "evolves (keeps (linked E (Some job))) (audit_send_job_failed E job m)"
proof (cases "if truthy (dget (loads (job_payload job)) ''approval_id'') then jstr (dget (loads (job_payload job)) ''approval_id'') else None")
  case None
  then show ?thesis unfolding audit_send_job_failed_def Let_def by (simp only:) (intro evo; simp)
next
  case (Some a)
  then have "names_approval job a" by (cases "dget (loads (job_payload job)) ''approval_id''") (auto simp: names_approval_def split: if_splits)
  note marks = linked_mark_deliveries [OF this]
  show ?thesis unfolding audit_send_job_failed_def Let_def Some by (simp only: option.simps) (intro evo marks)
qed

lemma linked_attempt [evo]:
  "evolves (keeps Q) body \<Longrightarrow> (\<And>m. evolves (keeps Q) (fail m)) \<Longrightarrow> evolves (keeps Q) (attempt body fail)"
  unfolding attempt_def by (intro evo; assumption?)

lemma linked_process [evo]: "evolves (keeps (linked E (Some job))) (process_job E job)"
  unfolding process_job_def run_task_def handle_chat_orchestrate_def handle_email_send_approved_def by (intro evo)

lemma linked_poll: "evolves (keeps (linked E None)) (poll_once E)"
proof (rule evolvesI)
  fix w
  show "keeps (linked E None) w (after (poll_once E) w)"
  proof (cases "oldest_eligible w")
    case None
    then show ?thesis by (simp add: poll_once_def bindM_def claim_run ret_def keeps_evo.evo_refl)
  next
    case (Some j)
    let ?f = "\<lambda>j. j\<lparr>job_status := JobRunning\<rparr>"
    let ?j = "touch_job (clock w) ?f j"
    define u where "u = jobs_update (tupd job_pk (job_pk j) (touch_job (clock w) ?f)) w"
    have claim: "claim_next_pending w = (Inr (Some ?j), u)" by (simp add: claim_run Some u_def)
    have v: "after (poll_once E) w = after (process_job E ?j) u"
    proof -
      obtain r x where "process_job E ?j u = (r, x)" by fastforce
      then show ?thesis by (cases r) (simp_all add: poll_once_def bindM_def claim ret_def)
    qed
    have u: "after (update_job (job_pk j) ?f) w = u" by (simp add: update_job_run u_def)
    have "evolves (keeps (linked E None)) (update_job (job_pk j) ?f)"
      by (rule linked_update_job) (simp_all add: job_le_def)
    from evolvesD [OF this, of w] have "keeps (linked E None) w u" unfolding u .
    moreover have "present ?j u"
    proof -
      have "j \<in> set (jobs w)" using oldest_eligible_in [OF Some] by simp
      then have "?j \<in> set (jobs u)" by (auto simp: u_def tupd_def)
      then show ?thesis unfolding present_def by blast
    qed
    moreover have "keeps (linked E (Some ?j)) u (after (process_job E ?j) u)" by (rule evolvesD) (rule linked_process)
    ultimately show ?thesis by (simp add: v keeps_def linked_def)
  qed
qed

section \<open>The registry\<close>

text \<open>AI systems and workflows are only ever registered, under keys drawn once.\<close>

definition registry :: "world \<Rightarrow> bool" where
  "registry w \<longleftrightarrow> drawn workflows wf_pk w \<and> drawn ai_systems ais_pk w"

interpretation ai_tbl: world_table ai_systems ai_systems_update ais_pk
  by unfold_locales simp_all

lemma only_registry:
  assumes "only S w v" and "TWorkflows \<notin> S" and "TAiSystems \<notin> S"
  shows "keeps registry w v"
proof -
  have "same TWorkflows w v" "same TAiSystems w v" "uuids w \<le> uuids v"
    using assms by (auto dest: onlyD simp: only_def simp del: same.simps)
  then show ?thesis by (auto simp: keeps_def registry_def intro: drawn_mono)
qed

lemma evolves_registry: "evolves (only S) m \<Longrightarrow> TWorkflows \<notin> S \<Longrightarrow> TAiSystems \<notin> S \<Longrightarrow> evolves (keeps registry) m"
  by (auto simp: evolves_def intro: only_registry)

lemma registered:
  "evolves (keeps registry) (create_workflow t n k d)" "evolves (keeps registry) (create_ai_system t n d ow)"
proof -
  have up: "drawn workflows wf_pk (w\<lparr>uuids := Suc (uuids w)\<rparr>)" "drawn ai_systems ais_pk (w\<lparr>uuids := Suc (uuids w)\<rparr>)"
    if "registry w" for w
    using that by (auto simp: registry_def intro: drawn_mono)
  show "evolves (keeps registry) (create_workflow t n k d)"
  proof (rule evolvesI)
    fix w :: world
    let ?r = "\<lparr>wf_pk = uuid (uuids w), wf_tenant = t, wf_ai_system = k, wf_name = n, wf_description = d, wf_created_at = clock w\<rparr>"
    show "keeps registry w (after (create_workflow t n k d) w)"
      using workflows_tbl.drawn_insert [of w ?r] up [of w]
      by (auto simp: keeps_def create_workflow_def comp new_id_def insert_unique_def Let_def registry_def insert_row_def drawn_def)
  qed
  show "evolves (keeps registry) (create_ai_system t n d ow)"
  proof (rule evolvesI)
    fix w :: world
    let ?r = "\<lparr>ais_pk = uuid (uuids w), ais_tenant = t, ais_name = n, ais_description = d, ais_owner = ow, ais_created_at = clock w\<rparr>"
    show "keeps registry w (after (create_ai_system t n d ow) w)"
      using ai_tbl.drawn_insert [of w ?r] up [of w]
      by (auto simp: keeps_def create_ai_system_def comp new_id_def insert_unique_def Let_def registry_def insert_row_def drawn_def)
  qed
qed

lemma admin_registry: "evolves (keeps registry) (admin E op)"
proof (cases op)
  case (NewWorkflow t n k d)
  then show ?thesis by (simp only: admin.simps answers_def) (intro keeps_evo.evo_bind keeps_evo.evo_ret registered)
next
  case (NewAiSystem t n d ow)
  then show ?thesis by (simp only: admin.simps answers_def) (intro keeps_evo.evo_bind keeps_evo.evo_ret registered)
qed (simp_all only: admin.simps answers_def, (rule evolves_registry [of "- {TWorkflows, TAiSystems}"], (intro evo; simp), simp, simp)+)

section \<open>Every reachable state\<close>

lemma linked_step:
  assumes "step E w l v" and "linked E None w"
  shows "linked E None v"
  using assms(1)
proof cases
  case (request key oh req)
  then show ?thesis using evolvesD [OF dispatch_linked, of E w oh key req] assms(2) by (simp add: keeps_def)
next
  case poll
  then show ?thesis using evolvesD [OF linked_poll, of E w] assms(2) by (simp add: keeps_def)
next
  case start
  have "evolves (only unlinked_tables) startup" unfolding startup_def by (intro evo; simp)
  then have "evolves (keeps (linked E None)) startup" by (rule linked_unlinked [OF startup_progress])
  from evolvesD [OF this, of w] show ?thesis using start assms(2) by (simp add: keeps_def)
next
  case (admin op)
  have "evolves (only unlinked_tables) (admin E op)"
    by (cases op) (simp_all only: admin.simps answers_def, (intro evo; simp)+)
  then have "evolves (keeps (linked E None)) (admin E op)" by (rule linked_unlinked [OF admin_progress])
  from evolvesD [OF this, of w] show ?thesis using admin assms(2) by (simp add: keeps_def)
next
  case (tick now)
  then show ?thesis using assms(2)
    by (simp add: linked_def good_def drawn_def keys_unique_def deliveries_single_def executed_by_own_job_def send_keys_own_def)
qed

lemma linked_empty: "linked E None empty_world"
  by (simp add: linked_def empty_world_good)
    (simp add: drawn_def deliveries_single_def executed_by_own_job_def send_keys_own_def empty_world_def)

lemma reached_linked: "run E w ls v \<Longrightarrow> linked E None w \<Longrightarrow> linked E None v"
  by (induction rule: run.induct) (auto intro: linked_step)

lemma registry_step: "step E w l v \<Longrightarrow> keeps registry w v"
proof (erule stepE)
  assume "v = after (poll_once E) w"
  then show "keeps registry w v" using evolvesD [OF evolves_registry [OF poll_once_evo(1)], of w] by (simp add: worker_tables_def)
next
  assume "v = after startup w"
  moreover have "evolves (only (- {TWorkflows, TAiSystems})) startup" unfolding startup_def by (intro evo; simp)
  ultimately show "keeps registry w v" using evolvesD [OF evolves_registry, of "- {TWorkflows, TAiSystems}" startup w] by simp
next
  fix key oh req assume "v = after (dispatch E oh key req) w"
  then show "keeps registry w v" using evolvesD [OF evolves_registry [OF dispatch_served], of w] by simp
next
  fix op assume "v = after (admin E op) w"
  then show "keeps registry w v" using evolvesD [OF admin_registry] by simp
next
  fix now assume "v = w\<lparr>clock := now\<rparr>"
  then show "keeps registry w v" by (simp add: keeps_def registry_def drawn_def)
qed

lemma reached_registry: "run E w ls v \<Longrightarrow> registry w \<Longrightarrow> registry v"
  by (induction rule: run.induct) (auto simp: keeps_def dest: registry_step)

lemma registry_empty: "registry empty_world"
  by (simp add: registry_def drawn_def empty_world_def)

text \<open>So every table that is read by key has distinct keys.\<close>

lemma reached_keyed:
  assumes "run E empty_world ls w"
  shows "keyed_tables w"
proof -
  have "unique_keys w" using reached_good [OF assms] by simp
  then have "distinct (map fst (row_keys w))" by (simp add: unique_keys_def)
  then have "distinct (map ga_pk (governed_actions w))" "distinct (map appr_pk (approvals w))" "distinct (map job_pk (jobs w))"
    "distinct (map policy_pk (policies w))" "distinct (map pkt_pk (packets w))" "distinct (map ver_pk (verifications w))"
    by (simp_all add: row_keys_def comp_def)
  moreover have "registry w" by (rule reached_registry [OF assms registry_empty])
  ultimately show ?thesis by (simp add: keyed_tables_def registry_def drawn_def)
qed

end
