(* ===== verification/TenantView.thy ===== *)
theory TenantView
  imports Links
begin

text \<open>
  What the routes answer, and that a tenant reads its own data only: \<open>serve\<close> is the application with the
  answers of its routes, and a GET under a key of a tenant answers the same in any two states that agree
  on the tenant's own rows and the shared catalog.
\<close>

section \<open>Answers\<close>

datatype shown =
    Jobs "job list" | JobAnswer job | Approvals "approval list" | ApprovalAnswer approval_detail
  | Decided "approval_detail \<times> string option" | Events "audit_event list" | ChainAnswer chain_result
  | Deliveries "delivery list" | DeliveryAnswer delivery | Summary dict
  | Frameworks "framework list" | FrameworkControls "control list" | Regulations "regulation list"
  | AiSystems "ai_system list" | Actions "governed_action list" | GraphAnswer graph | PacketAnswer packet
  | Download string | StoredPacket packet_row | StoredPackets "packet_row list" | Report packet_report
  | Policies "policy list" | PolicyAnswer policy | Submitted review_run | Runs "run_row list" | RunAnswer run_view
  | OverrideAnswer override | Score dict | VerificationAnswer verification | Reviewed "verification \<times> evidence"
  | Queued string

definition showing :: "('a \<Rightarrow> shown) \<Rightarrow> 'a svc \<Rightarrow> shown svc" where
  "showing f m = bindM m (\<lambda>x. ret (f x))"

primrec show_inspection :: "env \<Rightarrow> string option \<Rightarrow> inspection_request \<Rightarrow> shown svc" where
  "show_inspection E key (ListJobs a b c) = showing Jobs (route_list_jobs E key a b c)"
| "show_inspection E key (RetryJob a) = showing JobAnswer (route_retry_job E key a)"
| "show_inspection E key (GetJob a) = showing JobAnswer (route_get_job E key a)"
| "show_inspection E key (ListApprovals a b) = showing Approvals (route_list_approvals E key a b)"
| "show_inspection E key (GetApproval a) = showing ApprovalAnswer (route_get_approval E key a)"
| "show_inspection E key (ApproveRequest a b c) = showing Decided (route_approve E key a b c)"
| "show_inspection E key (RejectRequest a b c) = showing ApprovalAnswer (route_reject E key a b c)"
| "show_inspection E key (ListAudit a b c) = showing Events (route_list_audit E key a b c)"
| "show_inspection E key VerifyAudit = showing ChainAnswer (route_verify_audit_chain E key)"
| "show_inspection E key (ListDeliveries a b) = showing Deliveries (route_list_deliveries E key a b)"
| "show_inspection E key (DeliveryByApproval a) = showing DeliveryAnswer (route_delivery_by_approval E key a)"
| "show_inspection E key (DeliveryByJob a) = showing DeliveryAnswer (route_delivery_by_job E key a)"
| "show_inspection E key (ThreadSummary a) = showing Summary (route_thread_summary E key a)"

primrec show_evidence :: "env \<Rightarrow> string option \<Rightarrow> evidence_request \<Rightarrow> shown svc" where
  "show_evidence E key ListFrameworks = showing Frameworks route_list_frameworks"
| "show_evidence E key (ListFrameworkControls a) = showing FrameworkControls (route_list_framework_controls a)"
| "show_evidence E key ListRegulations = showing Regulations route_list_regulations"
| "show_evidence E key ListAiSystems = showing AiSystems (route_list_ai_systems E key)"
| "show_evidence E key ListActions = showing Actions (route_list_actions E key)"
| "show_evidence E key (ActionGraph a) = showing GraphAnswer (route_action_graph E key a)"
| "show_evidence E key (ActionPacket a) = showing PacketAnswer (route_action_packet E key a)"
| "show_evidence E key (WorkflowPacket a) = showing PacketAnswer (route_workflow_packet E key a)"
| "show_evidence E key (ExportPacket a b) = showing Download (route_export_packet E key a b)"
| "show_evidence E key (PersistPacket a) = showing StoredPacket (route_persist_action_packet E key a)"
| "show_evidence E key ListStoredPackets = showing StoredPackets (route_list_stored_packets E key)"
| "show_evidence E key (GetStoredPacket a) = showing StoredPacket (route_get_stored_packet E key a)"
| "show_evidence E key (VerifyStoredPacket a) = showing Report (route_verify_packet E key a)"
| "show_evidence E key (RevokeStoredPacket a b) = showing StoredPacket (route_revoke_packet E key a b)"
| "show_evidence E key (DownloadStoredPacket a b) = showing Download (route_download_stored_packet E key a b)"
| "show_evidence E key (IncidentReplay a b) = showing Download (route_incident_replay E key a b)"

primrec show_governance :: "env \<Rightarrow> string option \<Rightarrow> governance_request \<Rightarrow> shown svc" where
  "show_governance E key (ListPolicies a) = showing Policies (route_list_policies E key a)"
| "show_governance E key (CreatePolicy a b c d) = showing PolicyAnswer (route_create_policy E key a b c d)"
| "show_governance E key (GetPolicy a) = showing PolicyAnswer (route_get_policy E key a)"
| "show_governance E key (ActivatePolicy a) = showing PolicyAnswer (route_activate_policy E key a)"
| "show_governance E key (RollbackPolicy a b) = showing PolicyAnswer (route_rollback_policy E key a b)"
| "show_governance E key (SubmitReview a) = showing Submitted (route_submit_review E key a)"
| "show_governance E key ListRuns = showing Runs (route_list_runs E key)"
| "show_governance E key (GetRun a) = showing RunAnswer (route_get_run E key a)"
| "show_governance E key (OverrideRun a b) = showing OverrideAnswer (route_override_run E key a b)"

primrec show_trust :: "env \<Rightarrow> string option \<Rightarrow> trust_request \<Rightarrow> shown svc" where
  "show_trust E key (ActionScore a) = showing Score (route_action_score E key a)"
| "show_trust E key (WorkflowScore a) = showing Score (route_workflow_score E key a)"
| "show_trust E key (TenantScore a) = showing Score (route_tenant_score E key a)"
| "show_trust E key (ComputeActionScore a) = showing Score (route_compute_action_score E key a)"
| "show_trust E key (ComputeWorkflowScore a) = showing Score (route_compute_workflow_score E key a)"
| "show_trust E key (ComputeTenantScore a) = showing Score (route_compute_tenant_score E key a)"
| "show_trust E key (RequestVerification a b c) = showing VerificationAnswer (route_request_verification E key a b c)"
| "show_trust E key (ReviewVerification a b) = showing Reviewed (route_review_verification E key a b)"
| "show_trust E key (ApproveVerification a) = showing VerificationAnswer (route_approve_verification E key a)"
| "show_trust E key (RevokeVerification a b) = showing VerificationAnswer (route_revoke_verification E key a b)"

primrec respond :: "env \<Rightarrow> string option \<Rightarrow> request \<Rightarrow> shown svc" where
  "respond E key (InspectionReq r) = show_inspection E key r"
| "respond E key (EvidenceReq r) = show_evidence E key r"
| "respond E key (GovernanceReq r) = show_governance E key r"
| "respond E key (TrustReq r) = show_trust E key r"
| "respond E key (Chat a b c) = showing Queued (route_chat E key a b c)"

definition serve :: "env \<Rightarrow> string option \<Rightarrow> string option \<Rightarrow> request \<Rightarrow> shown svc" where
  "serve E operator_header key req =
     (if operator_gate (config E) (path_of req) operator_header then respond E key req
      else raise (HTTPException 401 ''operator_key_required''))"

text \<open>It is the application of the transition system, with its answers.\<close>

lemma answers_showing: "answers (showing f m) = answers m"
  by (simp add: answers_def showing_def bindM_assoc)

lemma serve_dispatch: "answers (serve E oh key req) = dispatch E oh key req"
proof -
  have "answers (show_inspection E key i) = handle_inspection E key i" "answers (show_evidence E key e) = handle_evidence E key e"
    "answers (show_governance E key g) = handle_governance E key g" "answers (show_trust E key t) = handle_trust E key t" for i e g t
    by ((cases i; simp add: answers_showing), (cases e; simp add: answers_showing),
        (cases g; simp add: answers_showing), (cases t; simp add: answers_showing))
  then have "answers (respond E key req) = handle E key req" by (cases req) (simp_all add: answers_showing)
  then show ?thesis by (simp add: serve_def dispatch_def answers_def bindM_def raise_def)
qed

text \<open>The GET routes.\<close>

definition is_get :: "request \<Rightarrow> bool" where
  "is_get req = (case req of
     InspectionReq r \<Rightarrow> (case r of RetryJob _ \<Rightarrow> False | ApproveRequest _ _ _ \<Rightarrow> False | RejectRequest _ _ _ \<Rightarrow> False | _ \<Rightarrow> True)
   | EvidenceReq r \<Rightarrow> (case r of PersistPacket _ \<Rightarrow> False | RevokeStoredPacket _ _ \<Rightarrow> False | _ \<Rightarrow> True)
   | GovernanceReq r \<Rightarrow> (case r of ListPolicies _ \<Rightarrow> True | GetPolicy _ \<Rightarrow> True | ListRuns \<Rightarrow> True | GetRun _ \<Rightarrow> True | _ \<Rightarrow> False)
   | TrustReq r \<Rightarrow> (case r of ActionScore _ \<Rightarrow> True | WorkflowScore _ \<Rightarrow> True | TenantScore _ \<Rightarrow> True | _ \<Rightarrow> False)
   | Chat _ _ _ \<Rightarrow> False)"

section \<open>States a tenant cannot tell apart\<close>

definition peers :: "env \<Rightarrow> string \<Rightarrow> world \<Rightarrow> world \<Rightarrow> bool" where
  "peers E t w v \<longleftrightarrow> same_for t w v \<and> own thread_tenant t (email_threads w) = own thread_tenant t (email_threads v)
     \<and> clock w = clock v \<and> keyed_tables w \<and> keyed_tables v \<and> linked E None w \<and> linked E None v"

definition blind :: "env \<Rightarrow> string \<Rightarrow> 'a svc \<Rightarrow> bool" where
  "blind E t m \<longleftrightarrow> (\<forall>w v. peers E t w v \<longrightarrow> result m w = result m v)"

named_theorems bl \<open>rules that walk through what a tenant reads\<close>

lemma blind_value [bl]: "blind E t (ret x)" "blind E t (raise e)" "blind E t (lift r)"
  by (simp_all add: blind_def ret_def raise_def lift_def)

lemma blind_gets: "(\<And>w v. peers E t w v \<Longrightarrow> g w = g v) \<Longrightarrow> blind E t (gets g)"
  by (simp add: blind_def gets_def)

lemma blind_gets_then [bl]:
  "(\<And>w v. peers E t w v \<Longrightarrow> g w = g v) \<Longrightarrow> (\<And>x. blind E t (f x)) \<Longrightarrow> blind E t (bindM (gets g) f)"
  by (simp add: blind_def gets_def bindM_def)

lemma blind_lift_then [bl]: "(\<And>x. blind E t (f x)) \<Longrightarrow> blind E t (bindM (lift r) f)"
  by (cases r) (simp_all add: blind_def lift_def bindM_def raise_def)

lemma blind_ret_then [bl]: "blind E t (f x) \<Longrightarrow> blind E t (bindM (ret x) f)"
  "blind E t (raise e) \<Longrightarrow> blind E t (bindM (raise e) f)"
  by (simp_all add: blind_def ret_def raise_def bindM_def)

lemma blind_assoc [bl]: "blind E t (bindM m (\<lambda>x. bindM (f x) g)) \<Longrightarrow> blind E t (bindM (bindM m f) g)"
  by (simp add: bindM_assoc)

lemma blind_case [bl]:
  "blind E t a \<Longrightarrow> (\<And>x. blind E t (b x)) \<Longrightarrow> blind E t (case r of None \<Rightarrow> a | Some x \<Rightarrow> b x)"
  "(c \<Longrightarrow> blind E t a) \<Longrightarrow> (\<not> c \<Longrightarrow> blind E t b') \<Longrightarrow> blind E t (if c then a else b')"
  by (simp_all split: option.split)

lemma blind_showing [bl]: "blind E t m \<Longrightarrow> blind E t (showing f m)"
proof -
  have "result (showing f m) w = map_sum id f (result m w)" for w
    by (cases "m w") (simp add: showing_def bindM_def ret_def split: sum.split)
  then show "blind E t m \<Longrightarrow> blind E t (showing f m)" by (simp add: blind_def)
qed

lemma blind_found [bl]: "(\<And>w v. peers E t w v \<Longrightarrow> g w = g v) \<Longrightarrow> blind E t (found_or d g)"
  unfolding found_or_def by (intro bl)

lemma blind_found_then [bl]:
  "(\<And>w v. peers E t w v \<Longrightarrow> g w = g v) \<Longrightarrow> (\<And>x. blind E t (f x)) \<Longrightarrow> blind E t (bindM (found_or d g) f)"
  by (auto simp: blind_def found_or_def bindM_def gets_def ret_def raise_def split: option.split)

lemma blind_valid [bl]: "blind E t m \<Longrightarrow> blind E t (valid_input ok m)"
  unfolding valid_input_def by (intro bl)

section \<open>What the services read\<close>

lemma peer_reads:
  assumes "peers E t w v"
  shows "get_governed_action k (Some t) w = get_governed_action k (Some t) v"
    "get_request k (Some t) w = get_request k (Some t) v" "get_job_by_id k (Some t) w = get_job_by_id k (Some t) v"
    "get_version k (Some t) w = get_version k (Some t) v" "get_packet k (Some t) w = get_packet k (Some t) v"
    "list_governed_actions (Some t) wid s e w = list_governed_actions (Some t) wid s e v"
    "list_jobs st ty (Some t) n w = list_jobs st ty (Some t) n v"
    "list_approvals st (Some t) n w = list_approvals st (Some t) n v"
    "list_deliveries st (Some t) n w = list_deliveries st (Some t) n v"
    "list_ai_systems (Some t) w = list_ai_systems (Some t) v"
    "list_packets (Some t) sid w = list_packets (Some t) sid v"
    "list_versions (Some t) nm w = list_versions (Some t) nm v"
    "get_evidence_graph k (Some t) w = get_evidence_graph k (Some t) v"
    "list_frameworks w = list_frameworks v" "get_framework k w = get_framework k v" "list_controls k w = list_controls k v"
    "list_regulations w = list_regulations v"
proof -
  have s: "same_for t w v" "keyed_tables w" "keyed_tables v" using assms by (simp_all add: peers_def)
  show "get_governed_action k (Some t) w = get_governed_action k (Some t) v"
    "get_request k (Some t) w = get_request k (Some t) v" "get_job_by_id k (Some t) w = get_job_by_id k (Some t) v"
    "get_version k (Some t) w = get_version k (Some t) v"
    "list_governed_actions (Some t) wid s e w = list_governed_actions (Some t) wid s e v"
    "list_jobs st ty (Some t) n w = list_jobs st ty (Some t) n v"
    "get_evidence_graph k (Some t) w = get_evidence_graph k (Some t) v"
    by (rule scoped_reads_same [OF s] graph_same [OF s])+
  show "get_packet k (Some t) w = get_packet k (Some t) v"
    using s packet_fetch.fetch_isolated [of w v t k] by (simp add: same_for_def keyed_tables_def)
  show "list_approvals st (Some t) n w = list_approvals st (Some t) n v"
    using s approval_query.query_isolated [of t w v "(st, n)"] by (simp add: same_for_def)
  show "list_deliveries st (Some t) n w = list_deliveries st (Some t) n v"
    using s delivery_query.query_isolated [of t w v "(st, n)"] by (simp add: same_for_def)
  show "list_ai_systems (Some t) w = list_ai_systems (Some t) v"
    using s ai_query.query_isolated [of t w v] by (simp add: same_for_def)
  show "list_packets (Some t) sid w = list_packets (Some t) sid v"
    using s packet_query.query_isolated [of t w v sid] by (simp add: same_for_def)
  show "list_versions (Some t) nm w = list_versions (Some t) nm v"
    using s version_query.query_isolated [of t w v nm] by (simp add: same_for_def)
  show "list_frameworks w = list_frameworks v" "get_framework k w = get_framework k v" "list_controls k w = list_controls k v"
    "list_regulations w = list_regulations v"
    using s(1) by (simp_all add: same_for_def list_frameworks_def get_framework_def get_row_def list_controls_def list_regulations_def)
qed

lemma peer_events:
  assumes "peers E t w v"
  shows "list_audit_events ty k (Some t) n (audit_events w) = list_audit_events ty k (Some t) n (audit_events v)"
    "verify_tenant_events E' t (audit_events w) = verify_tenant_events E' t (audit_events v)"
    "list_for_resource rt k' (Some t) (audit_events w) = list_for_resource rt k' (Some t) (audit_events v)"
proof -
  have own: "own ae_tenant t (audit_events w) = own ae_tenant t (audit_events v)" using assms by (simp add: peers_def same_for_def)
  show "verify_tenant_events E' t (audit_events w) = verify_tenant_events E' t (audit_events v)" by (rule tenant_verify_same [OF own])
  show "list_audit_events ty k (Some t) n (audit_events w) = list_audit_events ty k (Some t) n (audit_events v)"
    unfolding list_audit_events_def own_filter [OF own] ..
  have swap: "filter (\<lambda>e. ae_resource_type e = rt \<and> ae_resource_id e = k' \<and> in_tenant ae_tenant (Some t) e) es
      = filter (\<lambda>e. in_tenant ae_tenant (Some t) e \<and> ae_resource_type e = rt \<and> ae_resource_id e = k') es" for es
    by (rule filter_cong) auto
  show "list_for_resource rt k' (Some t) (audit_events w) = list_for_resource rt k' (Some t) (audit_events v)"
    by (simp only: list_for_resource_def swap own_filter [OF own, of "\<lambda>e. ae_resource_type e = rt \<and> ae_resource_id e = k'"])
qed

lemma peer_evidence:
  assumes "peers E t w v"
  shows "build_action_packet E' k (Some t) w = build_action_packet E' k (Some t) v"
    "build_workflow_packet E' k (Some t) w = build_workflow_packet E' k (Some t) v"
    "build_incident_replay E' k (Some t) w = build_incident_replay E' k (Some t) v"
    "list_runs (Some t) w = list_runs (Some t) v" "get_run k (Some t) w = get_run k (Some t) v"
    "latest_result sc k (Some t) w = latest_result sc k (Some t) v" "verify_packet E' p w = verify_packet E' p v"
proof -
  have s: "same_for t w v" "keyed_tables w" "keyed_tables v" "clock w = clock v" using assms by (simp_all add: peers_def)
  note reads = assemble_same [OF s(1,4)] graph_same [OF s(1-3)] graphs_same [OF s(1-3)] scoped_reads_same [OF s(1-3)]
  show packet: "build_action_packet E' k (Some t) w = build_action_packet E' k (Some t) v"
    "build_workflow_packet E' k (Some t) w = build_workflow_packet E' k (Some t) v"
    by (simp_all add: build_action_packet_def build_workflow_packet_def reads cong: option.case_cong)
  show "build_incident_replay E' k (Some t) w = build_incident_replay E' k (Some t) v"
    by (simp only: build_incident_replay_def packet reads s(4))
  show "list_runs (Some t) w = list_runs (Some t) v" by (simp only: list_runs_def reads)
  show "get_run k (Some t) w = get_run k (Some t) v"
    by (simp only: get_run_def reads peer_events(3) [OF assms])
  have "filter (\<lambda>r. in_tenant ts_tenant (Some t) r \<and> P r) (trust_scores w)
      = filter (\<lambda>r. in_tenant ts_tenant (Some t) r \<and> P r) (trust_scores v)" for P
    by (rule own_filter) (use s(1) in \<open>simp add: same_for_def\<close>)
  then show "latest_result sc k (Some t) w = latest_result sc k (Some t) v"
    by (simp only: latest_result_def get_latest_def scores_of_def)
  show "verify_packet E' p w = verify_packet E' p v" by (simp only: verify_packet_def s(4))
qed

text \<open>A delivery read by its approval or by its job: at most one row has that approval or job, so the tenant
  check after the query sees the tenant's own rows.\<close>

lemma scoped_first:
  assumes "length (filter P rs) \<le> 1"
  shows "scoped_row tn (Some t) (first_row (filter P rs)) = first_row (filter P (own tn t rs))"
proof -
  consider "filter P rs = []" | r where "filter P rs = [r]"
    using assms by (cases "filter P rs" rule: list.exhaust) auto
  then show ?thesis
  proof cases
    case 1
    then show ?thesis by (auto simp: scoped_row_def first_row_def own_def filter_empty_conv)
  next
    case (2 r)
    have "filter P (own tn t rs) = filter (\<lambda>r. tn r = Some t) (filter P rs)"
      by (simp add: own_def conj_commute cong: conj_cong)
    then show ?thesis by (simp add: 2 scoped_row_def first_row_def)
  qed
qed

lemma one_delivery_per_job:
  assumes "linked E None w"
  shows "length (filter (\<lambda>d. dlv_execution_job d = Some k) (deliveries w)) \<le> 1"
proof -
  have single: "distinct (List.map_filter dlv_approval (deliveries w))" and drawn: "drawn jobs job_pk w"
    and own: "executed_by_own_job w" using assms by (simp_all add: linked_def deliveries_single_def good_def)
  show ?thesis
  proof (cases "filter (\<lambda>d. dlv_execution_job d = Some k) (deliveries w)")
    case (Cons d ds)
    then have d: "d \<in> set (deliveries w)" "dlv_execution_job d = Some k"
      using filter_eq_ConsD [OF Cons] by auto
    then obtain j a where j: "j \<in> set (jobs w)" "job_pk j = k" "names_approval j a"
      using own unfolding executed_by_own_job_def by blast
    have same: "dlv_approval e = Some a" if e: "e \<in> set (deliveries w)" "dlv_execution_job e = Some k" for e
    proof -
      obtain i b where i: "i \<in> set (jobs w)" "job_pk i = k" "dlv_approval e = Some b" "names_approval i b"
        using own e unfolding executed_by_own_job_def by blast
      have "i = j" using drawn i(1,2) j(1,2) by (auto simp: drawn_def distinct_map dest: inj_onD)
      then show ?thesis using i(3,4) j(3) by (simp add: names_approval_def)
    qed
    have "filter (\<lambda>d. dlv_execution_job d = Some k) (deliveries w)
        = filter (\<lambda>d. dlv_execution_job d = Some k) (deliveries_of a (deliveries w))"
      unfolding deliveries_of_def filter_filter
      by (rule filter_cong) (auto dest: same)
    then show ?thesis
      using deliveries_of_at_most_one [OF single, of a] length_filter_le order_trans by metis
  qed simp
qed

lemma peer_deliveries:
  assumes "peers E t w v"
  shows "get_delivery_by_approval_id k (Some t) w = get_delivery_by_approval_id k (Some t) v"
    "get_delivery_by_execution_job_id k (Some t) w = get_delivery_by_execution_job_id k (Some t) v"
proof -
  have own: "own dlv_tenant t (deliveries w) = own dlv_tenant t (deliveries v)" and l: "linked E None w" "linked E None v"
    using assms by (simp_all add: peers_def same_for_def)
  have single: "distinct (List.map_filter dlv_approval (deliveries w))" "distinct (List.map_filter dlv_approval (deliveries v))"
    using l by (simp_all add: linked_def deliveries_single_def)
  note one = scoped_first [OF deliveries_of_at_most_one [OF single(1), unfolded deliveries_of_def]]
    scoped_first [OF deliveries_of_at_most_one [OF single(2), unfolded deliveries_of_def]]
  show "get_delivery_by_approval_id k (Some t) w = get_delivery_by_approval_id k (Some t) v"
    by (simp only: get_delivery_by_approval_id_def deliveries_of_def one own)
  show "get_delivery_by_execution_job_id k (Some t) w = get_delivery_by_execution_job_id k (Some t) v"
    by (simp only: get_delivery_by_execution_job_id_def scoped_first [OF one_delivery_per_job [OF l(1)]]
        scoped_first [OF one_delivery_per_job [OF l(2)]] own)
qed

text \<open>The job of an approval's send belongs to the tenant of the approval.\<close>

lemma send_job_own:
  assumes "linked E None w" and "r \<in> set (approvals w)" and "appr_tenant r = Some t"
  shows "keyed (send_key (appr_pk r)) (jobs w) = keyed (send_key (appr_pk r)) (own job_tenant t (jobs w))"
proof -
  have "job_tenant j = Some t" if j: "j \<in> set (jobs w)" "job_idempotency_key j = Some (send_key (appr_pk r))" for j
  proof -
    obtain q where "q \<in> set (approvals w)" "appr_pk q = appr_pk r" "appr_tenant q = job_tenant j"
      using assms(1) j by (auto simp: linked_def send_keys_own_def)
    moreover have "distinct (map appr_pk (approvals w))" using assms(1) by (simp add: linked_def good_def drawn_def)
    ultimately have "q = r" using assms(2) by (auto simp: distinct_map dest: inj_onD)
    then show ?thesis using \<open>appr_tenant q = job_tenant j\<close> assms(3) by simp
  qed
  then show ?thesis unfolding keyed_def own_def filter_filter by (intro filter_cong) auto
qed

lemma peer_enrich:
  assumes "peers E t w v" and "get_request k (Some t) w = Some row"
  shows "enrich_approval_detail row w = enrich_approval_detail row v"
proof -
  have "get_request k (Some t) v = Some row" using assms by (simp add: peer_reads)
  then have row: "row \<in> set (approvals w)" "row \<in> set (approvals v)" "appr_tenant row = Some t"
    using assms(2) approval_fetch.fetch_SomeD by fastforce+
  have p: "own job_tenant t (jobs w) = own job_tenant t (jobs v)" "linked E None w" "linked E None v"
    using assms(1) by (simp_all add: peers_def same_for_def)
  show ?thesis
    by (simp only: enrich_approval_detail_def by_key_keyed send_job_own [OF p(2) row(1,3)] send_job_own [OF p(3) row(2,3)] p(1))
qed

lemma blind_enrich [bl]:
  "blind E t (bindM (found_or d (get_request k (Some t))) (\<lambda>row. gets (enrich_approval_detail row)))"
  unfolding blind_def
proof (intro allI impI)
  fix w v assume p: "peers E t w v"
  show "result (bindM (found_or d (get_request k (Some t))) (\<lambda>row. gets (enrich_approval_detail row))) w
      = result (bindM (found_or d (get_request k (Some t))) (\<lambda>row. gets (enrich_approval_detail row))) v"
  proof (cases "get_request k (Some t) w")
    case None
    then show ?thesis using peer_reads(2) [OF p, of k] by (simp add: found_or_def bindM_def gets_def raise_def)
  next
    case (Some row)
    then show ?thesis using peer_reads(2) [OF p, of k] peer_enrich [OF p Some]
      by (simp add: found_or_def bindM_def gets_def ret_def)
  qed
qed

text \<open>The thread summary reads the tenant's threads and deliveries; a download also records itself.\<close>

lemma blind_summary [bl]: "blind E t (get_thread_summary (Some t) x)"
proof -
  have threads: "threads_of (Some t) x rs = filter (\<lambda>r. thread_external_id r = x) (own thread_tenant t rs)" for rs
    by (simp add: threads_of_def own_def conj_commute cong: conj_cong)
  have dels: "filter (\<lambda>d. dlv_thread d = x \<and> dlv_tenant d = Some t) ds = filter (\<lambda>d. dlv_thread d = x) (own dlv_tenant t ds)" for ds
    by (simp add: own_def conj_commute cong: conj_cong)
  show ?thesis
    unfolding get_thread_summary_def by (intro bl) (simp_all add: threads dels peers_def same_for_def)
qed

lemma blind_download [bl]: "blind E t (bindM (record_download E p f t' g) (\<lambda>_. ret x))"
  by (auto simp: blind_def peers_def linked_def good_def record_download_def bindM_def audit_record_audited ret_def)

section \<open>The routes\<close>

text \<open>The dependencies resolve the caller from its key: the same principal in both states.\<close>

definition meets :: "env \<Rightarrow> string \<Rightarrow> string \<Rightarrow> world \<Rightarrow> world \<Rightarrow> bool" where
  "meets E key t w v \<longleftrightarrow> peers E t w v \<and> keyed_by E key t w \<and> keyed_by E key t v
     \<and> result (get_principal E (Some key)) w = result (get_principal E (Some key)) v"

definition unseen :: "env \<Rightarrow> string \<Rightarrow> string \<Rightarrow> 'a svc \<Rightarrow> bool" where
  "unseen E key t m \<longleftrightarrow> (\<forall>w v. meets E key t w v \<longrightarrow> result m w = result m v)"

lemma unseen_blind: "blind E t m \<Longrightarrow> unseen E key t m"
  by (simp add: unseen_def meets_def blind_def)

lemma unseen_showing: "unseen E key t m \<Longrightarrow> unseen E key t (showing f m)"
proof -
  have "result (showing f m) w = map_sum id f (result m w)" for w
    by (cases "m w") (simp add: showing_def bindM_def ret_def split: sum.split)
  then show "unseen E key t m \<Longrightarrow> unseen E key t (showing f m)" by (simp add: unseen_def)
qed

lemma unseen_permission:
  assumes "\<And>p. pr_tenant p = Some t \<Longrightarrow> blind E t (f p)"
  shows "unseen E key t (with_permission E perm (Some key) f)"
  unfolding unseen_def
proof (intro allI impI)
  fix w v assume m: "meets E key t w v"
  obtain k where k: "active_keys E key w = [k]" "key_tenant k = Some t" "key \<noteq> []" using m by (auto simp: meets_def keyed_by_def)
  obtain k' where k': "active_keys E key v = [k']" using m by (auto simp: meets_def keyed_by_def)
  have p: "principal_of_key k w = principal_of_key k' v" using m k k' by (simp add: meets_def get_principal_run no_key_def)
  have "pr_tenant (principal_of_key k w) = Some t" by (simp add: principal_of_key_def k)
  then have "result (f (principal_of_key k w)) w = result (f (principal_of_key k w)) v"
    using assms m by (auto simp: meets_def blind_def)
  then show "result (with_permission E perm (Some key) f) w = result (with_permission E perm (Some key) f) v"
    using k(1,3) k' p by (simp add: with_permission_def bindM_def require_permission_run get_principal_run no_key_def)
qed

lemma unseen_tenant:
  assumes "blind E t (f (Some t))"
  shows "unseen E key t (with_tenant E (Some key) f)"
  unfolding unseen_def
proof (intro allI impI)
  fix w v assume m: "meets E key t w v"
  let ?u = "\<lambda>w (k :: api_key). after (update_row api_keys_update key_pk (key_pk k) (\<lambda>j. j\<lparr>key_last_used_at := Some (clock w)\<rparr>)) w"
  have run: "\<exists>k. get_current_tenant_id E (Some key) w = (Inr (Some t), ?u w k)" if key: "keyed_by E key t w" for w
  proof -
    obtain k where "active_keys E key w = [k]" "key_tenant k = Some t" "key \<noteq> []" using key by (auto simp: keyed_by_def)
    then have "get_current_tenant_id E (Some key) w = (Inr (Some t), ?u w k)"
      by (simp add: get_current_tenant_id_def resolve_tenant_id_def no_key_def comp scalar_one_or_none_def update_row_def)
    then show ?thesis ..
  qed
  obtain k k' where k: "get_current_tenant_id E (Some key) w = (Inr (Some t), ?u w k)"
    "get_current_tenant_id E (Some key) v = (Inr (Some t), ?u v k')"
    using run m unfolding meets_def by blast
  have only: "only {TApiKeys} w (?u w k)" "only {TApiKeys} v (?u v k')" by (rule evolvesD, intro evo, simp)+
  have l: "linked E None (?u w k)" "linked E None (?u v k')"
    using linked_frame [OF only_forward [OF only(1)] only(1), of E None] linked_frame [OF only_forward [OF only(2)] only(2), of E None] m
    by (simp_all add: meets_def peers_def keeps_def)
  have "peers E t (?u w k) (?u v k')"
    using m l by (simp add: meets_def peers_def same_for_def keyed_tables_def update_row_def comp)
  then show "result (with_tenant E (Some key) f) w = result (with_tenant E (Some key) f) v"
    using assms by (simp add: with_tenant_def bindM_def k blind_def)
qed

lemmas peer = peer_reads peer_events peer_evidence peer_deliveries

lemma inspection_unseen: "is_get (InspectionReq r) \<Longrightarrow> unseen E key t (show_inspection E (Some key) r)"
  by (cases r) (simp_all only: is_get_def request.case inspection_request.case show_inspection.simps
      route_list_jobs_def route_get_job_def route_list_approvals_def route_get_approval_def route_list_audit_def
      route_verify_audit_chain_def route_list_deliveries_def route_delivery_by_approval_def route_delivery_by_job_def
      route_thread_summary_def,
      ((intro unseen_showing unseen_tenant unseen_permission, (simp only: option.case)?, (intro bl blind_gets; erule peer)?)+))

lemma evidence_unseen: "is_get (EvidenceReq r) \<Longrightarrow> unseen E key t (show_evidence E (Some key) r)"
proof -
  have public: "unseen E key t (showing Frameworks route_list_frameworks)"
    "unseen E key t (showing FrameworkControls (route_list_framework_controls k))"
    "unseen E key t (showing Regulations route_list_regulations)" for k
    unfolding route_list_frameworks_def route_list_framework_controls_def route_list_regulations_def
    by (intro unseen_showing unseen_blind bl blind_gets; erule peer)+
  show "is_get (EvidenceReq r) \<Longrightarrow> ?thesis"
    by (cases r) (simp_all only: public is_get_def request.case evidence_request.case show_evidence.simps
        route_list_ai_systems_def route_list_actions_def route_action_graph_def
        route_action_packet_def route_workflow_packet_def route_export_packet_def
        route_list_stored_packets_def route_get_stored_packet_def route_verify_packet_def
        route_download_stored_packet_def route_incident_replay_def,
        ((intro unseen_showing unseen_permission, (simp only: )?, (intro bl blind_gets; erule peer)?)+))
qed

lemma governance_unseen: "is_get (GovernanceReq r) \<Longrightarrow> unseen E key t (show_governance E (Some key) r)"
  by (cases r) (simp_all only: is_get_def request.case governance_request.case show_governance.simps
      route_list_policies_def route_get_policy_def route_list_runs_def route_get_run_def,
      ((intro unseen_showing unseen_permission, (simp only: )?, (intro bl blind_gets; erule peer)?)+))

lemma trust_unseen: "is_get (TrustReq r) \<Longrightarrow> unseen E key t (show_trust E (Some key) r)"
  by (cases r) (simp_all only: is_get_def request.case trust_request.case show_trust.simps
      route_action_score_def route_workflow_score_def route_tenant_score_def,
      ((intro unseen_showing unseen_permission, (simp only: )?, (intro bl blind_gets; erule peer)?)+))

section \<open>Property\<close>

text \<open>Two states agree for a tenant: its own rows of every table, the shared catalog, the time, and who the
  caller with the key is.\<close>

definition agree :: "env \<Rightarrow> string \<Rightarrow> string \<Rightarrow> world \<Rightarrow> world \<Rightarrow> bool" where
  "agree E key t w v \<longleftrightarrow> same_for t w v \<and> own thread_tenant t (email_threads w) = own thread_tenant t (email_threads v)
     \<and> clock w = clock v \<and> keyed_by E key t w \<and> keyed_by E key t v
     \<and> result (get_principal E (Some key)) w = result (get_principal E (Some key)) v"

text \<open>C3: a tenant reads its own data only. Take any two states the system reaches, by whatever requests, polls and
  administration, that agree for tenant \<open>t\<close>, and a caller whose key belongs to \<open>t\<close>: every GET route answers
  the same in both, body or error, with whatever arguments. So no answer to a tenant depends on a row of
  another tenant, and what \<open>tenant_confined\<close> says of writes holds of reads.\<close>

theorem tenant_blind:
  assumes "run E empty_world ls w" and "run E empty_world ms v" and "agree E key t w v" and "is_get req"
  shows "result (serve E oh (Some key) req) w = result (serve E oh (Some key) req) v"
proof -
  have "linked E None w" "linked E None v" "keyed_tables w" "keyed_tables v"
    using reached_linked [OF _ linked_empty] reached_keyed assms(1,2) by blast+
  then have "meets E key t w v" using assms(3) by (simp add: agree_def meets_def peers_def)
  moreover have "unseen E key t (respond E (Some key) req)"
    using assms(4) by (cases req) (simp_all add: inspection_unseen evidence_unseen governance_unseen trust_unseen, simp add: is_get_def)
  ultimately show ?thesis by (simp add: serve_def unseen_def raise_def)
qed

text \<open>A job of no tenant is queued; the tenant's list of jobs does not show it.\<close>

theorem tenant_blind_witness:
  "\<exists>w v. run sample_env empty_world [Admin (ProvisionKey ''t1'' ''main'' ''k'' None)] w
     \<and> run sample_env w [chat_request] v \<and> jobs w \<noteq> jobs v
     \<and> result (serve sample_env None (Some ''k'') (InspectionReq (ListJobs None None 50))) w
       = result (serve sample_env None (Some ''k'') (InspectionReq (ListJobs None None 50))) v"
proof -
  let ?l = "Admin (ProvisionKey ''t1'' ''main'' ''k'' None)"
  define w where "w = after (admin sample_env (ProvisionKey ''t1'' ''main'' ''k'' None)) empty_world"
  define v where "v = after (dispatch sample_env None None (Chat ''s'' ''hi'' 4)) w"
  have w: "run sample_env empty_world [?l] w" unfolding run_simps w_def using step.admin by blast
  have wv: "run sample_env w [chat_request] v" unfolding run_simps v_def chat_request_def using step.request by blast
  have run_v: "run sample_env empty_world ([?l] @ [chat_request]) v" unfolding run_append using w wv by blast
  have keys: "api_keys w = [\<lparr>key_pk = uuid 0, key_tenant = Some ''t1'', key_user = None, key_name = ''main'',
      key_hash = hash_api_key sample_env ''k'', key_is_active = True, key_created_at = 0, key_last_used_at = None\<rparr>]"
    and jobs: "jobs w = []"
    by (simp_all add: w_def answers_def provision_api_key_def bindM_def new_id_def insert_unique_def ret_def gets_def empty_world_def Let_def)
  have gate: "operator_gate (config sample_env) p None" for p by (simp add: operator_gate_def sample_defs no_key_def)
  have "v = w\<lparr>uuids := Suc (uuids w), jobs := jobs w @ [new_job CHAT_ORCHESTRATE
      (Some [(''session_id'', JStr ''s''), (''message'', JStr ''hi''), (''max_steps'', JInt 4)]) None None w]\<rparr>"
    by (simp add: v_def dispatch_def gate route_chat_def answers_def with_tenant_def get_current_tenant_id_def
        resolve_tenant_id_def no_key_def catch_def valid_input_def bindM_def ret_def create_job_run)
  then have v: "v = w\<lparr>uuids := Suc (uuids w), jobs := [new_job CHAT_ORCHESTRATE
      (Some [(''session_id'', JStr ''s''), (''message'', JStr ''hi''), (''max_steps'', JInt 4)]) None None w]\<rparr>"
    by (simp add: jobs)
  have "agree sample_env ''k'' ''t1'' w v"
    using keys by (simp add: agree_def same_for_def own_def jobs v new_job_def keyed_by_def active_keys_def
        get_principal_run no_key_def principal_of_key_def)
  moreover have "is_get (InspectionReq (ListJobs None None 50))" by (simp add: is_get_def)
  moreover have "jobs w \<noteq> jobs v" by (simp add: jobs v)
  ultimately show ?thesis
    using tenant_blind [OF w run_v, of "''k''" "''t1''"] w wv by blast
qed

end
