(* ===== verification/Spec2Isabelle.thy ===== *)
theory Spec2Isabelle
  imports DemoPacket Migrations Configuration WorkerLoop Delivery TenantView
begin

text \<open>
  Verification of codex-control-plane: a control plane that takes chat messages and governance
  requests over HTTP, lets a worker carry them out under human approval, and keeps evidence of
  what was done (a hash-chained audit trail, signed evidence packets, trust scores, procurement
  verifications).

  How the program works. app/main.py serves the routes of app/api/* behind an operator key
  middleware (app/middleware/operator_auth.py). A route resolves the caller's API key to a tenant
  (app/deps.py, services/tenant_service.py) or to a principal with permissions
  (services/rbac_service.py) and calls one service. A chat message becomes a job
  (services/job_service.py); workers/runner.py claims the oldest pending job and workers/tasks.py
  runs it: services/chat_orchestrate.py classifies the message (services/policy_service.py) and
  either completes, blocks, or opens an approval with an email draft
  (services/approval_service.py, services/email_service.py, connectors/*). An approved send is a
  second job that sends the draft once. Governance reviews (services/governance_workflow.py with
  services/risk_service.py, policy_version_service.py, control_catalog.py, override_service.py)
  record actions, risks and evidence, which services/evidence_graph.py, evidence_packet.py,
  evidence_store.py, evidence_signature_service.py, trust_score_service.py,
  verification_service.py and incident_replay.py assemble, score, sign and verify. Everything
  that matters is recorded by services/audit_service.py.

  How it is modelled. A service operation is a function from the world to a result and a world
  (\<open>svc\<close>, Prelude and Model): the result is a value or one of the exceptions the code raises, and
  what was committed before an exception stays. The world (Model) holds one list of rows per
  table of db/models.py, in insertion order, the clock, the supply of uuid4 identifiers, and the
  log of what the mail provider accepted. Timestamps are microseconds, strings are lists of
  characters, JSON columns are association lists in insertion order, NULL is None; a UNIQUE
  constraint that is violated raises \<open>IntegrityError\<close>, foreign keys are not enforced. Queries are
  filters, sorts and limits written as the code writes them, NULL sorting as in SQLite; a query
  with no order answers in insertion order. Code outside the repository is a parameter, the
  record \<open>env\<close>: SHA-256, the Ed25519 functions, the files of the host, and the Google packages, whose
  network calls may raise and answer differently each time; Samples has one concrete instance for the
  witnesses. What a property relies on is in its statement: the provider answers a send with a message
  id (\<open>send_answers_id\<close>), or works altogether (\<open>mail_up\<close>), a signature verifies under the key that made it, and a changed record goes
  unnoticed only if the digest collides or yields the genesis mark (\<open>digest_broken\<close>).

  Theories.
  \<^item> Prelude: exceptions, the composition \<open>bindM\<close>/\<open>catch\<close>/\<open>foreach\<close>, row tables, and the locale
    \<open>evolution\<close>: what a whole operation preserves when each of its steps does; its rules are
    collected in \<open>evo\<close>, so that an operation is walked through by \<open>intro evo\<close>.
  \<^item> PyText, PyTime, Json, JsonParse, PyFormat: the standard library the code uses (string methods,
    isoformat, json.dumps and its injectivity, json.loads with the round trip between the two, str and
    repr of JSON values, indentation). The parser runs on fuel twice the length of the text, which
    \<open>fuel_independent\<close> shows to be enough: more changes no result.
  \<^item> Model: rows, world, settings and \<open>env\<close>. Evolution: footprints (\<open>only S\<close>: which tables an
    operation may write) and tables that only move forward. Forward: the history order every
    operation respects. Tenancy: scoped reads. Seeding: get-or-create loops.
  \<^item> AuditService: the append with its retry loop of fifty attempts against other writers, both
    verifiers; linkedness, tamper evidence up to a broken digest, contention.
  \<^item> PolicyService, RiskService: the two classifiers. JobService, ApprovalService, EmailPersistence,
    GmailConnector, EmailService, ChatOrchestrate, Worker: the execution side. WorkerLoop: the loop
    around the poll, and that it drains the queue. SendLedger: the messages sent against the messages
    recorded (nothing goes out that should not). Delivery: an approved send goes out.
  \<^item> Configuration (with PyPath, the part of pathlib it uses): defaults, validator and cache of the
    settings, and where the validator and the connector read the same path differently.
  \<^item> TenantRbac, PolicyVersion, EvidenceGraph, ControlCatalog, OverrideService, GovernanceWorkflow:
    the governance side. EvidencePacket, EvidenceStore (with the signature service), TrustScore,
    VerificationService (with an abstract lifecycle it refines), IncidentReplay: the evidence side.
  \<^item> Api: every route, its dependencies in FastAPI's order, its mapping of errors to answers, and the
    application as \<open>dispatch\<close>. Schemas: the response records of app/schemas and the projections to
    them. System: the transition system of requests, worker polls, starts, direct service calls and
    time, with the invariants of every run from an empty database.
  \<^item> Confinement: the world without the rows of one tenant, and that every operation on behalf of the
    tenant leaves it as it is. RowKeys: primary keys come from the supply, so no two rows share one.
  \<^item> Links: what ties jobs, approvals and deliveries together in every reachable state. TenantView: the
    application with the answers of its routes, and that a GET under a tenant's key answers from the
    tenant's own rows and the shared catalog alone; with Confinement, tenants neither write nor read
    each other's data.
  \<^item> Migrations: the scripts of db/migration_scripts and db/session.py on a database that has a schema
    of its own; completeness, nothing lost, and the effect on the audit chain.
  \<^item> SeedPilot, DemoPacket: the scripts of scripts/, run on any database the system reaches. SeedPilot
    first shows that the reference rows (roles, permissions, catalog) of such a database are in order.

  Interfaces. \<open>evolution\<close> is interpreted on footprints, on kept invariants, on the history order, on
  their conjunction, on the confinement to a tenant and on the supply of keys; \<open>scoped_fetch\<close> and
  \<open>scoped_query\<close> on the reads that take a tenant; \<open>world_table\<close>, \<open>seed_table\<close>, \<open>row_order\<close> on the tables
  that are looked up, seeded and moved forward; \<open>scorer\<close> on the ten scoring functions; each component's theory discharges the
  laws for the functions it models.

  Bounds and termination. The audit append retries as often as the code does (\<open>MAX_RECORD_ATTEMPTS\<close>);
  \<open>concurrent_record\<close> shows it gives up only when every attempt was contended. All other loops
  recurse over a table or a list. \<open>run_forever\<close> does not return; the model gives the state after any
  number of iterations, and \<open>queue_drained\<close> shows that as many iterations as jobs wait settle all of
  them that could be claimed. \<open>poll_once_settles\<close> shows it of one poll.

  Atomicity. A request, a poll and a start are one step each; interference of other processes is
  modelled where the code defends against it, in the audit append.

  Not modelled. pydantic's reading of the settings from the environment, the console page and the
  health route are input and output; of db/session.py the engine and the session factory are. The
  host's files are taken as constant while the program runs. The abstract class of connectors/base.py
  has no code. ControlMapping has no service that reads or writes it. Of the
  migrations, indexes other than the one on the sequence numbers and the rollback of a failed script
  are not modelled. Of scripts/* the main functions open the engine and print.
\<close>

end
